(* ===== verification/Prelude.thy ===== *)
theory Prelude
  imports Main "HOL-Library.Word"
begin

text \<open>
  What every component shares: the machine integers of the Go code at their widths, the
  big-endian packing of bytes into words and back, byte sums, hexadecimal rendering, and the
  collections of rewrite rules the component proofs use.
  A Go \<open>[]byte\<close> is a \<^typ>\<open>8 word list\<close>.  An index expression \<open>b[i]\<close> is \<open>b ! i\<close>; every
  definition keeps the length guard the code has before it, so an index is never out of range.
  A Go error is the left side of a sum; only the identity of the sentinel that
  \<open>errors.Is\<close> can observe is kept, not its formatted text.
\<close>

unbundle bit_operations_syntax

section \<open>Machine integers and byte strings\<close>

type_synonym byte = "8 word"
type_synonym u16 = "16 word"
type_synonym u32 = "32 word"
type_synonym u64 = "64 word"
type_synonym bytes = "byte list"

named_theorems packing \<open>round trips between words and their big-endian bytes\<close>
named_theorems codec_consts \<open>the opcodes and sentinels of the wire protocol\<close>

text \<open>\<open>uint16(hi)<<8 | uint16(lo)\<close>, and \<open>byte(v >> 8)\<close>, \<open>byte(v & 0xFF)\<close>.\<close>

definition u16_of :: "byte \<Rightarrow> byte \<Rightarrow> u16" where
  "u16_of hi lo = push_bit 8 (ucast hi) OR ucast lo"

definition hi8 :: "u16 \<Rightarrow> byte" where
  "hi8 w = ucast (drop_bit 8 w)"

definition lo8 :: "u16 \<Rightarrow> byte" where
  "lo8 w = ucast w"

lemma u16_of_hi_lo [simp, packing]: "u16_of (hi8 w) (lo8 w) = w"
  unfolding u16_of_def hi8_def lo8_def
  by (rule bit_word_eqI) (auto simp: bit_simps)

lemma hi8_u16_of [simp, packing]: "hi8 (u16_of a b) = a"
  unfolding u16_of_def hi8_def
  by (rule bit_word_eqI) (auto simp: bit_simps dest: bit_imp_le_length)

lemma lo8_u16_of [simp, packing]: "lo8 (u16_of a b) = b"
  unfolding u16_of_def lo8_def
  by (rule bit_word_eqI) (auto simp: bit_simps)

lemma u16_of_inject [simp]: "u16_of a b = u16_of c d \<longleftrightarrow> a = c \<and> b = d"
  by (metis hi8_u16_of lo8_u16_of)

lemma u16_eq_iff: "v = w \<longleftrightarrow> hi8 v = hi8 w \<and> lo8 v = lo8 w"
  by (metis u16_of_hi_lo)

lemma unat_ucast_u16 [simp]: "unat (ucast (b :: byte) :: u16) = unat b"
  by (simp add: unsigned_ucast_eq take_bit_nat_eq_self unsigned_less [of b, THEN order_less_trans])

lemma unat_u16_of: "unat (u16_of a b) = 256 * unat a + unat b"
proof -
  have disj: "push_bit 8 (ucast a :: u16) AND ucast b = 0"
    by (rule bit_word_eqI) (auto simp: bit_simps dest: bit_imp_le_length)
  have eq: "u16_of a b = push_bit 8 (ucast a) + ucast b"
    unfolding u16_of_def
    using word_plus_and_or [of "push_bit 8 (ucast a) :: u16" "ucast b"] disj by simp
  have bnd: "unat a < 256" "unat b < 256"
    using unsigned_less [of a] unsigned_less [of b] by simp_all
  have shift: "unat (push_bit 8 (ucast a :: u16)) = 256 * unat a"
    using bnd by (simp add: push_bit_eq_mult unat_word_ariths)
  show ?thesis
    using bnd by (simp add: eq unat_word_ariths shift)
qed

text \<open>A 32-bit register below \<open>2^16\<close> survives being sent as two bytes.\<close>

lemma u16_of_split32: "u16_of (ucast (drop_bit 8 (v :: u32))) (ucast (v AND 0xFF)) = ucast v"
proof -
  have ff: "(0xFF :: u32) = mask 8" by (simp add: mask_eq_exp_minus_1)
  show ?thesis
    unfolding u16_of_def ff
    by (rule bit_word_eqI) (auto simp: bit_simps dest!: le_Suc_ex)
qed

lemma uint_split32 [packing]:
  assumes "uint (v :: u32) < 2 ^ 16"
  shows "uint (u16_of (ucast (drop_bit 8 v)) (ucast (v AND 0xFF))) = uint v"
  using assms by (simp add: u16_of_split32 unsigned_ucast_eq take_bit_int_eq_self)

section \<open>Association lists\<close>

text \<open>What a run through the table shows of every entry holds of every entry a lookup returns.\<close>

lemma map_of_list_all:
  assumes "list_all (\<lambda>(k, v). P k v) xs" and "map_of xs k = Some v"
  shows "P k v"
  using assms(1) map_of_SomeD [OF assms(2)] by (auto simp: list_all_iff)

end
