(* ===== verification/Frame.thy ===== *)
theory Frame
  imports Prelude
begin

text \<open>
  The wire framing of the \<open>codec\<close> package: the opcodes (\<open>opcodes.go\<close>), the inner L2 frame
  (\<open>BuildL2Frame\<close> of \<open>l2.go\<close>, \<open>ParseL2\<close> of \<open>codec.go\<close>) and the outer L1 reply envelope
  (\<open>ParseL1\<close>).  The lemmas are the two round trips of the L2 frame, the exact set of byte
  strings \<open>ParseL2\<close> accepts, and what \<open>ParseL1\<close> reads.
\<close>

section \<open>Opcodes and sentinels\<close>

definition L2SOF :: byte where [codec_consts]: "L2SOF = 0xFB"
definition L2EOF :: byte where [codec_consts]: "L2EOF = 0xFE"
definition L1Preamble :: byte where [codec_consts]: "L1Preamble = 0xAA"
definition L1Sentinel :: byte where [codec_consts]: "L1Sentinel = 0x55"
definition L1ReplySOF :: byte where [codec_consts]: "L1ReplySOF = 0xFC"
definition CleartextGateMin :: byte where [codec_consts]: "CleartextGateMin = 0xF0"

definition CmdSetPowerQS1Unicast :: byte where [codec_consts]: "CmdSetPowerQS1Unicast = 0x1C"
definition CmdSetPowerQS1Broadcast :: byte where [codec_consts]: "CmdSetPowerQS1Broadcast = 0x2C"
definition CmdSetPowerDS3Unicast :: byte where [codec_consts]: "CmdSetPowerDS3Unicast = 0xAA"
definition CmdSetPowerDS3Broadcast :: byte where [codec_consts]: "CmdSetPowerDS3Broadcast = 0xAB"
definition CmdSetPowerC3Unicast :: byte where [codec_consts]: "CmdSetPowerC3Unicast = 0xC3"
definition CmdSetPowerC3Broadcast :: byte where [codec_consts]: "CmdSetPowerC3Broadcast = 0xA3"
definition CmdTurnOnUnicast :: byte where [codec_consts]: "CmdTurnOnUnicast = 0xC1"
definition CmdTurnOffUnicast :: byte where [codec_consts]: "CmdTurnOffUnicast = 0xC2"
definition CmdTurnOnBroadcast :: byte where [codec_consts]: "CmdTurnOnBroadcast = 0xA1"
definition CmdTurnOffBroadcast :: byte where [codec_consts]: "CmdTurnOffBroadcast = 0xA2"
definition CmdGridRecoveryQS1 :: byte where [codec_consts]: "CmdGridRecoveryQS1 = 0x5D"
definition CmdProtReadPageA :: byte where [codec_consts]: "CmdProtReadPageA = 0xDD"
definition CmdProtReadPageB :: byte where [codec_consts]: "CmdProtReadPageB = 0xDE"
definition CmdProtReadPageC :: byte where [codec_consts]: "CmdProtReadPageC = 0xD9"
definition CmdReplyQS1PageA :: byte where [codec_consts]: "CmdReplyQS1PageA = 0xDB"
definition CmdInfoQuery :: byte where [codec_consts]: "CmdInfoQuery = 0xDC"
definition CmdInfoExtended :: byte where [codec_consts]: "CmdInfoExtended = 0xDD"
definition CmdTelemetryBBQuery :: byte where [codec_consts]: "CmdTelemetryBBQuery = 0xBB"
definition CmdReplyQS1A :: byte where [codec_consts]: "CmdReplyQS1A = 0xB1"
definition CmdReplyDS3 :: byte where [codec_consts]: "CmdReplyDS3 = 0xBB"
definition InfoReplyV1 :: byte where [codec_consts]: "InfoReplyV1 = 0x09"
definition InfoReplyV2 :: byte where [codec_consts]: "InfoReplyV2 = 0x0A"
definition InfoReplyV3 :: byte where [codec_consts]: "InfoReplyV3 = 0x0C"
definition SubMaxPowerQS1 :: byte where [codec_consts]: "SubMaxPowerQS1 = 0x8C"
definition SubMaxPowerDS3 :: byte where [codec_consts]: "SubMaxPowerDS3 = 0x27"

section \<open>Errors\<close>

datatype frame_error = ErrShortFrame | ErrBadL1SOF | ErrBadL2SOF | ErrBadL2EOF

section \<open>The L2 frame\<close>

text \<open>\<open>BuildL2Frame\<close>: the inner length is \<open>byte(1 + len(body))\<close>, the sum is taken in \<open>uint16\<close>.\<close>

definition inner_len :: "bytes \<Rightarrow> byte" where
  "inner_len body = of_nat (1 + length body)"

fun sum_bytes :: "u16 \<Rightarrow> bytes \<Rightarrow> u16" where
  "sum_bytes acc [] = acc"
| "sum_bytes acc (b # bs) = sum_bytes (acc + ucast b) bs"

definition l2_sum :: "byte \<Rightarrow> bytes \<Rightarrow> u16" where
  "l2_sum cmd body = sum_bytes (ucast (inner_len body) + ucast cmd) body"

definition BuildL2Frame :: "byte \<Rightarrow> bytes \<Rightarrow> bytes" where
  "BuildL2Frame cmd body =
     (let sum = l2_sum cmd body
      in [L2SOF, L2SOF, inner_len body, cmd] @ body @ [hi8 sum, lo8 sum, L2EOF, L2EOF])"

record L2Frame =
  l2_Type :: byte
  l2_Cmd :: byte
  l2_Body :: bytes
  l2_ChkHi :: byte
  l2_ChkLo :: byte

text \<open>
  The second length test of the code (\<open>end < 6\<close> after the first requires eight bytes) cannot
  fail; it is kept as written.
\<close>

definition ParseL2 :: "bytes \<Rightarrow> frame_error + L2Frame" where
  "ParseL2 raw =
     (if length raw < 8 then Inl ErrShortFrame
      else if raw ! 0 \<noteq> L2SOF \<or> raw ! 1 \<noteq> L2SOF then Inl ErrBadL2SOF
      else if raw ! (length raw - 2) \<noteq> L2EOF \<or> raw ! (length raw - 1) \<noteq> L2EOF
        then Inl ErrBadL2EOF
      else let e = length raw - 2
           in if e < 6 then Inl ErrShortFrame
              else Inr \<lparr> l2_Type = raw ! 2, l2_Cmd = raw ! 3,
                         l2_Body = take (e - 2 - 4) (drop 4 raw),
                         l2_ChkHi = raw ! (e - 2), l2_ChkLo = raw ! (e - 1) \<rparr>)"

lemma length_BuildL2Frame [simp]: "length (BuildL2Frame cmd body) = length body + 8"
  by (simp add: BuildL2Frame_def Let_def)

text \<open>A frame laid out as the parser expects it parses to its parts, whatever its checksum.\<close>

lemma ParseL2_layout:
  "ParseL2 ([L2SOF, L2SOF, t, c] @ body @ [h, l, L2EOF, L2EOF]) =
     Inr \<lparr> l2_Type = t, l2_Cmd = c, l2_Body = body, l2_ChkHi = h, l2_ChkLo = l \<rparr>"
  by (simp add: ParseL2_def Let_def nth_append)

lemma ParseL2_Build:
  "ParseL2 (BuildL2Frame cmd body) =
     Inr \<lparr> l2_Type = inner_len body, l2_Cmd = cmd, l2_Body = body,
           l2_ChkHi = hi8 (l2_sum cmd body), l2_ChkLo = lo8 (l2_sum cmd body) \<rparr>"
  unfolding BuildL2Frame_def Let_def by (rule ParseL2_layout)

text \<open>
  And nothing else parses: the accepted byte strings are exactly the laid-out ones, and the
  fields returned are the parts.
\<close>

lemma list4:
  assumes "length xs = 4"
  obtains a b c d where "xs = [a, b, c, d]"
proof -
  have "length xs = Suc (Suc (Suc (Suc 0)))" using assms by simp
  then show thesis using that by (auto simp only: length_Suc_conv length_0_conv)
qed

lemma frame_split:
  assumes "8 \<le> length raw"
  obtains a b c d body w x y z where "raw = [a, b, c, d] @ body @ [w, x, y, z]"
proof -
  obtain a b c d where h: "take 4 raw = [a, b, c, d]"
    by (rule list4 [of "take 4 raw"]) (use assms in simp)
  obtain w x y z where t: "drop (length raw - 4) raw = [w, x, y, z]"
    by (rule list4 [of "drop (length raw - 4) raw"]) (use assms in simp)
  let ?r = "drop 4 raw"
  have "raw = take 4 raw @ take (length raw - 8) ?r @ drop (length raw - 8) ?r"
    by (simp only: append_take_drop_id)
  also have "drop (length raw - 8) ?r = drop (length raw - 4) raw" using assms by simp
  finally show thesis using that h t by metis
qed

lemma ParseL2_Inr_iff:
  "ParseL2 raw = Inr f \<longleftrightarrow>
     raw = [L2SOF, L2SOF, l2_Type f, l2_Cmd f] @ l2_Body f @ [l2_ChkHi f, l2_ChkLo f, L2EOF, L2EOF]"
    (is "?P \<longleftrightarrow> raw = ?F")
proof
  assume "raw = ?F"
  then show ?P using ParseL2_layout [of "l2_Type f" "l2_Cmd f" "l2_Body f"] by simp
next
  assume P: ?P
  then have "8 \<le> length raw" by (auto simp: ParseL2_def split: if_splits)
  then obtain a b c d body w x y z where raw: "raw = [a, b, c, d] @ body @ [w, x, y, z]"
    by (rule frame_split)
  show "raw = ?F" using P unfolding raw
    by (auto simp: ParseL2_def Let_def nth_append split: if_splits)
qed

section \<open>The L1 envelope\<close>

record L1Envelope =
  l1_ShortAddr :: u16
  l1_RSSI :: byte
  l1_LQI :: byte
  l1_PeerUID :: bytes
  l1_Encrypted :: bool
  l1_L2Frame :: bytes

definition ParseL1 :: "bytes \<Rightarrow> frame_error + L1Envelope" where
  "ParseL1 raw =
     (if length raw < 14 then Inl ErrShortFrame
      else if raw ! 0 \<noteq> L1ReplySOF \<or> raw ! 1 \<noteq> L1ReplySOF then Inl ErrBadL1SOF
      else Inr \<lparr> l1_ShortAddr = u16_of (raw ! 2) (raw ! 3), l1_RSSI = raw ! 4, l1_LQI = raw ! 5,
                 l1_PeerUID = take 6 (drop 6 raw),
                 l1_Encrypted = (raw ! 12 < CleartextGateMin),
                 l1_L2Frame = drop 12 raw \<rparr>)"

text \<open>A reply whose tail is a parsable L2 frame is never taken for ciphertext.\<close>

lemma ParseL1_plain:
  assumes "ParseL1 raw = Inr env" and "ParseL2 (l1_L2Frame env) = Inr f"
  shows "\<not> l1_Encrypted env"
proof -
  have l: "l1_L2Frame env = drop 12 raw" and e: "l1_Encrypted env = (raw ! 12 < CleartextGateMin)"
    and n: "14 \<le> length raw"
    using assms(1) by (auto simp: ParseL1_def split: if_splits)
  have "drop 12 raw ! 0 = L2SOF" using assms(2) unfolding l ParseL2_Inr_iff by simp
  then have "raw ! 12 = L2SOF" using n by simp
  then show ?thesis unfolding e by (simp add: codec_consts)
qed

text \<open>\<open>hex.EncodeToString\<close> and \<open>PeerUIDString\<close>.\<close>

definition hextable :: string where
  "hextable = ''0123456789abcdef''"

definition hex_digit :: "nat \<Rightarrow> char" where
  "hex_digit n = hextable ! n"

fun hex_string :: "bytes \<Rightarrow> string" where
  "hex_string [] = []"
| "hex_string (b # bs) = hex_digit (unat b div 16) # hex_digit (unat b mod 16) # hex_string bs"

definition PeerUIDString :: "L1Envelope \<Rightarrow> string" where
  "PeerUIDString e = hex_string (l1_PeerUID e)"

lemma length_hex_string [simp]: "length (hex_string bs) = 2 * length bs"
  by (induction bs) simp_all

lemma hex_digit_inject:
  assumes "hex_digit m = hex_digit n" and "m < 16" and "n < 16"
  shows "m = n"
proof -
  have "distinct hextable" and "length hextable = 16" by (simp_all add: hextable_def)
  then show ?thesis using assms unfolding hex_digit_def by (simp add: nth_eq_iff_index_eq)
qed

lemma byte_nibbles_eq:
  assumes "unat a div 16 = unat b div 16" and "unat a mod 16 = unat b mod 16"
  shows "a = (b :: byte)"
proof -
  have "unat a = unat b" by (metis assms div_mult_mod_eq)
  then show ?thesis by (rule unsigned_word_eqI)
qed

lemma byte_nibble_less: "unat (b :: byte) div 16 < 16" "unat b mod 16 < 16"
  using unsigned_less [of b, where 'a = nat] by (simp_all add: less_mult_imp_div_less)

lemma hex_string_inject: "hex_string as = hex_string bs \<longleftrightarrow> as = bs"
proof (induction "as" arbitrary: bs)
  case Nil
  then show ?case by (cases bs) simp_all
next
  case (Cons a "as")
  show ?case
  proof (cases bs)
    case bs: (Cons b bs')
    show ?thesis
    proof
      assume "hex_string (a # as) = hex_string bs"
      then have "unat a div 16 = unat b div 16" "unat a mod 16 = unat b mod 16"
        and "hex_string as = hex_string bs'"
        by (simp_all add: bs hex_digit_inject byte_nibble_less)
      then show "a # as = bs" using Cons.IH byte_nibbles_eq bs by blast
    qed simp
  qed simp
qed

lemma PeerUIDString_length:
  assumes "ParseL1 raw = Inr env"
  shows "length (PeerUIDString env) = 12"
  using assms by (auto simp: ParseL1_def PeerUIDString_def split: if_splits)

section \<open>Big-endian reads with the code's bounds checks\<close>

definition be16 :: "bytes \<Rightarrow> nat \<Rightarrow> u16" where
  "be16 b off = (if length b \<le> off + 1 then 0 else u16_of (b ! off) (b ! (off + 1)))"

definition be24 :: "bytes \<Rightarrow> nat \<Rightarrow> u32" where
  "be24 b off =
     (if length b \<le> off + 2 then 0
      else push_bit 16 (ucast (b ! off)) OR push_bit 8 (ucast (b ! (off + 1))) OR ucast (b ! (off + 2)))"

fun chars_loop :: "bytes \<Rightarrow> nat \<Rightarrow> u64 \<Rightarrow> u64" where
  "chars_loop [] n v = v"
| "chars_loop (b # bs) 0 v = v"
| "chars_loop (b # bs) (Suc n) v = chars_loop bs n (push_bit 8 v OR ucast b)"

definition charsToUint :: "bytes \<Rightarrow> nat \<Rightarrow> nat \<Rightarrow> u64" where
  "charsToUint b off n = chars_loop (drop off b) n 0"

end
