(* ===== verification/Status.thy ===== *)
theory Status
  imports Frame
begin

text \<open>
  The status and fault bits of the telemetry replies: \<open>DS3Status\<close>/\<open>DS3Faults\<close> (\<open>ds3.go\<close>),
  \<open>QS1AStatus\<close>/\<open>QS1AFaults\<close> (\<open>qs1a.go\<close>), the family-agnostic aggregator \<open>InverterStatus\<close>, and
  \<open>packModbusStatus\<close> (\<open>codec.go\<close>), which projects either family onto the SunSpec (St, Evt1)
  pair.  The interface \<open>ExtendedStatus\<close> (\<open>extended_status.go\<close>) is the locale \<open>extended_status\<close>,
  interpreted for both families.
\<close>

section \<open>The shared aggregates\<close>

record InverterStatus =
  is_DCBusFault :: bool
  is_FaultA :: bool
  is_FaultB :: bool
  is_WarningA :: bool
  is_WarningB :: bool

record modbusStatusInputs =
  mi_GridRelay :: bool
  mi_DCContactor :: bool
  mi_DCGround :: bool
  mi_IsoAny :: bool
  mi_CommFault :: bool
  mi_ZBLink :: bool
  mi_OverTemperature :: bool
  mi_ACOverVoltAny :: bool
  mi_ACUnderVoltAny :: bool
  mi_OverFreqAny :: bool
  mi_UnderFreqAny :: bool

definition or_if :: "bool \<Rightarrow> byte \<Rightarrow> byte \<Rightarrow> byte" where
  "or_if c m w = (if c then w OR m else w)"

definition packModbusStatus :: "modbusStatusInputs \<Rightarrow> u16 \<times> u16" where
  "packModbusStatus i =
     (let st = if mi_GridRelay i then 6 else 4;
          hi = or_if (mi_DCGround i) 0x01
                (or_if (mi_GridRelay i) 0x02
                (or_if (mi_ZBLink i) 0x10
                (or_if (mi_CommFault i) (0x20 OR 0x08)
                (or_if (mi_IsoAny i) 0x40
                (or_if (mi_DCContactor i) 0x80 0)))));
          lo = or_if (mi_OverTemperature i) 0x02
                (or_if (mi_UnderFreqAny i) 0x10
                (or_if (mi_OverFreqAny i) 0x20
                (or_if (mi_ACUnderVoltAny i) 0x40
                (or_if (mi_ACOverVoltAny i) 0x80 0))))
      in (st, push_bit 8 (ucast hi) OR ucast lo))"

section \<open>DS3\<close>

text \<open>The five raw bytes \<open>body[0x0b..0x10)\<close>.\<close>

record DS3Status =
  ds3_Raw :: bytes

definition decodeDS3Status :: "bytes \<Rightarrow> DS3Status" where
  "decodeDS3Status body =
     (if length body < 0x10 then \<lparr> ds3_Raw = replicate 5 0 \<rparr>
      else \<lparr> ds3_Raw = take 5 (drop 0x0b body) \<rparr>)"

record DS3Faults =
  ds3_GridRelayFault :: bool
  ds3_DCContactorFault :: bool
  ds3_DCBusFault :: bool
  ds3_DCGroundFault :: bool
  ds3_IsoFaultA :: bool
  ds3_IsoFaultB :: bool
  ds3_ACOverVoltStage1 :: bool
  ds3_ACOverVoltStage2 :: bool
  ds3_ACUnderVoltStage1 :: bool
  ds3_ACUnderVoltStage2 :: bool
  ds3_OverFreqStage1 :: bool
  ds3_OverFreqStage2 :: bool
  ds3_OverFreqAux :: bool
  ds3_OverFreqExtra :: bool
  ds3_UnderFreqStage1 :: bool
  ds3_UnderFreqStage2 :: bool
  ds3_UnderFreqAux :: bool
  ds3_UnderFreqExtra :: bool

definition DS3_Faults :: "DS3Status \<Rightarrow> DS3Faults" where
  "DS3_Faults s =
     (let bC = ds3_Raw s ! 1; bD = ds3_Raw s ! 2; bE = ds3_Raw s ! 3; bF = ds3_Raw s ! 4
      in \<lparr> ds3_GridRelayFault = bit bC 1,
       ds3_DCContactorFault = bit bD 7,
       ds3_DCBusFault = bit bD 4,
       ds3_DCGroundFault = bit bD 3,
       ds3_IsoFaultA = bit bE 4,
       ds3_IsoFaultB = bit bE 6,
       ds3_ACOverVoltStage1 = bit bE 0,
       ds3_ACOverVoltStage2 = bit bE 2,
       ds3_ACUnderVoltStage1 = bit bE 1,
       ds3_ACUnderVoltStage2 = bit bE 3,
       ds3_OverFreqStage1 = bit bF 2,
       ds3_OverFreqStage2 = bit bF 4,
       ds3_OverFreqAux = bit bF 6,
       ds3_OverFreqExtra = bit bF 0,
       ds3_UnderFreqStage1 = bit bF 3,
       ds3_UnderFreqStage2 = bit bF 5,
       ds3_UnderFreqAux = bit bF 7,
       ds3_UnderFreqExtra = bit bF 1 \<rparr>)"

definition DS3Faults_InverterStatus :: "DS3Faults \<Rightarrow> InverterStatus" where
  "DS3Faults_InverterStatus f =
     \<lparr> is_DCBusFault = ds3_DCBusFault f,
       is_FaultA = (ds3_OverFreqStage1 f \<or> ds3_OverFreqStage2 f \<or> ds3_OverFreqAux f \<or> ds3_OverFreqExtra f),
       is_FaultB = (ds3_UnderFreqStage1 f \<or> ds3_UnderFreqStage2 f \<or> ds3_UnderFreqAux f \<or> ds3_UnderFreqExtra f),
       is_WarningA = (ds3_ACOverVoltStage1 f \<or> ds3_ACOverVoltStage2 f),
       is_WarningB = (ds3_ACUnderVoltStage1 f \<or> ds3_ACUnderVoltStage2 f) \<rparr>"

definition DS3_InverterStatus :: "DS3Status \<Rightarrow> InverterStatus" where
  "DS3_InverterStatus s = DS3Faults_InverterStatus (DS3_Faults s)"

definition DS3_inputs :: "DS3Status \<Rightarrow> modbusStatusInputs" where
  "DS3_inputs s =
     (let f = DS3_Faults s
      in \<lparr> mi_GridRelay = ds3_GridRelayFault f,
            mi_DCContactor = ds3_DCContactorFault f,
            mi_DCGround = ds3_DCGroundFault f,
            mi_IsoAny = (ds3_IsoFaultA f \<or> ds3_IsoFaultB f),
            mi_CommFault = False, mi_ZBLink = False, mi_OverTemperature = False,
            mi_ACOverVoltAny = (ds3_ACOverVoltStage1 f \<or> ds3_ACOverVoltStage2 f),
            mi_ACUnderVoltAny = (ds3_ACUnderVoltStage1 f \<or> ds3_ACUnderVoltStage2 f),
            mi_OverFreqAny = (ds3_OverFreqStage1 f \<or> ds3_OverFreqStage2 f \<or> ds3_OverFreqAux f \<or> ds3_OverFreqExtra f),
            mi_UnderFreqAny = (ds3_UnderFreqStage1 f \<or> ds3_UnderFreqStage2 f \<or> ds3_UnderFreqAux f \<or> ds3_UnderFreqExtra f) \<rparr>)"

definition DS3_ModbusStatus :: "DS3Status \<Rightarrow> u16 \<times> u16" where
  "DS3_ModbusStatus s = packModbusStatus (DS3_inputs s)"

section \<open>QS1A\<close>

record QS1AStatus =
  qs_Main :: bytes
  qs_Grid :: bytes
  qs_Extra :: byte

definition decodeQS1AStatus :: "bytes \<Rightarrow> QS1AStatus" where
  "decodeQS1AStatus body =
     (if length body < 0x3a then \<lparr> qs_Main = replicate 4 0, qs_Grid = replicate 2 0, qs_Extra = 0 \<rparr>
      else \<lparr> qs_Main = take 4 (drop 0x17 body), qs_Grid = take 2 (drop 0x38 body),
             qs_Extra = body ! 0x34 \<rparr>)"

record QS1AFaults =
  qs_GridRelayFault :: bool
  qs_DCContactorFault :: bool
  qs_DCGroundFault :: bool
  qs_DCBusFault :: bool
  qs_CommFault :: bool
  qs_OverTemperature :: bool
  qs_IsoFaultA :: bool
  qs_IsoFaultB :: bool
  qs_IsoFaultC :: bool
  qs_IsoFaultD :: bool
  qs_ACOverVoltFast :: bool
  qs_ACOverVoltSlow :: bool
  qs_ACUnderVoltFast :: bool
  qs_ACUnderVoltSlow :: bool
  qs_OverFreqFast :: bool
  qs_OverFreqSlow :: bool
  qs_OverFreqExtra :: bool
  qs_OverFreqRMS :: bool
  qs_UnderFreqFast :: bool
  qs_UnderFreqSlow :: bool
  qs_UnderFreqExtra :: bool
  qs_UnderFreqRMS :: bool
  qs_ZBLinkA :: bool
  qs_ZBLinkB :: bool

definition QS1A_Faults :: "QS1AStatus \<Rightarrow> QS1AFaults" where
  "QS1A_Faults s =
     (let b17 = qs_Main s ! 0; b18 = qs_Main s ! 1; b19 = qs_Main s ! 2; b1a = qs_Main s ! 3;
          b39 = qs_Grid s ! 1
      in \<lparr> qs_GridRelayFault = bit b17 2,
       qs_DCContactorFault = bit b17 1,
       qs_DCGroundFault = bit b17 3,
       qs_DCBusFault = bit b18 4,
       qs_CommFault = bit b17 4,
       qs_OverTemperature = bit b18 2,
       qs_IsoFaultA = bit b19 2,
       qs_IsoFaultB = bit b19 4,
       qs_IsoFaultC = bit b18 0,
       qs_IsoFaultD = bit b19 6,
       qs_ACOverVoltFast = bit b1a 2,
       qs_ACOverVoltSlow = bit b1a 0,
       qs_ACUnderVoltFast = bit b1a 3,
       qs_ACUnderVoltSlow = bit b1a 1,
       qs_OverFreqFast = bit b1a 6,
       qs_OverFreqSlow = bit b1a 4,
       qs_OverFreqExtra = bit b19 0,
       qs_OverFreqRMS = bit b17 5,
       qs_UnderFreqFast = bit b1a 7,
       qs_UnderFreqSlow = bit b1a 5,
       qs_UnderFreqExtra = bit b19 1,
       qs_UnderFreqRMS = bit b17 6,
       qs_ZBLinkA = bit b39 0,
       qs_ZBLinkB = bit b39 1 \<rparr>)"

definition QS1AFaults_InverterStatus :: "QS1AFaults \<Rightarrow> InverterStatus" where
  "QS1AFaults_InverterStatus f =
     \<lparr> is_DCBusFault = qs_DCBusFault f,
       is_FaultA = (qs_OverFreqFast f \<or> qs_OverFreqSlow f \<or> qs_OverFreqExtra f \<or> qs_OverFreqRMS f),
       is_FaultB = (qs_UnderFreqFast f \<or> qs_UnderFreqSlow f \<or> qs_UnderFreqExtra f \<or> qs_UnderFreqRMS f),
       is_WarningA = (qs_ACOverVoltFast f \<or> qs_ACOverVoltSlow f),
       is_WarningB = (qs_ACUnderVoltFast f \<or> qs_ACUnderVoltSlow f) \<rparr>"

definition QS1A_InverterStatus :: "QS1AStatus \<Rightarrow> InverterStatus" where
  "QS1A_InverterStatus s = QS1AFaults_InverterStatus (QS1A_Faults s)"

definition QS1A_inputs :: "QS1AStatus \<Rightarrow> modbusStatusInputs" where
  "QS1A_inputs s =
     (let f = QS1A_Faults s
      in \<lparr> mi_GridRelay = qs_GridRelayFault f,
            mi_DCContactor = qs_DCContactorFault f,
            mi_DCGround = qs_DCGroundFault f,
            mi_IsoAny = (qs_IsoFaultA f \<or> qs_IsoFaultB f \<or> qs_IsoFaultC f \<or> qs_IsoFaultD f),
            mi_CommFault = qs_CommFault f,
            mi_ZBLink = (qs_ZBLinkA f \<or> qs_ZBLinkB f),
            mi_OverTemperature = qs_OverTemperature f,
            mi_ACOverVoltAny = (qs_ACOverVoltFast f \<or> qs_ACOverVoltSlow f),
            mi_ACUnderVoltAny = (qs_ACUnderVoltFast f \<or> qs_ACUnderVoltSlow f),
            mi_OverFreqAny = (qs_OverFreqFast f \<or> qs_OverFreqSlow f \<or> qs_OverFreqExtra f \<or> qs_OverFreqRMS f),
            mi_UnderFreqAny = (qs_UnderFreqFast f \<or> qs_UnderFreqSlow f \<or> qs_UnderFreqExtra f \<or> qs_UnderFreqRMS f) \<rparr>)"

definition QS1A_ModbusStatus :: "QS1AStatus \<Rightarrow> u16 \<times> u16" where
  "QS1A_ModbusStatus s = packModbusStatus (QS1A_inputs s)"

datatype ExtendedStatus = ES_DS3 DS3Status | ES_QS1A QS1AStatus

fun ext_InverterStatus :: "ExtendedStatus \<Rightarrow> InverterStatus" where
  "ext_InverterStatus (ES_DS3 s) = DS3_InverterStatus s"
| "ext_InverterStatus (ES_QS1A s) = QS1A_InverterStatus s"

fun ext_ModbusStatus :: "ExtendedStatus \<Rightarrow> u16 \<times> u16" where
  "ext_ModbusStatus (ES_DS3 s) = DS3_ModbusStatus s"
| "ext_ModbusStatus (ES_QS1A s) = QS1A_ModbusStatus s"

section \<open>The bits of Evt1\<close>

lemma bit_or_if [simp]: "bit (or_if c m w) n \<longleftrightarrow> bit w n \<or> c \<and> bit m n"
  by (simp add: or_if_def bit_or_iff)

text \<open>Which input drives which bit of the packed register: the layout, read off the code once.\<close>

fun evt1_bit :: "modbusStatusInputs \<Rightarrow> nat \<Rightarrow> bool" where
  "evt1_bit i n =
     (if n = 15 then mi_DCContactor i else if n = 14 then mi_IsoAny i
      else if n = 13 \<or> n = 11 then mi_CommFault i else if n = 12 then mi_ZBLink i
      else if n = 9 then mi_GridRelay i else if n = 8 then mi_DCGround i
      else if n = 7 then mi_ACOverVoltAny i else if n = 6 then mi_ACUnderVoltAny i
      else if n = 5 then mi_OverFreqAny i else if n = 4 then mi_UnderFreqAny i
      else n = 1 \<and> mi_OverTemperature i)"

lemma byte_bit_consts:
  "bit (1 :: byte) n \<longleftrightarrow> n = 0" "bit (2 :: byte) n \<longleftrightarrow> n = 1" "bit (8 :: byte) n \<longleftrightarrow> n = 3"
  "bit (0x10 :: byte) n \<longleftrightarrow> n = 4" "bit (0x20 :: byte) n \<longleftrightarrow> n = 5"
  "bit (0x40 :: byte) n \<longleftrightarrow> n = 6" "bit (0x80 :: byte) n \<longleftrightarrow> n = 7"
proof -
  have pw: "bit (2 ^ k :: byte) n \<longleftrightarrow> n = k" if "k < 8" for k
    using that by (auto simp: bit_exp_iff possible_bit_word)
  show "bit (1 :: byte) n \<longleftrightarrow> n = 0" "bit (2 :: byte) n \<longleftrightarrow> n = 1" "bit (8 :: byte) n \<longleftrightarrow> n = 3"
    "bit (0x10 :: byte) n \<longleftrightarrow> n = 4" "bit (0x20 :: byte) n \<longleftrightarrow> n = 5"
    "bit (0x40 :: byte) n \<longleftrightarrow> n = 6" "bit (0x80 :: byte) n \<longleftrightarrow> n = 7"
    using pw [of 0] pw [of 1] pw [of 3] pw [of 4] pw [of 5] pw [of 6] pw [of 7] by simp_all
qed

lemma bit_pair: "bit (push_bit 8 (ucast hi) OR ucast lo :: u16) n \<longleftrightarrow>
    (8 \<le> n \<and> bit (hi :: byte) (n - 8)) \<or> bit (lo :: byte) n"
  by (auto simp: bit_simps dest: bit_imp_le_length)

lemma packed_bit: "bit (snd (packModbusStatus i)) n \<longleftrightarrow> evt1_bit i n"
proof -
  have n8: "8 \<le> n \<Longrightarrow> n - 8 = k \<longleftrightarrow> n = k + 8" for k by auto
  show ?thesis
    unfolding packModbusStatus_def Let_def snd_conv bit_pair
    unfolding bit_or_if bit_or_iff byte_bit_consts
    by (cases "8 \<le> n") (simp_all add: n8 bit_0_eq, (fastforce simp: not_le)+)
qed

text \<open>
  Bit \<open>n\<close> of the packed Evt1 register is the input the layout puts there, for every \<open>n\<close>, and
  the state register is 6 or 4 with the grid-relay input.
\<close>

theorem evt1_layout:
  "(bit (snd (packModbusStatus i)) n \<longleftrightarrow> evt1_bit i n)
   \<and> fst (packModbusStatus i) = (if mi_GridRelay i then 6 else 4)"
  using packed_bit by (simp add: packModbusStatus_def Let_def)

section \<open>The interface of both families\<close>

text \<open>
  What a client of \<open>ExtendedStatus\<close> may rely on: the register pair is packed from a set of
  inputs, and the aggregator signals are the ones the same inputs carry.
\<close>

locale extended_status =
  fixes inverter_status :: "'s \<Rightarrow> InverterStatus"
    and modbus_status :: "'s \<Rightarrow> u16 \<times> u16"
    and inputs :: "'s \<Rightarrow> modbusStatusInputs"
  assumes packed: "modbus_status s = packModbusStatus (inputs s)"
    and fault_A: "is_FaultA (inverter_status s) = mi_OverFreqAny (inputs s)"
    and fault_B: "is_FaultB (inverter_status s) = mi_UnderFreqAny (inputs s)"
    and warning_A: "is_WarningA (inverter_status s) = mi_ACOverVoltAny (inputs s)"
    and warning_B: "is_WarningB (inverter_status s) = mi_ACUnderVoltAny (inputs s)"
begin

lemma evt1_bits: "bit (snd (modbus_status s)) n \<longleftrightarrow> evt1_bit (inputs s) n"
  using packed_bit by (simp add: packed)

lemma views_agree:
  "is_WarningA (inverter_status s) = bit (snd (modbus_status s)) 7"
  "is_WarningB (inverter_status s) = bit (snd (modbus_status s)) 6"
  "is_FaultA (inverter_status s) = bit (snd (modbus_status s)) 5"
  "is_FaultB (inverter_status s) = bit (snd (modbus_status s)) 4"
  by (simp_all add: evt1_bits fault_A fault_B warning_A warning_B)

lemma state_relay: "fst (modbus_status s) = (if bit (snd (modbus_status s)) 9 then 6 else 4)"
  by (simp add: evt1_bits) (simp add: packed packModbusStatus_def Let_def)

end

interpretation ds3: extended_status DS3_InverterStatus DS3_ModbusStatus DS3_inputs
  by unfold_locales
    (simp_all add: DS3_ModbusStatus_def DS3_InverterStatus_def DS3Faults_InverterStatus_def
      DS3_inputs_def Let_def)

interpretation qs1a: extended_status QS1A_InverterStatus QS1A_ModbusStatus QS1A_inputs
  by unfold_locales
    (simp_all add: QS1A_ModbusStatus_def QS1A_InverterStatus_def QS1AFaults_InverterStatus_def
      QS1A_inputs_def Let_def)

text \<open>
  For either family, the SunSpec registers and the aggregator signals published for one
  reply never disagree: the warning and fault signals are bits 7 to 4 of Evt1, and the state is
  6 exactly when bit 9 is set.
\<close>

theorem status_views_agree:
  "is_WarningA (ext_InverterStatus e) = bit (snd (ext_ModbusStatus e)) 7
   \<and> is_WarningB (ext_InverterStatus e) = bit (snd (ext_ModbusStatus e)) 6
   \<and> is_FaultA (ext_InverterStatus e) = bit (snd (ext_ModbusStatus e)) 5
   \<and> is_FaultB (ext_InverterStatus e) = bit (snd (ext_ModbusStatus e)) 4
   \<and> fst (ext_ModbusStatus e) = (if bit (snd (ext_ModbusStatus e)) 9 then 6 else 4)"
  by (cases e) (simp_all only: ext_InverterStatus.simps ext_ModbusStatus.simps
      ds3.views_agree qs1a.views_agree ds3.state_relay [symmetric] qs1a.state_relay [symmetric] simp_thms)

end
