(* ===== verification/GoFloat.thy ===== *)
theory GoFloat
  imports Complex_Main Prelude
begin

text \<open>
  Go's \<open>float64\<close>: IEEE 754 binary64 with round to nearest, ties to even, as an executable
  function on rationals.  Every arithmetic operation is the exact rational operation followed
  by one rounding (\<open>rnd\<close>), with subnormals, overflow to the infinities and NaN.  Go constant
  expressions are exact and are rounded once, where they meet a \<open>float64\<close> operand; the models
  follow that.  Two simplifications: the two zeros are one value (no modelled expression divides
  by a zero that could be negative, and no result of the model prints a sign), and a product
  feeding a sum is rounded on its own (the compiler for the ARMv7 target does not fuse them).
  The lemmas bound the rounding error; they are what every scaling proof rests on.
\<close>

section \<open>Rounding a rational to 53 bits\<close>

datatype f64 = NaN | PInf | NInf | Fin rat

function ilog2 :: "int \<Rightarrow> int" where
  "ilog2 n = (if n < 2 then 0 else 1 + ilog2 (n div 2))"
  by pat_completeness auto
termination by (relation "measure nat") auto

declare ilog2.simps [simp del]

definition p2 :: "int \<Rightarrow> rat" where
  "p2 e = (if 0 \<le> e then 2 ^ nat e else 1 / 2 ^ nat (- e))"

definition rat_log2 :: "rat \<Rightarrow> int" where
  "rat_log2 x =
     (let (p, q) = quotient_of x; e = ilog2 p - ilog2 q
      in if p2 e \<le> x then e else e - 1)"

definition round_even :: "rat \<Rightarrow> int" where
  "round_even x =
     (let f = \<lfloor>x\<rfloor>; d = x - of_int f
      in if d < 1 / 2 then f else if 1 / 2 < d then f + 1
         else if even f then f else f + 1)"

definition ulp_exp :: "rat \<Rightarrow> int" where
  "ulp_exp x = max (rat_log2 \<bar>x\<bar> - 52) (- 1074)"

definition rnd :: "rat \<Rightarrow> rat" where
  "rnd x = (if x = 0 then 0
            else let u = p2 (ulp_exp x) in of_int (round_even (x / u)) * u)"

definition f64_of_rat :: "rat \<Rightarrow> f64" where
  "f64_of_rat x =
     (let r = rnd x
      in if r \<noteq> 0 \<and> 1024 \<le> rat_log2 \<bar>r\<bar> then (if 0 < r then PInf else NInf) else Fin r)"

section \<open>The operations the code uses\<close>

definition f64_of_int :: "int \<Rightarrow> f64" where
  "f64_of_int n = f64_of_rat (of_int n)"

fun fsign :: "f64 \<Rightarrow> int" where
  "fsign NaN = 0"
| "fsign PInf = 1"
| "fsign NInf = - 1"
| "fsign (Fin a) = (if 0 < a then 1 else if a < 0 then - 1 else 0)"

definition inf_of_sign :: "int \<Rightarrow> f64" where
  "inf_of_sign s = (if 0 < s then PInf else if s < 0 then NInf else NaN)"

fun fmul :: "f64 \<Rightarrow> f64 \<Rightarrow> f64" where
  "fmul (Fin a) (Fin b) = f64_of_rat (a * b)"
| "fmul NaN _ = NaN"
| "fmul _ NaN = NaN"
| "fmul x y = inf_of_sign (fsign x * fsign y)"

fun fdiv :: "f64 \<Rightarrow> f64 \<Rightarrow> f64" where
  "fdiv (Fin a) (Fin b) =
     (if b = 0 then inf_of_sign (fsign (Fin a)) else f64_of_rat (a / b))"
| "fdiv NaN _ = NaN"
| "fdiv _ NaN = NaN"
| "fdiv (Fin a) _ = Fin 0"
| "fdiv x (Fin b) = (if b = 0 then x else inf_of_sign (fsign x * fsign (Fin b)))"
| "fdiv _ _ = NaN"

fun fadd :: "f64 \<Rightarrow> f64 \<Rightarrow> f64" where
  "fadd (Fin a) (Fin b) = f64_of_rat (a + b)"
| "fadd NaN _ = NaN"
| "fadd _ NaN = NaN"
| "fadd PInf NInf = NaN"
| "fadd NInf PInf = NaN"
| "fadd PInf _ = PInf"
| "fadd NInf _ = NInf"
| "fadd _ y = y"

fun fneg :: "f64 \<Rightarrow> f64" where
  "fneg (Fin a) = Fin (- a)"
| "fneg PInf = NInf"
| "fneg NInf = PInf"
| "fneg NaN = NaN"

definition fsub :: "f64 \<Rightarrow> f64 \<Rightarrow> f64" where
  "fsub x y = fadd x (fneg y)"

fun fabs :: "f64 \<Rightarrow> f64" where
  "fabs (Fin a) = Fin \<bar>a\<bar>"
| "fabs NaN = NaN"
| "fabs _ = PInf"

text \<open>The comparisons: anything compared with NaN is false.\<close>

fun flt :: "f64 \<Rightarrow> f64 \<Rightarrow> bool" where
  "flt (Fin a) (Fin b) = (a < b)"
| "flt NaN _ = False"
| "flt _ NaN = False"
| "flt x y = (x \<noteq> y \<and> (x = NInf \<or> y = PInf))"

fun fle :: "f64 \<Rightarrow> f64 \<Rightarrow> bool" where
  "fle (Fin a) (Fin b) = (a \<le> b)"
| "fle NaN _ = False"
| "fle _ NaN = False"
| "fle x y = (x = y \<or> x = NInf \<or> y = PInf)"

text \<open>
  \<open>intN(x)\<close>: truncation toward zero when the result fits the \<open>w\<close>-bit integer; otherwise the
  language leaves the value to the implementation, which is the parameter \<open>cv\<close>.
\<close>

definition trunc :: "rat \<Rightarrow> int" where
  "trunc x = (if 0 \<le> x then \<lfloor>x\<rfloor> else \<lceil>x\<rceil>)"

definition int_of_f64 :: "nat \<Rightarrow> (f64 \<Rightarrow> int) \<Rightarrow> f64 \<Rightarrow> int" where
  "int_of_f64 w cv x =
     (case x of
        Fin q \<Rightarrow> if - (2 ^ (w - 1)) \<le> trunc q \<and> trunc q < 2 ^ (w - 1) then trunc q else cv x
      | _ \<Rightarrow> cv x)"

text \<open>The same for \<open>uintN(x)\<close>.\<close>

definition uint_of_f64 :: "nat \<Rightarrow> (f64 \<Rightarrow> int) \<Rightarrow> f64 \<Rightarrow> int" where
  "uint_of_f64 w cv x =
     (case x of
        Fin q \<Rightarrow> if 0 \<le> trunc q \<and> trunc q < 2 ^ w then trunc q else cv x
      | _ \<Rightarrow> cv x)"

text \<open>\<open>math.Round\<close>: half away from zero, exact.\<close>

fun math_round :: "f64 \<Rightarrow> f64" where
  "math_round (Fin q) =
     Fin (if 0 \<le> q then of_int \<lfloor>q + 1 / 2\<rfloor> else of_int \<lceil>q - 1 / 2\<rceil>)"
| "math_round x = x"

section \<open>Powers of two and the binary logarithm\<close>

lemma p2_pos [simp]: "0 < p2 e"
  by (simp add: p2_def)

lemma p2_nz [simp]: "p2 e \<noteq> 0"
  using p2_pos [of e] by linarith

lemma p2_succ: "p2 (e + 1) = 2 * p2 e"
proof (cases "0 \<le> e")
  case True
  then show ?thesis by (simp add: p2_def nat_add_distrib)
next
  case False
  then have "nat (- e) = Suc (nat (- (e + 1)))" by simp
  with False show ?thesis by (auto simp: p2_def)
qed

lemma p2_add_nat: "p2 (e + int k) = 2 ^ k * p2 e"
proof (induction k)
  case (Suc k)
  have "p2 (e + int (Suc k)) = p2 ((e + int k) + 1)" by (simp add: algebra_simps)
  then show ?case by (simp only: p2_succ Suc) simp
qed simp

lemma p2_mono: "d \<le> e \<Longrightarrow> p2 d \<le> p2 e"
proof -
  assume "d \<le> e"
  then obtain k where "e = d + int k" using zle_iff_zadd by blast
  then show ?thesis
    using mult_right_mono [of 1 "2 ^ k" "p2 d"] one_le_power [of "2::rat" k] p2_pos [of d]
    by (simp add: p2_add_nat less_imp_le)
qed

lemma p2_less_iff: "p2 d < p2 e \<longleftrightarrow> d < e"
proof
  assume "p2 d < p2 e"
  then show "d < e" using p2_mono [of e d] by (meson linorder_not_less)
next
  assume "d < e"
  then have "p2 (d + 1) \<le> p2 e" by (intro p2_mono) simp
  then show "p2 d < p2 e" using p2_pos [of d] unfolding p2_succ by linarith
qed

lemma p2_of_nat: "p2 (int n) = 2 ^ n"
  by (simp add: p2_def)

lemma ilog2_bounds:
  "1 \<le> n \<Longrightarrow> 0 \<le> ilog2 n \<and> p2 (ilog2 n) \<le> of_int n \<and> of_int n < p2 (ilog2 n + 1)"
proof (induction n rule: ilog2.induct)
  case (1 n)
  show ?case
  proof (cases "n < 2")
    case True
    with 1 have "n = 1" by simp
    then show ?thesis by (simp add: ilog2.simps [of 1] p2_def)
  next
    case False
    then have IH: "0 \<le> ilog2 (n div 2)" "p2 (ilog2 (n div 2)) \<le> of_int (n div 2)"
      "of_int (n div 2) < p2 (ilog2 (n div 2) + 1)"
      using 1 by auto
    have "2 * (n div 2) \<le> n" by linarith
    then have "of_int (2 * (n div 2)) \<le> (of_int n :: rat)" by (simp only: of_int_le_iff)
    then have lo: "2 * of_int (n div 2) \<le> (of_int n :: rat)" by simp
    define k where "k = nat (ilog2 (n div 2) + 1)"
    have k: "p2 (ilog2 (n div 2) + 1) = of_int (2 ^ k)"
      using IH(1) by (simp add: p2_def k_def)
    have "n div 2 < 2 ^ k" using IH(3) unfolding k of_int_less_iff .
    then have "n < 2 * 2 ^ k" by linarith
    then have "of_int n < (of_int (2 * 2 ^ k) :: rat)" unfolding of_int_less_iff .
    then have hi: "of_int n < 2 * p2 (ilog2 (n div 2) + 1)" unfolding k by simp
    have step: "ilog2 n = ilog2 (n div 2) + 1"
      using False by (simp add: ilog2.simps [of n])
    show ?thesis
      using IH lo hi unfolding step p2_succ by linarith
  qed
qed

lemma rat_log2_bounds:
  assumes "0 < x"
  shows "p2 (rat_log2 x) \<le> x" and "x < p2 (rat_log2 x + 1)"
proof -
  obtain p q where pq: "quotient_of x = (p, q)" by (cases "quotient_of x")
  have q: "0 < q" using quotient_of_denom_pos [OF pq] .
  have x: "x = of_int p / of_int q" using quotient_of_div [OF pq] .
  have p: "0 < p" using assms q unfolding x by (simp add: zero_less_divide_iff)
  let ?e = "ilog2 p - ilog2 q"
  have P: "0 \<le> ilog2 p" "p2 (ilog2 p) \<le> of_int p" "of_int p < p2 (ilog2 p + 1)"
    using ilog2_bounds [of p] p by auto
  have Q: "0 \<le> ilog2 q" "p2 (ilog2 q) \<le> of_int q" "of_int q < p2 (ilog2 q + 1)"
    using ilog2_bounds [of q] q by auto
  have split: "p2 (e + ilog2 q) = p2 e * p2 (ilog2 q)" for e
    using p2_add_nat [of e "nat (ilog2 q)"] Q(1) p2_of_nat [of "nat (ilog2 q)"] by simp
  have up: "x < p2 (?e + 1)"
  proof -
    have "of_int p < p2 (?e + 1) * p2 (ilog2 q)"
      using P(3) split [of "?e + 1"] by simp
    also have "\<dots> \<le> p2 (?e + 1) * of_int q"
      using Q(2) by (simp add: mult_left_mono less_imp_le)
    finally show ?thesis using q unfolding x by (simp add: pos_divide_less_eq)
  qed
  have down: "p2 (?e - 1) \<le> x"
  proof -
    have "p2 (?e - 1) * of_int q \<le> p2 (?e - 1) * p2 (ilog2 q + 1)"
      using Q(3) by (simp add: mult_left_mono less_imp_le)
    also have "\<dots> = p2 (ilog2 p)"
      using split [of ?e] p2_succ [of "?e - 1"] p2_succ [of "ilog2 q"] by simp
    also have "\<dots> \<le> of_int p" by (rule P(2))
    finally show ?thesis using q unfolding x by (simp add: pos_le_divide_eq)
  qed
  show "p2 (rat_log2 x) \<le> x" and "x < p2 (rat_log2 x + 1)"
    using up down by (auto simp: rat_log2_def pq Let_def)
qed

lemma rat_log2_unique:
  assumes "p2 e \<le> x" and "x < p2 (e + 1)"
  shows "rat_log2 x = e"
proof -
  have x: "0 < x" using assms(1) p2_pos [of e] by linarith
  have "p2 e < p2 (rat_log2 x + 1)" "p2 (rat_log2 x) < p2 (e + 1)"
    using assms rat_log2_bounds [OF x] by linarith+
  then show ?thesis by (simp add: p2_less_iff)
qed

lemma rat_log2_le:
  assumes "0 < x" and "x \<le> 2 ^ n"
  shows "rat_log2 x \<le> int n"
proof -
  have "p2 (rat_log2 x) < p2 (int n + 1)"
    using rat_log2_bounds(1) [OF assms(1)] assms(2) p2_pos [of "int n"]
    unfolding p2_succ p2_of_nat by linarith
  then show ?thesis by (simp add: p2_less_iff)
qed

section \<open>The rounding error\<close>

lemma round_even_err: "\<bar>of_int (round_even x) - x\<bar> \<le> 1 / 2"
proof -
  have "of_int \<lfloor>x\<rfloor> \<le> x" and "x < of_int \<lfloor>x\<rfloor> + 1" by linarith+
  then show ?thesis
    unfolding round_even_def Let_def by auto
qed

lemma round_even_int [simp]: "round_even (of_int n) = n"
  by (simp add: round_even_def)

lemma round_even_mono: "x \<le> y \<Longrightarrow> round_even x \<le> round_even y"
proof -
  assume xy: "x \<le> y"
  have fx: "of_int \<lfloor>x\<rfloor> \<le> x" "x < of_int \<lfloor>x\<rfloor> + 1" and fy: "of_int \<lfloor>y\<rfloor> \<le> y" "y < of_int \<lfloor>y\<rfloor> + 1"
    by linarith+
  show ?thesis
  proof (cases "\<lfloor>x\<rfloor> = \<lfloor>y\<rfloor>")
    case True
    then show ?thesis using xy unfolding round_even_def Let_def by auto
  next
    case False
    then have "\<lfloor>x\<rfloor> + 1 \<le> \<lfloor>y\<rfloor>" using floor_mono [OF xy] by linarith
    moreover have "round_even x \<le> \<lfloor>x\<rfloor> + 1" "\<lfloor>y\<rfloor> \<le> round_even y"
      unfolding round_even_def Let_def by auto
    ultimately show ?thesis by linarith
  qed
qed

lemma rnd_err: "\<bar>rnd x - x\<bar> \<le> p2 (ulp_exp x) / 2"
proof (cases "x = 0")
  case False
  define u where "u = p2 (ulp_exp x)"
  have u: "0 < u" by (simp add: u_def)
  have eq: "rnd x - x = (of_int (round_even (x / u)) - x / u) * u"
    using False u by (simp add: rnd_def Let_def left_diff_distrib flip: u_def)
  have "\<bar>of_int (round_even (x / u)) - x / u\<bar> * u \<le> 1 / 2 * u"
    using round_even_err u by (intro mult_right_mono) simp_all
  then show ?thesis
    unfolding eq abs_mult abs_of_pos [OF u] unfolding u_def by linarith
qed (simp add: rnd_def less_imp_le)

text \<open>The bound every scaling proof uses: below \<open>2^n\<close> the error is at most \<open>2^(n-53)\<close>.\<close>

lemma rnd_err_pow:
  assumes "\<bar>x\<bar> \<le> 2 ^ n"
  shows "\<bar>rnd x - x\<bar> \<le> 2 ^ n / 2 ^ 53"
proof (cases "x = 0")
  case False
  have "rat_log2 \<bar>x\<bar> \<le> int n"
    using False assms by (intro rat_log2_le) auto
  then have "p2 (ulp_exp x) \<le> p2 (int n - 52)"
    by (intro p2_mono) (simp add: ulp_exp_def)
  moreover have "p2 (int n - 52) * 2 ^ 52 = 2 ^ n"
    using p2_add_nat [of "int n - 52" 52] by (simp add: p2_of_nat mult.commute)
  ultimately show ?thesis
    using rnd_err [of x] by simp
qed (simp add: rnd_def)

lemma rnd_rat_log2_lt:
  assumes "\<bar>x\<bar> \<le> 2 ^ n" and "n \<le> 1000" and "rnd x \<noteq> 0"
  shows "rat_log2 \<bar>rnd x\<bar> < 1024"
proof -
  have "(2 ^ n :: rat) / 2 ^ 53 \<le> 2 ^ n" by (simp add: divide_le_eq)
  then have "\<bar>rnd x\<bar> \<le> 2 * 2 ^ n"
    using rnd_err_pow [OF assms(1)] assms(1) by linarith
  then have "\<bar>rnd x\<bar> \<le> 2 ^ (n + 1)" by simp
  then have "rat_log2 \<bar>rnd x\<bar> \<le> int (n + 1)"
    using assms(3) by (intro rat_log2_le) auto
  then show ?thesis using assms(2) by simp
qed

lemma f64_of_rat_Fin:
  assumes "\<bar>x\<bar> \<le> 2 ^ n" and "n \<le> 1000"
  shows "f64_of_rat x = Fin (rnd x)"
  using rnd_rat_log2_lt [OF assms] by (auto simp: f64_of_rat_def Let_def)

text \<open>Numbers that fit in 53 bits are exact; integers are the case the code needs.\<close>

lemma abs_of_int_le: "\<bar>m\<bar> \<le> 2 ^ n \<Longrightarrow> \<bar>of_int m :: rat\<bar> \<le> 2 ^ n"
proof -
  assume "\<bar>m\<bar> \<le> 2 ^ n"
  then have "(of_int \<bar>m\<bar> :: rat) \<le> of_int (2 ^ n)" unfolding of_int_le_iff .
  then show ?thesis by simp
qed

lemma le_abs_of_int: "2 ^ n \<le> \<bar>of_int m :: rat\<bar> \<Longrightarrow> 2 ^ n \<le> \<bar>m\<bar>"
proof -
  assume "2 ^ n \<le> \<bar>of_int m :: rat\<bar>"
  then have "(of_int (2 ^ n) :: rat) \<le> of_int \<bar>m\<bar>" by simp
  then show ?thesis unfolding of_int_le_iff .
qed

lemma rnd_exact:
  assumes m: "\<bar>m\<bar> \<le> 2 ^ 53"
  shows "rnd (of_int m) = of_int m"
proof (cases "m = 0")
  case False
  define x where "x = (of_int m :: rat)"
  have x0: "x \<noteq> 0" using False by (simp add: x_def)
  have le: "rat_log2 \<bar>x\<bar> \<le> int 53"
    using abs_of_int_le [OF m] x0 by (intro rat_log2_le) (auto simp: x_def)
  have "rnd x = x"
  proof (cases "rat_log2 \<bar>x\<bar> = 53")
    case True
    have "p2 53 \<le> \<bar>x\<bar>"
      using rat_log2_bounds(1) [of "\<bar>x\<bar>"] x0 True by simp
    then have "2 ^ 53 \<le> \<bar>m\<bar>"
      using p2_of_nat [of 53] by (intro le_abs_of_int) (simp add: x_def)
    then have "\<bar>m\<bar> = 2 ^ 53" using m by linarith
    then have "m = 2 ^ 53 \<or> m = - (2 ^ 53)" by linarith
    then obtain h where h: "m = h * 2" by force
    have u: "p2 (ulp_exp x) = 2" by (simp add: ulp_exp_def True p2_def)
    have xh: "x / 2 = of_int h" by (simp add: x_def h)
    have "rnd x = of_int h * 2"
      using x0 by (simp only: rnd_def u Let_def if_False xh round_even_int)
    then show ?thesis by (simp add: x_def h)
  next
    case F: False
    define k where "k = nat (- ulp_exp x)"
    have "ulp_exp x \<le> 0" using le F by (simp add: ulp_exp_def)
    then have u: "p2 (ulp_exp x) = 1 / 2 ^ k" by (auto simp: p2_def k_def)
    have "x / p2 (ulp_exp x) = of_int (m * 2 ^ k)" unfolding u by (simp add: x_def)
    then have "rnd x = of_int (m * 2 ^ k) / 2 ^ k"
      using x0 by (simp only: rnd_def u Let_def round_even_int if_False) simp
    then show ?thesis by (simp add: x_def)
  qed
  then show ?thesis by (simp only: x_def)
qed (simp add: rnd_def)

lemma f64_of_int_exact:
  assumes "\<bar>m\<bar> \<le> 2 ^ 53"
  shows "f64_of_int m = Fin (of_int m)"
  using rnd_exact [OF assms] f64_of_rat_Fin [OF abs_of_int_le [OF assms]]
  by (simp add: f64_of_int_def)

section \<open>Signs and monotonicity\<close>

lemma rnd_nonneg: "0 \<le> x \<Longrightarrow> 0 \<le> rnd x"
proof -
  assume "0 \<le> x"
  then have "0 \<le> x / p2 (ulp_exp x)" by (simp add: less_imp_le)
  then have "round_even 0 \<le> round_even (x / p2 (ulp_exp x))" by (rule round_even_mono)
  then have "0 \<le> round_even (x / p2 (ulp_exp x))" using round_even_int [of 0] by simp
  then show ?thesis by (simp add: rnd_def Let_def less_imp_le)
qed

section \<open>Operations on finite values of moderate size\<close>

lemma fmul_Fin:
  assumes "\<bar>a * b\<bar> \<le> 2 ^ n" and "n \<le> 1000"
  shows "fmul (Fin a) (Fin b) = Fin (rnd (a * b))"
  using f64_of_rat_Fin [OF assms] by simp

lemma fdiv_Fin:
  assumes "b \<noteq> 0" and "\<bar>a / b\<bar> \<le> 2 ^ n" and "n \<le> 1000"
  shows "fdiv (Fin a) (Fin b) = Fin (rnd (a / b))"
  using f64_of_rat_Fin [OF assms(2,3)] assms(1) by simp

lemma math_round_err:
  assumes "math_round (Fin q) = Fin r"
  shows "\<bar>r - q\<bar> \<le> 1 / 2"
proof (cases "0 \<le> q")
  case True
  then have "r = of_int \<lfloor>q + 1 / 2\<rfloor>" using assms by simp
  moreover have "of_int \<lfloor>q + 1 / 2\<rfloor> \<le> q + 1 / 2" "q + 1 / 2 < of_int \<lfloor>q + 1 / 2\<rfloor> + 1" by linarith+
  ultimately show ?thesis by linarith
next
  case False
  then have "r = of_int \<lceil>q - 1 / 2\<rceil>" using assms by simp
  moreover have "q - 1 / 2 \<le> of_int \<lceil>q - 1 / 2\<rceil>" "of_int \<lceil>q - 1 / 2\<rceil> < q - 1 / 2 + 1" by linarith+
  ultimately show ?thesis by linarith
qed

lemma trunc_of_int [simp]: "trunc (of_int n) = n"
  by (simp add: trunc_def)

lemma uint_of_f64_in_range:
  assumes "0 \<le> n" and "n < 2 ^ w"
  shows "uint_of_f64 w cv (Fin (of_int n)) = n"
  using assms by (simp add: uint_of_f64_def)

section \<open>Scaling a reading to a register\<close>

lemma rnd_close:
  assumes "\<bar>x\<bar> \<le> 2 ^ 23"
  shows "\<bar>rnd x - x\<bar> \<le> 1 / 2 ^ 30"
proof -
  have "(2 :: rat) ^ 23 / 2 ^ 53 = 1 / 2 ^ 30" by simp
  then show ?thesis using rnd_err_pow [OF assms] by simp
qed

lemma f64_of_rat_small:
  assumes "\<bar>x\<bar> \<le> 2 ^ 23"
  shows "f64_of_rat x = Fin (rnd x)"
  using f64_of_rat_Fin [OF assms] by simp

lemma trunc_bounds:
  assumes "0 \<le> x"
  shows "0 \<le> trunc x" and "of_int (trunc x) \<le> x" and "x < of_int (trunc x) + 1"
proof -
  show "0 \<le> trunc x" using assms by (simp add: trunc_def)
  have "of_int \<lfloor>x\<rfloor> \<le> x" and "x < of_int \<lfloor>x\<rfloor> + 1" by linarith+
  then show "of_int (trunc x) \<le> x" and "x < of_int (trunc x) + 1"
    using assms by (simp_all add: trunc_def)
qed

lemma int_of_f64_small:
  assumes "0 \<le> y" and "y \<le> 2 ^ 30" and "32 \<le> w"
  shows "int_of_f64 w cv (Fin y) = trunc y"
proof -
  have "of_int (trunc y) \<le> (of_int (2 ^ 30) :: rat)"
    using trunc_bounds(2) [OF assms(1)] assms(2) by simp
  then have "trunc y \<le> 2 ^ 30" unfolding of_int_le_iff .
  also have "(2 :: int) ^ 30 < 2 ^ (w - 1)" using assms(3) by (intro power_strict_increasing) simp_all
  finally have "trunc y < 2 ^ (w - 1)" .
  moreover have "- (2 ^ (w - 1)) \<le> (0 :: int)" by simp
  ultimately show ?thesis
    using trunc_bounds(1) [OF assms(1)] unfolding int_of_f64_def
    by (simp only: f64.case if_True order_trans simp_thms)
qed

lemma scaled_value:
  assumes x: "0 \<le> x" "x \<le> 65536" and C: "0 \<le> C" "C \<le> 4000" and xC8: "x * C \<le> 8000000"
  obtains y where "fmul (Fin x) (f64_of_rat C) = Fin y" and "0 \<le> y"
    and "\<bar>y - x * C\<bar> \<le> 1 / 1000000"
proof -
  define k where "k = rnd C"
  have C23: "\<bar>C\<bar> \<le> 2 ^ 12" using C by simp
  have "(2 :: rat) ^ 12 / 2 ^ 53 = 1 / 2 ^ 41" by simp
  then have ke: "\<bar>k - C\<bar> \<le> 1 / 2 ^ 41" using rnd_err_pow [OF C23] by (simp add: k_def)
  have kf: "f64_of_rat C = Fin k" using f64_of_rat_Fin [OF C23] by (simp add: k_def)
  have k0: "0 \<le> k" using rnd_nonneg [OF C(1)] by (simp add: k_def)
  have xC: "0 \<le> x * C" using x C by simp
  have "x * \<bar>k - C\<bar> \<le> 65536 * (1 / 2 ^ 41)" using ke x by (intro mult_mono) simp_all
  moreover have "\<bar>x * k - x * C\<bar> = x * \<bar>k - C\<bar>" using x by (simp add: abs_mult flip: right_diff_distrib)
  moreover have "65536 * (1 / 2 ^ 41) \<le> (1 / 2000000 :: rat)" by simp
  ultimately have e1: "\<bar>x * k - x * C\<bar> \<le> 1 / 2000000" by linarith
  have xk: "0 \<le> x * k" using x k0 by simp
  have "\<bar>x * k\<bar> \<le> 8388608" using e1 xC8 xk by linarith
  then have xk23: "\<bar>x * k\<bar> \<le> 2 ^ 23" by simp
  have "(1 :: rat) / 2 ^ 30 \<le> 1 / 2000000" by simp
  then have e2: "\<bar>rnd (x * k) - x * k\<bar> \<le> 1 / 2000000" using rnd_close [OF xk23] by linarith
  show thesis
  proof (rule that)
    show "fmul (Fin x) (f64_of_rat C) = Fin (rnd (x * k))"
      using f64_of_rat_small [OF xk23] by (simp add: kf)
    show "0 \<le> rnd (x * k)" by (rule rnd_nonneg [OF xk])
    show "\<bar>rnd (x * k) - x * C\<bar> \<le> 1 / 1000000" using e1 e2 by linarith
  qed
qed

lemma scaled_register:
  assumes x: "0 \<le> x" "x \<le> 1000" and C: "0 \<le> C" "C \<le> 4000" and w: "32 \<le> w"
  obtains n where "int_of_f64 w cv (fmul (Fin x) (f64_of_rat C)) = n" and "0 \<le> n"
    and "of_int n \<le> x * C + 1 / 1000000" and "x * C < of_int n + 1 + 1 / 1000000"
proof -
  have xC: "x * C \<le> 4000000" using x C mult_mono [of x 1000 C 4000] by simp
  obtain y where y: "fmul (Fin x) (f64_of_rat C) = Fin y" "0 \<le> y" "\<bar>y - x * C\<bar> \<le> 1 / 1000000"
    using scaled_value [of x C] x C xC by auto
  have "y \<le> 8388608" using y(3) xC by linarith
  then have "y \<le> 2 ^ 30" by simp
  then have n: "int_of_f64 w cv (fmul (Fin x) (f64_of_rat C)) = trunc y"
    using int_of_f64_small [OF y(2) _ w] by (simp add: y(1))
  have "of_int (trunc y) \<le> x * C + 1 / 1000000" "x * C < of_int (trunc y) + 1 + 1 / 1000000"
    using trunc_bounds(2,3) [OF y(2)] y(3) by linarith+
  then show thesis using that [OF n trunc_bounds(1) [OF y(2)]] by blast
qed

text \<open>Rounding by adding a half and truncating recovers an integer the value is near.\<close>

lemma round_half_register:
  assumes V: "0 \<le> V" "V \<le> 1000000" and y: "\<bar>y - of_int V\<bar> \<le> 49 / 100" "0 \<le> y"
    and w: "32 \<le> w"
  shows "int_of_f64 w cv (fadd (Fin y) (Fin (1 / 2))) = V"
proof -
  have V': "(of_int V :: rat) \<le> 1000000" using V(2) by simp
  have "\<bar>y + 1 / 2\<bar> \<le> 8388608" using y V' by linarith
  then have y23: "\<bar>y + 1 / 2\<bar> \<le> 2 ^ 23" by simp
  define z where "z = rnd (y + 1 / 2)"
  have "(1 :: rat) / 2 ^ 30 \<le> 1 / 1000" by simp
  then have z: "\<bar>z - (y + 1 / 2)\<bar> \<le> 1 / 1000" using rnd_close [OF y23] unfolding z_def by linarith
  have z0: "0 \<le> z" using rnd_nonneg [of "y + 1 / 2"] y(2) by (simp add: z_def)
  have "z \<le> 8388608" using z y V' by linarith
  then have zs: "z \<le> 2 ^ 30" by simp
  have "\<lfloor>z\<rfloor> = V" by (rule floor_unique) (use z y in linarith)+
  then have "trunc z = V" using z0 by (simp add: trunc_def)
  then show ?thesis
    using int_of_f64_small [OF z0 zs w] f64_of_rat_small [OF y23] by (simp add: z_def)
qed

lemma f64_of_rat_of_int:
  assumes "\<bar>n\<bar> \<le> 2 ^ 53"
  shows "f64_of_rat (of_int n) = Fin (of_int n)"
  using f64_of_int_exact [OF assms] by (simp add: f64_of_int_def)

section \<open>Dyadic fractions are exact\<close>

lemma rnd_dyadic:
  assumes m: "\<bar>m\<bar> \<le> 2 ^ 52" and k: "k \<le> 1000"
  shows "rnd (of_int m / 2 ^ k) = of_int m / 2 ^ k"
proof (cases "m = 0")
  case False
  define x where "x = (of_int m / 2 ^ k :: rat)"
  have x0: "x \<noteq> 0" using False by (simp add: x_def)
  have "\<bar>x\<bar> * 2 ^ k = \<bar>of_int m\<bar>" by (simp add: x_def)
  then have xk: "\<bar>x\<bar> * 2 ^ k \<le> 2 ^ 52" using abs_of_int_le [OF m] by simp
  have split: "p2 (52 - int k) * 2 ^ k = 2 ^ 52"
    using p2_add_nat [of "52 - int k" k] p2_of_nat [of 52] by (simp add: mult.commute)
  have "\<bar>x\<bar> * 2 ^ k \<le> p2 (52 - int k) * 2 ^ k" using xk split by simp
  then have xp: "\<bar>x\<bar> \<le> p2 (52 - int k)" by (rule mult_right_le_imp_le) simp
  have "p2 (rat_log2 \<bar>x\<bar>) \<le> \<bar>x\<bar>" using x0 by (intro rat_log2_bounds) simp
  then have "p2 (rat_log2 \<bar>x\<bar>) < p2 (52 - int k + 1)"
    using xp p2_pos [of "52 - int k"] unfolding p2_succ by linarith
  then have "rat_log2 \<bar>x\<bar> \<le> 52 - int k" by (simp add: p2_less_iff)
  then have u: "ulp_exp x \<le> - int k" using k by (simp add: ulp_exp_def)
  define j where "j = nat (- int k - ulp_exp x)"
  have "p2 (- int k) = 2 ^ j * p2 (ulp_exp x)"
    using p2_add_nat [of "ulp_exp x" j] u by (simp add: j_def)
  moreover have "p2 (- int k) = 1 / 2 ^ k" by (cases k) (simp_all add: p2_def nat_add_distrib)
  moreover have "x = of_int m * (1 / 2 ^ k)" by (simp add: x_def)
  ultimately have "x = of_int m * (2 ^ j * p2 (ulp_exp x))" by (simp only:)
  then have "x = of_int (m * 2 ^ j) * p2 (ulp_exp x)"
    by (simp only: of_int_mult of_int_power of_int_numeral mult.assoc)
  then have q: "x / p2 (ulp_exp x) = of_int (m * 2 ^ j)" by (metis nonzero_mult_div_cancel_right p2_nz)
  have "rnd x = of_int (m * 2 ^ j) * p2 (ulp_exp x)"
    using x0 by (simp only: rnd_def Let_def if_False q round_even_int)
  then have "rnd x = x" using q by (metis nonzero_eq_divide_eq p2_nz)
  then show ?thesis by (simp only: x_def)
qed (simp add: rnd_def)

lemma f64_of_rat_dyadic:
  assumes m: "\<bar>m\<bar> \<le> 2 ^ 52" and k: "k \<le> 1000"
  shows "f64_of_rat (of_int m / 2 ^ k) = Fin (of_int m / 2 ^ k)"
proof -
  have "\<bar>of_int m / 2 ^ k\<bar> \<le> \<bar>of_int m :: rat\<bar>"
    by (simp add: divide_le_eq mult_le_cancel_left1)
  then have "\<bar>of_int m / 2 ^ k :: rat\<bar> \<le> 2 ^ 52" using abs_of_int_le [OF m] by linarith
  then show ?thesis using f64_of_rat_Fin [of "of_int m / 2 ^ k" 52] rnd_dyadic [OF assms] by simp
qed

end
