(* ===== verification/Family.thy ===== *)
theory Family
  imports Frame
begin

text \<open>
  Model codes, wire families and the tables keyed by them: \<open>info.go\<close> (model codes,
  \<open>PhaseFromModel\<close>), \<open>family.go\<close>, \<open>nameplate.go\<close>.  The lemmas tie the tables together: the
  broadcast list is sorted, distinct and exactly the codes with a DS3 or QS1 protection encoder,
  and the label of every known model parses back to its family.
\<close>

section \<open>Model codes\<close>

definition ModelYC600Old :: byte where [codec_consts]: "ModelYC600Old = 0x05"
definition ModelYC1000 :: byte where [codec_consts]: "ModelYC1000 = 0x06"
definition ModelYC600 :: byte where [codec_consts]: "ModelYC600 = 0x07"
definition ModelQS1 :: byte where [codec_consts]: "ModelQS1 = 0x08"
definition ModelYC600B :: byte where [codec_consts]: "ModelYC600B = 0x17"
definition ModelQS1A :: byte where [codec_consts]: "ModelQS1A = 0x18"
definition ModelDS3 :: byte where [codec_consts]: "ModelDS3 = 0x20"
definition ModelDS3H :: byte where [codec_consts]: "ModelDS3H = 0x21"
definition ModelDS3L :: byte where [codec_consts]: "ModelDS3L = 0x22"
definition ModelExt29 :: byte where [codec_consts]: "ModelExt29 = 0x29"
definition ModelExt30 :: byte where [codec_consts]: "ModelExt30 = 0x30"
definition ModelExt31 :: byte where [codec_consts]: "ModelExt31 = 0x31"
definition ModelQT2 :: byte where [codec_consts]: "ModelQT2 = 0x32"
definition ModelQS2 :: byte where [codec_consts]: "ModelQS2 = 0x36"

definition PhaseFromModel :: "byte \<Rightarrow> nat" where
  "PhaseFromModel model =
     (if model \<in> {ModelYC600, ModelQS1, ModelQS1A, ModelDS3, ModelDS3H, ModelDS3L, ModelQS2} then 1
      else if model \<in> {ModelExt29, ModelExt30, ModelExt31, ModelQT2} then 3
      else 0)"

section \<open>Families\<close>

datatype family = FamilyUnknown | FamilyDS3 | FamilyQS1 | FamilyYC600 | FamilyYC1000 | FamilyQT2

definition FamilyOf :: "byte \<Rightarrow> family" where
  "FamilyOf m =
     (if m \<in> {ModelDS3, ModelDS3H, ModelDS3L, ModelQS2} then FamilyDS3
      else if m \<in> {ModelQS1, ModelQS1A} then FamilyQS1
      else if m \<in> {ModelYC600Old, ModelYC600, ModelYC600B} then FamilyYC600
      else if m = ModelYC1000 then FamilyYC1000
      else if m = ModelQT2 then FamilyQT2
      else FamilyUnknown)"

definition IsKnownModel :: "byte \<Rightarrow> bool" where
  "IsKnownModel m \<longleftrightarrow> FamilyOf m \<noteq> FamilyUnknown"

fun family_string :: "family \<Rightarrow> string" where
  "family_string FamilyDS3 = ''ds3''"
| "family_string FamilyQS1 = ''qs1''"
| "family_string FamilyYC600 = ''yc600''"
| "family_string FamilyYC1000 = ''yc1000''"
| "family_string FamilyQT2 = ''qt2''"
| "family_string FamilyUnknown = ''''"

text \<open>\<open>strings.ToUpper\<close> and \<open>strings.HasPrefix\<close> on ASCII input.\<close>

definition upper_char :: "char \<Rightarrow> char" where
  "upper_char c = (let n = of_char c :: nat in if 97 \<le> n \<and> n \<le> 122 then char_of (n - 32) else c)"

definition to_upper :: "string \<Rightarrow> string" where
  "to_upper s = map upper_char s"

fun has_prefix :: "string \<Rightarrow> string \<Rightarrow> bool" where
  "has_prefix s [] = True"
| "has_prefix [] (p # ps) = False"
| "has_prefix (c # s) (p # ps) = (c = p \<and> has_prefix s ps)"

definition FamilyForModelString :: "string \<Rightarrow> family" where
  "FamilyForModelString model =
     (if model = '''' then FamilyUnknown
      else let m = to_upper model
           in if has_prefix m ''QS1'' then FamilyQS1
              else if has_prefix m ''DS3'' \<or> has_prefix m ''DSP'' \<or> has_prefix m ''QS2'' then FamilyDS3
              else if has_prefix m ''YC600'' then FamilyYC600
              else if has_prefix m ''YC1000'' then FamilyYC1000
              else if has_prefix m ''QT2'' then FamilyQT2
              else FamilyUnknown)"

text \<open>\<open>fmt.Sprintf("unknown(0x%02X)", code)\<close> prints two upper-case hexadecimal digits.\<close>

definition unknown_label :: "byte \<Rightarrow> string" where
  "unknown_label m = ''unknown(0x'' @ to_upper (hex_string [m]) @ '')''"

definition ModelLabelForCode :: "byte \<Rightarrow> string" where
  "ModelLabelForCode m =
     (if m = ModelYC600Old \<or> m = ModelYC600 then ''YC600''
      else if m = ModelYC600B then ''YC600B''
      else if m = ModelYC1000 then ''YC1000''
      else if m = ModelQS1 then ''QS1''
      else if m = ModelQS1A then ''QS1A''
      else if m = ModelDS3 then ''DS3''
      else if m = ModelDS3H then ''DS3H''
      else if m = ModelDS3L then ''DS3L''
      else if m = ModelQS2 then ''QS2''
      else if m = ModelQT2 then ''QT2''
      else unknown_label m)"

definition BroadcastModelCodes :: "byte list" where
  "BroadcastModelCodes = sort [ModelQS1, ModelQS1A, ModelDS3, ModelDS3H, ModelDS3L, ModelQS2]"

definition NameplateWattsForModel :: "byte \<Rightarrow> nat" where
  "NameplateWattsForModel m =
     (if m \<in> {ModelYC600Old, ModelYC600, ModelYC600B} then 550
      else if m = ModelYC1000 then 900
      else if m = ModelQS1 then 1200
      else if m = ModelQS1A then 1500
      else if m = ModelDS3 then 880
      else if m = ModelDS3H then 960
      else if m = ModelDS3L then 730
      else if m = ModelQS2 then 2200
      else if m = ModelQT2 then 2000
      else if m \<in> {ModelExt29, ModelExt30, ModelExt31} then 0
      else 0)"

section \<open>How the tables agree\<close>

lemma FamilyOf_cases:
  "FamilyOf m = FamilyDS3 \<longleftrightarrow> m \<in> {ModelDS3, ModelDS3H, ModelDS3L, ModelQS2}"
  "FamilyOf m = FamilyQS1 \<longleftrightarrow> m \<in> {ModelQS1, ModelQS1A}"
  by (auto simp: FamilyOf_def codec_consts split: if_splits)

lemma BroadcastModelCodes_eq:
  "BroadcastModelCodes = [ModelQS1, ModelQS1A, ModelDS3, ModelDS3H, ModelDS3L, ModelQS2]"
  by (simp add: BroadcastModelCodes_def codec_consts)

lemma set_BroadcastModelCodes:
  "set BroadcastModelCodes = {m. FamilyOf m = FamilyDS3 \<or> FamilyOf m = FamilyQS1}"
  by (auto simp: BroadcastModelCodes_eq FamilyOf_cases)

lemma FamilyForModelString_unknown: "FamilyForModelString (unknown_label m) = FamilyUnknown"
proof -
  have "to_upper (unknown_label m) =
      to_upper ''unknown(0x'' @ to_upper (to_upper (hex_string [m]) @ '')'')"
    by (simp add: unknown_label_def to_upper_def)
  also have "to_upper ''unknown(0x'' = ''UNKNOWN(0X''" by code_simp
  finally show ?thesis by (simp add: FamilyForModelString_def unknown_label_def)
qed

definition known_models :: "byte list" where
  "known_models = [ModelYC600Old, ModelYC1000, ModelYC600, ModelQS1, ModelYC600B, ModelQS1A,
     ModelDS3, ModelDS3H, ModelDS3L, ModelQT2, ModelQS2]"

lemma known_models: "IsKnownModel m \<Longrightarrow> m \<in> set known_models"
  by (auto simp: IsKnownModel_def FamilyOf_def known_models_def split: if_splits)

lemma known_labels:
  "list_all (\<lambda>m. FamilyForModelString (ModelLabelForCode m) = FamilyOf m) known_models"
  by code_simp

text \<open>
  For every model code, the human label parses back to the code's wire family: a code
  without a pinned family has a label no family matches.
\<close>

lemma label_family_roundtrip: "FamilyForModelString (ModelLabelForCode m) = FamilyOf m"
proof (cases "IsKnownModel m")
  case True
  then show ?thesis using known_models known_labels by (auto simp: list_all_iff)
next
  case False
  then have "ModelLabelForCode m = unknown_label m" and "FamilyOf m = FamilyUnknown"
    by (auto simp: IsKnownModel_def FamilyOf_def ModelLabelForCode_def split: if_splits)
  then show ?thesis by (simp add: FamilyForModelString_unknown)
qed

end
