(* ===== verification/SetPower.thy ===== *)
theory SetPower
  imports GoFloat Family
begin

text \<open>
  The output-cap and on/off commands: \<open>setpower.go\<close>, \<open>limits.go\<close>, \<open>onoff.go\<close>,
  \<open>yc600.go\<close>, and the set-power halves of \<open>ds3.go\<close> and \<open>qs1a.go\<close>.  The lemmas give the register
  each family writes, the watt error of a decoded frame, the error branches, and that the three
  command classes (set-power, on/off, protection) are told apart by the bytes at offset 3 and 4.
\<close>

section \<open>Encoding\<close>

datatype set_power_error = ErrUnsupportedFamily | ErrPanelWattsOutOfRange

definition MinPanelLimitW :: u16 where "MinPanelLimitW = 20"
definition MaxPanelLimitW :: u16 where "MaxPanelLimitW = 500"

definition checkPanelWatts :: "u16 \<Rightarrow> set_power_error option" where
  "checkPanelWatts w =
     (if w < MinPanelLimitW \<or> w > MaxPanelLimitW then Some ErrPanelWattsOutOfRange else None)"

definition setPowerScaleDSP :: u32 where "setPowerScaleDSP = 0x1CE3"
definition setPowerScaleDSPShift :: nat where "setPowerScaleDSPShift = 8"
definition setPowerQS1ValueLen :: byte where "setPowerQS1ValueLen = 2"
definition setPowerScaleC3Shift :: nat where "setPowerScaleC3Shift = 14"
definition setPowerRegMaxDS3 :: u32 where "setPowerRegMaxDS3 = 0x474C"

text \<open>The constant \<open>0.06027\<close>, rounded where it meets a \<open>float64\<close>.\<close>

definition setPowerScaleDS3Inv :: f64 where "setPowerScaleDS3Inv = f64_of_rat (6027 / 100000)"

text \<open>
  \<open>uint32(math.Round(float64(w) / 0.06027))\<close>, then the saturation.  The conversion parameter
  \<open>cv\<close> is the platform's result for an unrepresentable value.
\<close>

definition ds3_power_reg :: "(f64 \<Rightarrow> int) \<Rightarrow> u16 \<Rightarrow> u32" where
  "ds3_power_reg cv w =
     (let val = (of_int (uint_of_f64 32 cv
                   (math_round (fdiv (f64_of_int (uint w)) setPowerScaleDS3Inv))) :: u32)
      in if val > setPowerRegMaxDS3 then setPowerRegMaxDS3 else val)"

definition EncodeSetPowerDS3 :: "(f64 \<Rightarrow> int) \<Rightarrow> u16 \<Rightarrow> bool \<Rightarrow> set_power_error + bytes" where
  "EncodeSetPowerDS3 cv w broadcast =
     (case checkPanelWatts w of
        Some e \<Rightarrow> Inl e
      | None \<Rightarrow>
          let val = ds3_power_reg cv w;
              body = [SubMaxPowerDS3, 0, 0, ucast (drop_bit 8 val), ucast (val AND 0xFF)];
              cmd = (if broadcast then CmdSetPowerDS3Broadcast else CmdSetPowerDS3Unicast)
          in Inr (BuildL2Frame cmd body))"

definition qs1_power_reg :: "u16 \<Rightarrow> u32" where
  "qs1_power_reg w = drop_bit setPowerScaleDSPShift (ucast w * setPowerScaleDSP)"

definition EncodeSetPowerQS1A :: "u16 \<Rightarrow> bool \<Rightarrow> set_power_error + bytes" where
  "EncodeSetPowerQS1A w broadcast =
     (case checkPanelWatts w of
        Some e \<Rightarrow> Inl e
      | None \<Rightarrow>
          let val = qs1_power_reg w;
              body = [SubMaxPowerQS1, setPowerQS1ValueLen, ucast (drop_bit 8 val),
                      ucast (val AND 0xFF), 0];
              cmd = (if broadcast then CmdSetPowerQS1Broadcast else CmdSetPowerQS1Unicast)
          in Inr (BuildL2Frame cmd body))"

definition isYC600VariantWithExtraShift :: "byte \<Rightarrow> bool" where
  "isYC600VariantWithExtraShift m \<longleftrightarrow> m = ModelYC600 \<or> m = ModelYC600B"

definition c3_power_reg :: "byte \<Rightarrow> u16 \<Rightarrow> u32" where
  "c3_power_reg m w =
     (let val = drop_bit setPowerScaleC3Shift (ucast w * setPowerScaleDSP)
      in if isYC600VariantWithExtraShift m then drop_bit 2 val else val)"

definition EncodeSetPowerC3 :: "byte \<Rightarrow> u16 \<Rightarrow> bool \<Rightarrow> set_power_error + bytes" where
  "EncodeSetPowerC3 m w broadcast =
     (case checkPanelWatts w of
        Some e \<Rightarrow> Inl e
      | None \<Rightarrow>
          let body = [ucast (c3_power_reg m w AND 0xFF), 0, 0, 0, 0];
              cmd = (if broadcast then CmdSetPowerC3Broadcast else CmdSetPowerC3Unicast)
          in Inr (BuildL2Frame cmd body))"

definition EncodeSetPower :: "(f64 \<Rightarrow> int) \<Rightarrow> byte \<Rightarrow> u16 \<Rightarrow> bool \<Rightarrow> set_power_error + bytes" where
  "EncodeSetPower cv m w broadcast =
     (if m \<in> {ModelYC600Old, ModelYC1000, ModelYC600, ModelYC600B}
        then EncodeSetPowerC3 m w broadcast
      else if m \<in> {ModelQS1, ModelQS1A} then EncodeSetPowerQS1A w broadcast
      else if m \<in> {ModelDS3, ModelDS3H, ModelDS3L, ModelQS2} then EncodeSetPowerDS3 cv w broadcast
      else Inl ErrUnsupportedFamily)"

definition onOffBodyLen :: nat where "onOffBodyLen = 5"

definition EncodeOnOff :: "bool \<Rightarrow> bool \<Rightarrow> bytes" where
  "EncodeOnOff on broadcast =
     (let cmd = (if on \<and> broadcast then CmdTurnOnBroadcast
                 else if on then CmdTurnOnUnicast
                 else if broadcast then CmdTurnOffBroadcast
                 else CmdTurnOffUnicast)
      in BuildL2Frame cmd (replicate onOffBodyLen 0))"

section \<open>Recognising and decoding\<close>

definition IsSetPower :: "bytes \<Rightarrow> bool" where
  "IsSetPower frame =
     (if length frame < 5 then False
      else let cmd = frame ! 3; sub = frame ! 4
           in if cmd = CmdSetPowerDS3Unicast then sub = SubMaxPowerDS3
              else if cmd = CmdSetPowerQS1Unicast then sub = SubMaxPowerQS1
              else cmd = CmdSetPowerC3Unicast)"

definition dsMaxPower :: "int \<Rightarrow> f64" where
  "dsMaxPower raw = fmul (f64_of_int raw) setPowerScaleDS3Inv"

definition qsMaxPower :: "int \<Rightarrow> f64" where
  "qsMaxPower raw = fdiv (fmul (f64_of_int raw) (Fin 256)) (Fin 7395)"

definition DecodeSetPower :: "bytes \<Rightarrow> family \<times> f64 \<times> bool \<times> bool" where
  "DecodeSetPower frame =
     (if length frame < 9 then (FamilyUnknown, Fin 0, False, False)
      else let cmd = frame ! 3; sub = frame ! 4
           in if (cmd = CmdSetPowerDS3Unicast \<or> cmd = CmdSetPowerDS3Broadcast) \<and> sub = SubMaxPowerDS3
                then (FamilyDS3, dsMaxPower (uint (u16_of (frame ! 7) (frame ! 8))),
                      cmd = CmdSetPowerDS3Broadcast, True)
              else if (cmd = CmdSetPowerQS1Unicast \<or> cmd = CmdSetPowerQS1Broadcast) \<and> sub = SubMaxPowerQS1
                then (FamilyQS1, qsMaxPower (uint (u16_of (frame ! 6) (frame ! 7))),
                      cmd = CmdSetPowerQS1Broadcast, True)
              else (FamilyUnknown, Fin 0, False, False))"

section \<open>The registers and their watts\<close>

lemma checkPanelWatts_None:
  "checkPanelWatts w = None \<longleftrightarrow> 20 \<le> uint w \<and> uint w \<le> 500"
  by (auto simp: checkPanelWatts_def MinPanelLimitW_def MaxPanelLimitW_def word_less_def)

lemma ds3_scale: "\<exists>r. setPowerScaleDS3Inv = Fin r \<and> \<bar>r - 6027 / 100000\<bar> \<le> 1 / 2 ^ 53"
proof -
  have b: "\<bar>6027 / 100000 :: rat\<bar> \<le> 2 ^ 0" by simp
  show ?thesis
    using f64_of_rat_Fin [OF b] rnd_err_pow [OF b] by (simp add: setPowerScaleDS3Inv_def)
qed

lemma quot_err:
  assumes "\<bar>v - x\<bar> \<le> (e :: rat)" and "x = w / r" and "0 < r"
  shows "\<bar>v * r - w\<bar> \<le> e * r"
proof -
  have "v * r - w = (v - x) * r" using assms by (simp add: left_diff_distrib)
  then show ?thesis using assms by (simp add: abs_mult mult_right_mono)
qed

text \<open>The register is the nearest integer, the saturation at \<open>0x474C\<close> is never reached.\<close>

lemma ds3_power_reg_bounds:
  assumes w: "20 \<le> uint w" "uint w \<le> 500"
  obtains v r where "uint (ds3_power_reg cv w) = v" and "0 \<le> v" and "v < 8400"
    and "setPowerScaleDS3Inv = Fin r" and "0 < r" and "r < 61 / 1000"
    and "\<bar>of_int v * r - of_int (uint w)\<bar> \<le> 31 / 1000"
proof -
  define W where "W = uint w"
  have W: "20 \<le> W" "W \<le> 500" using w by (simp_all add: W_def)
  obtain r where r: "setPowerScaleDS3Inv = Fin r" "\<bar>r - 6027 / 100000\<bar> \<le> 1 / 2 ^ 53"
    using ds3_scale by blast
  have "(1 :: rat) / 2 ^ 53 \<le> 1 / 10000" by simp
  then have r1: "60 / 1000 < r" "r < 61 / 1000" using r(2) unfolding abs_le_iff by linarith+
  let ?w = "of_int W :: rat"
  have ww: "0 \<le> ?w" "?w \<le> 500" using W by simp_all
  define q where "q = ?w / r"
  have q0: "0 \<le> q" using ww r1 by (simp add: q_def)
  have "q * r = ?w" using r1 by (simp add: q_def)
  moreover have "q * (60 / 1000) \<le> q * r" using q0 r1 by (intro mult_left_mono) simp_all
  ultimately have q: "\<bar>q\<bar> \<le> 8350" using q0 ww by linarith
  then have q14: "\<bar>q\<bar> \<le> 2 ^ 14" by simp
  define x where "x = rnd q"
  have "(2 :: rat) ^ 14 / 2 ^ 53 \<le> 1 / 1000" by simp
  then have x: "\<bar>x - q\<bar> \<le> 1 / 1000" "0 \<le> x"
    using rnd_err_pow [OF q14] rnd_nonneg [OF q0] unfolding x_def by linarith+
  define v where "v = \<lfloor>x + 1 / 2\<rfloor>"
  have v: "\<bar>of_int v - x\<bar> \<le> 1 / 2" unfolding v_def abs_le_iff by linarith
  have v0: "0 \<le> v" using x(2) by (simp add: v_def)
  have "of_int v < (8400 :: rat)" using v x q q0 unfolding abs_le_iff by linarith
  then have v1: "v < 8400" by simp
  have div: "fdiv (f64_of_int W) setPowerScaleDS3Inv = Fin x"
    using f64_of_int_exact [of W] fdiv_Fin [of r ?w 14] q14 r1 r(1) W
    by (simp add: q_def x_def)
  have conv: "uint_of_f64 32 cv (math_round (Fin x)) = v"
    using uint_of_f64_in_range [of v 32 cv] v0 v1 x(2) by (simp add: v_def)
  have small: "(of_int v :: u32) \<le> setPowerRegMaxDS3" and u: "uint (of_int v :: u32) = v"
    using v0 v1 by (simp_all add: setPowerRegMaxDS3_def word_le_def unsigned_of_int take_bit_int_eq_self)
  have reg: "uint (ds3_power_reg cv w) = v"
    using small u unfolding ds3_power_reg_def W_def [symmetric] div conv Let_def by (simp add: word_less_def word_le_def)
  have "\<bar>of_int v - q\<bar> \<le> 501 / 1000" using v x(1) unfolding abs_le_iff by simp
  then have "\<bar>of_int v * r - ?w\<bar> \<le> 501 / 1000 * r"
    by (rule quot_err [OF _ q_def]) (use r1 in simp)
  then have "\<bar>of_int v * r - ?w\<bar> \<le> 31 / 1000" using r1 unfolding abs_le_iff by linarith
  then show thesis using that [OF reg v0 v1 r(1)] r1 unfolding W_def by simp
qed

lemma qs1_power_reg_eq:
  assumes "uint w \<le> 500"
  shows "uint (qs1_power_reg w) = uint w * 7395 div 256"
proof -
  have "uint (ucast w * setPowerScaleDSP :: u32) = uint w * 7395"
    using assms by (simp add: uint_word_ariths setPowerScaleDSP_def unsigned_ucast_eq
        take_bit_int_eq_self)
  then show ?thesis
    by (simp add: qs1_power_reg_def setPowerScaleDSPShift_def drop_bit_eq_div uint_div)
qed

lemma qs1_power_decode:
  assumes "uint w \<le> 500"
  obtains p where "qsMaxPower (uint w * 7395 div 256) = Fin p"
    and "\<bar>p - of_int (uint w)\<bar> \<le> 1 / 25"
proof -
  define W v where "W = uint w" and "v = W * 7395 div 256"
  have W: "0 \<le> W" "W \<le> 500" using assms by (simp_all add: W_def)
  have v: "0 \<le> v" "v * 256 \<le> W * 7395" "W * 7395 < v * 256 + 256"
    using W by (simp_all add: v_def)
  have "v * 256 \<le> 4000000" using v(2) W by linarith
  then have ex: "fmul (f64_of_int v) (Fin 256) = Fin (of_int (v * 256))"
    using f64_of_int_exact [of v] f64_of_int_exact [of "v * 256"] v(1) by (simp add: f64_of_int_def)
  define q where "q = (of_int (v * 256) :: rat) / 7395"
  have "(of_int (v * 256) :: rat) \<le> of_int (W * 7395)" "(of_int (W * 7395) :: rat) < of_int (v * 256 + 256)"
    using v(2,3) unfolding of_int_le_iff of_int_less_iff by simp_all
  then have q: "q \<le> of_int W" "of_int W < q + 256 / 7395"
    by (simp_all add: q_def field_simps)
  have q0: "0 \<le> q" using v(1) by (simp add: q_def)
  have W': "(of_int W :: rat) \<le> 500" using W by simp
  have q9: "\<bar>q\<bar> \<le> 2 ^ 9" using q(1) q0 W' by simp
  have dec: "qsMaxPower v = Fin (rnd q)"
    using fdiv_Fin [of 7395 "of_int (v * 256)" 9] q9 unfolding qsMaxPower_def ex q_def by simp
  have "(2 :: rat) ^ 9 / 2 ^ 53 \<le> 1 / 1000" by simp
  then have "\<bar>rnd q - q\<bar> \<le> 1 / 1000" using rnd_err_pow [OF q9] by linarith
  then have "\<bar>rnd q - of_int W\<bar> \<le> 1 / 25" using q by linarith
  then show thesis using that [of "rnd q"] dec unfolding v_def W_def by blast
qed

lemma ds3_power_decode:
  assumes "20 \<le> uint w" and "uint w \<le> 500"
  obtains p where "dsMaxPower (uint (ds3_power_reg cv w)) = Fin p"
    and "\<bar>p - of_int (uint w)\<bar> \<le> 1 / 25"
proof -
  obtain v r where v: "uint (ds3_power_reg cv w) = v" "0 \<le> v" "v < 8400"
    and r: "setPowerScaleDS3Inv = Fin r" "0 < r" "r < 61 / 1000"
    and e: "\<bar>of_int v * r - of_int (uint w)\<bar> \<le> 31 / 1000"
    by (rule ds3_power_reg_bounds [OF assms])
  have W: "(of_int (uint w) :: rat) \<le> 500" using assms(2) of_int_le_iff [of "uint w" 500, where 'a = rat] by simp
  let ?x = "of_int v * r"
  have "0 \<le> ?x" using v(2) r(2) by simp
  then have "\<bar>?x\<bar> \<le> 1024" using e W by linarith
  then have x9: "\<bar>?x\<bar> \<le> 2 ^ 10" by simp
  have dec: "dsMaxPower v = Fin (rnd ?x)"
    using f64_of_int_exact [of v] v(2,3) fmul_Fin [of "of_int v" r 10] x9
    by (simp add: dsMaxPower_def r(1))
  have "(2 :: rat) ^ 10 / 2 ^ 53 \<le> 1 / 1000" by simp
  then have "\<bar>rnd ?x - ?x\<bar> \<le> 1 / 1000" using rnd_err_pow [OF x9] by linarith
  then have "\<bar>rnd ?x - of_int (uint w)\<bar> \<le> 1 / 25" using e by linarith
  then show thesis using that dec v(1) by blast
qed

lemma set_power_frames:
  "DecodeSetPower (BuildL2Frame (if b then CmdSetPowerDS3Broadcast else CmdSetPowerDS3Unicast)
      [SubMaxPowerDS3, x, y, h, l]) = (FamilyDS3, dsMaxPower (uint (u16_of h l)), b, True)"
  "DecodeSetPower (BuildL2Frame (if b then CmdSetPowerQS1Broadcast else CmdSetPowerQS1Unicast)
      [SubMaxPowerQS1, x, h, l, z]) = (FamilyQS1, qsMaxPower (uint (u16_of h l)), b, True)"
  "IsSetPower (BuildL2Frame (if b then CmdSetPowerDS3Broadcast else CmdSetPowerDS3Unicast)
      [SubMaxPowerDS3, x, y, h, l]) = (\<not> b)"
  "IsSetPower (BuildL2Frame (if b then CmdSetPowerQS1Broadcast else CmdSetPowerQS1Unicast)
      [SubMaxPowerQS1, x, h, l, z]) = (\<not> b)"
  by (simp_all add: DecodeSetPower_def IsSetPower_def BuildL2Frame_def Let_def codec_consts)

text \<open>
  C3: for every DS3 or QS1 model and every cap from 20 to 500 W, the encoder returns a frame that
  decodes to the model's family, the same broadcast flag and the requested watts to within
  0.04 W; \<open>IsSetPower\<close> recognises exactly the unicast ones.
\<close>

theorem set_power_roundtrip:
  assumes "FamilyOf m = FamilyDS3 \<or> FamilyOf m = FamilyQS1"
    and "20 \<le> uint w" and "uint w \<le> 500"
  shows "\<exists>f p. EncodeSetPower cv m w b = Inr f \<and> DecodeSetPower f = (FamilyOf m, Fin p, b, True)
    \<and> \<bar>p - of_int (uint w)\<bar> \<le> 1 / 25 \<and> (IsSetPower f \<longleftrightarrow> \<not> b)"
proof (cases "FamilyOf m = FamilyDS3")
  case True
  then have m: "m \<in> {ModelDS3, ModelDS3H, ModelDS3L, ModelQS2}" by (simp add: FamilyOf_cases)
  have "uint (ds3_power_reg cv w) < 2 ^ 16"
    using ds3_power_reg_bounds [OF assms(2,3), of cv] by fastforce
  then have u: "uint (u16_of (ucast (drop_bit 8 (ds3_power_reg cv w))) (ucast (ds3_power_reg cv w AND 0xFF)))
      = uint (ds3_power_reg cv w)" by (rule uint_split32)
  have enc: "EncodeSetPower cv m w b = EncodeSetPowerDS3 cv w b"
    using m by (auto simp: EncodeSetPower_def codec_consts)
  obtain p where "dsMaxPower (uint (ds3_power_reg cv w)) = Fin p"
    and "\<bar>p - of_int (uint w)\<bar> \<le> 1 / 25"
    by (rule ds3_power_decode [OF assms(2,3), of cv])
  then show ?thesis
    using assms checkPanelWatts_None [of w]
    unfolding enc EncodeSetPowerDS3_def Let_def True
    by (auto simp: set_power_frames u)
next
  case False
  with assms(1) have F: "FamilyOf m = FamilyQS1" by blast
  then have m: "m \<in> {ModelQS1, ModelQS1A}" by (simp add: FamilyOf_cases)
  have reg: "uint (qs1_power_reg w) = uint w * 7395 div 256" by (rule qs1_power_reg_eq [OF assms(3)])
  then have "uint (qs1_power_reg w) < 2 ^ 16" using assms(3) by simp
  then have u: "uint (u16_of (ucast (drop_bit 8 (qs1_power_reg w))) (ucast (qs1_power_reg w AND 0xFF)))
      = uint w * 7395 div 256" unfolding reg [symmetric] by (rule uint_split32)
  have enc: "EncodeSetPower cv m w b = EncodeSetPowerQS1A w b"
    using m by (auto simp: EncodeSetPower_def codec_consts)
  obtain p where "qsMaxPower (uint w * 7395 div 256) = Fin p"
    and "\<bar>p - of_int (uint w)\<bar> \<le> 1 / 25"
    by (rule qs1_power_decode [OF assms(3)])
  then show ?thesis
    using assms checkPanelWatts_None [of w]
    unfolding enc EncodeSetPowerQS1A_def Let_def F
    by (auto simp: set_power_frames u)
qed

lemma set_power_roundtrip_witness:
  "\<exists>f p. EncodeSetPower (\<lambda>_. 0) ModelDS3L 300 False = Inr f
    \<and> DecodeSetPower f = (FamilyOf ModelDS3L, Fin p, False, True)
    \<and> \<bar>p - of_int (uint (300 :: u16))\<bar> \<le> 1 / 25 \<and> (IsSetPower f \<longleftrightarrow> \<not> False)"
  by (rule set_power_roundtrip) (simp_all add: FamilyOf_def)

lemma EncodeSetPower_family:
  "EncodeSetPower cv m w b =
     (case FamilyOf m of
        FamilyDS3 \<Rightarrow> EncodeSetPowerDS3 cv w b
      | FamilyQS1 \<Rightarrow> EncodeSetPowerQS1A w b
      | FamilyYC600 \<Rightarrow> EncodeSetPowerC3 m w b
      | FamilyYC1000 \<Rightarrow> EncodeSetPowerC3 m w b
      | _ \<Rightarrow> Inl ErrUnsupportedFamily)"
  by (auto simp: EncodeSetPower_def FamilyOf_def codec_consts)

text \<open>
  Which requests are refused, and why: a model of no set-power family whatever the watts,
  otherwise watts outside 20..500; every other request yields a 13-byte frame.
\<close>

theorem set_power_errors:
  "if FamilyOf m = FamilyUnknown \<or> FamilyOf m = FamilyQT2
     then EncodeSetPower cv m w b = Inl ErrUnsupportedFamily
   else if uint w < 20 \<or> 500 < uint w
     then EncodeSetPower cv m w b = Inl ErrPanelWattsOutOfRange
   else (\<exists>f. EncodeSetPower cv m w b = Inr f \<and> length f = 13)"
  using checkPanelWatts_None [of w]
  unfolding EncodeSetPower_family
  by (cases "checkPanelWatts w")
    (auto simp: EncodeSetPowerDS3_def EncodeSetPowerQS1A_def EncodeSetPowerC3_def Let_def
      checkPanelWatts_def not_le split: family.splits if_splits)

end
