(* ===== verification/Protection.thy ===== *)
theory Protection
  imports SetPower
begin

text \<open>
  The grid-protection writes: \<open>protection.go\<close> and the encoders of \<open>ds3.go\<close> and \<open>qs1a.go\<close>.  A
  parameter is named by its long-form string, a value is a \<open>float64\<close> in native units, and the
  result is the list of L2 frames to send.  The lemmas: what every emitted frame looks like and
  that it is recognised as a protection write and as nothing else, how the broadcast frames
  relate to the unicast ones, and which values are refused.
  The conversion parameter \<open>cv\<close> gives the platform's result for a float that the target
  integer cannot hold (\<open>cv 32\<close> for \<open>int\<close> on the 32-bit target, \<open>cv 64\<close> for \<open>int64\<close>).
\<close>

type_synonym conv = "nat \<Rightarrow> f64 \<Rightarrow> int"

section \<open>Errors\<close>

text \<open>The first three have no sentinel in the code: they are the bare formatted errors.\<close>

datatype prot_error =
    ErrNonPositive
  | ErrOutsideEnvelope
  | ErrWireRange
  | ErrUnsupportedProtectionFamily
  | ErrUnsupportedProtectionParam
  | ErrUnsupportedBroadcastParam

section \<open>The physical envelope\<close>

text \<open>\<open>strings.ToLower\<close> and \<open>strings.Contains\<close> on ASCII input.\<close>

definition lower_char :: "char \<Rightarrow> char" where
  "lower_char c = (let n = of_char c :: nat in if 65 \<le> n \<and> n \<le> 90 then char_of (n + 32) else c)"

definition to_lower :: "string \<Rightarrow> string" where
  "to_lower s = map lower_char s"

fun contains :: "string \<Rightarrow> string \<Rightarrow> bool" where
  "contains [] sub = (sub = [])"
| "contains (c # s) sub = (has_prefix (c # s) sub \<or> contains s sub)"

definition protMinVolt :: rat where "protMinVolt = 100"
definition protMaxVolt :: rat where "protMaxVolt = 600"
definition protMinHz :: rat where "protMinHz = 40"
definition protMaxHz :: rat where "protMaxHz = 70"
definition protMaxSeconds :: rat where "protMaxSeconds = 1000"
definition protMaxSlope :: rat where "protMaxSlope = 200"

definition protPhysicalRange :: "string \<Rightarrow> (rat \<times> rat) option" where
  "protPhysicalRange p =
     (if p = ''Over_frequency_Watt_set'' then None
      else let n = to_lower p
           in if contains n ''time'' then Some (0, protMaxSeconds)
              else if contains n ''slope'' then Some (0, protMaxSlope)
              else if contains n ''bus'' then None
              else if contains n ''frequency'' then Some (protMinHz, protMaxHz)
              else if contains n ''voltage'' \<or> contains n ''vmax'' then Some (protMinVolt, protMaxVolt)
              else None)"

definition validateProtectionEnvelope :: "string \<Rightarrow> f64 \<Rightarrow> prot_error option" where
  "validateProtectionEnvelope p v =
     (case protPhysicalRange p of
        None \<Rightarrow> None
      | Some (lo, hi) \<Rightarrow> if flt v (Fin lo) \<or> flt (Fin hi) v then Some ErrOutsideEnvelope else None)"

section \<open>DS3\<close>

definition ds3GridVScale :: rat where "ds3GridVScale = 268 / 1000"
definition ds3ProtFreqScale :: f64 where "ds3ProtFreqScale = Fin 100"
definition ds3ProtSlopeScale :: f64 where "ds3ProtSlopeScale = f64_of_rat (1023 * 16 * (1 / 100))"
definition ds3ProtRecoveryScale :: f64 where "ds3ProtRecoveryScale = Fin 50"
definition ds3VoltWriteScale :: f64 where "ds3VoltWriteScale = f64_of_rat (1 / ds3GridVScale)"
definition ds3ClearTimeScale :: f64 where "ds3ClearTimeScale = Fin 100"

definition ds3ScaleHz :: "conv \<Rightarrow> f64 \<Rightarrow> int" where
  "ds3ScaleHz cv v = int_of_f64 64 (cv 64) (fmul v ds3ProtFreqScale)"

definition ds3ScaleSlope :: "conv \<Rightarrow> f64 \<Rightarrow> int" where
  "ds3ScaleSlope cv v = int_of_f64 64 (cv 64) (fmul v ds3ProtSlopeScale)"

definition ds3RoundSec :: "conv \<Rightarrow> f64 \<Rightarrow> int" where
  "ds3RoundSec cv v = int_of_f64 64 (cv 64) (fadd v (Fin (1 / 2)))"

definition ds3RecoverySec :: "conv \<Rightarrow> f64 \<Rightarrow> int" where
  "ds3RecoverySec cv v = int_of_f64 64 (cv 64) (fmul v ds3ProtRecoveryScale)"

definition ds3ModeEnum :: "conv \<Rightarrow> f64 \<Rightarrow> int" where
  "ds3ModeEnum cv v =
     (let m = int_of_f64 32 (cv 32) v
      in if m = 0xF then 0 else if m = 3 \<or> m = 4 \<or> m = 0xD then 1 else 2)"

definition ds3ScaleVolt :: "conv \<Rightarrow> f64 \<Rightarrow> int" where
  "ds3ScaleVolt cv v = int_of_f64 64 (cv 64) (fmul v ds3VoltWriteScale)"

definition ds3ScaleClear :: "conv \<Rightarrow> f64 \<Rightarrow> int" where
  "ds3ScaleClear cv v = int_of_f64 64 (cv 64) (fmul v ds3ClearTimeScale)"

type_synonym ds3ProtParam = "byte \<times> (conv \<Rightarrow> f64 \<Rightarrow> int)"

definition ds3ProtParams :: "(string \<times> ds3ProtParam) list" where
  "ds3ProtParams =
    [(''Over_frequency_Watt_Low_set'', 0x2B, ds3ScaleHz),
     (''Over_frequency_Watt_High_set'', 0x2A, ds3ScaleHz),
     (''Under_Frequency_Watt_Low_set'', 0x56, ds3ScaleHz),
     (''Under_Frequency_Watt_High_set'', 0x55, ds3ScaleHz),
     (''Over_Frequency_Watt_Slope_set'', 0x2D, ds3ScaleSlope),
     (''Over_frequency_Watt_Delay_Time_set'', 0x2E, ds3RoundSec),
     (''Over_frequency_Watt_set'', 0x28, ds3ModeEnum),
     (''grid_recovery_time'', 0x25, ds3RecoverySec),
     (''over_voltage_fast'', 0x01, ds3ScaleVolt),
     (''under_voltage_fast'', 0x02, ds3ScaleVolt),
     (''over_voltage_slow'', 0x03, ds3ScaleVolt),
     (''under_voltage_stage_2'', 0x04, ds3ScaleVolt),
     (''over_voltage_slow_90'', 0x05, ds3ScaleVolt),
     (''under_voltage_stage_2_90'', 0x06, ds3ScaleVolt),
     (''over_frequency_fast'', 0x09, ds3ScaleHz),
     (''under_frequency_fast'', 0x0a, ds3ScaleHz),
     (''over_frequency_slow'', 0x0b, ds3ScaleHz),
     (''under_frequency_slow'', 0x0c, ds3ScaleHz),
     (''Over_Voltage1_clearance_time'', 0x0f, ds3ScaleClear),
     (''Under_Voltage1_clearance_time'', 0x10, ds3ScaleClear),
     (''Over_Voltage2_clearance_time'', 0x11, ds3ScaleClear),
     (''Under_Voltage2_clearance_time'', 0x12, ds3ScaleClear),
     (''Over_Frequency1_clearance_time'', 0x15, ds3ScaleClear),
     (''Under_Frequency1_clearance_time'', 0x16, ds3ScaleClear),
     (''Over_Frequency2_clearance_time'', 0x17, ds3ScaleClear),
     (''Under_Frequency2_clearance_time'', 0x18, ds3ScaleClear),
     (''min10_Over_average_voltage'', 0x42, ds3ScaleVolt),
     (''Reconnection_over_frequency'', 0x23, ds3ScaleHz),
     (''Reconnection_under_frequency'', 0x24, ds3ScaleHz)]"

definition encodeProtectionDS3 ::
  "conv \<Rightarrow> string \<Rightarrow> f64 \<Rightarrow> byte \<Rightarrow> prot_error + bytes list" where
  "encodeProtectionDS3 cv p v opcode =
     (case map_of ds3ProtParams p of
        None \<Rightarrow> Inl ErrUnsupportedProtectionParam
      | Some (sub, toWire) \<Rightarrow>
          let wire = toWire cv v
          in if wire < 0 \<or> wire > 0xFFFF then Inl ErrWireRange
             else Inr [BuildL2Frame opcode [sub, 0, 0, of_int (wire div 256), of_int wire]])"

definition isDS3ProtectionWrite :: "byte \<Rightarrow> byte \<Rightarrow> bool" where
  "isDS3ProtectionWrite cmd sub \<longleftrightarrow> cmd = CmdSetPowerDS3Unicast \<and> sub \<noteq> SubMaxPowerDS3"

section \<open>QS1\<close>

definition QS1YC600ProtCmds :: "byte list" where
  "QS1YC600ProtCmds =
     [0x11, 0x12, 0x13, 0x14, 0x57, 0x58, 0x59, 0x5a, CmdGridRecoveryQS1]"

definition isQS1ProtectionWrite :: "byte \<Rightarrow> byte \<Rightarrow> bool" where
  "isQS1ProtectionWrite cmd sub \<longleftrightarrow>
     (cmd = CmdSetPowerQS1Unicast \<and> sub \<noteq> SubMaxPowerQS1) \<or> cmd \<in> set QS1YC600ProtCmds"

definition qsProtVoltDenom :: rat where "qsProtVoltDenom = 1332 / 1000"
definition qs1VoltTripWriteScale :: f64 where "qs1VoltTripWriteScale = f64_of_rat (qsProtVoltDenom * 4)"
definition qs1ClearTimeWriteScale :: f64 where "qs1ClearTimeWriteScale = Fin 100"
definition qs1AvgOvWriteScale :: f64 where "qs1AvgOvWriteScale = f64_of_rat (qsProtVoltDenom * 600 * 4)"
definition protRecoveryScaleQS1 :: f64 where "protRecoveryScaleQS1 = Fin 100"
definition qs1aFreqDivBy :: f64 where "qs1aFreqDivBy = Fin 50000000"

definition qs1ProtFreqSubs :: "(string \<times> byte) list" where
  "qs1ProtFreqSubs =
    [(''Over_frequency_Watt_Start_set'', 0x62), (''Over_frequency_Watt_Low_set'', 0x68),
     (''Over_frequency_Watt_High_set'', 0x65), (''Under_Frequency_Watt_Low_set'', 0xA1),
     (''Under_Frequency_Watt_High_set'', 0xA4), (''Reconnection_over_frequency'', 0x4e),
     (''Reconnection_under_frequency'', 0x51)]"

definition qs1VoltTripSubs :: "(string \<times> byte) list" where
  "qs1VoltTripSubs = [(''over_voltage_fast'', 0x90), (''under_voltage_fast'', 0x8e)]"

definition qs1VoltTripSubsYC600 :: "(string \<times> byte) list" where
  "qs1VoltTripSubsYC600 =
    [(''under_voltage_stage_2'', 0x11), (''over_voltage_slow'', 0x12),
     (''under_voltage_stage_2_90'', 0x13), (''over_voltage_slow_90'', 0x14)]"

definition qs1FreqTripSubsYC600 :: "(string \<times> byte) list" where
  "qs1FreqTripSubsYC600 =
    [(''under_frequency_fast'', 0x58), (''over_frequency_fast'', 0x57),
     (''under_frequency_slow'', 0x5a), (''over_frequency_slow'', 0x59)]"

definition qs1ClearTimeSubs :: "(string \<times> byte) list" where
  "qs1ClearTimeSubs =
    [(''Under_Voltage1_clearance_time'', 0x36), (''Over_Voltage1_clearance_time'', 0x38),
     (''Under_Voltage2_clearance_time'', 0x3A), (''Over_Voltage2_clearance_time'', 0x3C),
     (''Under_Frequency1_clearance_time'', 0x3E), (''Over_Frequency1_clearance_time'', 0x40),
     (''Under_Frequency2_clearance_time'', 0x42), (''Over_Frequency2_clearance_time'', 0x44)]"

definition isQS1YC600BuilderParam :: "string \<Rightarrow> bool" where
  "isQS1YC600BuilderParam p \<longleftrightarrow>
     p = ''grid_recovery_time'' \<or> map_of qs1VoltTripSubsYC600 p \<noteq> None
     \<or> map_of qs1FreqTripSubsYC600 p \<noteq> None"

text \<open>The two frame builders; a width other than 3 is the two-byte form.\<close>

definition qs1NewOneBody :: "byte \<Rightarrow> int \<Rightarrow> byte \<Rightarrow> bytes" where
  "qs1NewOneBody sub wire width =
     (if width = 3 then [sub, 3, of_int (wire div 2 ^ 16), of_int (wire div 2 ^ 8), of_int wire]
      else [sub, 2, of_int (wire div 2 ^ 8), of_int wire, 0])"

definition qs1YC600Frame :: "byte \<Rightarrow> int \<Rightarrow> byte \<Rightarrow> bytes" where
  "qs1YC600Frame sub wire width =
     (if width = 3 then BuildL2Frame sub [of_int (wire div 2 ^ 16), of_int (wire div 2 ^ 8), of_int wire, 0, 0]
      else BuildL2Frame sub [of_int (wire div 2 ^ 8), of_int wire, 0, 0, 0])"

definition qs1ModeFrame :: "byte \<Rightarrow> byte \<Rightarrow> byte \<Rightarrow> bytes" where
  "qs1ModeFrame opcode sub v = BuildL2Frame opcode [sub, 1, v, 0, 0]"

definition qs1ModeFrames :: "conv \<Rightarrow> f64 \<Rightarrow> byte \<Rightarrow> bytes list" where
  "qs1ModeFrames cv value opcode =
     (let mode = int_of_f64 32 (cv 32) value
      in if mode = 0xF
           then [qs1ModeFrame opcode 0x5F 0x30, qs1ModeFrame opcode 0x5F 0x0F, qs1ModeFrame opcode 0x99 0x00]
         else if mode = 3 \<or> mode = 4 \<or> mode = 0xD
           then [qs1ModeFrame opcode 0x5F 0x10,
                 qs1ModeFrame opcode 0x5F (if mode = 0xD then 4 else of_int mode),
                 qs1ModeFrame opcode 0x99 0x01]
         else [qs1ModeFrame opcode 0x5F 0x20,
               qs1ModeFrame opcode 0x5F (if mode = 0xE then 1 else of_int mode)])"

definition encodeProtectionQS1A ::
  "conv \<Rightarrow> string \<Rightarrow> f64 \<Rightarrow> byte \<Rightarrow> prot_error + bytes list" where
  "encodeProtectionQS1A cv p v opcode =
     (case map_of qs1ProtFreqSubs p of
        Some sub \<Rightarrow>
          let wire = int_of_f64 64 (cv 64) (fdiv qs1aFreqDivBy v)
          in if wire < 0 \<or> wire > 0xFFFFFF then Inl ErrWireRange
             else Inr [BuildL2Frame opcode (qs1NewOneBody sub wire 3)]
      | None \<Rightarrow>
     (case map_of qs1VoltTripSubs p of
        Some sub \<Rightarrow>
          let wire = int_of_f64 64 (cv 64) (fmul v qs1VoltTripWriteScale)
          in if wire < 0 \<or> wire > 0xFFFF then Inl ErrWireRange
             else Inr [BuildL2Frame opcode (qs1NewOneBody sub wire 2)]
      | None \<Rightarrow>
     (case map_of qs1VoltTripSubsYC600 p of
        Some sub \<Rightarrow>
          let wire = int_of_f64 64 (cv 64) (fmul v qs1VoltTripWriteScale)
          in if wire < 0 \<or> wire > 0xFFFF then Inl ErrWireRange
             else Inr [qs1YC600Frame sub wire 2]
      | None \<Rightarrow>
     (case map_of qs1FreqTripSubsYC600 p of
        Some sub \<Rightarrow>
          let wire = int_of_f64 64 (cv 64) (fdiv qs1aFreqDivBy v)
          in if wire < 0 \<or> wire > 0xFFFFFF then Inl ErrWireRange
             else Inr [qs1YC600Frame sub wire 3]
      | None \<Rightarrow>
     (case map_of qs1ClearTimeSubs p of
        Some sub \<Rightarrow>
          let wire = int_of_f64 64 (cv 64) (fmul v qs1ClearTimeWriteScale)
          in if wire < 0 \<or> wire > 0xFFFF then Inl ErrWireRange
             else Inr [BuildL2Frame opcode (qs1NewOneBody sub wire 2)]
      | None \<Rightarrow>
        if p = ''min10_Over_average_voltage'' then
          let wire = int_of_f64 64 (cv 64) (fmul v qs1AvgOvWriteScale)
          in if wire < 0 \<or> wire > 0xFFFFFF then Inl ErrWireRange
             else Inr [BuildL2Frame opcode (qs1NewOneBody 0x7d wire 3)]
        else if p = ''Over_frequency_Watt_set'' then
          let mode = int_of_f64 32 (cv 32) v
          in if mode < 0 \<or> mode > 0xFF then Inl ErrWireRange
             else Inr (qs1ModeFrames cv v opcode)
        else if p = ''grid_recovery_time'' then
          let wire = int_of_f64 64 (cv 64) (fmul v protRecoveryScaleQS1)
          in if wire < 0 \<or> wire > 0xFFFF then Inl ErrWireRange
             else Inr [qs1YC600Frame CmdGridRecoveryQS1 wire 2]
        else Inl ErrUnsupportedProtectionParam)))))"

section \<open>The dispatchers\<close>

definition IsProtectionWrite :: "bytes \<Rightarrow> bool" where
  "IsProtectionWrite frame =
     (if length frame < 5 then False
      else isDS3ProtectionWrite (frame ! 3) (frame ! 4) \<or> isQS1ProtectionWrite (frame ! 3) (frame ! 4))"

definition EncodeSetProtection ::
  "conv \<Rightarrow> byte \<Rightarrow> string \<Rightarrow> f64 \<Rightarrow> prot_error + bytes list" where
  "EncodeSetProtection cv m p v =
     (if fle v (Fin 0) then Inl ErrNonPositive
      else case validateProtectionEnvelope p v of
        Some e \<Rightarrow> Inl e
      | None \<Rightarrow>
          if m \<in> {ModelDS3, ModelDS3H, ModelDS3L, ModelQS2}
            then encodeProtectionDS3 cv p v CmdSetPowerDS3Unicast
          else if m \<in> {ModelQS1, ModelQS1A}
            then encodeProtectionQS1A cv p v CmdSetPowerQS1Unicast
          else Inl ErrUnsupportedProtectionFamily)"

definition EncodeSetProtectionBroadcast ::
  "conv \<Rightarrow> byte \<Rightarrow> string \<Rightarrow> f64 \<Rightarrow> prot_error + bytes list" where
  "EncodeSetProtectionBroadcast cv m p v =
     (if fle v (Fin 0) then Inl ErrNonPositive
      else case validateProtectionEnvelope p v of
        Some e \<Rightarrow> Inl e
      | None \<Rightarrow>
          if m \<in> {ModelDS3, ModelDS3H, ModelDS3L, ModelQS2}
            then encodeProtectionDS3 cv p v CmdSetPowerDS3Broadcast
          else if m \<in> {ModelQS1, ModelQS1A} then
            if isQS1YC600BuilderParam p then Inl ErrUnsupportedBroadcastParam
            else if p = ''Over_frequency_Watt_set'' then Inl ErrUnsupportedBroadcastParam
            else encodeProtectionQS1A cv p v CmdSetPowerQS1Broadcast
          else Inl ErrUnsupportedProtectionFamily)"

section \<open>The shape of the emitted frames\<close>

text \<open>
  A table lookup that succeeds returns an entry of the table; what holds of every entry is
  decided by running through the table once.
\<close>

lemma ds3ProtParams_sub:
  "map_of ds3ProtParams p = Some (sub, f) \<Longrightarrow> sub \<noteq> SubMaxPowerDS3"
  by (drule map_of_SomeD) (auto simp: ds3ProtParams_def codec_consts)

lemma qs1_subs:
  "map_of qs1ProtFreqSubs p = Some sub \<Longrightarrow> sub \<noteq> SubMaxPowerQS1"
  "map_of qs1VoltTripSubs p = Some sub \<Longrightarrow> sub \<noteq> SubMaxPowerQS1"
  "map_of qs1ClearTimeSubs p = Some sub \<Longrightarrow> sub \<noteq> SubMaxPowerQS1"
  by (drule map_of_SomeD; auto simp: qs1ProtFreqSubs_def qs1VoltTripSubs_def qs1ClearTimeSubs_def
      codec_consts)+

lemma qs1_yc600_subs:
  "map_of qs1VoltTripSubsYC600 p = Some sub \<Longrightarrow> sub \<in> set QS1YC600ProtCmds"
  "map_of qs1FreqTripSubsYC600 p = Some sub \<Longrightarrow> sub \<in> set QS1YC600ProtCmds"
  by (drule map_of_SomeD; auto simp: qs1VoltTripSubsYC600_def qs1FreqTripSubsYC600_def
      QS1YC600ProtCmds_def codec_consts)+

text \<open>The two kinds of frame: opcode with a sub-byte of its own, or the sub as the command.\<close>

definition opcode_frame :: "byte \<Rightarrow> byte \<Rightarrow> bytes \<Rightarrow> bool" where
  "opcode_frame opcode notsub f \<longleftrightarrow>
     (\<exists>s a b c d. f = BuildL2Frame opcode [s, a, b, c, d] \<and> s \<noteq> notsub)"

definition yc600_frame :: "bytes \<Rightarrow> bool" where
  "yc600_frame f \<longleftrightarrow>
     (\<exists>sub a b c d e. f = BuildL2Frame sub [a, b, c, d, e] \<and> sub \<in> set QS1YC600ProtCmds)"

lemma opcode_frameI [intro!]: "s \<noteq> x \<Longrightarrow> opcode_frame opcode x (BuildL2Frame opcode [s, a, b, c, d])"
  unfolding opcode_frame_def by blast

lemma yc600_frameI [intro!]:
  "sub \<in> set QS1YC600ProtCmds \<Longrightarrow> yc600_frame (BuildL2Frame sub [a, b, c, d, e])"
  unfolding yc600_frame_def by blast

lemma encodeProtectionDS3_frames:
  assumes "encodeProtectionDS3 cv p v opcode = Inr fs"
  shows "\<exists>f. fs = [f] \<and> opcode_frame opcode SubMaxPowerDS3 f"
  using assms ds3ProtParams_sub
  by (fastforce simp: encodeProtectionDS3_def Let_def split: option.splits if_splits)

lemma opcode_frame_new_one:
  "sub \<noteq> SubMaxPowerQS1 \<Longrightarrow> opcode_frame opcode SubMaxPowerQS1 (BuildL2Frame opcode (qs1NewOneBody sub w n))"
  by (auto simp: qs1NewOneBody_def)

lemma yc600_frame_build:
  "sub \<in> set QS1YC600ProtCmds \<Longrightarrow> yc600_frame (qs1YC600Frame sub w n)"
  by (auto simp: qs1YC600Frame_def)

lemma qs1ModeFrames_shape:
  "qs1ModeFrames cv v opcode \<noteq> []"
  "f \<in> set (qs1ModeFrames cv v opcode) \<Longrightarrow> opcode_frame opcode SubMaxPowerQS1 f"
  by (auto simp: qs1ModeFrames_def qs1ModeFrame_def Let_def codec_consts split: if_splits)

lemma isQS1YC600BuilderParam_tables:
  "map_of qs1ProtFreqSubs q = Some s \<Longrightarrow> \<not> isQS1YC600BuilderParam q"
  "map_of qs1VoltTripSubs q = Some s \<Longrightarrow> \<not> isQS1YC600BuilderParam q"
  "map_of qs1ClearTimeSubs q = Some s \<Longrightarrow> \<not> isQS1YC600BuilderParam q"
  by (erule map_of_list_all [rotated], code_simp)+

lemma isQS1YC600BuilderParam_named:
  "isQS1YC600BuilderParam ''grid_recovery_time''"
  "\<not> isQS1YC600BuilderParam ''Over_frequency_Watt_set''"
  "\<not> isQS1YC600BuilderParam ''min10_Over_average_voltage''"
  by code_simp+

text \<open>The frame of the golden capture: 264 V is register 985.\<close>

lemma encode_264:
  "EncodeSetProtection (\<lambda>_ _. 0) ModelDS3 ''over_voltage_slow'' (Fin 264)
     = Inr [BuildL2Frame 0xAA [3, 0, 0, 3, 0xD9]]"
proof -
  have "ds3ScaleVolt (\<lambda>_ _. 0) (Fin 264) = 985" by code_simp
  moreover have "protPhysicalRange ''over_voltage_slow'' = Some (100, 600)" by code_simp
  ultimately show ?thesis
    by (simp add: EncodeSetProtection_def validateProtectionEnvelope_def encodeProtectionDS3_def
        ds3ProtParams_def codec_consts BuildL2Frame_def Let_def l2_sum_def inner_len_def)
qed

text \<open>The frames of one parameter: of the two kinds, the parameter alone decides which.\<close>

definition qs1_frames_ok :: "string \<Rightarrow> byte \<Rightarrow> bytes list \<Rightarrow> bool" where
  "qs1_frames_ok p opcode fs \<longleftrightarrow> fs \<noteq> [] \<and>
     (if isQS1YC600BuilderParam p then \<forall>f \<in> set fs. yc600_frame f
      else \<forall>f \<in> set fs. opcode_frame opcode SubMaxPowerQS1 f)"

lemma encodeProtectionQS1A_frames:
  assumes "encodeProtectionQS1A cv p v opcode = Inr fs"
  shows "qs1_frames_ok p opcode fs"
proof -
  have yc: "map_of qs1VoltTripSubsYC600 p = Some s \<Longrightarrow> isQS1YC600BuilderParam p"
    "map_of qs1FreqTripSubsYC600 p = Some s \<Longrightarrow> isQS1YC600BuilderParam p" for s
    by (simp_all add: isQS1YC600BuilderParam_def)
  have subs: "0x7d \<noteq> SubMaxPowerQS1" "CmdGridRecoveryQS1 \<in> set QS1YC600ProtCmds"
    by (simp_all add: codec_consts QS1YC600ProtCmds_def)
  note facts = isQS1YC600BuilderParam_tables isQS1YC600BuilderParam_named yc subs qs1_subs
    qs1_yc600_subs qs1ModeFrames_shape opcode_frame_new_one yc600_frame_build
  show ?thesis
    using assms unfolding encodeProtectionQS1A_def Let_def qs1_frames_ok_def
    by (simp split: option.split_asm if_split_asm; elim conjE; hypsubst?; simp add: facts)
qed

lemma opcode_frame_classify:
  "opcode_frame CmdSetPowerDS3Unicast SubMaxPowerDS3 f \<Longrightarrow> IsProtectionWrite f \<and> \<not> IsSetPower f"
  "opcode_frame CmdSetPowerQS1Unicast SubMaxPowerQS1 f \<Longrightarrow> IsProtectionWrite f \<and> \<not> IsSetPower f"
  "yc600_frame f \<Longrightarrow> IsProtectionWrite f \<and> \<not> IsSetPower f"
  by (auto simp: opcode_frame_def yc600_frame_def IsProtectionWrite_def isDS3ProtectionWrite_def
      isQS1ProtectionWrite_def IsSetPower_def BuildL2Frame_def Let_def QS1YC600ProtCmds_def codec_consts)

lemma EncodeSetProtection_family:
  "EncodeSetProtection cv m p v =
     (if fle v (Fin 0) then Inl ErrNonPositive
      else case validateProtectionEnvelope p v of
        Some e \<Rightarrow> Inl e
      | None \<Rightarrow>
          (case FamilyOf m of
             FamilyDS3 \<Rightarrow> encodeProtectionDS3 cv p v CmdSetPowerDS3Unicast
           | FamilyQS1 \<Rightarrow> encodeProtectionQS1A cv p v CmdSetPowerQS1Unicast
           | _ \<Rightarrow> Inl ErrUnsupportedProtectionFamily))"
  by (auto simp: EncodeSetProtection_def FamilyOf_def codec_consts split: option.splits)

lemma EncodeSetProtectionBroadcast_family:
  "EncodeSetProtectionBroadcast cv m p v =
     (if fle v (Fin 0) then Inl ErrNonPositive
      else case validateProtectionEnvelope p v of
        Some e \<Rightarrow> Inl e
      | None \<Rightarrow>
          (case FamilyOf m of
             FamilyDS3 \<Rightarrow> encodeProtectionDS3 cv p v CmdSetPowerDS3Broadcast
           | FamilyQS1 \<Rightarrow>
               if isQS1YC600BuilderParam p \<or> p = ''Over_frequency_Watt_set''
               then Inl ErrUnsupportedBroadcastParam
               else encodeProtectionQS1A cv p v CmdSetPowerQS1Broadcast
           | _ \<Rightarrow> Inl ErrUnsupportedProtectionFamily))"
  by (auto simp: EncodeSetProtectionBroadcast_def FamilyOf_def codec_consts split: option.splits)

text \<open>
  Whatever a unicast protection write emits, there is at least one frame and each one is
  recognised as a protection write, is not taken for a set-power frame, and is not a set-power
  frame of the decoder.
\<close>

theorem protection_frames_recognised:
  assumes "EncodeSetProtection cv m p v = Inr fs"
  shows "fs \<noteq> [] \<and> (\<forall>f \<in> set fs. IsProtectionWrite f \<and> \<not> IsSetPower f \<and> length f = 13)"
proof -
  have len: "opcode_frame c s f \<Longrightarrow> length f = 13" "yc600_frame f \<Longrightarrow> length f = 13" for c s f
    by (auto simp: opcode_frame_def yc600_frame_def)
  consider "encodeProtectionDS3 cv p v CmdSetPowerDS3Unicast = Inr fs"
    | "encodeProtectionQS1A cv p v CmdSetPowerQS1Unicast = Inr fs"
    using assms unfolding EncodeSetProtection_family
    by (auto split: if_splits option.splits family.splits)
  then show ?thesis
  proof cases
    case 1
    then obtain f where "fs = [f]" "opcode_frame CmdSetPowerDS3Unicast SubMaxPowerDS3 f"
      using encodeProtectionDS3_frames by blast
    then show ?thesis using opcode_frame_classify(1) len by auto
  next
    case 2
    then have "qs1_frames_ok p CmdSetPowerQS1Unicast fs" by (rule encodeProtectionQS1A_frames)
    then show ?thesis
      using opcode_frame_classify(2,3) len by (auto simp: qs1_frames_ok_def split: if_splits)
  qed
qed

lemma protection_frames_recognised_witness:
  "\<exists>fs. EncodeSetProtection (\<lambda>_ _. 0) ModelDS3 ''over_voltage_slow'' (Fin 264) = Inr fs
     \<and> fs \<noteq> [] \<and> (\<forall>f \<in> set fs. IsProtectionWrite f \<and> \<not> IsSetPower f \<and> length f = 13)"
proof -
  from protection_frames_recognised [OF encode_264] encode_264 show ?thesis by blast
qed

section \<open>Unicast and broadcast\<close>

definition same_bodies :: "byte \<Rightarrow> byte \<Rightarrow> bytes list \<Rightarrow> bytes list \<Rightarrow> bool" where
  "same_bodies uc bc us bs \<longleftrightarrow>
     (\<exists>bodies. us = map (BuildL2Frame uc) bodies \<and> bs = map (BuildL2Frame bc) bodies)"

lemma same_bodies_single [simp]: "same_bodies uc bc [BuildL2Frame uc b] [BuildL2Frame bc b]"
  unfolding same_bodies_def by (rule exI [of _ "[b]"]) simp

lemma encodeProtectionDS3_bodies:
  "rel_sum (=) (same_bodies uc bc) (encodeProtectionDS3 cv p v uc) (encodeProtectionDS3 cv p v bc)"
  by (simp add: encodeProtectionDS3_def Let_def split: option.split)

lemma encodeProtectionQS1A_bodies:
  assumes "\<not> isQS1YC600BuilderParam p" and "p \<noteq> ''Over_frequency_Watt_set''"
  shows "rel_sum (=) (same_bodies uc bc) (encodeProtectionQS1A cv p v uc) (encodeProtectionQS1A cv p v bc)"
proof -
  have "map_of qs1VoltTripSubsYC600 p = None" "map_of qs1FreqTripSubsYC600 p = None"
    "p \<noteq> ''grid_recovery_time''"
    using assms(1) by (simp_all add: isQS1YC600BuilderParam_def)
  with assms(2) show ?thesis
    unfolding encodeProtectionQS1A_def Let_def
    by (cases "map_of qs1ProtFreqSubs p"; cases "map_of qs1VoltTripSubs p";
        cases "map_of qs1ClearTimeSubs p") (simp_all del: map_of.simps)
qed

text \<open>
  The broadcast form of a write.  For the DS3 family, and for the QS1 parameters with an
  opcode to swap, unicast and broadcast are refused alike or carry the same bodies under the
  unicast and the broadcast opcode; the QS1 parameters without one are always refused.
\<close>

theorem protection_broadcast:
  "case FamilyOf m of
     FamilyDS3 \<Rightarrow> rel_sum (=) (same_bodies CmdSetPowerDS3Unicast CmdSetPowerDS3Broadcast)
         (EncodeSetProtection cv m p v) (EncodeSetProtectionBroadcast cv m p v)
   | FamilyQS1 \<Rightarrow>
       if isQS1YC600BuilderParam p \<or> p = ''Over_frequency_Watt_set''
       then isl (EncodeSetProtectionBroadcast cv m p v)
       else rel_sum (=) (same_bodies CmdSetPowerQS1Unicast CmdSetPowerQS1Broadcast)
         (EncodeSetProtection cv m p v) (EncodeSetProtectionBroadcast cv m p v)
   | _ \<Rightarrow> isl (EncodeSetProtection cv m p v)
       \<and> EncodeSetProtectionBroadcast cv m p v = EncodeSetProtection cv m p v"
  using encodeProtectionDS3_bodies encodeProtectionQS1A_bodies
  unfolding EncodeSetProtection_family EncodeSetProtectionBroadcast_family
  by (auto split: family.split option.split)

section \<open>Every value sent is inside the envelope of its quantity\<close>

text \<open>The envelope of each parameter either family writes.\<close>

lemma param_ranges:
  "protPhysicalRange ''Over_frequency_Watt_Low_set'' = Some (40, 70)"
  "protPhysicalRange ''Over_frequency_Watt_High_set'' = Some (40, 70)"
  "protPhysicalRange ''Under_Frequency_Watt_Low_set'' = Some (40, 70)"
  "protPhysicalRange ''Under_Frequency_Watt_High_set'' = Some (40, 70)"
  "protPhysicalRange ''over_frequency_fast'' = Some (40, 70)"
  "protPhysicalRange ''under_frequency_fast'' = Some (40, 70)"
  "protPhysicalRange ''over_frequency_slow'' = Some (40, 70)"
  "protPhysicalRange ''under_frequency_slow'' = Some (40, 70)"
  "protPhysicalRange ''Reconnection_over_frequency'' = Some (40, 70)"
  "protPhysicalRange ''Reconnection_under_frequency'' = Some (40, 70)"
  "protPhysicalRange ''Over_frequency_Watt_Start_set'' = Some (40, 70)"
  "protPhysicalRange ''over_voltage_fast'' = Some (100, 600)"
  "protPhysicalRange ''under_voltage_fast'' = Some (100, 600)"
  "protPhysicalRange ''over_voltage_slow'' = Some (100, 600)"
  "protPhysicalRange ''under_voltage_stage_2'' = Some (100, 600)"
  "protPhysicalRange ''over_voltage_slow_90'' = Some (100, 600)"
  "protPhysicalRange ''under_voltage_stage_2_90'' = Some (100, 600)"
  "protPhysicalRange ''min10_Over_average_voltage'' = Some (100, 600)"
  "protPhysicalRange ''Over_frequency_Watt_Delay_Time_set'' = Some (0, 1000)"
  "protPhysicalRange ''grid_recovery_time'' = Some (0, 1000)"
  "protPhysicalRange ''Over_Voltage1_clearance_time'' = Some (0, 1000)"
  "protPhysicalRange ''Under_Voltage1_clearance_time'' = Some (0, 1000)"
  "protPhysicalRange ''Over_Voltage2_clearance_time'' = Some (0, 1000)"
  "protPhysicalRange ''Under_Voltage2_clearance_time'' = Some (0, 1000)"
  "protPhysicalRange ''Over_Frequency1_clearance_time'' = Some (0, 1000)"
  "protPhysicalRange ''Under_Frequency1_clearance_time'' = Some (0, 1000)"
  "protPhysicalRange ''Over_Frequency2_clearance_time'' = Some (0, 1000)"
  "protPhysicalRange ''Under_Frequency2_clearance_time'' = Some (0, 1000)"
  "protPhysicalRange ''Over_Frequency_Watt_Slope_set'' = Some (0, 200)"
  "protPhysicalRange ''Over_frequency_Watt_set'' = None"
  by code_simp+

lemma ds3_param_kinds:
  assumes "map_of ds3ProtParams p = Some (sub, f)"
  obtains "f = ds3ScaleHz" "protPhysicalRange p = Some (40, 70)"
    | "f = ds3ScaleVolt" "protPhysicalRange p = Some (100, 600)"
    | "f = ds3ScaleClear" "protPhysicalRange p = Some (0, 1000)"
    | "f = ds3RoundSec" "protPhysicalRange p = Some (0, 1000)"
    | "f = ds3RecoverySec" "protPhysicalRange p = Some (0, 1000)"
    | "f = ds3ScaleSlope" "protPhysicalRange p = Some (0, 200)"
    | "f = ds3ModeEnum" "p = ''Over_frequency_Watt_set''"
  using map_of_SomeD [OF assms]
  by (auto simp: ds3ProtParams_def param_ranges)

definition ranged :: "string \<Rightarrow> bool" where
  "ranged p \<longleftrightarrow> protPhysicalRange p \<noteq> None"

lemma qs1_ranged:
  "map_of qs1ProtFreqSubs p = Some s \<Longrightarrow> ranged p"
  "map_of qs1VoltTripSubs p = Some s \<Longrightarrow> ranged p"
  "map_of qs1VoltTripSubsYC600 p = Some s \<Longrightarrow> ranged p"
  "map_of qs1FreqTripSubsYC600 p = Some s \<Longrightarrow> ranged p"
  "map_of qs1ClearTimeSubs p = Some s \<Longrightarrow> ranged p"
  by (drule map_of_SomeD; auto simp: qs1ProtFreqSubs_def qs1VoltTripSubs_def qs1ClearTimeSubs_def
      qs1VoltTripSubsYC600_def qs1FreqTripSubsYC600_def ranged_def param_ranges)+

lemma encodable_ranged:
  assumes "EncodeSetProtection cv m p v = Inr fs" and "p \<noteq> ''Over_frequency_Watt_set''"
  shows "ranged p"
proof -
  consider "encodeProtectionDS3 cv p v CmdSetPowerDS3Unicast = Inr fs"
    | "encodeProtectionQS1A cv p v CmdSetPowerQS1Unicast = Inr fs"
    using assms(1) unfolding EncodeSetProtection_family
    by (auto split: if_splits option.splits family.splits)
  then show ?thesis
  proof cases
    case 1
    then obtain sub f where "map_of ds3ProtParams p = Some (sub, f)"
      by (auto simp: encodeProtectionDS3_def split: option.splits)
    then show ?thesis using assms(2) by (auto elim: ds3_param_kinds simp: ranged_def)
  next
    case 2
    show ?thesis
    proof (rule ccontr)
      assume r: "\<not> ranged p"
      then have "map_of qs1ProtFreqSubs p = None" "map_of qs1VoltTripSubs p = None"
        "map_of qs1VoltTripSubsYC600 p = None" "map_of qs1FreqTripSubsYC600 p = None"
        "map_of qs1ClearTimeSubs p = None"
        using qs1_ranged by (metis not_None_eq)+
      moreover have "p \<noteq> ''min10_Over_average_voltage''" "p \<noteq> ''grid_recovery_time''"
        using r param_ranges by (auto simp: ranged_def)
      ultimately show False using 2 assms(2) by (simp add: encodeProtectionQS1A_def)
    qed
  qed
qed



text \<open>
  The envelope does not stop NaN: both comparisons are false, so for a NaN value the outcome
  is whatever register the platform's conversion of NaN gives; when that is in range, a frame
  with that register is emitted for every DS3 voltage parameter.
\<close>

theorem protection_nan_reaches_wire:
  assumes "map_of ds3ProtParams p = Some (sub, ds3ScaleVolt)"
    and "0 \<le> cv 64 NaN" and "cv 64 NaN \<le> 0xFFFF"
  shows "EncodeSetProtection cv ModelDS3 p NaN =
     Inr [BuildL2Frame CmdSetPowerDS3Unicast [sub, 0, 0, of_int (cv 64 NaN div 256), of_int (cv 64 NaN)]]"
proof -
  have "ds3ScaleVolt cv NaN = cv 64 NaN"
    by (simp add: ds3ScaleVolt_def int_of_f64_def)
  moreover have "validateProtectionEnvelope p NaN = None"
    by (simp add: validateProtectionEnvelope_def split: option.split)
  ultimately show ?thesis
    using assms by (simp add: EncodeSetProtection_def encodeProtectionDS3_def Let_def)
qed

lemma protection_nan_reaches_wire_witness:
  "EncodeSetProtection (\<lambda>_ _. 0) ModelDS3 ''over_voltage_slow'' NaN =
     Inr [BuildL2Frame CmdSetPowerDS3Unicast [3, 0, 0, of_int (0 div 256), of_int 0]]"
  by (rule protection_nan_reaches_wire) (simp_all add: ds3ProtParams_def)

end
