(* ===== verification/ProtectionRead.thy ===== *)
theory ProtectionRead
  imports Protection "HOL-Library.AList" "HOL-Library.Multiset"
begin

text \<open>
  The paged protection read-back: \<open>protection_read.go\<close> and the read scales and page tables of
  \<open>ds3.go\<close> and \<open>qs1a.go\<close>.  A field of a page is a code with either an offset, a width and a
  scale, or a function of the whole frame.  The decoded values are an association list in
  first-decoded order, one entry per code, a later page overwriting an earlier one.
  The lemmas: every value published is a finite number in the plausible range under a known
  code, pages may arrive in any order, and what the encoders write reads back.
\<close>

section \<open>Reading registers\<close>

definition readBE :: "bytes \<Rightarrow> nat \<Rightarrow> nat \<Rightarrow> int" where
  "readBE f i width =
     (if width = 1 then uint (f ! i)
      else if width = 3 then uint (f ! i) * 2 ^ 16 + uint (f ! (i + 1)) * 2 ^ 8 + uint (f ! (i + 2))
      else let v = uint (f ! i) * 2 ^ 8 + uint (f ! (i + 1))
           in if v \<ge> 0x8000 then v - 0x10000 else v)"

section \<open>Scales\<close>

definition ds3FreqScale :: f64 where "ds3FreqScale = f64_of_rat (1 / 100)"
definition ds3GridVScaleF :: f64 where "ds3GridVScaleF = f64_of_rat ds3GridVScale"
definition ds3DroopNum :: f64 where "ds3DroopNum = Fin 6000"
definition ds3DroopDen :: f64 where "ds3DroopDen = Fin 2208898"
definition qsProtAvgOvDenom :: f64 where "qsProtAvgOvDenom = f64_of_rat (13315 / 10000)"
definition qsProtDroopScale :: f64 where "qsProtDroopScale = f64_of_rat (169 / 1000)"

definition dsVolt :: "conv \<Rightarrow> int \<Rightarrow> f64" where
  "dsVolt cv raw =
     f64_of_int (int_of_f64 32 (cv 32) (fadd (fmul (f64_of_int raw) ds3GridVScaleF) (Fin (1 / 2))))"

definition dsFreq :: "int \<Rightarrow> f64" where "dsFreq raw = fmul (f64_of_int raw) ds3FreqScale"
definition dsAG :: "int \<Rightarrow> f64" where "dsAG raw = fdiv (f64_of_int raw) ds3ProtRecoveryScale"
definition dsIdent :: "int \<Rightarrow> f64" where "dsIdent raw = f64_of_int raw"
definition dsSec :: "int \<Rightarrow> f64" where "dsSec raw = fmul (f64_of_int raw) ds3FreqScale"

definition dsVoltAvg :: "conv \<Rightarrow> int \<Rightarrow> f64" where
  "dsVoltAvg cv raw = f64_of_int (int_of_f64 32 (cv 32) (fmul (f64_of_int raw) ds3GridVScaleF))"

definition dsDroop :: "int \<Rightarrow> f64" where
  "dsDroop raw = fmul (fdiv (fmul (f64_of_int raw) ds3DroopNum) ds3DroopDen) (Fin 100)"

definition dsMode :: "int \<Rightarrow> f64" where
  "dsMode raw = (if raw = 1 then Fin 0xD else if raw = 2 then Fin 0xE else Fin 0xF)"

definition qsVolt :: "conv \<Rightarrow> int \<Rightarrow> f64" where
  "qsVolt cv raw =
     (if raw = 0 then Fin 0
      else f64_of_int (int_of_f64 32 (cv 32)
        (fadd (fdiv (fdiv (f64_of_int raw) (f64_of_rat qsProtVoltDenom)) (Fin 4)) (Fin (1 / 2)))))"

definition qsFreq :: "int \<Rightarrow> f64" where
  "qsFreq raw = (if raw = 0 then Fin 0 else fdiv qs1aFreqDivBy (f64_of_int raw))"

text \<open>The integer division truncates toward zero.\<close>

definition qsAvgOv :: "int \<Rightarrow> f64" where
  "qsAvgOv raw =
     (if raw = 0 then Fin 0
      else let q = (if raw < 0 then - ((- raw) div 600) else raw div 600)
           in math_round (fdiv (fdiv (f64_of_int q) qsProtAvgOvDenom) (Fin 4)))"

definition qsSec :: "int \<Rightarrow> f64" where "qsSec raw = fdiv (f64_of_int raw) (Fin 100)"
definition qsRecovery :: "int \<Rightarrow> f64" where "qsRecovery raw = fdiv (f64_of_int raw) (Fin 100)"
definition qsIdent :: "int \<Rightarrow> f64" where "qsIdent raw = f64_of_int raw"
definition qsDroop :: "int \<Rightarrow> f64" where "qsDroop raw = fmul (f64_of_int raw) qsProtDroopScale"

text \<open>The byte \<open>'f'\<close> is 0x66.\<close>

definition qsModeFromPageB :: "bytes \<Rightarrow> nat \<Rightarrow> f64 option" where
  "qsModeFromPageB f base =
     (let nib = base + 0x3f; flag = base + 0x4a
      in if nib \<ge> length f \<or> flag \<ge> length f then None
         else let b = f ! nib
              in if f ! flag = 0x66 then Some (f64_of_int (uint ((drop_bit 4 b AND 3) + 0xc)))
                 else if f ! flag = 0 then Some (f64_of_int (uint (b AND 0xf)))
                 else None)"

definition qs1PageAEnum :: "nat \<Rightarrow> byte \<Rightarrow> bytes \<Rightarrow> nat \<Rightarrow> f64 option" where
  "qs1PageAEnum shift m f base =
     (let i = base + 1
      in if i \<ge> length f then None else Some (f64_of_int (uint (drop_bit shift (f ! i) AND m))))"

section \<open>The page tables\<close>

datatype protReadField =
    PScale (fld_code: string) nat nat "int \<Rightarrow> f64"
  | PFn (fld_code: string) "bytes \<Rightarrow> nat \<Rightarrow> f64 option"

definition ds3ReadPageA :: "conv \<Rightarrow> protReadField list" where
  "ds3ReadPageA cv =
    [PScale ''AI'' 0x01 2 (dsVolt cv), PScale ''AH'' 0x03 2 (dsVolt cv), PScale ''AD'' 0x05 2 (dsVolt cv),
     PScale ''AQ'' 0x07 2 (dsVolt cv), PScale ''AY'' 0x09 2 (dsVolt cv), PScale ''AC'' 0x0b 2 (dsVolt cv),
     PScale ''AK'' 0x11 2 dsFreq, PScale ''AJ'' 0x13 2 dsFreq, PScale ''AF'' 0x15 2 dsFreq, PScale ''AE'' 0x17 2 dsFreq,
     PScale ''BC'' 0x1d 2 dsSec, PScale ''BB'' 0x1f 2 dsSec,
     PScale ''BE'' 0x21 2 dsSec, PScale ''BD'' 0x23 2 dsSec,
     PScale ''BI'' 0x29 3 dsSec, PScale ''BH'' 0x2c 3 dsSec,
     PScale ''BK'' 0x4c 3 dsSec, PScale ''BJ'' 0x4f 3 dsSec,
     PScale ''AS'' 0x39 2 dsIdent, PScale ''BO'' 0x3d 2 (dsVolt cv), PScale ''BN'' 0x3f 2 (dsVolt cv),
     PScale ''BQ'' 0x41 2 dsFreq, PScale ''BP'' 0x43 2 dsFreq, PScale ''AG'' 0x45 2 dsAG]"

definition ds3ReadPageB :: "conv \<Rightarrow> protReadField list" where
  "ds3ReadPageB cv =
    [PScale ''DA'' 0x03 2 dsMaxPower,
     PScale ''CV'' 0x05 1 dsMode,
     PScale ''DC'' 0x06 2 dsFreq, PScale ''CC'' 0x08 2 dsFreq, PScale ''CB'' 0x0a 2 dsFreq,
     PScale ''DD'' 0x0c 2 dsDroop,
     PScale ''AB'' 0x31 2 (dsVoltAvg cv),
     PScale ''DI'' 0x3f 2 dsFreq, PScale ''DH'' 0x41 2 dsFreq]"

definition qs1ReadPageA :: "conv \<Rightarrow> protReadField list" where
  "qs1ReadPageA cv =
    [PFn ''AT'' (qs1PageAEnum 6 3), PFn ''AU'' (qs1PageAEnum 4 3),
     PFn ''AV'' (qs1PageAEnum 1 3), PFn ''AW'' (qs1PageAEnum 0 1),
     PScale ''AX'' 0x03 2 qsIdent,
     PScale ''AQ'' 0x05 2 (qsVolt cv), PScale ''AD'' 0x07 2 (qsVolt cv),
     PScale ''AC'' 0x09 2 (qsVolt cv), PScale ''AY'' 0x0b 2 (qsVolt cv),
     PScale ''AZ'' 0x0d 2 (qsVolt cv), PScale ''BA'' 0x0f 2 (qsVolt cv),
     PScale ''AJ'' 0x11 3 qsFreq, PScale ''AK'' 0x14 3 qsFreq,
     PScale ''AE'' 0x17 3 qsFreq, PScale ''AF'' 0x1a 3 qsFreq,
     PScale ''BB'' 0x1d 2 qsSec, PScale ''BC'' 0x1f 2 qsSec,
     PScale ''BD'' 0x21 2 qsSec, PScale ''BE'' 0x23 2 qsSec,
     PScale ''BF'' 0x25 2 qsSec, PScale ''BG'' 0x27 2 qsSec,
     PScale ''BH'' 0x29 2 qsSec, PScale ''BI'' 0x2b 2 qsSec,
     PScale ''BJ'' 0x2d 2 qsSec, PScale ''BK'' 0x2f 2 qsSec,
     PScale ''AG'' 0x31 2 qsRecovery, PScale ''AS'' 0x33 2 qsRecovery,
     PScale ''AH'' 0x35 2 (qsVolt cv), PScale ''AI'' 0x37 2 (qsVolt cv),
     PScale ''BL'' 0x39 2 qsSec, PScale ''BM'' 0x3b 2 qsSec]"

definition qs1ReadPageB :: "conv \<Rightarrow> protReadField list" where
  "qs1ReadPageB cv =
    [PScale ''BN'' 0x01 2 (qsVolt cv), PScale ''BO'' 0x03 2 (qsVolt cv),
     PScale ''BP'' 0x05 3 qsFreq, PScale ''BQ'' 0x08 3 qsFreq,
     PScale ''AB'' 0x19 3 qsAvgOv, PScale ''DD'' 0x45 2 qsDroop,
     PScale ''DA'' 0x47 2 qsMaxPower,
     PFn ''CV'' qsModeFromPageB,
     PScale ''CC'' 0x25 3 qsFreq, PScale ''CB'' 0x28 3 qsFreq]"

definition qs1ReadPageC :: "conv \<Rightarrow> protReadField list" where
  "qs1ReadPageC cv =
    [PScale ''DC'' 0x01 3 qsFreq,
     PScale ''DH'' 0x0c 3 qsFreq, PScale ''DI'' 0x0f 3 qsFreq]"

definition protReadTables :: "conv \<Rightarrow> protReadField list list" where
  "protReadTables cv =
     [ds3ReadPageA cv, ds3ReadPageB cv, qs1ReadPageA cv, qs1ReadPageB cv, qs1ReadPageC cv]"

text \<open>The loop keeps the codes seen so far, in first-seen order.\<close>

fun first_seen :: "string list \<Rightarrow> string list \<Rightarrow> string list" where
  "first_seen out [] = out"
| "first_seen out (c # cs) = first_seen (if c \<in> set out then out else out @ [c]) cs"

definition AllProtectionCodes :: "conv \<Rightarrow> string list" where
  "AllProtectionCodes cv = first_seen [] (map fld_code (concat (protReadTables cv)))"

section \<open>Queries and replies\<close>

definition protQueryBodyLen :: nat where "protQueryBodyLen = 5"

definition ProtectionQueryFrames :: "bytes list" where
  "ProtectionQueryFrames =
     [BuildL2Frame CmdProtReadPageA (replicate protQueryBodyLen 0),
      BuildL2Frame CmdProtReadPageB (replicate protQueryBodyLen 0),
      BuildL2Frame CmdProtReadPageC (replicate protQueryBodyLen 0)]"

type_synonym protectionPager = "conv \<Rightarrow> bytes \<Rightarrow> byte \<Rightarrow> (protReadField list \<times> nat) option"

definition ds3ProtectionPage :: protectionPager where
  "ds3ProtectionPage cv f cmd =
     (if length f < 5 then None
      else if f ! 4 = CmdProtReadPageA then Some (ds3ReadPageA cv, 4)
      else if f ! 4 = CmdProtReadPageB then Some (ds3ReadPageB cv, 4)
      else None)"

definition qs1ProtectionPage :: protectionPager where
  "qs1ProtectionPage cv f cmd =
     (if cmd = CmdReplyQS1PageA then Some (qs1ReadPageA cv, 3)
      else if cmd = CmdProtReadPageB then Some (qs1ReadPageB cv, 3)
      else if cmd = CmdProtReadPageC then Some (qs1ReadPageC cv, 3)
      else None)"

definition protReadSaneMax :: rat where "protReadSaneMax = 2000"

definition plausible :: "f64 \<Rightarrow> bool" where
  "plausible v \<longleftrightarrow> \<not> (flt v (Fin 0) \<or> flt (Fin protReadSaneMax) v)"

fun decode_field :: "bytes \<Rightarrow> nat \<Rightarrow> protReadField \<Rightarrow> f64 option" where
  "decode_field f base (PFn code fn) = fn f base"
| "decode_field f base (PScale code off width scale) =
     (if base + off + width > length f then None else Some (scale (readBE f (base + off) width)))"

fun decode_fields ::
  "bytes \<Rightarrow> nat \<Rightarrow> protReadField list \<Rightarrow> (string \<times> f64) list \<Rightarrow> (string \<times> f64) list" where
  "decode_fields f base [] vals = vals"
| "decode_fields f base (fld # flds) vals =
     (case decode_field f base fld of
        None \<Rightarrow> decode_fields f base flds vals
      | Some v \<Rightarrow>
          if \<not> plausible v then decode_fields f base flds vals
          else decode_fields f base flds (AList.update (fld_code fld) v vals))"

fun decode_frames ::
  "conv \<Rightarrow> protectionPager \<Rightarrow> bytes list \<Rightarrow> (string \<times> f64) list \<Rightarrow> (string \<times> f64) list" where
  "decode_frames cv pager [] vals = vals"
| "decode_frames cv pager (f # fs) vals =
     (case ParseL2 f of
        Inl _ \<Rightarrow> decode_frames cv pager fs vals
      | Inr l2 \<Rightarrow>
         (case pager cv f (l2_Cmd l2) of
            None \<Rightarrow> decode_frames cv pager fs vals
          | Some (flds, base) \<Rightarrow>
              decode_frames cv pager fs (decode_fields f base flds vals)))"

record ProtectionReading =
  pr_Model :: string
  pr_Values :: "(string \<times> f64) list"

datatype prot_read_error = ErrReadUnsupportedFamily | ErrNoFieldsDecoded

definition DecodeProtectionReply ::
  "conv \<Rightarrow> byte \<Rightarrow> bytes list \<Rightarrow> prot_read_error + ProtectionReading" where
  "DecodeProtectionReply cv m frames =
     (let sel = (if m \<in> {ModelDS3, ModelDS3H, ModelDS3L, ModelQS2} then Some (''DS3'', ds3ProtectionPage)
                 else if m \<in> {ModelQS1, ModelQS1A} then Some (''QS1A'', qs1ProtectionPage)
                 else None)
      in case sel of
           None \<Rightarrow> Inl ErrReadUnsupportedFamily
         | Some (label, pager) \<Rightarrow>
             let vals = decode_frames cv pager frames []
             in if vals = [] then Inl ErrNoFieldsDecoded
                else Inr \<lparr> pr_Model = label, pr_Values = vals \<rparr>)"

section \<open>Only plausible finite values under known codes\<close>

definition good_value :: "f64 \<Rightarrow> bool" where
  "good_value v \<longleftrightarrow> (\<exists>x. v = Fin x \<and> 0 \<le> x \<and> x \<le> 2000)"

lemma plausible_good: "v \<noteq> NaN \<Longrightarrow> plausible v \<longleftrightarrow> good_value v"
  by (cases v) (auto simp: plausible_def good_value_def protReadSaneMax_def)

lemma f64_of_rat_not_NaN [simp]: "f64_of_rat x \<noteq> NaN"
  by (simp add: f64_of_rat_def Let_def)

lemma f64_of_int_not_NaN [simp]: "f64_of_int n \<noteq> NaN"
  by (simp add: f64_of_int_def)

lemma fmul_not_NaN: "x \<noteq> NaN \<Longrightarrow> b \<noteq> 0 \<Longrightarrow> fmul x (Fin b) \<noteq> NaN"
  by (cases x) (auto simp: inf_of_sign_def)

lemma fdiv_not_NaN: "x \<noteq> NaN \<Longrightarrow> b \<noteq> 0 \<Longrightarrow> fdiv x (Fin b) \<noteq> NaN"
  by (cases x) (auto simp: inf_of_sign_def)

lemma fdiv_const_not_NaN: "y \<noteq> NaN \<Longrightarrow> a \<noteq> 0 \<Longrightarrow> fdiv (Fin a) y \<noteq> NaN"
  by (cases y) (auto simp: inf_of_sign_def)

lemma math_round_not_NaN: "x \<noteq> NaN \<Longrightarrow> math_round x \<noteq> NaN"
  by (cases x) simp_all

lemma scale_constants:
  "\<exists>b. setPowerScaleDS3Inv = Fin b \<and> b \<noteq> 0" "\<exists>b. ds3FreqScale = Fin b \<and> b \<noteq> 0"
  "\<exists>b. qsProtAvgOvDenom = Fin b \<and> b \<noteq> 0" "\<exists>b. qsProtDroopScale = Fin b \<and> b \<noteq> 0"
proof -
  have *: "\<exists>b. f64_of_rat c = Fin b \<and> b \<noteq> 0" if "1 / 1000 \<le> c" "c \<le> 2" for c
  proof -
    have c: "\<bar>c\<bar> \<le> 2 ^ 1" using that by simp
    have "(2 :: rat) ^ 1 / 2 ^ 53 \<le> 1 / 10000" by simp
    then have "\<bar>rnd c - c\<bar> \<le> 1 / 10000" using rnd_err_pow [OF c] by linarith
    then have "rnd c \<noteq> 0" using that by linarith
    then show ?thesis using f64_of_rat_Fin [OF c] by simp
  qed
  show "\<exists>b. setPowerScaleDS3Inv = Fin b \<and> b \<noteq> 0" "\<exists>b. ds3FreqScale = Fin b \<and> b \<noteq> 0"
    "\<exists>b. qsProtAvgOvDenom = Fin b \<and> b \<noteq> 0" "\<exists>b. qsProtDroopScale = Fin b \<and> b \<noteq> 0"
    unfolding setPowerScaleDS3Inv_def ds3FreqScale_def qsProtAvgOvDenom_def qsProtDroopScale_def
    by (rule *; simp)+
qed

text \<open>No scale of a page table ever gives NaN.\<close>

lemmas not_NaN = fmul_not_NaN fdiv_not_NaN fdiv_const_not_NaN math_round_not_NaN

lemma scales_not_NaN:
  "dsVolt cv raw \<noteq> NaN" "dsVoltAvg cv raw \<noteq> NaN" "qsVolt cv raw \<noteq> NaN"
  "dsFreq raw \<noteq> NaN" "dsSec raw \<noteq> NaN" "dsAG raw \<noteq> NaN" "dsIdent raw \<noteq> NaN"
  "dsDroop raw \<noteq> NaN" "dsMode raw \<noteq> NaN" "dsMaxPower raw \<noteq> NaN" "qsMaxPower raw \<noteq> NaN"
  "qsFreq raw \<noteq> NaN" "qsAvgOv raw \<noteq> NaN" "qsSec raw \<noteq> NaN" "qsRecovery raw \<noteq> NaN"
  "qsIdent raw \<noteq> NaN" "qsDroop raw \<noteq> NaN"
proof -
  obtain a b c d where k: "setPowerScaleDS3Inv = Fin a" "a \<noteq> 0" "ds3FreqScale = Fin b" "b \<noteq> 0"
    "qsProtAvgOvDenom = Fin c" "c \<noteq> 0" "qsProtDroopScale = Fin d" "d \<noteq> 0"
    using scale_constants by blast
  show "dsVolt cv raw \<noteq> NaN" "dsVoltAvg cv raw \<noteq> NaN" "qsVolt cv raw \<noteq> NaN"
    "dsFreq raw \<noteq> NaN" "dsSec raw \<noteq> NaN" "dsAG raw \<noteq> NaN" "dsIdent raw \<noteq> NaN"
    "dsDroop raw \<noteq> NaN" "dsMode raw \<noteq> NaN" "dsMaxPower raw \<noteq> NaN" "qsMaxPower raw \<noteq> NaN"
    "qsFreq raw \<noteq> NaN" "qsAvgOv raw \<noteq> NaN" "qsSec raw \<noteq> NaN" "qsRecovery raw \<noteq> NaN"
    "qsIdent raw \<noteq> NaN" "qsDroop raw \<noteq> NaN"
  by (simp_all add: k dsVolt_def dsVoltAvg_def qsVolt_def dsFreq_def dsSec_def dsAG_def dsIdent_def
      dsDroop_def dsMode_def dsMaxPower_def qsMaxPower_def qsFreq_def qsAvgOv_def qsSec_def
      qsRecovery_def qsIdent_def qsDroop_def ds3ProtRecoveryScale_def ds3DroopNum_def
      ds3DroopDen_def qs1aFreqDivBy_def Let_def not_NaN)
qed

fun never_NaN :: "protReadField \<Rightarrow> bool" where
  "never_NaN (PScale code off width scale) = (\<forall>raw. scale raw \<noteq> NaN)"
| "never_NaN (PFn code fn) = (\<forall>f base v. fn f base = Some v \<longrightarrow> v \<noteq> NaN)"

lemma qs_fns_not_NaN:
  "qs1PageAEnum s m f base = Some v \<Longrightarrow> v \<noteq> NaN"
  "qsModeFromPageB f base = Some v \<Longrightarrow> v \<noteq> NaN"
  by (auto simp: qs1PageAEnum_def qsModeFromPageB_def Let_def split: if_splits)

lemma tables_never_NaN: "tbl \<in> set (protReadTables cv) \<Longrightarrow> list_all never_NaN tbl"
  using scales_not_NaN qs_fns_not_NaN
  by (auto simp: protReadTables_def ds3ReadPageA_def ds3ReadPageB_def qs1ReadPageA_def
      qs1ReadPageB_def qs1ReadPageC_def)

lemma decode_field_not_NaN: "never_NaN fld \<Longrightarrow> decode_field f base fld = Some v \<Longrightarrow> v \<noteq> NaN"
  by (cases fld) (auto split: if_splits)

text \<open>The invariant of the values built up by the two loops.\<close>

definition reading_ok :: "conv \<Rightarrow> (string \<times> f64) list \<Rightarrow> bool" where
  "reading_ok cv vals \<longleftrightarrow> distinct (map fst vals)
     \<and> fst ` set vals \<subseteq> set (AllProtectionCodes cv) \<and> (\<forall>(c, v) \<in> set vals. good_value v)"

lemma set_first_seen: "set (first_seen out cs) = set out \<union> set cs"
  by (induction out cs rule: first_seen.induct) auto

lemma set_AllProtectionCodes:
  "set (AllProtectionCodes cv) = (\<Union>tbl \<in> set (protReadTables cv). fld_code ` set tbl)"
  by (auto simp: AllProtectionCodes_def set_first_seen)

lemma update_reading_ok:
  assumes "reading_ok cv vals" and "c \<in> set (AllProtectionCodes cv)" and "good_value v"
  shows "reading_ok cv (AList.update c v vals)"
proof -
  have "set (AList.update c v vals) \<subseteq> insert (c, v) (set vals)"
    by (induction vals) auto
  then show ?thesis
    using assms distinct_update [of vals c v] by (fastforce simp: reading_ok_def)
qed

lemma decode_fields_ok:
  assumes "list_all never_NaN flds" and "fld_code ` set flds \<subseteq> set (AllProtectionCodes cv)"
    and "reading_ok cv vals"
  shows "reading_ok cv (decode_fields f base flds vals)"
  using assms
  by (induction f base flds vals rule: decode_fields.induct)
    (auto split: option.split simp: update_reading_ok plausible_good decode_field_not_NaN)

definition pager_ok :: "conv \<Rightarrow> protectionPager \<Rightarrow> bool" where
  "pager_ok cv pager \<longleftrightarrow>
     (\<forall>f cmd flds base. pager cv f cmd = Some (flds, base) \<longrightarrow> flds \<in> set (protReadTables cv))"

lemma pagers_ok: "pager_ok cv ds3ProtectionPage" "pager_ok cv qs1ProtectionPage"
  by (auto simp: pager_ok_def ds3ProtectionPage_def qs1ProtectionPage_def protReadTables_def
      split: if_splits)

lemma decode_frames_ok:
  assumes "pager_ok cv pager" and "reading_ok cv vals"
  shows "reading_ok cv (decode_frames cv pager frames vals)"
  using assms(2)
proof (induction frames arbitrary: vals)
  case (Cons f frames)
  have "reading_ok cv (decode_fields f base flds vals)"
    if "pager cv f cmd = Some (flds, base)" for cmd flds base
  proof (rule decode_fields_ok)
    have "flds \<in> set (protReadTables cv)" using assms(1) that unfolding pager_ok_def by blast
    then show "list_all never_NaN flds" "fld_code ` set flds \<subseteq> set (AllProtectionCodes cv)"
      by (auto simp: set_AllProtectionCodes intro: tables_never_NaN)
  qed (rule Cons.prems)
  then show ?case using Cons by (auto split: sum.split option.split)
qed simp

text \<open>
  A decoded reading is never empty, has one entry per code, only codes of
  \<open>AllProtectionCodes\<close>, and every value is a finite number between 0 and 2000.
\<close>

theorem decode_reading_ok:
  assumes "DecodeProtectionReply cv m frames = Inr r"
  shows "pr_Values r \<noteq> [] \<and> distinct (map fst (pr_Values r))
    \<and> fst ` set (pr_Values r) \<subseteq> set (AllProtectionCodes cv)
    \<and> (\<forall>(c, v) \<in> set (pr_Values r). \<exists>x. v = Fin x \<and> 0 \<le> x \<and> x \<le> 2000)"
proof -
  obtain pager where p: "pager_ok cv pager" and v: "pr_Values r = decode_frames cv pager frames []"
    and n: "pr_Values r \<noteq> []"
    using assms pagers_ok by (force simp: DecodeProtectionReply_def Let_def split: if_splits)
  have "reading_ok cv (pr_Values r)"
    unfolding v by (rule decode_frames_ok [OF p]) (simp add: reading_ok_def)
  then show ?thesis using n unfolding reading_ok_def good_value_def by blast
qed

lemma decode_reading_ok_witness:
  "\<exists>r. DecodeProtectionReply (\<lambda>_ _. 0) ModelQS1A
         [[0xFB, 0xFB, 8, 0xD9, 0x0A, 0xAE, 0x60, 0, 0, 0xFE, 0xFE]] = Inr r
     \<and> pr_Values r \<noteq> [] \<and> distinct (map fst (pr_Values r))
     \<and> fst ` set (pr_Values r) \<subseteq> set (AllProtectionCodes (\<lambda>_ _. 0))
     \<and> (\<forall>(c, v) \<in> set (pr_Values r). \<exists>x. v = Fin x \<and> 0 \<le> x \<and> x \<le> 2000)"
proof -
  let ?f = "[0xFB, 0xFB, 8, 0xD9, 0x0A, 0xAE, 0x60, 0, 0, 0xFE, 0xFE] :: bytes"
  let ?res = "DecodeProtectionReply (\<lambda>_ _. 0) ModelQS1A [?f]"
  have "\<not> isl ?res" by code_simp
  then obtain r where r: "?res = Inr r" by (cases ?res) simp_all
  from decode_reading_ok [OF r] r show ?thesis by blast
qed

section \<open>Pages in any order\<close>

definition reply_page :: "conv \<Rightarrow> protectionPager \<Rightarrow> bytes \<Rightarrow> string list option" where
  "reply_page cv pager f =
     (case ParseL2 f of
        Inl _ \<Rightarrow> None
      | Inr l2 \<Rightarrow> map_option (\<lambda>(flds, base). map fld_code flds) (pager cv f (l2_Cmd l2)))"

definition frame_map :: "conv \<Rightarrow> protectionPager \<Rightarrow> bytes \<Rightarrow> string \<rightharpoonup> f64" where
  "frame_map cv pager f =
     (case ParseL2 f of
        Inl _ \<Rightarrow> Map.empty
      | Inr l2 \<Rightarrow>
         (case pager cv f (l2_Cmd l2) of
            None \<Rightarrow> Map.empty
          | Some (flds, base) \<Rightarrow> map_of (decode_fields f base flds [])))"

lemma map_of_decode_fields:
  "map_of (decode_fields f base flds vals) = map_of vals ++ map_of (decode_fields f base flds [])"
proof (induction flds arbitrary: vals)
  case (Cons fld flds)
  show ?case
  proof (cases "decode_field f base fld")
    case None
    then show ?thesis using Cons [of vals] by simp
  next
    case (Some v)
    have upd: "map_of (AList.update c v xs) = map_of xs ++ [c \<mapsto> v]" for c xs
      by (simp add: update_conv' map_add_upd)
    have "map_of (decode_fields f base flds (AList.update c v vals))
        = map_of vals ++ map_of (decode_fields f base flds (AList.update c v []))" for c
      unfolding Cons [of "AList.update c v vals"] Cons [of "AList.update c v []"] upd
      by (simp only: map_of.simps empty_map_add map_add_assoc)
    then show ?thesis unfolding decode_fields.simps Some option.case if_distrib [of map_of]
      using Cons [of vals] by simp
  qed
qed simp

lemma map_of_decode_frames:
  "map_of (decode_frames cv pager fs vals) = fold (\<lambda>f m. m ++ frame_map cv pager f) fs (map_of vals)"
proof (induction fs arbitrary: vals)
  case (Cons f fs)
  have "map_of (decode_fields g b flds vals) = map_of vals ++ map_of (decode_fields g b flds [])"
    for g b flds by (rule map_of_decode_fields)
  then show ?case using Cons by (auto simp: frame_map_def split: sum.split option.split)
qed simp

lemma dom_decode_fields: "fst ` set (decode_fields f base flds vals) \<subseteq> fst ` set vals \<union> fld_code ` set flds"
proof (induction flds arbitrary: vals)
  case (Cons fld flds)
  have upd: "fst ` set (AList.update c v vals) = insert c (fst ` set vals)" for c v
    by (simp add: dom_update)
  show ?case
    using Cons [of vals] Cons [of "AList.update (fld_code fld) v vals" for v] upd
    by (auto split: option.split)
qed simp

lemma dom_frame_map:
  shows "reply_page cv pager f = Some codes \<Longrightarrow> dom (frame_map cv pager f) \<subseteq> set codes"
    and "reply_page cv pager f = None \<Longrightarrow> frame_map cv pager f = Map.empty"
proof -
  have dom: "dom (map_of (decode_fields f base flds [])) \<subseteq> fld_code ` set flds" for base flds
    using dom_decode_fields [of f base flds "[]"] by (simp add: dom_map_of_conv_image_fst)
  show "reply_page cv pager f = Some codes \<Longrightarrow> dom (frame_map cv pager f) \<subseteq> set codes"
    unfolding reply_page_def frame_map_def
    by (cases "ParseL2 f"; cases "pager cv f (l2_Cmd (projr (ParseL2 f)))") (auto dest!: subsetD [OF dom, OF domI])
  show "reply_page cv pager f = None \<Longrightarrow> frame_map cv pager f = Map.empty"
    unfolding reply_page_def frame_map_def
    by (cases "ParseL2 f"; cases "pager cv f (l2_Cmd (projr (ParseL2 f)))") auto
qed

lemma upd_commute:
  assumes "dom m1 \<inter> dom m2 = {}"
  shows "(m ++ m1) ++ m2 = (m ++ m2) ++ m1"
  using map_add_comm [OF assms] by (simp only: map_add_assoc [symmetric])

lemma pages_disjoint:
  assumes "pager = ds3ProtectionPage \<or> pager = qs1ProtectionPage"
    and "reply_page cv pager f = Some a" and "reply_page cv pager g = Some b" and "a \<noteq> b"
  shows "set a \<inter> set b = {}"
proof -
  have tables: "set (map fld_code (ds3ReadPageA cv)) \<inter> set (map fld_code (ds3ReadPageB cv)) = {}"
    "set (map fld_code (qs1ReadPageA cv)) \<inter> set (map fld_code (qs1ReadPageB cv)) = {}"
    "set (map fld_code (qs1ReadPageA cv)) \<inter> set (map fld_code (qs1ReadPageC cv)) = {}"
    "set (map fld_code (qs1ReadPageB cv)) \<inter> set (map fld_code (qs1ReadPageC cv)) = {}"
    by (simp_all add: ds3ReadPageA_def ds3ReadPageB_def qs1ReadPageA_def qs1ReadPageB_def qs1ReadPageC_def)
  show ?thesis using assms(1)
  proof
    assume p: "pager = ds3ProtectionPage"
    show ?thesis using assms(2-4) tables(1) unfolding p reply_page_def ds3ProtectionPage_def
      by (auto split: sum.splits if_splits)
  next
    assume p: "pager = qs1ProtectionPage"
    show ?thesis using assms(2-4) tables(2-4) unfolding p reply_page_def qs1ProtectionPage_def
      by (auto split: sum.splits if_splits)
  qed
qed

text \<open>
  The reply frames may arrive in any order: with at most one reply per page, every
  permutation of the frames decodes to the same value for every code.
\<close>

theorem decode_order_irrelevant:
  assumes "pager = ds3ProtectionPage \<or> pager = qs1ProtectionPage"
    and "distinct (filter (\<lambda>p. p \<noteq> None) (map (reply_page cv pager) fs))"
    and "mset fs = mset gs"
  shows "map_of (decode_frames cv pager fs []) = map_of (decode_frames cv pager gs [])"
proof -
  let ?upd = "\<lambda>f m. m ++ frame_map cv pager f"
  have dj: "dom (frame_map cv pager f) \<inter> dom (frame_map cv pager g) = {}"
    if fg: "f \<in> set fs" "g \<in> set fs" "f \<noteq> g" for f g
  proof (cases "reply_page cv pager f")
    case None
    then show ?thesis by (simp add: dom_frame_map(2))
  next
    case (Some a)
    note f = this
    show ?thesis
    proof (cases "reply_page cv pager g")
      case None
      then show ?thesis by (simp add: dom_frame_map(2))
    next
      case (Some b)
      obtain ys zs where fs: "fs = ys @ f # zs" using fg(1) split_list by metis
      have "a \<noteq> b"
      proof
        assume "a = b"
        then have "Some a \<in> reply_page cv pager ` set (ys @ zs)"
          using fg fs Some by (intro image_eqI [of _ _ g]) auto
        moreover have "Some a \<notin> reply_page cv pager ` set (ys @ zs)"
          using assms(2) f unfolding fs by auto
        ultimately show False by blast
      qed
      then have "set a \<inter> set b = {}" by (rule pages_disjoint [OF assms(1) f Some])
      then show ?thesis using dom_frame_map(1) [OF f] dom_frame_map(1) [OF Some] by blast
    qed
  qed
  have "?upd f \<circ> ?upd g = ?upd g \<circ> ?upd f" if "f \<in> set fs" "g \<in> set fs" for f g
  proof (cases "f = g")
    case False
    show ?thesis by (rule ext) (simp only: o_apply upd_commute [OF dj [OF that False]])
  qed simp
  then have "fold ?upd fs = fold ?upd gs" using assms(3) by (intro fold_multiset_equiv) auto
  then show ?thesis by (simp add: map_of_decode_frames)
qed

lemma decode_order_irrelevant_witness:
  "map_of (decode_frames (\<lambda>_ _. 0) qs1ProtectionPage
      [[0xFB, 0xFB, 8, 0xD9, 0x0A, 0xAE, 0x60, 0, 0, 0xFE, 0xFE],
       [0xFB, 0xFB, 8, 0xDE, 0x05, 0x14, 0, 0, 0, 0xFE, 0xFE]] []) =
   map_of (decode_frames (\<lambda>_ _. 0) qs1ProtectionPage
      [[0xFB, 0xFB, 8, 0xDE, 0x05, 0x14, 0, 0, 0, 0xFE, 0xFE],
       [0xFB, 0xFB, 8, 0xD9, 0x0A, 0xAE, 0x60, 0, 0, 0xFE, 0xFE]] [])"
proof (rule decode_order_irrelevant)
  show "distinct (filter (\<lambda>p. p \<noteq> None) (map (reply_page (\<lambda>_ _. 0) qs1ProtectionPage)
      [[0xFB, 0xFB, 8, 0xD9, 0x0A, 0xAE, 0x60, 0, 0, 0xFE, 0xFE],
       [0xFB, 0xFB, 8, 0xDE, 0x05, 0x14, 0, 0, 0, 0xFE, 0xFE]]))" by code_simp
qed simp_all

section \<open>What is written reads back\<close>

lemma qs1_param_ranges:
  "map_of qs1ProtFreqSubs p = Some s \<Longrightarrow> protPhysicalRange p = Some (40, 70)"
  "map_of qs1VoltTripSubs p = Some s \<Longrightarrow> protPhysicalRange p = Some (100, 600)"
  "map_of qs1VoltTripSubsYC600 p = Some s \<Longrightarrow> protPhysicalRange p = Some (100, 600)"
  "map_of qs1FreqTripSubsYC600 p = Some s \<Longrightarrow> protPhysicalRange p = Some (40, 70)"
  by (drule map_of_SomeD; auto simp: qs1ProtFreqSubs_def qs1VoltTripSubs_def
      qs1VoltTripSubsYC600_def qs1FreqTripSubsYC600_def param_ranges)+

lemma encode_in_range:
  assumes "protPhysicalRange p = Some (lo, hi)" and "0 < x" and "lo \<le> x" and "x \<le> hi"
  shows "EncodeSetProtection cv m p (Fin x) =
     (case FamilyOf m of
        FamilyDS3 \<Rightarrow> encodeProtectionDS3 cv p (Fin x) CmdSetPowerDS3Unicast
      | FamilyQS1 \<Rightarrow> encodeProtectionQS1A cv p (Fin x) CmdSetPowerQS1Unicast
      | _ \<Rightarrow> Inl ErrUnsupportedProtectionFamily)"
  using assms by (simp add: EncodeSetProtection_family validateProtectionEnvelope_def)

lemma uint_byte_of_int: "uint (of_int n :: byte) = n mod 256"
  by (simp add: unsigned_of_int take_bit_eq_mod)

lemma readBE_wire16:
  assumes "0 \<le> w" and "w < 0x8000" and "f ! i = of_int (w div 256)" and "f ! (i + 1) = of_int w"
  shows "readBE f i 2 = w"
  using assms by (simp add: readBE_def Let_def uint_byte_of_int)

lemma readBE_wire24:
  assumes "0 \<le> w" and "w < 2 ^ 24" and "f ! i = of_int (w div 2 ^ 16)"
    and "f ! (i + 1) = of_int (w div 2 ^ 8)" and "f ! (i + 2) = of_int w"
  shows "readBE f i 3 = w"
proof -
  have "w = w div 65536 * 65536 + (w div 256) mod 256 * 256 + w mod 256"
  proof -
    have "w div 256 div 256 = w div 65536" by (simp add: zdiv_zmult2_eq [symmetric])
    then show ?thesis
      using div_mult_mod_eq [of w 256] div_mult_mod_eq [of "w div 256" 256] by linarith
  qed
  then show ?thesis
    using assms by (simp add: readBE_def uint_byte_of_int)
qed

lemma frame_nths:
  "BuildL2Frame c [b0, b1, b2, b3, b4] ! 4 = b0" "BuildL2Frame c [b0, b1, b2, b3, b4] ! 5 = b1"
  "BuildL2Frame c [b0, b1, b2, b3, b4] ! 6 = b2" "BuildL2Frame c [b0, b1, b2, b3, b4] ! 7 = b3"
  "BuildL2Frame c [b0, b1, b2, b3, b4] ! 8 = b4"
  by (simp_all add: BuildL2Frame_def Let_def)

lemma ds3_volt_register:
  assumes "100 \<le> V" and "V \<le> 600"
  obtains n where "ds3ScaleVolt cv (Fin (of_int V)) = n" and "0 \<le> n" and "n \<le> 2300"
    and "dsVolt cv n = Fin (of_int V)"
proof -
  have V: "(100 :: rat) \<le> of_int V" "(of_int V :: rat) \<le> 600" using assms by simp_all
  obtain n where n: "ds3ScaleVolt cv (Fin (of_int V)) = n" "0 \<le> n"
    "of_int n \<le> of_int V * (1 / ds3GridVScale) + 1 / 1000000"
    "of_int V * (1 / ds3GridVScale) < of_int n + 1 + 1 / (1000000 :: rat)"
    using scaled_register [of "of_int V" "1 / ds3GridVScale" 64 "cv 64"] V
    by (auto simp: ds3ScaleVolt_def ds3VoltWriteScale_def ds3GridVScale_def)
  have hi: "of_int n * (268 / 1000) \<le> of_int V + 1 / (1000000 :: rat)"
    and lo: "of_int V < of_int n * (268 / 1000) + 269 / (1000 :: rat)"
    using n(3,4) by (simp_all add: ds3GridVScale_def field_simps)
  have "of_int n < (2300 :: rat)" using hi V by linarith
  then have n2: "n < 2300" by simp
  obtain y where y: "fmul (Fin (of_int n)) (f64_of_rat ds3GridVScale) = Fin y" "0 \<le> y"
    "\<bar>y - of_int n * ds3GridVScale\<bar> \<le> 1 / 1000000"
    using scaled_value [of "of_int n" ds3GridVScale] n(2) n2 by (auto simp: ds3GridVScale_def)
  have "\<bar>y - of_int V\<bar> \<le> 49 / 100" using y(3) hi lo unfolding ds3GridVScale_def by linarith
  then have "int_of_f64 32 (cv 32) (fadd (Fin y) (Fin (1 / 2))) = V"
    using assms by (intro round_half_register y(2)) simp_all
  then have "dsVolt cv n = Fin (of_int V)"
    using f64_of_int_exact [of n] f64_of_int_exact [of V] n(2) n2 assms y(1)
    by (simp add: dsVolt_def ds3GridVScaleF_def)
  then show thesis using that [OF n(1,2)] n2 by simp
qed

text \<open>The voltage transform is not one of the others, so it marks the voltage parameters.\<close>

lemma ds3_volt_range:
  assumes "map_of ds3ProtParams p = Some (sub, ds3ScaleVolt)"
  shows "protPhysicalRange p = Some (100, 600)"
proof -
  have at100: "ds3ScaleVolt (\<lambda>_ _. 0) (Fin 100) = 373" "ds3ScaleHz (\<lambda>_ _. 0) (Fin 100) = 10000"
    "ds3ScaleClear (\<lambda>_ _. 0) (Fin 100) = 10000" "ds3RoundSec (\<lambda>_ _. 0) (Fin 100) = 100"
    "ds3RecoverySec (\<lambda>_ _. 0) (Fin 100) = 5000" "ds3ScaleSlope (\<lambda>_ _. 0) (Fin 100) = 16368"
    "ds3ModeEnum (\<lambda>_ _. 0) (Fin 100) = 2"
    by code_simp+
  have ne: "f (\<lambda>_ _. 0) (Fin 100) = 373" if "ds3ScaleVolt = f" for f
    using that at100(1) by simp
  show ?thesis
    by (rule ds3_param_kinds [OF assms]) (drule ne, simp add: at100)+
qed

text \<open>
  A whole-volt DS3 trip threshold in the envelope is always encodable, and the register in
  the frame, decoded by the page-A scale, is the voltage that was asked for.
\<close>

theorem ds3_volt_write_read:
  assumes "FamilyOf m = FamilyDS3" and "map_of ds3ProtParams p = Some (sub, ds3ScaleVolt)"
    and "100 \<le> V" and "V \<le> 600"
  shows "\<exists>f. EncodeSetProtection cv m p (Fin (of_int V)) = Inr [f]
    \<and> f ! 4 = sub \<and> dsVolt cv (readBE f 7 2) = Fin (of_int V)"
proof -
  obtain n where n: "ds3ScaleVolt cv (Fin (of_int V)) = n" "0 \<le> n" "n \<le> 2300"
    "dsVolt cv n = Fin (of_int V)"
    by (rule ds3_volt_register [OF assms(3,4)])
  let ?f = "BuildL2Frame CmdSetPowerDS3Unicast [sub, 0, 0, of_int (n div 256), of_int n]"
  have "readBE ?f 7 2 = n" using n(2,3) by (intro readBE_wire16) (simp_all add: frame_nths)
  moreover have "EncodeSetProtection cv m p (Fin (of_int V)) = Inr [?f]"
    using assms n ds3_volt_range [OF assms(2)]
    by (simp add: encode_in_range encodeProtectionDS3_def Let_def)
  ultimately show ?thesis using n(4) by (auto simp: frame_nths)
qed

lemma ds3_volt_write_read_witness:
  "\<exists>f. EncodeSetProtection (\<lambda>_ _. 0) ModelDS3 ''over_voltage_slow'' (Fin (of_int 253)) = Inr [f]
    \<and> f ! 4 = 3 \<and> dsVolt (\<lambda>_ _. 0) (readBE f 7 2) = Fin (of_int 253)"
  by (rule ds3_volt_write_read) (simp_all add: FamilyOf_def ds3ProtParams_def param_ranges)

lemma qs1_volt_register:
  assumes "100 \<le> V" and "V \<le> 600"
  obtains n where "int_of_f64 64 (cv 64) (fmul (Fin (of_int V)) qs1VoltTripWriteScale) = n"
    and "0 \<le> n" and "n \<le> 3300" and "qsVolt cv n = Fin (of_int V)"
proof -
  let ?C = "qsProtVoltDenom * 4"
  have V: "(100 :: rat) \<le> of_int V" "(of_int V :: rat) \<le> 600" using assms by simp_all
  obtain n where n: "int_of_f64 64 (cv 64) (fmul (Fin (of_int V)) (f64_of_rat ?C)) = n" "0 \<le> n"
    "of_int n \<le> of_int V * ?C + 1 / 1000000" "of_int V * ?C < of_int n + 1 + 1 / (1000000 :: rat)"
    using scaled_register [of "of_int V" ?C 64 "cv 64"] V by (auto simp: qsProtVoltDenom_def)
  have hi: "of_int n * 1000 \<le> of_int V * 5328 + (1 :: rat)"
    and lo: "of_int V * 5328 < of_int n * 1000 + (1001 :: rat)"
    using n(3,4) by (simp_all add: qsProtVoltDenom_def)
  have "of_int n < (3300 :: rat)" using n(3) V by (simp add: qsProtVoltDenom_def)
  then have n2: "n < 3300" by simp
  have "of_int n > (500 :: rat)" using n(4) V by (simp add: qsProtVoltDenom_def)
  then have n0: "n \<noteq> 0" by auto
  have nr: "0 \<le> (of_int n :: rat)" "(of_int n :: rat) \<le> 3300" using n(2) n2 by simp_all
  obtain k where k: "f64_of_rat qsProtVoltDenom = Fin k" "\<bar>k - 1332 / 1000\<bar> \<le> 1 / 2 ^ 52"
  proof -
    have b: "\<bar>qsProtVoltDenom\<bar> \<le> 2 ^ 1" by (simp add: qsProtVoltDenom_def)
    show thesis using that f64_of_rat_Fin [OF b] rnd_err_pow [OF b] by (simp add: qsProtVoltDenom_def)
  qed
  have "(1 :: rat) / 2 ^ 52 \<le> 1 / 1000000000" by simp
  then have ke: "\<bar>k - 1332 / 1000\<bar> \<le> 1 / 1000000000" using k(2) by linarith
  then have k1: "1 < k" "k < 2" unfolding abs_le_iff by linarith+
  define a where "a = of_int n / k"
  have a: "a * k = of_int n" "0 \<le> a" using k1 nr by (simp_all add: a_def)
  have "a * 1 \<le> a * k" using a(2) k1 by (intro mult_left_mono) simp_all
  then have a2: "a \<le> 3300" using a(1) nr by linarith
  have "a * (1332 / 1000) - of_int n = a * (1332 / 1000 - k)" by (simp add: right_diff_distrib flip: a(1))
  then have "\<bar>a * (1332 / 1000) - of_int n\<bar> = a * \<bar>k - 1332 / 1000\<bar>"
    using a(2) by (simp only: abs_mult abs_of_nonneg abs_minus_commute)
  also have "\<dots> \<le> 3300 * (1 / 1000000000)" using a a2 ke by (intro mult_mono) simp_all
  finally have ae: "\<bar>a * (1332 / 1000) - of_int n\<bar> \<le> 1 / 100000" by simp
  have "a * 1332 - of_int n * 1000 = (a * (1332 / 1000) - of_int n) * 1000" by simp
  then have "\<bar>a * 1332 - of_int n * 1000\<bar> = \<bar>a * (1332 / 1000) - of_int n\<bar> * 1000"
    by (simp only: abs_mult abs_numeral)
  then have ae': "\<bar>a * 1332 - of_int n * 1000\<bar> \<le> 1 / 100" using ae by linarith
  have a23: "\<bar>a\<bar> \<le> 2 ^ 23" using a(2) a2 by simp
  have eps: "(1 :: rat) / 2 ^ 30 \<le> 1 / 1000000" by simp
  define b where "b = rnd a"
  have b: "\<bar>b - a\<bar> \<le> 1 / 1000000" "0 \<le> b"
    using rnd_close [OF a23] eps rnd_nonneg [OF a(2)] unfolding b_def by linarith+
  have "\<bar>b / 4\<bar> \<le> 8388608" using b a2 by linarith
  then have b23: "\<bar>b / 4\<bar> \<le> 2 ^ 23" by simp
  define y where "y = rnd (b / 4)"
  have y: "\<bar>y - b / 4\<bar> \<le> 1 / 1000000" "0 \<le> y"
    using rnd_close [OF b23] eps rnd_nonneg [of "b / 4"] b(2) unfolding y_def by linarith+
  have fd: "fdiv (fdiv (f64_of_int n) (f64_of_rat qsProtVoltDenom)) (Fin 4) = Fin y"
    using f64_of_int_exact [of n] n(2) n2 k1 f64_of_rat_small [OF a23] f64_of_rat_small [OF b23]
    by (simp add: k(1) a_def b_def y_def)
  have "\<bar>y - of_int V\<bar> \<le> 49 / 100"
    using y(1) b(1) ae' hi lo by linarith
  then have "int_of_f64 32 (cv 32) (fadd (Fin y) (Fin (1 / 2))) = V"
    using assms by (intro round_half_register y(2)) simp_all
  then have "qsVolt cv n = Fin (of_int V)"
    using f64_of_int_exact [of V] assms n0 by (simp add: qsVolt_def fd)
  then show thesis using that n(1,2) n2 by (simp add: qs1VoltTripWriteScale_def)
qed

lemma qs1_volt_lookups:
  "map_of qs1VoltTripSubs p = Some s \<Longrightarrow> map_of qs1ProtFreqSubs p = None"
  "map_of qs1VoltTripSubsYC600 p = Some s \<Longrightarrow>
     map_of qs1ProtFreqSubs p = None \<and> map_of qs1VoltTripSubs p = None"
  by (erule map_of_list_all [rotated], code_simp)+

text \<open>
  The same for the QS1 family: for each of the six voltage trips the register, at the offset
  its builder puts it, reads back as the whole-volt value that was asked for.
\<close>

theorem qs1_volt_write_read:
  assumes "FamilyOf m = FamilyQS1"
    and "map_of qs1VoltTripSubs p = Some sub \<or> map_of qs1VoltTripSubsYC600 p = Some sub"
    and "100 \<le> V" and "V \<le> 600"
  shows "\<exists>f. EncodeSetProtection cv m p (Fin (of_int V)) = Inr [f]
    \<and> qsVolt cv (readBE f (if isQS1YC600BuilderParam p then 4 else 6) 2) = Fin (of_int V)"
proof -
  obtain n where n: "int_of_f64 64 (cv 64) (fmul (Fin (of_int V)) qs1VoltTripWriteScale) = n"
    "0 \<le> n" "n \<le> 3300" "qsVolt cv n = Fin (of_int V)"
    by (rule qs1_volt_register [OF assms(3,4)])
  show ?thesis using assms(2)
  proof
    assume t: "map_of qs1VoltTripSubs p = Some sub"
    let ?f = "BuildL2Frame CmdSetPowerQS1Unicast (qs1NewOneBody sub n 2)"
    have "readBE ?f 6 2 = n" using n(2,3)
      by (intro readBE_wire16) (simp_all add: frame_nths qs1NewOneBody_def)
    moreover have "EncodeSetProtection cv m p (Fin (of_int V)) = Inr [?f]"
      using assms(1,3,4) n qs1_param_ranges(2) [OF t] qs1_volt_lookups(1) [OF t] t
      by (simp add: encode_in_range encodeProtectionQS1A_def Let_def)
    ultimately show ?thesis using n(4) isQS1YC600BuilderParam_tables(2) [OF t] by auto
  next
    assume t: "map_of qs1VoltTripSubsYC600 p = Some sub"
    let ?f = "qs1YC600Frame sub n 2"
    have "readBE ?f 4 2 = n" using n(2,3)
      by (intro readBE_wire16) (simp_all add: frame_nths qs1YC600Frame_def)
    moreover have "EncodeSetProtection cv m p (Fin (of_int V)) = Inr [?f]"
      using assms(1,3,4) n qs1_param_ranges(3) [OF t] qs1_volt_lookups(2) [OF t] t
      by (simp add: encode_in_range encodeProtectionQS1A_def Let_def)
    moreover have "isQS1YC600BuilderParam p" using t by (simp add: isQS1YC600BuilderParam_def)
    ultimately show ?thesis using n(4) by auto
  qed
qed

lemma qs1_volt_write_read_witness:
  "\<exists>f. EncodeSetProtection (\<lambda>_ _. 0) ModelQS1A ''over_voltage_slow'' (Fin (of_int 253)) = Inr [f]
    \<and> qsVolt (\<lambda>_ _. 0) (readBE f (if isQS1YC600BuilderParam ''over_voltage_slow'' then 4 else 6) 2)
       = Fin (of_int 253)"
  by (rule qs1_volt_write_read [where sub = "0x12"]) (simp_all add: FamilyOf_def codec_consts qs1VoltTripSubsYC600_def)

lemma qs1_freq_register:
  assumes "40 \<le> x" and "x \<le> 70"
  obtains n y where "int_of_f64 64 (cv 64) (fdiv qs1aFreqDivBy (Fin x)) = n" and "0 \<le> n"
    and "n < 2 ^ 24" and "qsFreq n = Fin y" and "\<bar>y - x\<bar> \<le> 1 / 10000"
proof -
  define q where "q = 50000000 / x"
  have qx: "q * x = 50000000" using assms by (simp add: q_def)
  have q: "714285 \<le> q" "q \<le> 1250000" using assms by (simp_all add: q_def field_simps)
  then have q23: "\<bar>q\<bar> \<le> 2 ^ 23" by simp
  have eps: "(1 :: rat) / 2 ^ 30 \<le> 1 / 1000000" by simp
  define z where "z = rnd q"
  have z: "\<bar>z - q\<bar> \<le> 1 / 1000000" "0 \<le> z"
    using rnd_close [OF q23] eps rnd_nonneg [of q] q unfolding z_def by linarith+
  define n where "n = trunc z"
  have n: "0 \<le> n" "of_int n \<le> z" "z < of_int n + 1" using trunc_bounds [OF z(2)] by (simp_all add: n_def)
  have "z \<le> 8388608" using z q by linarith
  then have zs: "z \<le> 2 ^ 30" by simp
  have reg: "int_of_f64 64 (cv 64) (fdiv qs1aFreqDivBy (Fin x)) = n"
    using int_of_f64_small [OF z(2) zs, of 64] f64_of_rat_small [OF q23] assms
    by (simp add: qs1aFreqDivBy_def q_def z_def n_def)
  define r where "r = (of_int n :: rat)"
  have r: "r \<le> q + 1 / 1000000" "q - 1 - 1 / 1000000 < r" "714283 \<le> r" "r < 1300000"
    using n(2,3) z(1) q unfolding r_def by linarith+
  have "of_int n < (of_int 1300000 :: rat)" using r(4) by (simp add: r_def)
  then have n24: "n < 1300000" unfolding of_int_less_iff .
  define d where "d = 50000000 / r"
  have dr: "d * r = 50000000" using r(3) by (simp add: d_def)
  have d0: "0 \<le> d" "d \<le> 71" using r(3) by (simp_all add: d_def divide_le_eq)
  have dx: "(d - x) * r = x * (q - r)" using dr qx by (simp add: algebra_simps)
  have up: "x * (q - r) \<le> 7000007 / 100000"
  proof (cases "0 \<le> q - r")
    case True
    have "x * (q - r) \<le> 70 * (1000001 / 1000000)" by (rule mult_mono) (use True assms r(2) in linarith)+
    then show ?thesis by simp
  next
    case False
    then have "x * (q - r) \<le> 0" using assms by (intro mult_nonneg_nonpos) linarith+
    then show ?thesis by linarith
  qed
  have down: "- (7 / 100000) \<le> x * (q - r)"
  proof -
    have "x * (r - q) \<le> 7 / 100000"
    proof (cases "0 \<le> r - q")
      case True
      have "x * (r - q) \<le> 70 * (1 / 1000000)" by (rule mult_mono) (use True assms r(1) in linarith)+
      then show ?thesis by simp
    next
      case False
      then have "x * (r - q) \<le> 0" using assms by (intro mult_nonneg_nonpos) linarith+
      then show ?thesis by linarith
    qed
    moreover have "x * (r - q) = - (x * (q - r))" by (simp add: right_diff_distrib)
    ultimately show ?thesis by linarith
  qed
  have d_up: "d - x \<le> 98005 / 1000000000"
  proof (rule ccontr)
    assume "\<not> ?thesis"
    then have "98005 / 1000000000 * 714283 < (d - x) * r"
      by (intro mult_less_le_imp_less) (use r(3) in linarith)+
    then show False using up unfolding dx by linarith
  qed
  have d_dn: "- (1 / 1000000) \<le> d - x"
  proof (rule ccontr)
    assume "\<not> ?thesis"
    then have "1 / 1000000 * 714283 < (x - d) * r"
      by (intro mult_less_le_imp_less) (use r(3) in linarith)+
    moreover have "(x - d) * r = - (x * (q - r))" using dx by (simp add: left_diff_distrib)
    ultimately show False using down by linarith
  qed
  have d23: "\<bar>d\<bar> \<le> 2 ^ 7" using d0 by simp
  have "(2 :: rat) ^ 7 / 2 ^ 53 \<le> 1 / 1000000000" by simp
  then have "\<bar>rnd d - d\<bar> \<le> 1 / 1000000000" using rnd_err_pow [OF d23] by linarith
  then have near: "\<bar>rnd d - x\<bar> \<le> 1 / 10000" using d_up d_dn by linarith
  have "n \<noteq> 0" using r(3) by (auto simp: r_def)
  then have "qsFreq n = Fin (rnd d)"
    using f64_of_int_exact [of n] n(1) n24 f64_of_rat_Fin [OF d23]
    by (simp add: qsFreq_def qs1aFreqDivBy_def d_def r_def)
  then show thesis using that [OF reg n(1) _ _ near] n24 by simp
qed

lemma qs1_freq_lookup:
  "map_of qs1FreqTripSubsYC600 p = Some s \<Longrightarrow> map_of qs1ProtFreqSubs p = None
     \<and> map_of qs1VoltTripSubs p = None \<and> map_of qs1VoltTripSubsYC600 p = None"
  by (erule map_of_list_all [rotated], code_simp)

text \<open>
  Every frequency in the 40..70 Hz envelope is encodable for the QS1 family, curve point and
  trip alike, and reads back to within 0.0001 Hz.
\<close>

theorem qs1_freq_write_read:
  assumes "FamilyOf m = FamilyQS1"
    and "map_of qs1ProtFreqSubs p = Some sub \<or> map_of qs1FreqTripSubsYC600 p = Some sub"
    and "40 \<le> x" and "x \<le> 70"
  shows "\<exists>f y. EncodeSetProtection cv m p (Fin x) = Inr [f]
    \<and> qsFreq (readBE f (if isQS1YC600BuilderParam p then 4 else 6) 3) = Fin y
    \<and> \<bar>y - x\<bar> \<le> 1 / 10000"
proof -
  obtain n y where n: "int_of_f64 64 (cv 64) (fdiv qs1aFreqDivBy (Fin x)) = n" "0 \<le> n" "n < 2 ^ 24"
    "qsFreq n = Fin y" "\<bar>y - x\<bar> \<le> 1 / 10000"
    by (rule qs1_freq_register [OF assms(3,4)])
  show ?thesis using assms(2)
  proof
    assume t: "map_of qs1ProtFreqSubs p = Some sub"
    let ?f = "BuildL2Frame CmdSetPowerQS1Unicast (qs1NewOneBody sub n 3)"
    have "readBE ?f 6 3 = n" using n(2,3)
      by (intro readBE_wire24) (simp_all add: frame_nths qs1NewOneBody_def)
    moreover have "EncodeSetProtection cv m p (Fin x) = Inr [?f]"
      using assms(1,3,4) n qs1_param_ranges(1) [OF t] t
      by (simp add: encode_in_range encodeProtectionQS1A_def Let_def)
    ultimately show ?thesis using n(4,5) isQS1YC600BuilderParam_tables(1) [OF t] by auto
  next
    assume t: "map_of qs1FreqTripSubsYC600 p = Some sub"
    let ?f = "qs1YC600Frame sub n 3"
    have "readBE ?f 4 3 = n" using n(2,3)
      by (intro readBE_wire24) (simp_all add: frame_nths qs1YC600Frame_def)
    moreover have "EncodeSetProtection cv m p (Fin x) = Inr [?f]"
      using assms(1,3,4) n qs1_param_ranges(4) [OF t] qs1_freq_lookup [OF t] t
      by (simp add: encode_in_range encodeProtectionQS1A_def Let_def)
    moreover have "isQS1YC600BuilderParam p" using t by (simp add: isQS1YC600BuilderParam_def)
    ultimately show ?thesis using n(4,5) by auto
  qed
qed

lemma qs1_freq_write_read_witness:
  "\<exists>f y. EncodeSetProtection (\<lambda>_ _. 0) ModelQS1A ''over_frequency_slow'' (Fin (103 / 2)) = Inr [f]
    \<and> qsFreq (readBE f (if isQS1YC600BuilderParam ''over_frequency_slow'' then 4 else 6) 3) = Fin y
    \<and> \<bar>y - 103 / 2\<bar> \<le> 1 / 10000"
  by (rule qs1_freq_write_read [where sub = "0x59"])
    (simp_all add: FamilyOf_def codec_consts qs1FreqTripSubsYC600_def)

end
