(* ===== verification/Aes128.thy ===== *)
theory Aes128
  imports Prelude
begin

text \<open>
  The block cipher of the standard library's \<open>crypto/aes\<close> at the one key size the code uses:
  AES-128 as FIPS 197 defines it, executable, with the blocks as lists of 16 bytes in the
  column order of the standard.  The interface the L1 codec relies on (decryption inverts
  encryption, both map blocks to blocks) is the locale \<open>block_cipher\<close>; its interpretation on
  these definitions is the correctness proof of the cipher's inverse.
\<close>

section \<open>The byte substitution\<close>

definition sbox_table :: "byte list" where
  "sbox_table =
   [0x63, 0x7C, 0x77, 0x7B, 0xF2, 0x6B, 0x6F, 0xC5, 0x30, 0x01, 0x67, 0x2B, 0xFE, 0xD7, 0xAB, 0x76,
    0xCA, 0x82, 0xC9, 0x7D, 0xFA, 0x59, 0x47, 0xF0, 0xAD, 0xD4, 0xA2, 0xAF, 0x9C, 0xA4, 0x72, 0xC0,
    0xB7, 0xFD, 0x93, 0x26, 0x36, 0x3F, 0xF7, 0xCC, 0x34, 0xA5, 0xE5, 0xF1, 0x71, 0xD8, 0x31, 0x15,
    0x04, 0xC7, 0x23, 0xC3, 0x18, 0x96, 0x05, 0x9A, 0x07, 0x12, 0x80, 0xE2, 0xEB, 0x27, 0xB2, 0x75,
    0x09, 0x83, 0x2C, 0x1A, 0x1B, 0x6E, 0x5A, 0xA0, 0x52, 0x3B, 0xD6, 0xB3, 0x29, 0xE3, 0x2F, 0x84,
    0x53, 0xD1, 0x00, 0xED, 0x20, 0xFC, 0xB1, 0x5B, 0x6A, 0xCB, 0xBE, 0x39, 0x4A, 0x4C, 0x58, 0xCF,
    0xD0, 0xEF, 0xAA, 0xFB, 0x43, 0x4D, 0x33, 0x85, 0x45, 0xF9, 0x02, 0x7F, 0x50, 0x3C, 0x9F, 0xA8,
    0x51, 0xA3, 0x40, 0x8F, 0x92, 0x9D, 0x38, 0xF5, 0xBC, 0xB6, 0xDA, 0x21, 0x10, 0xFF, 0xF3, 0xD2,
    0xCD, 0x0C, 0x13, 0xEC, 0x5F, 0x97, 0x44, 0x17, 0xC4, 0xA7, 0x7E, 0x3D, 0x64, 0x5D, 0x19, 0x73,
    0x60, 0x81, 0x4F, 0xDC, 0x22, 0x2A, 0x90, 0x88, 0x46, 0xEE, 0xB8, 0x14, 0xDE, 0x5E, 0x0B, 0xDB,
    0xE0, 0x32, 0x3A, 0x0A, 0x49, 0x06, 0x24, 0x5C, 0xC2, 0xD3, 0xAC, 0x62, 0x91, 0x95, 0xE4, 0x79,
    0xE7, 0xC8, 0x37, 0x6D, 0x8D, 0xD5, 0x4E, 0xA9, 0x6C, 0x56, 0xF4, 0xEA, 0x65, 0x7A, 0xAE, 0x08,
    0xBA, 0x78, 0x25, 0x2E, 0x1C, 0xA6, 0xB4, 0xC6, 0xE8, 0xDD, 0x74, 0x1F, 0x4B, 0xBD, 0x8B, 0x8A,
    0x70, 0x3E, 0xB5, 0x66, 0x48, 0x03, 0xF6, 0x0E, 0x61, 0x35, 0x57, 0xB9, 0x86, 0xC1, 0x1D, 0x9E,
    0xE1, 0xF8, 0x98, 0x11, 0x69, 0xD9, 0x8E, 0x94, 0x9B, 0x1E, 0x87, 0xE9, 0xCE, 0x55, 0x28, 0xDF,
    0x8C, 0xA1, 0x89, 0x0D, 0xBF, 0xE6, 0x42, 0x68, 0x41, 0x99, 0x2D, 0x0F, 0xB0, 0x54, 0xBB, 0x16]"

definition inv_sbox_table :: "byte list" where
  "inv_sbox_table =
   [0x52, 0x09, 0x6A, 0xD5, 0x30, 0x36, 0xA5, 0x38, 0xBF, 0x40, 0xA3, 0x9E, 0x81, 0xF3, 0xD7, 0xFB,
    0x7C, 0xE3, 0x39, 0x82, 0x9B, 0x2F, 0xFF, 0x87, 0x34, 0x8E, 0x43, 0x44, 0xC4, 0xDE, 0xE9, 0xCB,
    0x54, 0x7B, 0x94, 0x32, 0xA6, 0xC2, 0x23, 0x3D, 0xEE, 0x4C, 0x95, 0x0B, 0x42, 0xFA, 0xC3, 0x4E,
    0x08, 0x2E, 0xA1, 0x66, 0x28, 0xD9, 0x24, 0xB2, 0x76, 0x5B, 0xA2, 0x49, 0x6D, 0x8B, 0xD1, 0x25,
    0x72, 0xF8, 0xF6, 0x64, 0x86, 0x68, 0x98, 0x16, 0xD4, 0xA4, 0x5C, 0xCC, 0x5D, 0x65, 0xB6, 0x92,
    0x6C, 0x70, 0x48, 0x50, 0xFD, 0xED, 0xB9, 0xDA, 0x5E, 0x15, 0x46, 0x57, 0xA7, 0x8D, 0x9D, 0x84,
    0x90, 0xD8, 0xAB, 0x00, 0x8C, 0xBC, 0xD3, 0x0A, 0xF7, 0xE4, 0x58, 0x05, 0xB8, 0xB3, 0x45, 0x06,
    0xD0, 0x2C, 0x1E, 0x8F, 0xCA, 0x3F, 0x0F, 0x02, 0xC1, 0xAF, 0xBD, 0x03, 0x01, 0x13, 0x8A, 0x6B,
    0x3A, 0x91, 0x11, 0x41, 0x4F, 0x67, 0xDC, 0xEA, 0x97, 0xF2, 0xCF, 0xCE, 0xF0, 0xB4, 0xE6, 0x73,
    0x96, 0xAC, 0x74, 0x22, 0xE7, 0xAD, 0x35, 0x85, 0xE2, 0xF9, 0x37, 0xE8, 0x1C, 0x75, 0xDF, 0x6E,
    0x47, 0xF1, 0x1A, 0x71, 0x1D, 0x29, 0xC5, 0x89, 0x6F, 0xB7, 0x62, 0x0E, 0xAA, 0x18, 0xBE, 0x1B,
    0xFC, 0x56, 0x3E, 0x4B, 0xC6, 0xD2, 0x79, 0x20, 0x9A, 0xDB, 0xC0, 0xFE, 0x78, 0xCD, 0x5A, 0xF4,
    0x1F, 0xDD, 0xA8, 0x33, 0x88, 0x07, 0xC7, 0x31, 0xB1, 0x12, 0x10, 0x59, 0x27, 0x80, 0xEC, 0x5F,
    0x60, 0x51, 0x7F, 0xA9, 0x19, 0xB5, 0x4A, 0x0D, 0x2D, 0xE5, 0x7A, 0x9F, 0x93, 0xC9, 0x9C, 0xEF,
    0xA0, 0xE0, 0x3B, 0x4D, 0xAE, 0x2A, 0xF5, 0xB0, 0xC8, 0xEB, 0xBB, 0x3C, 0x83, 0x53, 0x99, 0x61,
    0x17, 0x2B, 0x04, 0x7E, 0xBA, 0x77, 0xD6, 0x26, 0xE1, 0x69, 0x14, 0x63, 0x55, 0x21, 0x0C, 0x7D]"

definition sbox :: "byte \<Rightarrow> byte" where
  "sbox b = sbox_table ! unat b"

definition inv_sbox :: "byte \<Rightarrow> byte" where
  "inv_sbox b = inv_sbox_table ! unat b"

section \<open>Rows and columns\<close>

text \<open>Byte \<open>4 * c + r\<close> of a block is row \<open>r\<close> of column \<open>c\<close>.\<close>

definition shift_rows :: "bytes \<Rightarrow> bytes" where
  "shift_rows s = map ((!) s) [0, 5, 10, 15, 4, 9, 14, 3, 8, 13, 2, 7, 12, 1, 6, 11]"

definition inv_shift_rows :: "bytes \<Rightarrow> bytes" where
  "inv_shift_rows s = map ((!) s) [0, 13, 10, 7, 4, 1, 14, 11, 8, 5, 2, 15, 12, 9, 6, 3]"

text \<open>Multiplication by \<open>x\<close> in the field, and by the other coefficients as sums of it.\<close>

definition xtime :: "byte \<Rightarrow> byte" where
  "xtime b = push_bit 1 b XOR (if bit b 7 then 0x1B else 0)"

definition mul3 :: "byte \<Rightarrow> byte" where "mul3 b = xtime b XOR b"
definition mul9 :: "byte \<Rightarrow> byte" where "mul9 b = xtime (xtime (xtime b)) XOR b"
definition mul11 :: "byte \<Rightarrow> byte" where "mul11 b = xtime (xtime (xtime b)) XOR xtime b XOR b"
definition mul13 :: "byte \<Rightarrow> byte" where
  "mul13 b = xtime (xtime (xtime b)) XOR xtime (xtime b) XOR b"
definition mul14 :: "byte \<Rightarrow> byte" where
  "mul14 b = xtime (xtime (xtime b)) XOR xtime (xtime b) XOR xtime b"

fun mix_columns :: "bytes \<Rightarrow> bytes" where
  "mix_columns (a # b # c # d # rest) =
     (xtime a XOR mul3 b XOR c XOR d) # (a XOR xtime b XOR mul3 c XOR d)
     # (a XOR b XOR xtime c XOR mul3 d) # (mul3 a XOR b XOR c XOR xtime d) # mix_columns rest"
| "mix_columns s = s"

fun inv_mix_columns :: "bytes \<Rightarrow> bytes" where
  "inv_mix_columns (a # b # c # d # rest) =
     (mul14 a XOR mul11 b XOR mul13 c XOR mul9 d) # (mul9 a XOR mul14 b XOR mul11 c XOR mul13 d)
     # (mul13 a XOR mul9 b XOR mul14 c XOR mul11 d) # (mul11 a XOR mul13 b XOR mul9 c XOR mul14 d)
     # inv_mix_columns rest"
| "inv_mix_columns s = s"

definition add_round_key :: "bytes \<Rightarrow> bytes \<Rightarrow> bytes" where
  "add_round_key k s = map2 (XOR) s k"

section \<open>The key schedule\<close>

definition next_round_key :: "byte \<Rightarrow> bytes \<Rightarrow> bytes" where
  "next_round_key rc k =
     (let e = map2 (XOR) (take 4 k) [sbox (k ! 13) XOR rc, sbox (k ! 14), sbox (k ! 15), sbox (k ! 12)];
          f = map2 (XOR) (take 4 (drop 4 k)) e;
          g = map2 (XOR) (take 4 (drop 8 k)) f;
          h = map2 (XOR) (take 4 (drop 12 k)) g
      in e @ f @ g @ h)"

fun round_keys :: "byte list \<Rightarrow> bytes \<Rightarrow> bytes list" where
  "round_keys [] k = []"
| "round_keys (rc # rcs) k = (let k' = next_round_key rc k in k' # round_keys rcs k')"

definition rcons :: "byte list" where
  "rcons = [0x01, 0x02, 0x04, 0x08, 0x10, 0x20, 0x40, 0x80, 0x1B, 0x36]"

section \<open>The cipher and its inverse\<close>

fun enc_rounds :: "bytes list \<Rightarrow> bytes \<Rightarrow> bytes" where
  "enc_rounds [] s = s"
| "enc_rounds [k] s = add_round_key k (shift_rows (map sbox s))"
| "enc_rounds (k # ks) s = enc_rounds ks (add_round_key k (mix_columns (shift_rows (map sbox s))))"

fun dec_rounds :: "bytes list \<Rightarrow> bytes \<Rightarrow> bytes" where
  "dec_rounds [] s = s"
| "dec_rounds [k] s = map inv_sbox (inv_shift_rows (add_round_key k s))"
| "dec_rounds (k # ks) s =
     map inv_sbox (inv_shift_rows (inv_mix_columns (add_round_key k (dec_rounds ks s))))"

definition aes_encrypt :: "bytes \<Rightarrow> bytes \<Rightarrow> bytes" where
  "aes_encrypt key s = enc_rounds (round_keys rcons key) (add_round_key key s)"

definition aes_decrypt :: "bytes \<Rightarrow> bytes \<Rightarrow> bytes" where
  "aes_decrypt key s = add_round_key key (dec_rounds (round_keys rcons key) s)"

section \<open>Each step is undone\<close>

lemma sbox_inverse: "inv_sbox (sbox b) = b"
proof -
  have "map (\<lambda>x. inv_sbox_table ! unat x) sbox_table = map of_nat [0..<256]"
    by code_simp
  then have "map (\<lambda>x. inv_sbox_table ! unat x) sbox_table ! unat b = map of_nat [0..<256] ! unat b"
    by simp
  moreover have "unat b < 256" using unsigned_less [of b] by simp
  moreover have "length sbox_table = 256" by (simp add: sbox_table_def)
  ultimately show ?thesis by (simp add: sbox_def inv_sbox_def)
qed

lemma shift_rows_inverse:
  assumes "length s = 16"
  shows "inv_shift_rows (shift_rows s) = s"
proof -
  have "inv_shift_rows (shift_rows s) = map ((!) s) [0..<16]"
    by (simp add: inv_shift_rows_def shift_rows_def upt_rec eval_nat_numeral)
  then show ?thesis using map_nth [of s] assms by simp
qed

lemma length_shift_rows [simp]: "length (shift_rows s) = 16" "length (inv_shift_rows s) = 16"
  by (simp_all add: shift_rows_def inv_shift_rows_def)

lemma xtime_xor: "xtime (a XOR b) = xtime a XOR xtime b"
  by (rule bit_word_eqI) (auto simp: xtime_def bit_simps)

lemma xor_cancel: "a XOR (a XOR b) = (b :: byte)"
  by (simp flip: xor.assoc)

lemma mix_column_inverse:
  "mul14 (xtime a XOR mul3 b XOR c XOR d) XOR mul11 (a XOR xtime b XOR mul3 c XOR d)
     XOR mul13 (a XOR b XOR xtime c XOR mul3 d) XOR mul9 (mul3 a XOR b XOR c XOR xtime d) = a"
  "mul9 (xtime a XOR mul3 b XOR c XOR d) XOR mul14 (a XOR xtime b XOR mul3 c XOR d)
     XOR mul11 (a XOR b XOR xtime c XOR mul3 d) XOR mul13 (mul3 a XOR b XOR c XOR xtime d) = b"
  "mul13 (xtime a XOR mul3 b XOR c XOR d) XOR mul9 (a XOR xtime b XOR mul3 c XOR d)
     XOR mul14 (a XOR b XOR xtime c XOR mul3 d) XOR mul11 (mul3 a XOR b XOR c XOR xtime d) = c"
  "mul11 (xtime a XOR mul3 b XOR c XOR d) XOR mul13 (a XOR xtime b XOR mul3 c XOR d)
     XOR mul9 (a XOR b XOR xtime c XOR mul3 d) XOR mul14 (mul3 a XOR b XOR c XOR xtime d) = d"
  by (simp_all add: mul3_def mul9_def mul11_def mul13_def mul14_def xtime_xor
      xor.assoc xor.commute xor.left_commute xor_cancel)

lemma mix_columns_inverse: "inv_mix_columns (mix_columns s) = s"
  by (induction s rule: mix_columns.induct) (simp_all add: mix_column_inverse)

lemma length_mix_columns [simp]: "length (mix_columns s) = length s"
  by (induction s rule: mix_columns.induct) simp_all

lemma length_inv_mix_columns [simp]: "length (inv_mix_columns s) = length s"
  by (induction s rule: inv_mix_columns.induct) simp_all

lemma add_round_key_inverse:
  "length s \<le> length k \<Longrightarrow> add_round_key k (add_round_key k s) = s"
  by (induction s arbitrary: k) (auto simp: add_round_key_def Suc_le_length_iff xor.assoc)

lemma length_add_round_key [simp]: "length (add_round_key k s) = min (length s) (length k)"
  by (simp add: add_round_key_def)

lemma length_next_round_key: "length k = 16 \<Longrightarrow> length (next_round_key rc k) = 16"
  by (simp add: next_round_key_def Let_def)

lemma round_keys_16: "length k = 16 \<Longrightarrow> \<forall>x \<in> set (round_keys rcs k). length x = 16"
proof (induction rcs arbitrary: k)
  case (Cons rc rcs)
  have "length (next_round_key rc k) = 16" using Cons.prems by (rule length_next_round_key)
  with Cons.IH [OF this] show ?case by (simp add: Let_def)
qed simp

lemma enc_rounds_16:
  assumes "\<forall>k \<in> set ks. length k = 16" and "length s = 16"
  shows "length (enc_rounds ks s) = 16"
  using assms
  by (induction ks s rule: enc_rounds.induct) (simp_all add: shift_rows_inverse)

lemma dec_enc_rounds:
  assumes "\<forall>k \<in> set ks. length k = 16" and "length s = 16"
  shows "dec_rounds ks (enc_rounds ks s) = s"
  using assms
proof (induction ks s rule: enc_rounds.induct)
  case (2 k s)
  then show ?case
    by (simp add: add_round_key_inverse shift_rows_inverse sbox_inverse map_idI)
next
  case (3 k k' ks s)
  let ?t = "add_round_key k (mix_columns (shift_rows (map sbox s)))"
  have "length ?t = 16" using 3 by (simp add: shift_rows_inverse)
  then have "dec_rounds (k' # ks) (enc_rounds (k' # ks) ?t) = ?t" using 3 by simp
  then show ?case using 3
    by (simp add: add_round_key_inverse shift_rows_inverse mix_columns_inverse sbox_inverse map_idI)
qed simp

lemma dec_rounds_16:
  assumes "\<forall>k \<in> set ks. length k = 16" and "length s = 16"
  shows "length (dec_rounds ks s) = 16"
  using assms
  by (induction ks s rule: dec_rounds.induct) (simp_all add: shift_rows_inverse)

section \<open>The interface\<close>

text \<open>Electronic-codebook mode: every block on its own.\<close>

fun ecb :: "(bytes \<Rightarrow> bytes) \<Rightarrow> nat \<Rightarrow> bytes \<Rightarrow> bytes" where
  "ecb f 0 xs = []"
| "ecb f (Suc n) xs = f (take 16 xs) @ ecb f n (drop 16 xs)"

lemma length_ecb:
  assumes "\<And>b. length b = 16 \<Longrightarrow> length (f b) = 16" and "length xs = 16 * n"
  shows "length (ecb f n xs) = 16 * n"
  using assms(2) by (induction n arbitrary: xs) (simp_all add: assms(1))

locale block_cipher =
  fixes encrypt :: "bytes \<Rightarrow> bytes \<Rightarrow> bytes" and decrypt :: "bytes \<Rightarrow> bytes \<Rightarrow> bytes"
  assumes decrypt_encrypt: "length k = 16 \<Longrightarrow> length b = 16 \<Longrightarrow> decrypt k (encrypt k b) = b"
    and encrypt_length: "length k = 16 \<Longrightarrow> length b = 16 \<Longrightarrow> length (encrypt k b) = 16"
    and decrypt_length: "length k = 16 \<Longrightarrow> length b = 16 \<Longrightarrow> length (decrypt k b) = 16"
begin

lemma ecb_inverse:
  assumes "length k = 16" and "length xs = 16 * n"
  shows "ecb (decrypt k) n (ecb (encrypt k) n xs) = xs"
  using assms(2)
proof (induction n arbitrary: xs)
  case (Suc n)
  have "length (take 16 xs) = 16" using Suc.prems by simp
  then have "length (encrypt k (take 16 xs)) = 16" "decrypt k (encrypt k (take 16 xs)) = take 16 xs"
    using assms(1) by (simp_all add: encrypt_length decrypt_encrypt)
  then show ?case using Suc by simp
qed simp

end

interpretation aes: block_cipher aes_encrypt aes_decrypt
proof
  fix k b :: bytes
  assume k: "length k = 16" and b: "length b = 16"
  note r = round_keys_16 [OF k, of rcons]
  have s: "length (add_round_key k b) = 16" using k b by simp
  show "aes_decrypt k (aes_encrypt k b) = b"
    using dec_enc_rounds [OF r s] k b by (simp add: aes_decrypt_def aes_encrypt_def add_round_key_inverse)
  show "length (aes_encrypt k b) = 16" using enc_rounds_16 [OF r s] by (simp add: aes_encrypt_def)
  show "length (aes_decrypt k b) = 16" using dec_rounds_16 [OF r b] k by (simp add: aes_decrypt_def)
qed

text \<open>The example vector of FIPS 197, appendix C.1.\<close>

lemma aes_fips_vector:
  "aes_encrypt [0x00, 0x01, 0x02, 0x03, 0x04, 0x05, 0x06, 0x07,
                0x08, 0x09, 0x0A, 0x0B, 0x0C, 0x0D, 0x0E, 0x0F]
               [0x00, 0x11, 0x22, 0x33, 0x44, 0x55, 0x66, 0x77,
                0x88, 0x99, 0xAA, 0xBB, 0xCC, 0xDD, 0xEE, 0xFF] =
     [0x69, 0xC4, 0xE0, 0xD8, 0x6A, 0x7B, 0x04, 0x30,
      0xD8, 0xCD, 0xB7, 0x80, 0x70, 0xB4, 0xC5, 0x5A]"
  by code_simp

end
