(* ===== verification/AesL1.thy ===== *)
theory AesL1
  imports Aes128 Frame
begin

text \<open>
  The over-the-air encryption of the L1 layer (\<open>aes.go\<close>): the per-frame key, the BCD form of an
  inverter identifier, decryption of a received frame and encryption of an outbound one.  The
  package switch \<open>aesEnabled\<close> is an argument where it is read.  The nonce source
  \<open>crypto/rand\<close> is the argument \<open>rng\<close>: the six bytes it yields, or its error.
\<close>

section \<open>Errors and keys\<close>

datatype aes_error = ErrAESLengthInvalid | ErrAESDecryptFailed | ErrAESEncryptFailed | ErrAESInverterID

definition fixedKeyTail :: bytes where
  "fixedKeyTail = [0x18, 0x28, 0x45, 0x90]"

text \<open>\<open>copy\<close> into a zeroed destination of fixed size.\<close>

definition copied :: "nat \<Rightarrow> bytes \<Rightarrow> bytes" where
  "copied n xs = take n xs @ replicate (n - length xs) 0"

definition deriveFrameKey :: "bytes \<Rightarrow> bytes \<Rightarrow> bytes" where
  "deriveFrameKey nonce6 ieee6 = copied 6 nonce6 @ copied 6 ieee6 @ fixedKeyTail"

definition bcd_byte :: "char \<Rightarrow> char \<Rightarrow> byte" where
  "bcd_byte c d = (push_bit 4 (of_char c) + of_char d + 0xD0) AND 0xFF"

definition idToBCD :: "string \<Rightarrow> aes_error + bytes" where
  "idToBCD uid =
     (if length uid \<noteq> 12 then Inl ErrAESInverterID
      else Inr (map (\<lambda>i. bcd_byte (uid ! (2 * i)) (uid ! (2 * i + 1))) [0..<6]))"

definition PeerUIDHexFromBCD :: "bytes \<Rightarrow> string" where
  "PeerUIDHexFromBCD ieee = hex_string ieee"

section \<open>Receiving\<close>

definition decryptCiphertext :: "bytes \<Rightarrow> bytes \<Rightarrow> aes_error + bytes" where
  "decryptCiphertext key ct =
     (if length ct = 0 \<or> length ct mod 16 \<noteq> 0 then Inl ErrAESLengthInvalid
      else let pt = ecb (aes_decrypt key) (length ct div 16) ct;
               bodyLen = unat (pt ! 0)
           in if 1 + bodyLen > length pt then Inl ErrAESLengthInvalid
              else Inr (take bodyLen (drop 1 pt)))"

definition DecryptRX :: "bytes \<Rightarrow> aes_error + (bytes \<times> bytes)" where
  "DecryptRX raw =
     (if length raw < 0x12 then Inl ErrAESLengthInvalid
      else if raw ! 0 \<noteq> L1ReplySOF \<or> raw ! 1 \<noteq> L1ReplySOF then Inl ErrAESLengthInvalid
      else let ieee = take 6 (drop 6 raw);
               key = deriveFrameKey (take 6 (drop 12 raw)) ieee
           in case decryptCiphertext key (drop 18 raw) of
                Inl e \<Rightarrow> Inl e
              | Inr body \<Rightarrow> Inr (body, ieee))"

definition DecryptRXIntoEnvelope :: "bytes \<Rightarrow> aes_error + L1Envelope" where
  "DecryptRXIntoEnvelope raw =
     (case DecryptRX raw of
        Inl e \<Rightarrow> Inl e
      | Inr (body, ieee) \<Rightarrow>
          Inr \<lparr> l1_ShortAddr = u16_of (raw ! 2) (raw ! 3), l1_RSSI = raw ! 4, l1_LQI = raw ! 5,
                l1_PeerUID = ieee, l1_Encrypted = True, l1_L2Frame = body \<rparr>)"

definition decryptEnvelopeInPlace :: "L1Envelope \<Rightarrow> aes_error + L1Envelope" where
  "decryptEnvelopeInPlace env =
     (let tail = l1_L2Frame env
      in if length tail < 6 + 16 then Inl ErrAESLengthInvalid
         else let key = deriveFrameKey (take 6 tail) (l1_PeerUID env)
              in case decryptCiphertext key (drop 6 tail) of
                   Inl e \<Rightarrow> Inl e
                 | Inr body \<Rightarrow> Inr (env\<lparr>l1_L2Frame := body\<rparr>))"

section \<open>Sending\<close>

definition padded_len :: "nat \<Rightarrow> nat" where
  "padded_len blen =
     (let n = blen + 1 in if n mod 16 \<noteq> 0 then n + (16 - n mod 16) else n)"

definition aes_plaintext :: "bytes \<Rightarrow> bytes" where
  "aes_plaintext body =
     of_nat (length body) # body @ replicate (padded_len (length body) - 1 - length body) 0"

fun sum_int :: "bytes \<Rightarrow> int" where
  "sum_int [] = 0"
| "sum_int (b # bs) = uint b + sum_int bs"

definition choose_nonce :: "bytes option \<Rightarrow> bytes option \<Rightarrow> aes_error + bytes" where
  "choose_nonce rng nonce6 =
     (case nonce6 of
        None \<Rightarrow> (case rng of None \<Rightarrow> Inl ErrAESEncryptFailed | Some r \<Rightarrow> Inr r)
      | Some n \<Rightarrow> if length n \<noteq> 6 then Inl ErrAESLengthInvalid else Inr n)"

definition EncryptTX ::
  "bytes option \<Rightarrow> byte \<Rightarrow> u16 \<Rightarrow> string \<Rightarrow> bytes \<Rightarrow> bytes option \<Rightarrow> aes_error + bytes" where
  "EncryptTX rng opcode shortAddr uid body nonce6 =
     (case idToBCD uid of
        Inl e \<Rightarrow> Inl e
      | Inr ieee \<Rightarrow>
     (case choose_nonce rng nonce6 of
        Inl e \<Rightarrow> Inl e
      | Inr nonce \<Rightarrow>
          let n = padded_len (length body);
              ct = ecb (aes_encrypt (deriveFrameKey nonce ieee)) (n div 16) (aes_plaintext body);
              head = [opcode, hi8 shortAddr, lo8 shortAddr, 0, 0, 0, 0, 0xA0];
              sum = sum_int head
          in Inr ([L1Preamble, L1Preamble, L1Preamble, L1Preamble] @ head
                  @ [of_int (sum div 256), of_int (sum mod 256), of_nat (n + 7),
                     if uid = ''000000000000'' then 0xA0 else 0xA1]
                  @ nonce @ ct)))"

section \<open>Padding and length\<close>

lemma padded_len_facts:
  "padded_len b mod 16 = 0" "b + 1 \<le> padded_len b" "padded_len b \<le> b + 16"
proof -
  have "n + (16 - n mod 16) = 16 * (n div 16 + 1)" for n :: nat
  proof -
    obtain q r where q: "q = n div 16" and r: "r = n mod 16" by blast
    then have n: "n = 16 * q + r" and "r < 16" by simp_all
    from \<open>r < 16\<close> have "16 * q + r + (16 - r) = 16 * (q + 1)" by simp
    then show ?thesis by (simp only: q [symmetric] r [symmetric]) (simp only: n)
  qed
  then have pad: "(n + (16 - n mod 16)) mod 16 = 0" for n :: nat by simp
  then show "padded_len b mod 16 = 0" using pad [of "b + 1"] by (auto simp: padded_len_def Let_def)
  have "(b + 1) mod 16 < 16" by simp
  then have "0 < 16 - (b + 1) mod 16" "(b + 1) mod 16 \<noteq> 0 \<longrightarrow> 16 - (b + 1) mod 16 \<le> 15" by linarith+
  then show "b + 1 \<le> padded_len b" "padded_len b \<le> b + 16"
    unfolding padded_len_def Let_def by (simp_all only: split: if_split) linarith+
qed

lemma length_aes_plaintext [simp]: "length (aes_plaintext body) = padded_len (length body)"
  using padded_len_facts(2) [of "length body"] by (simp add: aes_plaintext_def)

lemma length_deriveFrameKey [simp]: "length (deriveFrameKey n i) = 16"
  by (simp add: deriveFrameKey_def copied_def fixedKeyTail_def)

definition body_cipher :: "bytes \<Rightarrow> bytes \<Rightarrow> bytes" where
  "body_cipher key body =
     ecb (aes_encrypt key) (padded_len (length body) div 16) (aes_plaintext body)"

lemma length_body_cipher:
  assumes "length key = 16"
  shows "length (body_cipher key body) = padded_len (length body)"
proof -
  have n: "16 * (padded_len (length body) div 16) = padded_len (length body)"
    using padded_len_facts(1) [of "length body"] by (metis add_0_right mult_div_mod_eq)
  then show ?thesis
    using length_ecb [of "aes_encrypt key" "aes_plaintext body" "padded_len (length body) div 16"]
      aes.encrypt_length [OF assms] by (simp add: body_cipher_def)
qed

text \<open>What comes back is the prefix whose length is the length byte.\<close>

lemma decrypt_body_cipher:
  assumes k: "length key = 16"
  shows "decryptCiphertext key (body_cipher key body) = Inr (take (length body mod 256) body)"
proof -
  let ?n = "padded_len (length body)"
  have n: "16 * (?n div 16) = ?n"
    using padded_len_facts(1) [of "length body"] by (metis add_0_right mult_div_mod_eq)
  have "ecb (aes_decrypt key) (?n div 16) (body_cipher key body) = aes_plaintext body"
    unfolding body_cipher_def using n by (intro aes.ecb_inverse k) simp
  moreover have "unat (of_nat (length body) :: byte) = length body mod 256"
    by (simp add: unat_of_nat)
  moreover have "length body mod 256 \<le> length body" by simp
  moreover have "0 < ?n" "?n mod 16 = 0" "length body + 1 \<le> ?n"
    using padded_len_facts [of "length body"] by linarith+
  ultimately show ?thesis
    using length_body_cipher [OF k, of body] \<open>length body mod 256 \<le> length body\<close>
    by (simp add: decryptCiphertext_def Let_def aes_plaintext_def)
qed

lemma EncryptTX_frame:
  assumes "idToBCD uid = Inr ieee" and "choose_nonce rng nonce6 = Inr nonce"
  shows "\<exists>head. length head = 16 \<and> EncryptTX rng opcode sa uid body nonce6 =
      Inr (head @ nonce @ body_cipher (deriveFrameKey nonce ieee) body)"
  using assms by (simp add: EncryptTX_def Let_def body_cipher_def)

section \<open>Round trip over the air\<close>

text \<open>
  A frame as the other side sees it: the modem's reply header and the sender's UID in front of
  the nonce and ciphertext of the transmitted frame.
\<close>

definition on_air :: "byte \<Rightarrow> byte \<Rightarrow> byte \<Rightarrow> byte \<Rightarrow> bytes \<Rightarrow> bytes \<Rightarrow> bytes" where
  "on_air a b rssi lqi ieee out =
     [L1ReplySOF, L1ReplySOF, a, b, rssi, lqi] @ ieee @ drop 16 out"

lemma length_idToBCD: "idToBCD uid = Inr ieee \<Longrightarrow> length ieee = 6"
  by (auto simp: idToBCD_def split: if_splits)

lemma DecryptRX_on_air:
  assumes ieee: "idToBCD uid = Inr ieee" and nonce: "choose_nonce rng nonce6 = Inr nonce"
    and n6: "length nonce = 6"
    and enc: "EncryptTX rng opcode sa uid body nonce6 = Inr out"
  shows "DecryptRX (on_air a b rssi lqi ieee out) = Inr (take (length body mod 256) body, ieee)"
    and "drop 16 out = nonce @ body_cipher (deriveFrameKey nonce ieee) body"
proof -
  obtain head where h: "length head = 16"
    and out: "out = head @ nonce @ body_cipher (deriveFrameKey nonce ieee) body"
    using EncryptTX_frame [OF ieee nonce, of opcode sa body] enc by auto
  then show tail: "drop 16 out = nonce @ body_cipher (deriveFrameKey nonce ieee) body" by simp
  show "DecryptRX (on_air a b rssi lqi ieee out) = Inr (take (length body mod 256) body, ieee)"
    using n6 length_idToBCD [OF ieee]
    by (simp add: DecryptRX_def on_air_def tail Let_def decrypt_body_cipher)
qed

text \<open>
  C7: a body of at most 255 bytes encrypted for an inverter and received back decrypts, on the
  raw-frame path and on the parsed-envelope path, to exactly that body and that inverter.
\<close>

theorem aes_roundtrip:
  assumes "idToBCD uid = Inr ieee" and "length nonce = 6" and "length body \<le> 255"
  shows "\<exists>out. EncryptTX rng opcode sa uid body (Some nonce) = Inr out
    \<and> DecryptRX (on_air a b rssi lqi ieee out) = Inr (body, ieee)
    \<and> decryptEnvelopeInPlace (env\<lparr>l1_PeerUID := ieee, l1_L2Frame := drop 16 out\<rparr>)
        = Inr (env\<lparr>l1_PeerUID := ieee, l1_L2Frame := body\<rparr>)"
proof -
  have n: "choose_nonce rng (Some nonce) = Inr nonce" using assms(2) by (simp add: choose_nonce_def)
  obtain out where out: "EncryptTX rng opcode sa uid body (Some nonce) = Inr out"
    using EncryptTX_frame [OF assms(1) n] by blast
  have all: "take (length body mod 256) body = body" using assms(3) by simp
  note rx = DecryptRX_on_air [OF assms(1) n assms(2) out]
  have "16 \<le> length (body_cipher (deriveFrameKey nonce ieee) body)"
    using padded_len_facts(1,2) [of "length body"] by (simp add: length_body_cipher) presburger
  then have "decryptEnvelopeInPlace (env\<lparr>l1_PeerUID := ieee, l1_L2Frame := drop 16 out\<rparr>)
      = Inr (env\<lparr>l1_PeerUID := ieee, l1_L2Frame := body\<rparr>)"
    using assms(2) rx(2) all
    by (simp add: decryptEnvelopeInPlace_def Let_def decrypt_body_cipher)
  then show ?thesis using out rx(1) all by auto
qed

lemma idToBCD_sample: "idToBCD ''806000042582'' = Inr [0x80, 0x60, 0, 4, 0x25, 0x82]"
  by code_simp

lemma aes_roundtrip_witness:
  "\<exists>out. EncryptTX None 0x55 0x1234 ''806000042582'' [1, 2, 3] (Some [9, 8, 7, 6, 5, 4]) = Inr out
    \<and> DecryptRX (on_air 0x12 0x34 0 0 [0x80, 0x60, 0, 4, 0x25, 0x82] out)
        = Inr ([1, 2, 3], [0x80, 0x60, 0, 4, 0x25, 0x82])"
  using aes_roundtrip [OF idToBCD_sample, where nonce = "[9, 8, 7, 6, 5, 4]" and body = "[1, 2, 3]"
      and rng = "None" and opcode = "0x55" and sa = "0x1234" and a = "0x12" and b = "0x34" and rssi = "0" and lqi = "0"]
  by auto

text \<open>
  The length prefix is one byte: a longer body is accepted by \<open>EncryptTX\<close> and silently
  arrives cut to its length modulo 256.
\<close>

theorem aes_long_body_truncated:
  assumes "idToBCD uid = Inr ieee" and "length nonce = 6"
  shows "\<exists>out. EncryptTX rng opcode sa uid body (Some nonce) = Inr out
    \<and> DecryptRX (on_air a b rssi lqi ieee out) = Inr (take (length body mod 256) body, ieee)"
proof -
  have n: "choose_nonce rng (Some nonce) = Inr nonce" using assms(2) by (simp add: choose_nonce_def)
  obtain out where out: "EncryptTX rng opcode sa uid body (Some nonce) = Inr out"
    using EncryptTX_frame [OF assms(1) n] by blast
  then show ?thesis using DecryptRX_on_air(1) [OF assms(1) n assms(2)] by blast
qed

lemma aes_long_body_truncated_witness:
  "\<exists>out. EncryptTX None 0x55 0x1234 ''806000042582'' (replicate 300 7) (Some [9, 8, 7, 6, 5, 4]) = Inr out
    \<and> DecryptRX (on_air 0x12 0x34 0 0 [0x80, 0x60, 0, 4, 0x25, 0x82] out)
        = Inr (replicate 44 7, [0x80, 0x60, 0, 4, 0x25, 0x82])"
proof -
  have "take (length (replicate 300 (7 :: byte)) mod 256) (replicate 300 7) = (replicate 44 7 :: bytes)"
    by (simp only: length_replicate take_replicate) simp
  then show ?thesis
    using aes_long_body_truncated [OF idToBCD_sample, where nonce = "[9, 8, 7, 6, 5, 4]" and body = "replicate 300 7"
        and rng = "None" and opcode = "0x55" and sa = "0x1234" and a = "0x12" and b = "0x34" and rssi = "0" and lqi = "0"]
    by (simp only: list.size One_nat_def add_Suc_right add_0_right numeral_nat)
qed

text \<open>
  The byte that marks a received frame as ciphertext is the first byte of the sender's
  nonce: an encrypted frame whose nonce starts with 0xF0 or more is parsed as cleartext.
\<close>

theorem encrypted_gate_is_nonce:
  assumes "idToBCD uid = Inr ieee" and "length nonce = 6"
    and "EncryptTX rng opcode sa uid body (Some nonce) = Inr out"
  shows "\<exists>env. ParseL1 (on_air a b rssi lqi ieee out) = Inr env
    \<and> (l1_Encrypted env \<longleftrightarrow> nonce ! 0 < CleartextGateMin)"
proof -
  have n: "choose_nonce rng (Some nonce) = Inr nonce" using assms(2) by (simp add: choose_nonce_def)
  have t: "drop 16 out = nonce @ body_cipher (deriveFrameKey nonce ieee) body"
    by (rule DecryptRX_on_air(2) [OF assms(1) n assms(2,3)])
  show ?thesis
    using assms(2) length_idToBCD [OF assms(1)]
    by (simp add: ParseL1_def on_air_def t nth_append)
qed

lemma encrypted_gate_is_nonce_witness:
  "\<exists>out env. EncryptTX None 0x55 0x1234 ''806000042582'' [1] (Some [0xFF, 8, 7, 6, 5, 4]) = Inr out
    \<and> ParseL1 (on_air 0x12 0x34 0 0 [0x80, 0x60, 0, 4, 0x25, 0x82] out) = Inr env \<and> \<not> l1_Encrypted env"
proof -
  have "choose_nonce None (Some [0xFF, 8, 7, 6, 5, 4]) = Inr [0xFF, 8, 7, 6, 5, 4]"
    by (simp add: choose_nonce_def)
  from EncryptTX_frame [OF idToBCD_sample this]
  obtain out where out: "EncryptTX None 0x55 0x1234 ''806000042582'' [1] (Some [0xFF, 8, 7, 6, 5, 4]) = Inr out"
    by blast
  from encrypted_gate_is_nonce [OF idToBCD_sample _ out, where a = "0x12" and b = "0x34" and rssi = "0" and lqi = "0"] out
  show ?thesis by (auto simp: codec_consts)
qed

section \<open>BCD identifiers\<close>

definition hex_value :: "char \<Rightarrow> nat" where
  "hex_value c = (let n = of_char c :: nat in if n \<le> 57 then n - 48 else n - 55)"

definition is_digit :: "char \<Rightarrow> bool" where
  "is_digit c \<longleftrightarrow> 48 \<le> (of_char c :: nat) \<and> (of_char c :: nat) \<le> 57"

definition hex_chars :: string where "hex_chars = ''0123456789ABCDEF''"

lemma hex_char_code:
  assumes "c \<in> set hex_chars"
  shows "of_char c = hex_value c + (if is_digit c then 48 else 55)"
proof -
  have "list_all (\<lambda>c. of_char c = hex_value c + (if is_digit c then 48 else 55)) hex_chars"
    by code_simp
  then show ?thesis using assms unfolding list_all_iff by blast
qed

lemma bcd_byte_nat: "bcd_byte c d = of_nat (16 * of_char c + of_char d + 208)"
proof -
  have "x AND 0xFF = x" for x :: byte
  proof -
    have "(0xFF :: byte) = -1" by simp
    then show ?thesis by (simp only: and.right_neutral)
  qed
  then show ?thesis
    unfolding bcd_byte_def by (simp only: push_bit_eq_mult) (simp add: of_nat_of_char ac_simps)
qed

lemma bcd_byte_pairs:
  assumes "c \<in> set hex_chars" and "d \<in> set hex_chars"
  shows "bcd_byte c d = of_nat (16 * hex_value c + hex_value d) \<longleftrightarrow> is_digit c \<and> is_digit d"
proof -
  have shift: "(m + k) mod 256 = m mod 256 \<longleftrightarrow> k mod 256 = 0" for m k :: nat
    using mod_eq_dvd_iff_nat [of m "m + k" 256] by (simp add: mod_eq_0_iff_dvd)
  have "bcd_byte c d = of_nat (16 * hex_value c + hex_value d) \<longleftrightarrow>
      (16 * hex_value c + hex_value d + (16 * (if is_digit c then 48 else 55)
        + (if is_digit d then 48 else 55) + 208)) mod 256
      = (16 * hex_value c + hex_value d) mod 256"
    unfolding bcd_byte_nat hex_char_code [OF assms(1)] hex_char_code [OF assms(2)] word_of_nat_eq_iff
    by (simp add: take_bit_eq_mod algebra_simps)
  then show ?thesis by (simp add: shift)
qed

text \<open>
  On identifiers over 0-9 and A-F the conversion is the packing of the hexadecimal digits
  exactly when every character is a decimal digit; one letter anywhere breaks it.
\<close>

theorem idToBCD_packs_digits_only:
  assumes "length uid = 12" and "set uid \<subseteq> set hex_chars"
  shows "idToBCD uid = Inr (map (\<lambda>i. of_nat (16 * hex_value (uid ! (2 * i)) + hex_value (uid ! (2 * i + 1)))) [0..<6])
    \<longleftrightarrow> (\<forall>c \<in> set uid. is_digit c)"
proof -
  have pair: "bcd_byte (uid ! (2 * i)) (uid ! (2 * i + 1))
      = of_nat (16 * hex_value (uid ! (2 * i)) + hex_value (uid ! (2 * i + 1)))
    \<longleftrightarrow> is_digit (uid ! (2 * i)) \<and> is_digit (uid ! (2 * i + 1))" if "i < 6" for i
  proof -
    have "uid ! (2 * i) \<in> set hex_chars" "uid ! (2 * i + 1) \<in> set hex_chars"
      using assms that by (auto intro!: subsetD [OF assms(2)] nth_mem)
    then show ?thesis by (rule bcd_byte_pairs)
  qed
  have split: "(\<forall>j < 12. P j) \<longleftrightarrow> (\<forall>i < 6. P (2 * i) \<and> P (2 * i + 1))" for P :: "nat \<Rightarrow> bool"
  proof
    assume r: "\<forall>i < 6. P (2 * i) \<and> P (2 * i + 1)"
    show "\<forall>j < 12. P j"
    proof (intro allI impI)
      fix j :: nat assume "j < 12"
      then have "j div 2 < 6" and "j = 2 * (j div 2) \<or> j = 2 * (j div 2) + 1" by presburger+
      then show "P j" using r by metis
    qed
  qed auto
  have "(\<forall>c \<in> set uid. is_digit c) \<longleftrightarrow> (\<forall>j < 12. is_digit (uid ! j))"
    using assms(1) by (simp add: all_set_conv_all_nth)
  then show ?thesis
    using pair split [of "\<lambda>j. is_digit (uid ! j)"] assms(1)
    by (simp add: idToBCD_def list_eq_iff_nth_eq)
qed

lemma idToBCD_packs_digits_only_witness:
  "idToBCD ''80600004258A'' \<noteq> Inr (map (\<lambda>i. of_nat (16 * hex_value (''80600004258A'' ! (2 * i))
     + hex_value (''80600004258A'' ! (2 * i + 1)))) [0..<6])"
proof -
  have l: "length ''80600004258A'' = 12" by simp
  have s: "set ''80600004258A'' \<subseteq> set hex_chars"
    by (simp only: hex_chars_def list.set insert_subset insert_iff simp_thms empty_subsetI)
  have "\<not> list_all is_digit ''80600004258A''" by code_simp
  then have d: "\<not> (\<forall>c \<in> set ''80600004258A''. is_digit c)" unfolding list_all_iff .
  show ?thesis using idToBCD_packs_digits_only [OF l s] d by blast
qed

end
