(* ===== verification/Telemetry.thy ===== *)
theory Telemetry
  imports ProtectionRead Status AesL1
begin

text \<open>
  The telemetry replies: \<open>Reply\<close>, \<open>DecodeReplyForModel\<close> and its dispatch on command byte and
  model code (\<open>codec.go\<close>), and the four payload decoders (\<open>decodeDS3\<close>, \<open>decodeQS2\<close>,
  \<open>decodeQT2\<close>, \<open>decodeQS1A\<close>).  A decoder is a function from the reply so far to the reply
  filled in, unchanged where the code returns early.  The lemmas: every number published is
  finite, the channel lists have the family's shape, the QS1A channel unpacking is exact, and
  which replies are refused.
\<close>

section \<open>The reply\<close>

record Panel =
  pn_Index :: nat
  pn_DCV :: f64
  pn_DCI :: f64
  pn_W :: f64

record Reply =
  rp_ShortAddr :: u16
  rp_PeerUID :: string
  rp_Cmd :: byte
  rp_Family :: family
  rp_ModelCode :: byte
  rp_RSSI :: byte
  rp_LQI :: byte
  rp_GridV :: f64
  rp_BusV :: f64
  rp_FreqHz :: f64
  rp_ReportSec :: u32
  rp_Panels :: "Panel list"
  rp_ActivePowerW :: f64
  rp_ReactivePower :: f64
  rp_GridVLeg :: "f64 list"
  rp_LifetimeRaw :: "u64 list"
  rp_LifetimeScale :: f64
  rp_Status :: InverterStatus
  rp_ExtendedStatus :: "ExtendedStatus option"

definition no_status :: InverterStatus where
  "no_status = \<lparr> is_DCBusFault = False, is_FaultA = False, is_FaultB = False,
     is_WarningA = False, is_WarningB = False \<rparr>"

text \<open>\<open>unknown(0xNN)\<close> is the label of every other command.\<close>

definition ModelLabel :: "Reply \<Rightarrow> string" where
  "ModelLabel r =
     (if rp_ModelCode r \<noteq> 0 then ModelLabelForCode (rp_ModelCode r)
      else if rp_Cmd r = CmdReplyDS3 then ''DS3''
      else if rp_Cmd r = CmdReplyQS1A then ''QS1A''
      else unknown_label (rp_Cmd r))"

definition fround :: "f64 \<Rightarrow> f64" where
  "fround x =
     (case x of
        Fin _ \<Rightarrow> fdiv (math_round (fmul x (Fin 1000))) (Fin 1000)
      | _ \<Rightarrow> Fin 0)"

definition float_of_u16 :: "u16 \<Rightarrow> f64" where
  "float_of_u16 w = f64_of_int (uint w)"

text \<open>\<open>be16\<close> scaled by a constant.\<close>

definition scaled16 :: "bytes \<Rightarrow> nat \<Rightarrow> rat \<Rightarrow> f64" where
  "scaled16 body off c = fmul (float_of_u16 (be16 body off)) (f64_of_rat c)"

text \<open>One channel read from a voltage and a current register.\<close>

definition channel :: "bytes \<Rightarrow> rat \<Rightarrow> rat \<Rightarrow> nat \<times> nat \<times> nat \<Rightarrow> Panel" where
  "channel body vScale iScale pp =
     (case pp of (idx, vOff, iOff) \<Rightarrow>
        let v = scaled16 body vOff vScale; i = scaled16 body iOff iScale
        in \<lparr> pn_Index = idx, pn_DCV = fround v, pn_DCI = fround i, pn_W = fround (fmul v i) \<rparr>)"

section \<open>DS3\<close>

definition ds3PanelVScale :: rat where "ds3PanelVScale = 20 / 1000"
definition ds3PanelIScale :: rat where "ds3PanelIScale = 1172 / 100000"
definition ds3TeleFreqScale :: rat where "ds3TeleFreqScale = 10 / 1000"
definition ds3Lifetime :: f64 where "ds3Lifetime = f64_of_rat (1674 / 10 ^ 11)"

definition decodeDS3 :: "bytes \<Rightarrow> Reply \<Rightarrow> Reply" where
  "decodeDS3 body r =
     (if length body < 0x30 then r
      else r\<lparr> rp_GridV := fround (scaled16 body 0x18 ds3GridVScale),
              rp_FreqHz := fround (scaled16 body 0x1a ds3TeleFreqScale),
              rp_ReportSec := ucast (be16 body 0x1c),
              rp_Panels := rp_Panels r @ map (channel body ds3PanelVScale ds3PanelIScale)
                 [(0, 0x10, 0x14), (1, 0x12, 0x16)],
              rp_ActivePowerW := float_of_u16 (be16 body 0x1e),
              rp_ReactivePower := f64_of_int (sint (be16 body 0x20)),
              rp_LifetimeRaw := [charsToUint body 0x28 4, charsToUint body 0x2c 4],
              rp_LifetimeScale := ds3Lifetime,
              rp_ExtendedStatus := Some (ES_DS3 (decodeDS3Status body)),
              rp_Status := DS3_InverterStatus (decodeDS3Status body) \<rparr>)"

section \<open>QS2\<close>

definition qs2PanelVScale :: rat where "qs2PanelVScale = 2016 / 100000"
definition qs2PanelIScale :: rat where "qs2PanelIScale = 117 / 10000"
definition qs2GridVScale :: rat where "qs2GridVScale = 268 / 1000"
definition qs2FreqScale :: rat where "qs2FreqScale = 10 / 1000"
definition qs2Lifetime :: f64 where "qs2Lifetime = f64_of_rat (1674 / 10 ^ 11)"

definition decodeQS2 :: "bytes \<Rightarrow> Reply \<Rightarrow> Reply" where
  "decodeQS2 body r =
     (if length body < 0x44 then r
      else r\<lparr> rp_GridV := fround (scaled16 body 0x18 qs2GridVScale),
              rp_FreqHz := fround (scaled16 body 0x1a qs2FreqScale),
              rp_ReportSec := ucast (be16 body 0x1c),
              rp_Panels := rp_Panels r @ map (channel body qs2PanelVScale qs2PanelIScale)
                 [(0, 0x10, 0x14), (1, 0x12, 0x16), (2, 0x34, 0x38), (3, 0x36, 0x3a)],
              rp_ActivePowerW := float_of_u16 (be16 body 0x1e),
              rp_ReactivePower := f64_of_int (sint (be16 body 0x20)),
              rp_LifetimeRaw := [charsToUint body 0x28 4, charsToUint body 0x2c 4,
                                 charsToUint body 0x3c 4, charsToUint body 0x40 4],
              rp_LifetimeScale := qs2Lifetime,
              rp_ExtendedStatus := Some (ES_DS3 (decodeDS3Status body)),
              rp_Status := DS3_InverterStatus (decodeDS3Status body) \<rparr>)"

section \<open>QT2\<close>

definition qt2PanelVScale :: rat where "qt2PanelVScale = 38 / 1000"
definition qt2PanelIScale :: rat where "qt2PanelIScale = 117 / 10000"
definition qt2GridVScale :: rat where "qt2GridVScale = 1 / 10"
definition qt2FreqScale :: rat where "qt2FreqScale = 3396 / 10000"
definition qt2Lifetime :: f64 where "qt2Lifetime = f64_of_rat (316 / 10 ^ 10)"

definition qt2Channels :: "(nat \<times> nat) list" where
  "qt2Channels = [(0x10, 0x14), (0x10, 0x16), (0x12, 0x18), (0x12, 0x1a)]"

text \<open>The power of one channel, unrounded, is what the total sums.\<close>

definition qt2_power :: "bytes \<Rightarrow> nat \<times> nat \<Rightarrow> f64" where
  "qt2_power body ch = fmul (scaled16 body (fst ch) qt2PanelVScale) (scaled16 body (snd ch) qt2PanelIScale)"

definition decodeQT2 :: "bytes \<Rightarrow> Reply \<Rightarrow> Reply" where
  "decodeQT2 body r =
     (if length body < 0x4c then r
      else let total = fold (\<lambda>ch t. fadd t (qt2_power body ch)) qt2Channels (Fin 0);
               legs = map (\<lambda>off. fround (scaled16 body off qt2GridVScale)) [0x1e, 0x20, 0x22]
           in r\<lparr> rp_Family := FamilyQT2,
                 rp_Panels := rp_Panels r @ map (\<lambda>(idx, ch).
                    channel body qt2PanelVScale qt2PanelIScale (idx, fst ch, snd ch))
                    (enumerate 0 qt2Channels),
                 rp_ActivePowerW := fround total,
                 rp_GridVLeg := legs,
                 rp_GridV := legs ! 0,
                 rp_FreqHz := fround (scaled16 body 0x24 qt2FreqScale),
                 rp_LifetimeRaw := [charsToUint body 0x3c 4, charsToUint body 0x40 4,
                                    charsToUint body 0x44 4, charsToUint body 0x48 4],
                 rp_LifetimeScale := qt2Lifetime \<rparr>)"

section \<open>QS1A\<close>

definition qs1aBusScale :: f64 where "qs1aBusScale = Fin 3300"
definition qs1aBusDenom :: f64 where "qs1aBusDenom = Fin 4092"
definition qs1aBusOffset :: f64 where "qs1aBusOffset = Fin 757"
definition qs1aBusPFBase :: f64 where "qs1aBusPFBase = f64_of_rat (285 / 100)"
definition qs1aPanelVMax :: f64 where "qs1aPanelVMax = Fin (165 / 2)"
definition qs1aPanelIMax :: f64 where "qs1aPanelIMax = Fin (55 / 2)"
definition qs1aADC12bit :: f64 where "qs1aADC12bit = Fin 4096"
definition qs1aGridDenom :: f64 where "qs1aGridDenom = f64_of_rat (132 / 100)"
definition qs1aEfficien :: f64 where "qs1aEfficien = f64_of_rat (95 / 100)"
definition qs1aLifetime :: f64 where "qs1aLifetime = f64_of_rat (3756 / 10 ^ 14)"

definition qs1aBusV :: "u16 \<Rightarrow> f64" where
  "qs1aBusV raw =
     fdiv (fsub (fdiv (fmul (float_of_u16 raw) qs1aBusScale) qs1aBusDenom) qs1aBusOffset) qs1aBusPFBase"

definition qs1aGridV :: "u16 \<Rightarrow> f64" where
  "qs1aGridV raw = fdiv (fdiv (float_of_u16 raw) qs1aGridDenom) (Fin 4)"

definition qs1aFreqHz :: "u32 \<Rightarrow> f64" where
  "qs1aFreqHz raw = (if raw = 0 then Fin 0 else fdiv qs1aFreqDivBy (f64_of_int (uint raw)))"

definition qs1a_raw_V :: "bytes \<Rightarrow> nat \<Rightarrow> u16" where
  "qs1a_raw_V body off = push_bit 4 (ucast (body ! (off + 2))) OR ucast (drop_bit 4 (body ! (off + 1)))"

definition qs1a_raw_I :: "bytes \<Rightarrow> nat \<Rightarrow> u16" where
  "qs1a_raw_I body off = push_bit 8 (ucast (body ! (off + 1) AND 0x0F)) OR ucast (body ! off)"

definition qs1aPanelV :: "bytes \<Rightarrow> nat \<Rightarrow> f64" where
  "qs1aPanelV body off =
     (if off + 2 \<ge> length body then Fin 0
      else fdiv (fmul (float_of_u16 (qs1a_raw_V body off)) qs1aPanelVMax) qs1aADC12bit)"

definition qs1aPanelI :: "bytes \<Rightarrow> nat \<Rightarrow> f64" where
  "qs1aPanelI body off =
     (if off + 1 \<ge> length body then Fin 0
      else fdiv (fmul (float_of_u16 (qs1a_raw_I body off)) qs1aPanelIMax) qs1aADC12bit)"

definition qs1a_channel :: "bytes \<Rightarrow> nat \<times> nat \<Rightarrow> Panel" where
  "qs1a_channel body pp =
     (case pp of (idx, off) \<Rightarrow>
        let v = qs1aPanelV body off; i = qs1aPanelI body off
        in \<lparr> pn_Index = idx, pn_DCV = fround v, pn_DCI = fround i, pn_W = fround (fmul v i) \<rparr>)"

definition decodeQS1A :: "bytes \<Rightarrow> Reply \<Rightarrow> Reply" where
  "decodeQS1A body r =
     (let panels = rp_Panels r @ map (qs1a_channel body) [(0, 15), (1, 12), (2, 9), (3, 6)];
          w = fold (\<lambda>p t. fadd t (pn_W p)) panels (Fin 0)
      in r\<lparr> rp_BusV := fround (qs1aBusV (be16 body 0)),
            rp_GridV := fround (qs1aGridV (be16 body 0x12)),
            rp_FreqHz := fround (qs1aFreqHz (be24 body 2)),
            rp_ReportSec := ucast (be16 body 0x14),
            rp_Panels := panels,
            rp_ActivePowerW := fround (fmul w qs1aEfficien),
            rp_LifetimeRaw := [charsToUint body 0x1b 5, charsToUint body 0x20 5,
                               charsToUint body 0x25 5, charsToUint body 0x2a 5],
            rp_LifetimeScale := qs1aLifetime,
            rp_ExtendedStatus := Some (ES_QS1A (decodeQS1AStatus body)),
            rp_Status := QS1A_InverterStatus (decodeQS1AStatus body) \<rparr>)"

section \<open>Dispatch\<close>

definition ds3ClassDecoders :: "(byte \<times> (bytes \<Rightarrow> Reply \<Rightarrow> Reply)) list" where
  "ds3ClassDecoders =
     [(ModelQS2, decodeQS2), (ModelExt29, decodeQT2), (ModelExt30, decodeQT2),
      (ModelExt31, decodeQT2), (ModelQT2, decodeQT2)]"

definition decodeDS3Class :: "byte \<Rightarrow> bytes \<Rightarrow> Reply \<Rightarrow> Reply" where
  "decodeDS3Class modelCode body r =
     (case map_of ds3ClassDecoders modelCode of
        Some fn \<Rightarrow> fn body r
      | None \<Rightarrow> decodeDS3 body r)"

datatype reply_error =
    ErrEncrypted
  | ErrL1AES aes_error
  | ErrL2 frame_error
  | ErrL1 frame_error
  | ErrUnknownCmd

text \<open>The reply the code also returns next to \<open>ErrUnknownCmd\<close> is kept beside the error.\<close>

definition DecodeReplyForModel ::
  "bool \<Rightarrow> L1Envelope \<Rightarrow> byte \<Rightarrow> (reply_error \<times> Reply option) + Reply" where
  "DecodeReplyForModel aesOn env0 modelCode =
     (let plain = (if l1_Encrypted env0
                   then if \<not> aesOn then Inl ErrEncrypted
                        else (case decryptEnvelopeInPlace env0 of
                                Inl e \<Rightarrow> Inl (ErrL1AES e)
                              | Inr dec \<Rightarrow> Inr dec)
                   else Inr env0)
      in case plain of
           Inl e \<Rightarrow> Inl (e, None)
         | Inr env \<Rightarrow>
             (case ParseL2 (l1_L2Frame env) of
                Inl e \<Rightarrow> Inl (ErrL2 e, None)
              | Inr l2 \<Rightarrow>
                  let r = \<lparr> rp_ShortAddr = l1_ShortAddr env, rp_PeerUID = PeerUIDString env,
                            rp_Cmd = l2_Cmd l2, rp_Family = FamilyUnknown, rp_ModelCode = modelCode,
                            rp_RSSI = l1_RSSI env, rp_LQI = l1_LQI env,
                            rp_GridV = Fin 0, rp_BusV = Fin 0, rp_FreqHz = Fin 0, rp_ReportSec = 0,
                            rp_Panels = [], rp_ActivePowerW = Fin 0, rp_ReactivePower = Fin 0,
                            rp_GridVLeg = [], rp_LifetimeRaw = [], rp_LifetimeScale = Fin 0,
                            rp_Status = no_status, rp_ExtendedStatus = None \<rparr>
                  in if l2_Cmd l2 = CmdReplyQS1A
                       then Inr (decodeQS1A (l2_Body l2) (r\<lparr>rp_Family := FamilyQS1\<rparr>))
                     else if l2_Cmd l2 = CmdReplyDS3
                       then Inr (decodeDS3Class modelCode (l2_Body l2) (r\<lparr>rp_Family := FamilyDS3\<rparr>))
                     else Inl (ErrUnknownCmd, Some r)))"

definition DecodeReplyFromEnvelope ::
  "bool \<Rightarrow> L1Envelope \<Rightarrow> (reply_error \<times> Reply option) + Reply" where
  "DecodeReplyFromEnvelope aesOn env = DecodeReplyForModel aesOn env 0"

definition DecodeReply :: "bool \<Rightarrow> bytes \<Rightarrow> (reply_error \<times> Reply option) + Reply" where
  "DecodeReply aesOn raw =
     (case ParseL1 raw of
        Inl e \<Rightarrow> Inl (ErrL1 e, None)
      | Inr env \<Rightarrow> DecodeReplyFromEnvelope aesOn env)"

section \<open>Magnitudes\<close>

text \<open>
  A calculus of bounds: \<open>fits n x\<close> says \<open>x\<close> is finite and at most \<open>2^n\<close> in magnitude.
\<close>

definition fits :: "nat \<Rightarrow> f64 \<Rightarrow> bool" where
  "fits n x \<longleftrightarrow> (\<exists>a. x = Fin a \<and> \<bar>a\<bar> \<le> 2 ^ n)"

lemma fits_mono: "fits m x \<Longrightarrow> m \<le> n \<Longrightarrow> fits n x"
  unfolding fits_def using power_increasing [of m n "2 :: rat"] by (force intro: order_trans)

lemma fits_of_rat:
  assumes "\<bar>q\<bar> \<le> 2 ^ n" and "n \<le> 1000"
  shows "fits (n + 1) (f64_of_rat q)"
proof -
  have "(2 :: rat) ^ n / 2 ^ 53 \<le> 2 ^ n" by (simp add: divide_le_eq)
  then have "\<bar>rnd q\<bar> \<le> 2 * 2 ^ n" using rnd_err_pow [OF assms(1)] assms(1) by linarith
  then show ?thesis using f64_of_rat_Fin [OF assms] by (simp add: fits_def)
qed

lemma fits_mul:
  assumes "fits m x" and "fits n y" and "m + n \<le> 1000"
  shows "fits (m + n + 1) (fmul x y)"
proof -
  obtain a b where ab: "x = Fin a" "y = Fin b" "\<bar>a\<bar> \<le> 2 ^ m" "\<bar>b\<bar> \<le> 2 ^ n"
    using assms(1,2) by (auto simp: fits_def)
  then have "\<bar>a * b\<bar> \<le> 2 ^ (m + n)" by (simp add: abs_mult power_add mult_mono)
  then show ?thesis using fits_of_rat assms(3) by (simp add: ab(1,2))
qed

lemma fits_div:
  assumes "fits m x" and "m \<le> 1000" and "1 \<le> b"
  shows "fits (m + 1) (fdiv x (Fin b))"
proof -
  obtain a where a: "x = Fin a" "\<bar>a\<bar> \<le> 2 ^ m" using assms(1) by (auto simp: fits_def)
  have "\<bar>a / b\<bar> = \<bar>a\<bar> / b" using assms(3) by simp
  also have "\<dots> \<le> \<bar>a\<bar> / 1" by (rule divide_left_mono) (use assms(3) in auto)
  finally have "\<bar>a / b\<bar> \<le> 2 ^ m" using a(2) by simp
  then show ?thesis using fits_of_rat assms(2,3) by (simp add: a(1))
qed

lemma fits_add:
  assumes "fits m x" and "fits m y" and "m \<le> 900"
  shows "fits (m + 2) (fadd x y)"
proof -
  obtain a b where ab: "x = Fin a" "y = Fin b" "\<bar>a\<bar> \<le> 2 ^ m" "\<bar>b\<bar> \<le> 2 ^ m"
    using assms(1,2) by (auto simp: fits_def)
  then have "\<bar>a + b\<bar> \<le> 2 ^ (m + 1)" by (simp add: abs_le_iff)
  then show ?thesis using fits_of_rat [of "a + b" "m + 1"] assms(3) by (simp add: ab(1,2))
qed

lemma fits_sub_const:
  assumes "fits m x" and "\<bar>b\<bar> \<le> 2 ^ m" and "m \<le> 900"
  shows "fits (m + 2) (fsub x (Fin b))"
  unfolding fsub_def using assms by (intro fits_add) (auto simp: fits_def)

lemma fits_math_round:
  assumes "fits m x"
  shows "fits (m + 1) (math_round x)"
proof -
  obtain a where a: "x = Fin a" "\<bar>a\<bar> \<le> 2 ^ m" using assms by (auto simp: fits_def)
  obtain r where r: "math_round x = Fin r" by (simp add: a(1))
  have "\<bar>r - a\<bar> \<le> 1 / 2" using math_round_err [of a r] r by (simp add: a(1))
  moreover have "(1 :: rat) \<le> 2 ^ m" by simp
  ultimately have "\<bar>r\<bar> \<le> 2 * 2 ^ m" using a(2) by linarith
  then show ?thesis by (simp add: r fits_def)
qed

lemma fits_fround:
  assumes "fits m x" and "m \<le> 500"
  shows "fits (m + 13) (fround x)"
proof -
  have k: "fits 10 (Fin 1000)" by (simp add: fits_def)
  have "fits (m + 10 + 1) (fmul x (Fin 1000))" using assms by (intro fits_mul k) simp_all
  then have "fits (m + 10 + 1 + 1) (math_round (fmul x (Fin 1000)))" by (rule fits_math_round)
  then have "fits (m + 10 + 1 + 1 + 1) (fdiv (math_round (fmul x (Fin 1000))) (Fin 1000))"
    using assms(2) by (intro fits_div) simp_all
  moreover obtain a where "x = Fin a" using assms(1) by (auto simp: fits_def)
  ultimately show ?thesis by (simp add: fround_def add.commute)
qed

lemma fits_u16: "fits 17 (float_of_u16 w)"
proof -
  have "uint w < 2 ^ 16" using unsigned_less [of w, where 'a = int] by simp
  then have "\<bar>of_int (uint w) :: rat\<bar> \<le> 2 ^ 16" by (intro abs_of_int_le) simp
  then show ?thesis using fits_of_rat [of "of_int (uint w)" 16] by (simp add: float_of_u16_def f64_of_int_def)
qed

lemma fits_s16: "fits 17 (f64_of_int (sint (w :: u16)))"
proof -
  have "sint w < 2 ^ 15" "- (2 ^ 15) \<le> sint w" using sint_lt [of w] sint_ge [of w] by simp_all
  then have "\<bar>of_int (sint w) :: rat\<bar> \<le> 2 ^ 16" by (intro abs_of_int_le) simp
  then show ?thesis using fits_of_rat [of "of_int (sint w)" 16] by (simp add: f64_of_int_def)
qed

lemma fits_scaled16:
  assumes "0 \<le> c" and "c \<le> 1"
  shows "fits 20 (scaled16 body off c)"
proof -
  have "fits 1 (f64_of_rat c)" using fits_of_rat [of c 0] assms by simp
  then show ?thesis using fits_mul [OF fits_u16, of 1 "f64_of_rat c"]
    by (simp add: scaled16_def fits_mono [of 19])
qed

section \<open>Every number published is finite\<close>

definition finite_f64 :: "f64 \<Rightarrow> bool" where
  "finite_f64 x \<longleftrightarrow> (\<exists>a. x = Fin a)"

lemma fits_finite: "fits n x \<Longrightarrow> finite_f64 x"
  by (auto simp: fits_def finite_f64_def)

lemma finite_fround: "fits m x \<Longrightarrow> m \<le> 500 \<Longrightarrow> finite_f64 (fround x)"
  by (rule fits_finite [OF fits_fround])

lemma finite_consts [simp]: "finite_f64 (Fin a)" by (simp add: finite_f64_def)

definition panel_ok :: "Panel \<Rightarrow> bool" where
  "panel_ok p \<longleftrightarrow> finite_f64 (pn_DCV p) \<and> finite_f64 (pn_DCI p) \<and> fits 66 (pn_W p)"

lemma channel_ok:
  assumes "0 \<le> vs" "vs \<le> 1" "0 \<le> is" "is \<le> 1"
  shows "panel_ok (channel body vs is pp)" and "pn_Index (channel body vs is pp) = fst pp"
proof -
  obtain idx vo io where pp: "pp = (idx, vo, io)" by (cases pp)
  note v = fits_scaled16 [OF assms(1,2), of body vo] and i = fits_scaled16 [OF assms(3,4), of body io]
  have "fits 41 (fmul (scaled16 body vo vs) (scaled16 body io is))" using fits_mul [OF v i] by simp
  then have "fits 66 (fround (fmul (scaled16 body vo vs) (scaled16 body io is)))"
    using fits_fround fits_mono by fastforce
  then show "panel_ok (channel body vs is pp)"
    using finite_fround [OF v] finite_fround [OF i]
    by (simp add: panel_ok_def channel_def pp Let_def)
  show "pn_Index (channel body vs is pp) = fst pp" by (simp add: channel_def pp Let_def)
qed

definition reply_ok :: "Reply \<Rightarrow> bool" where
  "reply_ok r \<longleftrightarrow>
     finite_f64 (rp_GridV r) \<and> finite_f64 (rp_BusV r) \<and> finite_f64 (rp_FreqHz r)
     \<and> finite_f64 (rp_ActivePowerW r) \<and> finite_f64 (rp_ReactivePower r)
     \<and> (\<forall>x \<in> set (rp_GridVLeg r). finite_f64 x) \<and> (\<forall>p \<in> set (rp_Panels r). panel_ok p)
     \<and> map pn_Index (rp_Panels r) = [0..<length (rp_Panels r)]
     \<and> length (rp_LifetimeRaw r) = length (rp_Panels r)
     \<and> length (rp_Panels r) \<in> {0, 2, 4} \<and> length (rp_GridVLeg r) \<in> {0, 3}"

definition blank :: "Reply \<Rightarrow> bool" where
  "blank r \<longleftrightarrow> rp_GridV r = Fin 0 \<and> rp_BusV r = Fin 0 \<and> rp_FreqHz r = Fin 0
     \<and> rp_ActivePowerW r = Fin 0 \<and> rp_ReactivePower r = Fin 0
     \<and> rp_GridVLeg r = [] \<and> rp_Panels r = [] \<and> rp_LifetimeRaw r = []"

lemma blank_ok: "blank r \<Longrightarrow> reply_ok r"
  by (simp add: blank_def reply_ok_def)

lemma scaled_finite: "0 \<le> c \<Longrightarrow> c \<le> 1 \<Longrightarrow> finite_f64 (fround (scaled16 body off c))"
  by (rule finite_fround [OF fits_scaled16]) simp_all

lemmas ds3_scales = ds3GridVScale_def ds3TeleFreqScale_def ds3PanelVScale_def ds3PanelIScale_def
lemmas qs2_scales = qs2GridVScale_def qs2FreqScale_def qs2PanelVScale_def qs2PanelIScale_def
lemmas qt2_scales = qt2GridVScale_def qt2FreqScale_def qt2PanelVScale_def qt2PanelIScale_def

lemma upt_small: "[0..<2] = [0, Suc 0]" "[0..<4] = [0, Suc 0, 2, 3]"
  by (simp_all add: upt_rec eval_nat_numeral)

lemma decodeDS3_ok: "blank r \<Longrightarrow> reply_ok (decodeDS3 body r)"
  using fits_finite [OF fits_u16] fits_finite [OF fits_s16] blank_ok
  by (auto simp: decodeDS3_def reply_ok_def blank_def channel_ok scaled_finite ds3_scales upt_small)

lemma decodeQS2_ok: "blank r \<Longrightarrow> reply_ok (decodeQS2 body r)"
  using fits_finite [OF fits_u16] fits_finite [OF fits_s16] blank_ok
  by (auto simp: decodeQS2_def reply_ok_def blank_def channel_ok scaled_finite qs2_scales upt_small)

lemma qt2_power_fits: "fits 66 (qt2_power body ch)"
proof -
  have "fits (20 + 20 + 1) (qt2_power body ch)"
    unfolding qt2_power_def by (intro fits_mul fits_scaled16) (simp_all add: qt2_scales)
  then show ?thesis by (rule fits_mono) simp
qed

lemma fits_fold_add:
  assumes "fits m t" and "\<forall>x \<in> set xs. fits 66 (f x)" and "66 \<le> m" and "m + 2 * length xs \<le> 400"
  shows "fits (m + 2 * length xs) (fold (\<lambda>x t. fadd t (f x)) xs t)"
  using assms
proof (induction xs arbitrary: t m)
  case (Cons x xs)
  have "fits m (f x)" using Cons.prems by (auto intro: fits_mono [of 66])
  then have "fits (m + 2) (fadd t (f x))" using Cons.prems by (intro fits_add) simp_all
  then have "fits ((m + 2) + 2 * length xs) (fold (\<lambda>x t. fadd t (f x)) xs (fadd t (f x)))"
    using Cons.prems by (intro Cons.IH) simp_all
  then show ?case by simp
qed simp

lemma decodeQT2_ok: "blank r \<Longrightarrow> reply_ok (decodeQT2 body r)"
proof -
  assume b: "blank r"
  have "fits (66 + 2 * length qt2Channels) (fold (\<lambda>ch t. fadd t (qt2_power body ch)) qt2Channels (Fin 0))"
  proof (rule fits_fold_add)
    show "fits 66 (Fin 0)" by (simp add: fits_def)
  qed (simp_all add: qt2_power_fits qt2Channels_def)
  then have "finite_f64 (fround (fold (\<lambda>ch t. fadd t (qt2_power body ch)) qt2Channels (Fin 0)))"
    by (rule finite_fround) (simp add: qt2Channels_def)
  then show ?thesis using b blank_ok [OF b]
    by (auto simp: decodeQT2_def Let_def reply_ok_def blank_def channel_ok scaled_finite qt2_scales
        upt_small qt2Channels_def)
qed

lemma const_ge_one:
  assumes "5 / 4 \<le> c" and "c \<le> 4"
  obtains b where "f64_of_rat c = Fin b" and "1 \<le> b"
proof -
  have c: "\<bar>c\<bar> \<le> 2 ^ 2" using assms by simp
  have "(2 :: rat) ^ 2 / 2 ^ 53 \<le> 1 / 10000" by simp
  then have "\<bar>rnd c - c\<bar> \<le> 1 / 10000" using rnd_err_pow [OF c] by linarith
  then have "1 \<le> rnd c" using assms by linarith
  then show thesis using that f64_of_rat_Fin [OF c] by simp
qed

lemma qs1a_values_fit:
  "fits 60 (qs1aBusV w)" "fits 60 (qs1aGridV w)" "fits 60 (qs1aFreqHz u)"
  "fits 26 (qs1aPanelV body off)" "fits 26 (qs1aPanelI body off)"
proof -
  obtain b where b: "qs1aBusPFBase = Fin b" "1 \<le> b"
    unfolding qs1aBusPFBase_def by (rule const_ge_one [of "285 / 100"]) auto
  have "fits (17 + 12 + 1) (fmul (float_of_u16 w) qs1aBusScale)"
    by (intro fits_mul fits_u16) (simp_all add: qs1aBusScale_def fits_def)
  then have "fits (17 + 12 + 1 + 1 + 2 + 1) (qs1aBusV w)"
    unfolding qs1aBusV_def b(1) qs1aBusDenom_def qs1aBusOffset_def
    by (intro fits_div fits_sub_const b) simp_all
  then show "fits 60 (qs1aBusV w)" by (rule fits_mono) simp
  obtain g where g: "qs1aGridDenom = Fin g" "1 \<le> g"
    unfolding qs1aGridDenom_def by (rule const_ge_one [of "132 / 100"]) auto
  have "fits (17 + 1 + 1) (qs1aGridV w)"
    unfolding qs1aGridV_def g(1) by (intro fits_div fits_u16 g) simp_all
  then show "fits 60 (qs1aGridV w)" by (rule fits_mono) simp
  show "fits 60 (qs1aFreqHz u)"
  proof (cases "u = 0")
    case False
    define n where "n = uint u"
    have n: "n < 2 ^ 32" "0 \<le> n" using unsigned_less [of u, where 'a = int] by (simp_all add: n_def)
    have "n \<noteq> 0" using False by (simp add: n_def unsigned_eq_0_iff)
    then have "1 \<le> n" using n(2) by linarith
    then have "fits (30 + 1) (fdiv (Fin 50000000) (Fin (of_int n)))"
      by (intro fits_div) (simp_all add: fits_def)
    then show ?thesis
      using False f64_of_int_exact [of n] n fits_mono [of 31 _ 60]
      by (simp add: qs1aFreqHz_def qs1aFreqDivBy_def flip: n_def)
  qed (simp add: qs1aFreqHz_def fits_def)
  have "fits (17 + 7 + 1 + 1) (fdiv (fmul (float_of_u16 x) (Fin c)) qs1aADC12bit)"
    if "\<bar>c\<bar> \<le> 2 ^ 7" for x c
    unfolding qs1aADC12bit_def using that
    by (intro fits_div fits_mul fits_u16) (simp_all add: fits_def)
  then show "fits 26 (qs1aPanelV body off)" "fits 26 (qs1aPanelI body off)"
    by (auto simp: qs1aPanelV_def qs1aPanelI_def qs1aPanelVMax_def qs1aPanelIMax_def fits_def)
qed

lemma qs1a_channel_ok:
  "panel_ok (qs1a_channel body pp)" "pn_Index (qs1a_channel body pp) = fst pp"
proof -
  obtain idx off where pp: "pp = (idx, off)" by (cases pp)
  have "fits (26 + 26 + 1) (fmul (qs1aPanelV body off) (qs1aPanelI body off))"
    by (intro fits_mul qs1a_values_fit) simp
  then have "fits (26 + 26 + 1 + 13) (fround (fmul (qs1aPanelV body off) (qs1aPanelI body off)))"
    by (rule fits_fround) simp
  then show "panel_ok (qs1a_channel body pp)" "pn_Index (qs1a_channel body pp) = fst pp"
    using finite_fround [OF qs1a_values_fit(4)] finite_fround [OF qs1a_values_fit(5)]
    by (simp_all add: panel_ok_def qs1a_channel_def pp Let_def)
qed

lemma decodeQS1A_ok: "blank r \<Longrightarrow> reply_ok (decodeQS1A body r)"
proof -
  assume b: "blank r"
  let ?ps = "map (qs1a_channel body) [(0, 15), (1, 12), (2, 9), (3, 6)]"
  have k: "fits 2 qs1aEfficien" using fits_of_rat [of "95 / 100" 1] by (simp add: qs1aEfficien_def numeral_2_eq_2)
  have "fits (66 + 2 * length ?ps) (fold (\<lambda>p t. fadd t (pn_W p)) ?ps (Fin 0))"
  proof (rule fits_fold_add)
    show "fits 66 (Fin 0)" by (simp add: fits_def)
    show "\<forall>x \<in> set ?ps. fits 66 (pn_W x)" using qs1a_channel_ok(1) [of body] by (auto simp: panel_ok_def)
  qed simp_all
  then have "fits (66 + 2 * length ?ps + 2 + 1)
      (fmul (fold (\<lambda>p t. fadd t (pn_W p)) ?ps (Fin 0)) qs1aEfficien)"
    by (intro fits_mul k) simp_all
  then have "finite_f64 (fround (fmul (fold (\<lambda>p t. fadd t (pn_W p)) ?ps (Fin 0)) qs1aEfficien))"
    by (rule finite_fround) simp
  moreover have "rp_Panels r @ ?ps = ?ps" using b by (simp add: blank_def)
  ultimately show ?thesis
    using b finite_fround [OF qs1a_values_fit(1)] finite_fround [OF qs1a_values_fit(2)]
      finite_fround [OF qs1a_values_fit(3)]
    by (simp add: decodeQS1A_def Let_def reply_ok_def blank_def qs1a_channel_ok upt_small)
qed

lemma decodeDS3Class_ok: "blank r \<Longrightarrow> reply_ok (decodeDS3Class m body r)"
  using decodeDS3_ok decodeQS2_ok decodeQT2_ok
  by (auto simp: decodeDS3Class_def ds3ClassDecoders_def)

text \<open>
  C35: whatever bytes arrive, a decoded reply has only finite numbers, channels numbered from 0
  without gaps (none, two or four of them), one lifetime counter per channel, and no or three
  grid legs.
\<close>

theorem decoded_reply_ok:
  assumes "DecodeReplyForModel aesOn env modelCode = Inr r"
  shows "reply_ok r"
  using assms
  by (auto simp: DecodeReplyForModel_def Let_def blank_def split: if_splits sum.splits
      intro!: decodeQS1A_ok decodeDS3Class_ok)

lemma decoded_reply_ok_witness:
  "reply_ok (projr (DecodeReplyForModel False
     \<lparr> l1_ShortAddr = 1, l1_RSSI = 80, l1_LQI = 90, l1_PeerUID = [0x80, 0x60, 0, 4, 0x25, 0x82],
       l1_Encrypted = False, l1_L2Frame = BuildL2Frame CmdReplyDS3 (replicate 48 0x10) \<rparr> ModelDS3))"
proof (rule decoded_reply_ok)
  show "DecodeReplyForModel False
     \<lparr> l1_ShortAddr = 1, l1_RSSI = 80, l1_LQI = 90, l1_PeerUID = [0x80, 0x60, 0, 4, 0x25, 0x82],
       l1_Encrypted = False, l1_L2Frame = BuildL2Frame CmdReplyDS3 (replicate 48 0x10) \<rparr> ModelDS3
     = Inr (projr (DecodeReplyForModel False
     \<lparr> l1_ShortAddr = 1, l1_RSSI = 80, l1_LQI = 90, l1_PeerUID = [0x80, 0x60, 0, 4, 0x25, 0x82],
       l1_Encrypted = False, l1_L2Frame = BuildL2Frame CmdReplyDS3 (replicate 48 0x10) \<rparr> ModelDS3))"
    by (simp add: DecodeReplyForModel_def ParseL2_Build Let_def codec_consts)
qed

text \<open>
  A plaintext reply on the air (header, six-byte UID, a well-formed L2 frame) decodes exactly
  for the two telemetry commands; the reply carries the header's address, signal bytes and UID
  and the frame's command, and its family is the one the command and model select.
\<close>

theorem decode_reply_header:
  assumes "length uid = 6"
  shows "case DecodeReply aesOn ([L1ReplySOF, L1ReplySOF, a, b, rssi, lqi] @ uid @ BuildL2Frame cmd body) of
     Inl e \<Rightarrow> cmd \<noteq> CmdReplyQS1A \<and> cmd \<noteq> CmdReplyDS3 \<and> fst e = ErrUnknownCmd
   | Inr r \<Rightarrow> cmd \<in> {CmdReplyQS1A, CmdReplyDS3}
       \<and> rp_ShortAddr r = u16_of a b \<and> rp_RSSI r = rssi \<and> rp_LQI r = lqi
       \<and> rp_PeerUID r = hex_string uid \<and> rp_Cmd r = cmd
       \<and> rp_Family r = (if cmd = CmdReplyQS1A then FamilyQS1 else FamilyDS3)"
proof -
  let ?raw = "[L1ReplySOF, L1ReplySOF, a, b, rssi, lqi] @ uid @ BuildL2Frame cmd body"
  let ?env = "\<lparr> l1_ShortAddr = u16_of a b, l1_RSSI = rssi, l1_LQI = lqi, l1_PeerUID = uid,
     l1_Encrypted = False, l1_L2Frame = BuildL2Frame cmd body \<rparr>"
  have "?raw ! 12 = L2SOF" using assms by (simp add: nth_append BuildL2Frame_def Let_def)
  then have p: "ParseL1 ?raw = Inr ?env"
    using assms by (simp add: ParseL1_def) (simp add: codec_consts)
  have zero: "map_of ds3ClassDecoders 0 = None" by (simp add: ds3ClassDecoders_def codec_consts)
  have keep: "rp_ShortAddr (decodeDS3 bd r) = rp_ShortAddr r" "rp_RSSI (decodeDS3 bd r) = rp_RSSI r"
    "rp_LQI (decodeDS3 bd r) = rp_LQI r" "rp_PeerUID (decodeDS3 bd r) = rp_PeerUID r"
    "rp_Cmd (decodeDS3 bd r) = rp_Cmd r" "rp_Family (decodeDS3 bd r) = rp_Family r" for bd r
    by (simp_all add: decodeDS3_def)
  have keepQ: "rp_ShortAddr (decodeQS1A bd r) = rp_ShortAddr r" "rp_RSSI (decodeQS1A bd r) = rp_RSSI r"
    "rp_LQI (decodeQS1A bd r) = rp_LQI r" "rp_PeerUID (decodeQS1A bd r) = rp_PeerUID r"
    "rp_Cmd (decodeQS1A bd r) = rp_Cmd r" "rp_Family (decodeQS1A bd r) = rp_Family r" for bd r
    by (simp_all add: decodeQS1A_def Let_def)
  show ?thesis
    unfolding DecodeReply_def p sum.case
    by (simp add: DecodeReplyFromEnvelope_def DecodeReplyForModel_def ParseL2_Build
        Let_def PeerUIDString_def decodeDS3Class_def zero keep keepQ)
qed

lemma decode_reply_header_witness:
  "case DecodeReply False ([L1ReplySOF, L1ReplySOF, 0x12, 0x34, 0x50, 0x60]
       @ [0x80, 0x60, 0, 4, 0x25, 0x82] @ BuildL2Frame CmdReplyQS1A (replicate 82 7)) of
     Inl e \<Rightarrow> CmdReplyQS1A \<noteq> CmdReplyQS1A \<and> CmdReplyQS1A \<noteq> CmdReplyDS3 \<and> fst e = ErrUnknownCmd
   | Inr r \<Rightarrow> CmdReplyQS1A \<in> {CmdReplyQS1A, CmdReplyDS3}
       \<and> rp_ShortAddr r = u16_of 0x12 0x34 \<and> rp_RSSI r = 0x50 \<and> rp_LQI r = 0x60
       \<and> rp_PeerUID r = hex_string [0x80, 0x60, 0, 4, 0x25, 0x82] \<and> rp_Cmd r = CmdReplyQS1A
       \<and> rp_Family r = (if CmdReplyQS1A = CmdReplyQS1A then FamilyQS1 else FamilyDS3)"
  by (rule decode_reply_header) simp

section \<open>The packed QS1A channels\<close>

lemma and_0F: "y AND 0x0F = take_bit 4 (y :: byte)"
  by (simp add: take_bit_eq_mask mask_eq_exp_minus_1)

lemma unat_raw_I: "unat (qs1a_raw_I body off) = 256 * (unat (body ! (off + 1)) mod 16) + unat (body ! off)"
proof -
  have "qs1a_raw_I body off = u16_of (body ! (off + 1) AND 0x0F) (body ! off)"
    by (simp add: qs1a_raw_I_def u16_of_def)
  moreover have "unat (body ! (off + 1) AND 0x0F) = unat (body ! (off + 1)) mod 16"
    by (simp only: and_0F unsigned_take_bit_eq take_bit_eq_mod) (simp add: unat_mod)
  ultimately show ?thesis by (simp add: unat_u16_of)
qed

lemma disjoint_or: "a AND b = 0 \<Longrightarrow> a OR b = a + (b :: u16)"
  by (metis add_0 word_plus_and_or)

lemma unat_byte_of_nat: "n < 256 \<Longrightarrow> unat (of_nat n :: byte) = n"
  by (simp add: unat_of_nat)

lemma unat_raw_V: "unat (qs1a_raw_V body off) = 16 * unat (body ! (off + 2)) + unat (body ! (off + 1)) div 16"
proof -
  let ?h = "body ! (off + 2)" and ?l = "drop_bit 4 (body ! (off + 1))"
  have l: "unat ?l = unat (body ! (off + 1)) div 16"
    by (simp add: unsigned_drop_bit_eq drop_bit_eq_div unat_div)
  have bnd: "unat ?h < 256" "unat (body ! (off + 1)) < 256"
    using unsigned_less [of ?h, where 'a = nat] unsigned_less [of "body ! (off + 1)", where 'a = nat] by simp_all
  have small: "\<not> bit ?l n" if "4 \<le> n" for n
    using that by (auto simp: bit_simps dest: bit_imp_le_length)
  have disj: "push_bit 4 (ucast ?h :: u16) AND ucast ?l = 0"
    by (rule bit_word_eqI) (use small in \<open>auto simp: bit_simps\<close>)
  have eq: "qs1a_raw_V body off = push_bit 4 (ucast ?h) + ucast ?l"
    unfolding qs1a_raw_V_def by (rule disjoint_or [OF disj])
  have "unat (push_bit 4 (ucast ?h :: u16)) = 16 * unat ?h"
    using bnd by (simp add: push_bit_eq_mult unat_word_ariths)
  then show ?thesis using bnd l by (simp add: eq unat_word_ariths)
qed

text \<open>A register times a half-integer constant, over 4096, is a dyadic fraction: no rounding.\<close>

lemma scaled_exact:
  assumes "unat raw < 4096" and "0 \<le> c" and "c \<le> 1000"
  shows "fdiv (fmul (float_of_u16 raw) (Fin (of_int c / 2))) (Fin 4096)
    = Fin (of_nat (unat raw) * of_int c / 8192)"
proof -
  define n where "n = uint raw"
  have un: "n = int (unat raw)" by (simp only: n_def uint_nat)
  then have n: "0 \<le> n" "n < 4096" using assms(1) by linarith+
  have nc: "0 \<le> n * c" "n * c \<le> 4096 * 1000"
    using n assms(2,3) mult_mono [of n 4096 c 1000] by simp_all
  have m1: "f64_of_rat (of_int (n * c) / 2 ^ 1) = Fin (of_int (n * c) / 2 ^ 1)"
    using nc by (intro f64_of_rat_dyadic) simp_all
  have m2: "f64_of_rat (of_int (n * c) / 2 ^ 13) = Fin (of_int (n * c) / 2 ^ 13)"
    using nc by (intro f64_of_rat_dyadic) simp_all
  have f: "float_of_u16 raw = Fin (of_int n)"
    using n f64_of_int_exact [of n] by (simp add: float_of_u16_def n_def)
  have r: "(of_nat (unat raw) :: rat) = of_int n" unfolding un by (simp only: of_int_of_nat_eq)
  show ?thesis unfolding r f using m1 m2 by simp
qed

text \<open>
  A channel packed as the layout comment says (12-bit voltage and current in three bytes)
  decodes exactly: the readings are the registers times 82.5/4096 and 27.5/4096, with no
  rounding anywhere.
\<close>

theorem qs1a_unpack_exact:
  assumes "off + 2 < length body" and "v < 4096" and "i < 4096"
    and "body ! off = of_nat (i mod 256)"
    and "body ! (off + 1) = of_nat (16 * (v mod 16) + i div 256)"
    and "body ! (off + 2) = of_nat (v div 16)"
  shows "qs1aPanelV body off = Fin (of_nat v * 165 / 8192)
    \<and> qs1aPanelI body off = Fin (of_nat i * 55 / 8192)"
proof -
  have b1: "unat (body ! (off + 1)) = 16 * (v mod 16) + i div 256"
  proof -
    have "v mod 16 \<le> 15" "i div 256 \<le> 15" using assms(3) by (simp_all add: less_Suc_eq_le [symmetric] less_mult_imp_div_less)
    then have "16 * (v mod 16) + i div 256 < 256" by linarith
    then show ?thesis unfolding assms(5) by (rule unat_byte_of_nat)
  qed
  have b2: "unat (body ! (off + 2)) = v div 16"
    using assms(2) unfolding assms(6) by (simp add: unat_of_nat less_mult_imp_div_less)
  have b0: "unat (body ! off) = i mod 256" unfolding assms(4) by (simp add: unat_of_nat)
  have i15: "i div 256 < 16" using assms(3) by (simp add: less_mult_imp_div_less)
  have V: "unat (qs1a_raw_V body off) = v"
    using i15 by (simp only: unat_raw_V b1 b2) simp
  have I: "unat (qs1a_raw_I body off) = i"
    using i15 by (simp only: unat_raw_I b0 b1) (simp add: mod_simps)
  show ?thesis
    using scaled_exact [of "qs1a_raw_V body off" 165] scaled_exact [of "qs1a_raw_I body off" 55]
      assms(1-3)
    by (simp add: qs1aPanelV_def qs1aPanelI_def qs1aPanelVMax_def qs1aPanelIMax_def qs1aADC12bit_def V I)
qed

lemma qs1a_unpack_exact_witness:
  "qs1aPanelV [0x34, 0xC1, 0xAB] 0 = Fin (of_nat 0xABC * 165 / 8192)
    \<and> qs1aPanelI [0x34, 0xC1, 0xAB] 0 = Fin (of_nat 0x134 * 55 / 8192)"
  by (rule qs1a_unpack_exact) simp_all

end
