(* ===== verification/InfoPair.thy ===== *)
theory InfoPair
  imports Family
begin

text \<open>
  The info query and its three reply shapes (\<open>info.go\<close>) and the pair-flow frames as the codec
  recognises them (\<open>pair.go\<close>).  The lemmas: a reply built by the shared frame builder decodes to
  its model and version in each shape, and an inbound L2 frame is never taken for a pair reply.
\<close>

section \<open>Info replies\<close>

definition OutboundInfoQueryL2 :: bytes where
  "OutboundInfoQueryL2 = BuildL2Frame CmdInfoQuery [0, 0, 0, 0, 0]"

definition OutboundBBQueryL2 :: bytes where
  "OutboundBBQueryL2 = BuildL2Frame CmdTelemetryBBQuery [0, 0, 0, 0, 0]"

record InfoReply =
  ir_Model :: byte
  ir_SoftwareVersion :: u32

datatype info_error = ErrUnknownReplyShape | ErrInfoL2SOF | ErrInfoCmdBytes | ErrInfoL2EOF

text \<open>\<open>uint32(b[i])<<8 | uint32(b[i+1])\<close>.\<close>

definition be16u32 :: "bytes \<Rightarrow> nat \<Rightarrow> u32" where
  "be16u32 b i = push_bit 8 (ucast (b ! i)) OR ucast (b ! (i + 1))"

definition decodeInfoReplyV1 :: "bytes \<Rightarrow> info_error + InfoReply" where
  "decodeInfoReplyV1 l2 =
     (if l2 ! 2 \<noteq> InfoReplyV1 \<or> l2 ! 3 \<noteq> CmdInfoQuery then Inl ErrInfoCmdBytes
      else if l2 ! 14 \<noteq> L2EOF \<or> l2 ! 15 \<noteq> L2EOF then Inl ErrInfoL2EOF
      else Inr \<lparr> ir_Model = l2 ! 4, ir_SoftwareVersion = be16u32 l2 5 * 1000 + be16u32 l2 8 \<rparr>)"

definition decodeInfoReplyV2 :: "bytes \<Rightarrow> info_error + InfoReply" where
  "decodeInfoReplyV2 l2 =
     (if l2 ! 2 \<noteq> InfoReplyV2 \<or> l2 ! 3 \<noteq> CmdInfoExtended \<or> l2 ! 4 \<noteq> CmdInfoQuery
        then Inl ErrInfoCmdBytes
      else if l2 ! 15 \<noteq> L2EOF \<or> l2 ! 16 \<noteq> L2EOF then Inl ErrInfoL2EOF
      else Inr \<lparr> ir_Model = l2 ! 5, ir_SoftwareVersion = be16u32 l2 6 * 1000 + be16u32 l2 9 \<rparr>)"

definition decodeInfoReplyV3 :: "bytes \<Rightarrow> info_error + InfoReply" where
  "decodeInfoReplyV3 l2 =
     (if l2 ! 2 \<noteq> InfoReplyV3 \<or> l2 ! 3 \<noteq> CmdInfoExtended \<or> l2 ! 4 \<noteq> CmdInfoQuery
        then Inl ErrInfoCmdBytes
      else if l2 ! 17 \<noteq> L2EOF \<or> l2 ! 18 \<noteq> L2EOF then Inl ErrInfoL2EOF
      else Inr \<lparr> ir_Model = l2 ! 5,
                 ir_SoftwareVersion = be16u32 l2 6 * 1000000 + be16u32 l2 9 * 1000 + be16u32 l2 13 \<rparr>)"

definition DecodeInfoReply :: "bytes \<Rightarrow> info_error + InfoReply" where
  "DecodeInfoReply l2 =
     (let n = length l2
      in if n \<noteq> 16 \<and> n \<noteq> 17 \<and> n \<noteq> 19 then Inl ErrUnknownReplyShape
         else if l2 ! 0 \<noteq> L2SOF \<or> l2 ! 1 \<noteq> L2SOF then Inl ErrInfoL2SOF
         else if n = 16 then decodeInfoReplyV1 l2
         else if n = 17 then decodeInfoReplyV2 l2
         else decodeInfoReplyV3 l2)"

text \<open>
  In each of the three firmware generations, a reply framed by the shared builder decodes to
  the model byte and the version the generation's formula gives (in 32-bit arithmetic).
\<close>

theorem info_reply_decodes:
  "DecodeInfoReply (BuildL2Frame CmdInfoQuery [m, h, h', x, l, l', y, z])
     = Inr \<lparr> ir_Model = m, ir_SoftwareVersion = (push_bit 8 (ucast h) OR ucast h') * 1000
               + (push_bit 8 (ucast l) OR ucast l') \<rparr>
   \<and> DecodeInfoReply (BuildL2Frame CmdInfoExtended [CmdInfoQuery, m, h, h', x, l, l', y, z])
     = Inr \<lparr> ir_Model = m, ir_SoftwareVersion = (push_bit 8 (ucast h) OR ucast h') * 1000
               + (push_bit 8 (ucast l) OR ucast l') \<rparr>
   \<and> DecodeInfoReply (BuildL2Frame CmdInfoExtended [CmdInfoQuery, m, h, h', x, d, d', y, z, l, l'])
     = Inr \<lparr> ir_Model = m, ir_SoftwareVersion = (push_bit 8 (ucast h) OR ucast h') * 1000000
               + (push_bit 8 (ucast d) OR ucast d') * 1000 + (push_bit 8 (ucast l) OR ucast l') \<rparr>"
proof (intro conjI)
  show "DecodeInfoReply (BuildL2Frame CmdInfoQuery [m, h, h', x, l, l', y, z])
     = Inr \<lparr> ir_Model = m, ir_SoftwareVersion = (push_bit 8 (ucast h) OR ucast h') * 1000
               + (push_bit 8 (ucast l) OR ucast l') \<rparr>"
    by (simp add: DecodeInfoReply_def decodeInfoReplyV1_def BuildL2Frame_def inner_len_def Let_def
        be16u32_def codec_consts)
  show "DecodeInfoReply (BuildL2Frame CmdInfoExtended [CmdInfoQuery, m, h, h', x, l, l', y, z])
     = Inr \<lparr> ir_Model = m, ir_SoftwareVersion = (push_bit 8 (ucast h) OR ucast h') * 1000
               + (push_bit 8 (ucast l) OR ucast l') \<rparr>"
    by (simp add: DecodeInfoReply_def decodeInfoReplyV2_def BuildL2Frame_def inner_len_def Let_def
        be16u32_def codec_consts)
  show "DecodeInfoReply (BuildL2Frame CmdInfoExtended [CmdInfoQuery, m, h, h', x, d, d', y, z, l, l'])
     = Inr \<lparr> ir_Model = m, ir_SoftwareVersion = (push_bit 8 (ucast h) OR ucast h') * 1000000
               + (push_bit 8 (ucast d) OR ucast d') * 1000 + (push_bit 8 (ucast l) OR ucast l') \<rparr>"
    by (simp add: DecodeInfoReply_def decodeInfoReplyV3_def BuildL2Frame_def inner_len_def Let_def
        be16u32_def codec_consts)
qed

section \<open>Pair frames\<close>

datatype PairKind =
  PairOffReportBind | PairChangePan11 | PairChangePan22 | PairBindAck | PairShortAddrReply

datatype Direction = DirOutbound | DirInbound

record PairFrame =
  pf_Kind :: PairKind
  pf_ShortAddr :: u16
  pf_PeerUID :: string
  pf_Bound :: bool
  pf_RptOff :: bool

definition pair_of_kind :: "PairKind \<Rightarrow> PairFrame" where
  "pair_of_kind k = \<lparr> pf_Kind = k, pf_ShortAddr = 0, pf_PeerUID = [], pf_Bound = False, pf_RptOff = False \<rparr>"

definition parseOutboundPair :: "bytes \<Rightarrow> PairFrame option" where
  "parseOutboundPair l2 =
     (if length l2 < 5 then None
      else if l2 ! 0 \<noteq> 0xAA \<or> l2 ! 1 \<noteq> 0xAA \<or> l2 ! 2 \<noteq> 0xAA \<or> l2 ! 3 \<noteq> 0xAA then None
      else if l2 ! 4 = 0x08 then
        (if length l2 \<noteq> 15 then None else if l2 ! 11 \<noteq> 0xA0 then None
         else Some ((pair_of_kind PairOffReportBind)\<lparr>pf_ShortAddr := u16_of (l2 ! 5) (l2 ! 6)\<rparr>))
      else if l2 ! 4 = 0x11 then
        (if length l2 \<noteq> 23 then None else if l2 ! 15 \<noteq> 0x08 \<or> l2 ! 22 \<noteq> 0x01 then None
         else Some ((pair_of_kind PairChangePan11)\<lparr>pf_PeerUID := hex_string (take 6 (drop 16 l2))\<rparr>))
      else if l2 ! 4 = 0x22 then
        (if length l2 \<noteq> 15 then None else Some (pair_of_kind PairChangePan22))
      else None)"

definition parseInboundPair :: "bytes \<Rightarrow> PairFrame option" where
  "parseInboundPair l2 =
     (if length l2 < 10 then None
      else if l2 ! 0 = L2SOF \<and> l2 ! 1 = L2SOF then None
      else if l2 ! 4 = 0xA5 \<and> l2 ! 5 = 0xA5
        then Some ((pair_of_kind PairBindAck)\<lparr>pf_Bound := True, pf_RptOff := (l2 ! 9 \<noteq> 0)\<rparr>)
      else let sa = u16_of (l2 ! 0) (l2 ! 1)
           in if sa < 0xFFF8
              then Some ((pair_of_kind PairShortAddrReply)\<lparr>pf_ShortAddr := sa,
                           pf_PeerUID := hex_string (take 6 (drop 4 l2))\<rparr>)
              else None)"

definition ParsePairFrame :: "Direction \<Rightarrow> bytes \<Rightarrow> PairFrame option" where
  "ParsePairFrame dir l2 =
     (if dir = DirOutbound then parseOutboundPair l2 else parseInboundPair l2)"

text \<open>
  Whatever parses as an L2 frame is not a pair frame in either direction, so a telemetry,
  protection or info reply can never overwrite a stored short address.
\<close>

theorem l2_frame_not_pair:
  assumes "ParseL2 raw = Inr f"
  shows "ParsePairFrame dir raw = None"
proof -
  have "raw = [L2SOF, L2SOF, l2_Type f, l2_Cmd f] @ l2_Body f @ [l2_ChkHi f, l2_ChkLo f, L2EOF, L2EOF]"
    using assms by (simp only: ParseL2_Inr_iff)
  then have "raw ! 0 = L2SOF" "raw ! 1 = L2SOF" by simp_all
  then show ?thesis
    by (simp add: ParsePairFrame_def parseOutboundPair_def parseInboundPair_def codec_consts)
qed

lemma l2_frame_not_pair_witness: "ParsePairFrame DirInbound (BuildL2Frame CmdReplyDS3 [1, 2, 3]) = None"
  by (rule l2_frame_not_pair [OF ParseL2_Build])

end
