(* ===== verification/ModemFrames.thy ===== *)
theory ModemFrames
  imports InfoPair AesL1
begin

text \<open>
  The frames between the gateway and its radio module (\<open>internal/zigbee/modem\<close>): the module
  configuration frames and acknowledgement (\<open>frame.go\<close>), the over-the-air pairing frames, their
  two checksums and the reply parsers (\<open>pairing.go\<close>), and the PAN and channel sources
  (\<open>config.go\<close>, \<open>settings.go\<close>).  A file the code reads is an argument: its content, or None.
  The lemmas: frame layouts and checksums, the CRC accepts exactly the right trailer, serial
  numbers round-trip, replies bind only the inverter asked for, and which of the frames sent
  the codec's own recogniser understands.
\<close>

section \<open>Module configuration frames\<close>

definition opPing :: byte where [codec_consts]: "opPing = 0x0D"
definition opSetPanidChannel :: byte where [codec_consts]: "opSetPanidChannel = 0x05"
definition opGetConfig :: byte where [codec_consts]: "opGetConfig = 0x79"
definition ackByte :: byte where [codec_consts]: "ackByte = 0xAB"
definition ackLen :: nat where "ackLen = 3"

text \<open>The offset of the first acknowledgement byte with at least two more bytes behind it.\<close>

fun find_ack_from :: "nat \<Rightarrow> bytes \<Rightarrow> nat option" where
  "find_ack_from i [] = None"
| "find_ack_from i (b # bs) =
     (if b = ackByte \<and> Suc (length bs) \<ge> ackLen then Some i else find_ack_from (Suc i) bs)"

definition findAck :: "bytes \<Rightarrow> nat option" where
  "findAck buf = find_ack_from 0 buf"

definition buildConfigFrame :: "byte \<Rightarrow> bytes \<Rightarrow> bytes" where
  "buildConfigFrame oper params =
     (let sum = sum_bytes (ucast oper) params
      in [0xAA, 0xAA, 0xAA, 0xAA, oper] @ params @ [hi8 sum, lo8 sum, 0])"

definition buildPing :: bytes where
  "buildPing = buildConfigFrame opPing [0, 0, 0, 0, 0, 0, 0]"

definition buildSetPanidChannel :: "u16 \<Rightarrow> byte \<Rightarrow> bytes" where
  "buildSetPanidChannel pan ch = buildConfigFrame opSetPanidChannel [0, 0, hi8 pan, lo8 pan, ch, 0, 0]"

definition buildGetConfig :: "u16 \<Rightarrow> byte \<Rightarrow> bytes" where
  "buildGetConfig pan ch = buildConfigFrame opGetConfig [0, 0, hi8 pan, lo8 pan, ch, 0, 0]"

section \<open>Over-the-air pairing frames\<close>

definition opGetInverterShortAddr :: byte where [codec_consts]: "opGetInverterShortAddr = 0x0E"
definition opSetInverterPan :: byte where [codec_consts]: "opSetInverterPan = 0x0F"
definition opPrimeInverterPan :: byte where [codec_consts]: "opPrimeInverterPan = 0x11"
definition opCommitPanNow :: byte where [codec_consts]: "opCommitPanNow = 0x22"
definition opReportIdOn :: byte where [codec_consts]: "opReportIdOn = 0xD1"
definition opReportIdOff :: byte where [codec_consts]: "opReportIdOff = 0xD2"
definition opReportIdQuiet :: byte where [codec_consts]: "opReportIdQuiet = 0xD3"
definition opBindZigbee :: byte where [codec_consts]: "opBindZigbee = 0x08"
definition tagIeee6 :: byte where [codec_consts]: "tagIeee6 = 0x06"
definition tagIeee8 :: byte where [codec_consts]: "tagIeee8 = 0x08"
definition ieeePadA0 :: byte where [codec_consts]: "ieeePadA0 = 0xA0"
definition announceTag :: byte where [codec_consts]: "announceTag = 0x1D"
definition broadcastIeeeB :: byte where [codec_consts]: "broadcastIeeeB = 0xFF"

definition bytesum8 :: "bytes \<Rightarrow> byte \<times> byte" where
  "bytesum8 f = (let sum = sum_bytes 0 (take 8 (drop 4 f)) in (hi8 sum, lo8 sum))"

text \<open>A directed frame: preamble, op and parameters, their byte sum, and a trailer.\<close>

definition directed :: "bytes \<Rightarrow> bytes \<Rightarrow> bytes" where
  "directed params trailer =
     (let f = [0xAA, 0xAA, 0xAA, 0xAA] @ params; (hi, lo) = bytesum8 f
      in f @ [hi, lo] @ trailer)"

definition buildGetInverterShortAddr :: "bytes \<Rightarrow> bytes" where
  "buildGetInverterShortAddr ieee =
     directed [opGetInverterShortAddr, 0, 0, 0, 0, 0, 0, ieeePadA0] (tagIeee6 # ieee)"

definition buildSetInverterPan :: "u16 \<Rightarrow> byte \<Rightarrow> bytes \<Rightarrow> bytes" where
  "buildSetInverterPan pan ch ieee =
     directed [opSetInverterPan, 0, 0, hi8 pan, lo8 pan, ch, 0, ieeePadA0] (tagIeee6 # ieee)"

definition buildPrimeInverterPan :: "u16 \<Rightarrow> byte \<Rightarrow> bytes \<Rightarrow> bytes" where
  "buildPrimeInverterPan pan ch ieee =
     directed [opPrimeInverterPan, 0, 0, hi8 pan, lo8 pan, ch, 0, 0] (tagIeee8 # ieee @ [0x00, 0x01])"

definition buildCommitPanNow :: "u16 \<Rightarrow> byte \<Rightarrow> bytes" where
  "buildCommitPanNow pan ch =
     directed [opCommitPanNow, 0, 0, hi8 pan, lo8 pan, ch, 0, 0] [0x00]"

definition buildBindZigbee :: "u16 \<Rightarrow> bytes" where
  "buildBindZigbee sa =
     directed [opBindZigbee, hi8 sa, lo8 sa, 0, 0, 0, 0, ieeePadA0] [0x00]"

section \<open>CRC-16/CCITT-FALSE\<close>

definition crc_step :: "u16 \<Rightarrow> u16" where
  "crc_step crc = (if crc AND 0x8000 \<noteq> 0 then push_bit 1 crc XOR 0x1021 else push_bit 1 crc)"

fun crc_steps :: "nat \<Rightarrow> u16 \<Rightarrow> u16" where
  "crc_steps 0 crc = crc"
| "crc_steps (Suc n) crc = crc_steps n (crc_step crc)"

definition updateCRC :: "u16 \<Rightarrow> byte \<Rightarrow> u16" where
  "updateCRC crc b = crc_steps 8 (crc XOR push_bit 8 (ucast b))"

fun crc_over :: "u16 \<Rightarrow> bytes \<Rightarrow> u16" where
  "crc_over crc [] = crc"
| "crc_over crc (x # xs) = crc_over (updateCRC crc x) xs"

definition crc16 :: "bytes \<Rightarrow> u16" where
  "crc16 b = crc_over 0xFFFF b"

definition with_crc :: "bytes \<Rightarrow> bytes" where
  "with_crc payload =
     (let crc = crc16 payload in [0xAA, 0xAA, 0xAA, 0xAA] @ payload @ [hi8 crc, lo8 crc])"

definition buildReportIdOn :: "byte \<Rightarrow> byte \<Rightarrow> bytes" where
  "buildReportIdOn count seq =
     with_crc ([opReportIdOn, 0, 0, 0, 0, 0, 0] @ replicate 6 broadcastIeeeB @ [count, seq])"

definition buildReportIdOff :: "bytes list \<Rightarrow> byte \<Rightarrow> bytes" where
  "buildReportIdOff found seq =
     with_crc ([opReportIdOff, 0x01] @ concat found @ [broadcastIeeeB, seq])"

definition buildReportIdQuiet :: bytes where
  "buildReportIdQuiet =
     [0xAA, 0xAA, 0xAA, 0xAA, opReportIdQuiet, 0xFF, 0xFF, 0xFF, 0xFF, 0xFF, 0xFF, 0xFF, 0xFD]"

section \<open>Serial numbers\<close>

text \<open>The regular expression \<open>^[0-9]{12}$\<close>, then \<open>hex.DecodeString\<close> of the digits.\<close>

definition serialRe :: "string \<Rightarrow> bool" where
  "serialRe s \<longleftrightarrow> length s = 12 \<and> list_all is_digit s"

fun decode_digits :: "string \<Rightarrow> bytes" where
  "decode_digits (c # d # s) =
     (push_bit 4 (of_nat (of_char c - 48)) OR of_nat (of_char d - 48)) # decode_digits s"
| "decode_digits s = []"

definition serialToBCD6 :: "string \<Rightarrow> bytes option" where
  "serialToBCD6 serial = (if \<not> serialRe serial then None else Some (decode_digits serial))"

definition bcd6ToSerial :: "bytes \<Rightarrow> string" where
  "bcd6ToSerial ieee = hex_string ieee"

section \<open>Replies\<close>

definition isEncryptedFrame :: "bytes \<Rightarrow> bool" where
  "isEncryptedFrame raw =
     (if length raw < 13 then False
      else if raw ! 0 \<noteq> L1ReplySOF \<or> raw ! 1 \<noteq> L1ReplySOF then False
      else raw ! 12 < CleartextGateMin)"

definition parseShortAddrReply :: "bytes \<Rightarrow> bytes \<Rightarrow> u16 option" where
  "parseShortAddrReply reply wantIEEE =
     (if length reply < 4 then None
      else let (sa, off) = (if reply ! 0 = L1ReplySOF \<and> reply ! 1 = L1ReplySOF
                            then (u16_of (reply ! 2) (reply ! 3), 6)
                            else (u16_of (reply ! 0) (reply ! 1), 4))
           in if sa \<ge> 0xFFF8 then None
              else if length reply < off + 6 then None
              else if \<exists>i \<in> set [0..<6]. reply ! (off + i) \<noteq> wantIEEE ! i then None
              else Some sa)"

definition parseAnnounce :: "bytes \<Rightarrow> bytes option" where
  "parseAnnounce reply =
     (if length reply < 10 then None
      else if reply ! 0 \<noteq> announceTag \<or> reply ! 1 \<noteq> announceTag then None
      else if crc16 (take 8 (drop 2 reply)) \<noteq> 0 then None
      else Some (take 6 (drop 2 reply)))"

section \<open>PAN and channel sources\<close>

definition hex_digit_value :: "char \<Rightarrow> nat option" where
  "hex_digit_value c =
     (let n = of_char c :: nat
      in if 48 \<le> n \<and> n \<le> 57 then Some (n - 48)
         else if 97 \<le> n \<and> n \<le> 102 then Some (n - 87)
         else if 65 \<le> n \<and> n \<le> 70 then Some (n - 55)
         else None)"

text \<open>\<open>strconv.ParseUint\<close> in base 10 or 16 with a bit size: digits only, no sign, in range.\<close>

fun digits_value :: "nat \<Rightarrow> nat \<Rightarrow> string \<Rightarrow> nat option" where
  "digits_value base acc [] = Some acc"
| "digits_value base acc (c # s) =
     (case hex_digit_value c of
        None \<Rightarrow> None
      | Some d \<Rightarrow> if d < base then digits_value base (acc * base + d) s else None)"

definition ParseUint :: "string \<Rightarrow> nat \<Rightarrow> nat \<Rightarrow> nat option" where
  "ParseUint s base bits =
     (if s = [] then None
      else case digits_value base 0 s of
             None \<Rightarrow> None
           | Some v \<Rightarrow> if v < 2 ^ bits then Some v else None)"

text \<open>\<open>strings.TrimSpace\<close> on ASCII input, and \<open>strings.TrimPrefix\<close>.\<close>

definition is_space :: "char \<Rightarrow> bool" where
  "is_space c \<longleftrightarrow> (of_char c :: nat) \<in> {9, 10, 11, 12, 13, 32}"

definition trim_space :: "string \<Rightarrow> string" where
  "trim_space s = rev (dropWhile is_space (rev (dropWhile is_space s)))"

definition trim_prefix :: "string \<Rightarrow> string \<Rightarrow> string" where
  "trim_prefix s p = (if has_prefix s p then drop (length p) s else s)"

definition ParsePANHex :: "string \<Rightarrow> u16 option" where
  "ParsePANHex s0 =
     (let s = trim_prefix (trim_prefix (trim_space s0) ''0x'') ''0X''
      in if s = [] \<or> length s > 4 then None else map_option of_nat (ParseUint s 16 16))"

fun pair_up :: "nat list \<Rightarrow> bytes" where
  "pair_up (h # l # r) = of_nat (16 * h + l) # pair_up r"
| "pair_up r = []"

definition macOctets :: "string \<Rightarrow> bytes" where
  "macOctets s = pair_up (List.map_filter hex_digit_value s)"

definition parsePAN :: "string \<Rightarrow> u16 option" where
  "parsePAN s =
     (let oct = macOctets s
      in if length oct < 2 then None
         else Some (u16_of (oct ! (length oct - 2)) (oct ! (length oct - 1))))"

text \<open>\<open>conf\<close> is the provisioned MAC file, \<open>sysfs\<close> the kernel's address file.\<close>

definition ReadPAN :: "string option \<Rightarrow> string option \<Rightarrow> u16 option" where
  "ReadPAN conf sysfs =
     (case (case conf of None \<Rightarrow> None | Some data \<Rightarrow> parsePAN data) of
        Some pan \<Rightarrow> Some pan
      | None \<Rightarrow> (case sysfs of None \<Rightarrow> None | Some data \<Rightarrow> parsePAN data))"

definition DefaultChannel :: byte where "DefaultChannel = 0x10"

definition ReadChannel :: "string option \<Rightarrow> byte" where
  "ReadChannel file =
     (case file of
        None \<Rightarrow> DefaultChannel
      | Some data \<Rightarrow>
          let s = trim_space data;
              (t, base) = (if has_prefix s ''0x'' \<or> has_prefix s ''0X'' then (drop 2 s, 16) else (s, 10))
          in case ParseUint t base 8 of None \<Rightarrow> DefaultChannel | Some v \<Rightarrow> of_nat v)"

definition ResolveChannel :: "string option \<Rightarrow> u32 \<Rightarrow> byte" where
  "ResolveChannel file setting =
     (if setting \<ge> 11 \<and> setting \<le> 26 then ucast setting else ReadChannel file)"

section \<open>The CRC\<close>

lemma and_8000: "(crc AND 0x8000 \<noteq> 0) \<longleftrightarrow> bit (crc :: u16) 15"
proof -
  have "(0x8000 :: u16) = 2 ^ 15" by simp
  then show ?thesis using and_exp_eq_0_iff_not_bit [of crc 15] by simp
qed

lemma crc_step_alt: "crc_step crc = push_bit 1 crc XOR (if bit crc 15 then 0x1021 else 0)"
  by (simp add: crc_step_def and_8000)

lemma crc_step_xor: "crc_step (a XOR b) = crc_step a XOR crc_step b"
  by (auto simp: crc_step_alt push_bit_xor bit_xor_iff ac_simps)

lemma crc_steps_xor: "crc_steps n (a XOR b) = crc_steps n a XOR crc_steps n b"
  by (induction n arbitrary: a b) (simp_all add: crc_step_xor)

lemma crc_steps_add: "crc_steps (m + n) a = crc_steps n (crc_steps m a)"
  by (induction m arbitrary: a) simp_all

lemma crc_step_eq_0: "crc_step a = 0 \<longleftrightarrow> a = 0"
proof
  assume z: "crc_step a = 0"
  have "bit (crc_step a) 0 = bit a 15"
    by (simp add: crc_step_alt bit_xor_iff bit_push_bit_iff bit_0 even_xor_iff)
  then have top: "\<not> bit a 15" using z by simp
  then have sh: "push_bit 1 a = 0" using z by (simp add: crc_step_alt)
  show "a = 0"
  proof (rule bit_word_eqI)
    fix n assume "n < LENGTH(16)"
    then consider "n = 15" | "Suc n < 16" by force
    then show "bit a n = bit (0 :: u16) n"
    proof cases
      case 1 then show ?thesis using top by simp
    next
      case 2
      have "bit (push_bit 1 a) (Suc n) = bit a n" using 2 by (subst bit_push_bit_iff) simp
      then show ?thesis using sh by simp
    qed
  qed
qed (simp add: crc_step_def)

lemma crc_steps_eq_0: "crc_steps n a = 0 \<longleftrightarrow> a = 0"
  by (induction n arbitrary: a) (simp_all add: crc_step_eq_0)

lemma crc_steps_low_byte:
  assumes "m + k \<le> 8"
  shows "crc_steps k (push_bit m (ucast (b :: byte))) = push_bit (m + k) (ucast b)"
  using assms
proof (induction k arbitrary: m)
  case (Suc k)
  have "\<not> bit (push_bit m (ucast b) :: u16) 15"
    using Suc.prems by (auto simp: bit_push_bit_iff bit_ucast_iff dest: bit_imp_le_length)
  then have "crc_step (push_bit m (ucast b)) = push_bit (Suc m) (ucast b)"
    by (simp add: crc_step_alt)
  then show ?case using Suc.IH [of "Suc m"] Suc.prems by simp
qed simp

lemma u16_of_xor: "u16_of h l = push_bit 8 (ucast h) XOR ucast l"
  unfolding u16_of_def
  by (rule bit_word_eqI) (auto simp: bit_simps dest: bit_imp_le_length)

text \<open>Two trailing bytes cancel the running value exactly when they are its big-endian form.\<close>

lemma crc_over_trailer: "crc_over crc [h, l] = 0 \<longleftrightarrow> u16_of h l = crc"
proof -
  have low: "push_bit 8 (ucast l) = crc_steps 8 (ucast l)"
    using crc_steps_low_byte [of 0 8 l] by simp
  have "crc_over crc [h, l] = crc_steps 8 (crc_steps 8 (crc XOR push_bit 8 (ucast h)) XOR push_bit 8 (ucast l))"
    by (simp add: updateCRC_def)
  also have "\<dots> = crc_steps (8 + 8) (crc XOR u16_of h l)"
    by (simp only: low crc_steps_add crc_steps_xor u16_of_xor xor.assoc)
  finally have "crc_over crc [h, l] = 0 \<longleftrightarrow> crc XOR u16_of h l = 0" by (simp only: crc_steps_eq_0)
  also have "\<dots> \<longleftrightarrow> u16_of h l = crc"
    by (auto simp: bit_eq_iff bit_xor_iff)
  finally show ?thesis .
qed

lemma crc_over_append: "crc_over crc (xs @ ys) = crc_over (crc_over crc xs) ys"
  by (induction xs arbitrary: crc) simp_all

text \<open>
  An announcement is accepted, with its IEEE, exactly when its two trailing bytes are the
  CRC-16 of the IEEE; every single other trailer is refused.
\<close>

theorem announce_crc_exact:
  assumes "length ieee = 6"
  shows "parseAnnounce ([announceTag, announceTag] @ ieee @ [h, l] @ rest)
    = (if u16_of h l = crc16 ieee then Some ieee else None)"
proof -
  let ?r = "[announceTag, announceTag] @ ieee @ [h, l] @ rest"
  have "take 8 (drop 2 ?r) = ieee @ [h, l]" and "take 6 (drop 2 ?r) = ieee"
    and "\<not> length ?r < 10" and "?r ! 0 = announceTag" and "?r ! 1 = announceTag"
    using assms by simp_all
  moreover have "crc16 (ieee @ [h, l]) = 0 \<longleftrightarrow> u16_of h l = crc16 ieee"
    by (simp only: crc16_def crc_over_append crc_over_trailer)
  ultimately show ?thesis unfolding parseAnnounce_def by (simp only: if_False if_True not_not simp_thms split: if_split) blast
qed

lemma announce_crc_exact_witness:
  "parseAnnounce ([announceTag, announceTag] @ [0x80, 0x60, 0, 4, 0x25, 0x82]
       @ [hi8 (crc16 [0x80, 0x60, 0, 4, 0x25, 0x82]), lo8 (crc16 [0x80, 0x60, 0, 4, 0x25, 0x82])] @ [])
     = Some [0x80, 0x60, 0, 4, 0x25, 0x82]"
  by (subst announce_crc_exact) simp_all

section \<open>Serial numbers survive the packing\<close>

definition decimal_chars :: string where "decimal_chars = ''0123456789''"

lemma is_digit_iff: "is_digit c \<longleftrightarrow> c \<in> set decimal_chars"
proof
  assume d: "is_digit c"
  define n where "n = (of_char c :: nat)"
  have "n \<in> set [48..<58]"
    using d unfolding set_upt atLeastLessThan_iff by (simp add: is_digit_def n_def)
  moreover have "list_all (\<lambda>n. char_of n \<in> set decimal_chars) [48..<58]" by code_simp
  ultimately have "char_of n \<in> set decimal_chars" by (simp only: list_all_iff)
  then show "c \<in> set decimal_chars" by (simp add: n_def)
next
  have "list_all is_digit decimal_chars" by code_simp
  then show "c \<in> set decimal_chars \<Longrightarrow> is_digit c" by (simp add: list_all_iff)
qed

lemma digit_pairs:
  "list_all (\<lambda>c. list_all (\<lambda>d.
      hex_string (decode_digits [c, d]) = [c, d] \<and> decode_digits [c, d] = [bcd_byte c d])
    decimal_chars) decimal_chars"
  by code_simp

lemma digit_pair:
  assumes "is_digit c" and "is_digit d"
  shows "hex_string (decode_digits [c, d]) = [c, d]" "decode_digits [c, d] = [bcd_byte c d]"
  using digit_pairs assms unfolding list_all_iff is_digit_iff by blast+

lemma hex_string_append: "hex_string (xs @ ys) = hex_string xs @ hex_string ys"
  by (induction xs) simp_all

lemma decode_digits_cons: "decode_digits (c # d # s) = decode_digits [c, d] @ decode_digits s"
  by simp

lemma hex_decode_digits:
  "even (length s) \<Longrightarrow> list_all is_digit s \<Longrightarrow> hex_string (decode_digits s) = s"
proof (induction s rule: decode_digits.induct)
  case (1 c d s)
  then have p: "is_digit c" "is_digit d" and IH: "hex_string (decode_digits s) = s" by simp_all
  show ?case
    by (subst decode_digits_cons) (simp only: hex_string_append digit_pair(1) [OF p] IH append.simps)
qed simp_all

lemma decode_digits_bcd:
  "even (length s) \<Longrightarrow> list_all is_digit s \<Longrightarrow>
   decode_digits s = map (\<lambda>i. bcd_byte (s ! (2 * i)) (s ! (2 * i + 1))) [0..<length s div 2]"
proof (induction s rule: decode_digits.induct)
  case (1 c d s)
  then have p: "is_digit c" "is_digit d"
    and IH: "decode_digits s = map (\<lambda>i. bcd_byte (s ! (2 * i)) (s ! (2 * i + 1))) [0..<length s div 2]"
    by simp_all
  have "length (c # d # s) div 2 = Suc (length s div 2)" by simp
  moreover have "map (\<lambda>i. bcd_byte ((c # d # s) ! (2 * i)) ((c # d # s) ! (2 * i + 1))) [0..<Suc (length s div 2)]
      = [bcd_byte c d] @ map (\<lambda>i. bcd_byte (s ! (2 * i)) (s ! (2 * i + 1))) [0..<length s div 2]"
    by (subst map_upt_Suc) simp
  ultimately show ?case
    by (subst decode_digits_cons) (simp only: digit_pair(2) [OF p] IH)
qed simp_all

text \<open>
  A serial of twelve decimal digits packs to a radio address that prints back as the serial,
  and the driver's encryption layer derives the same address from it.
\<close>

theorem serial_roundtrip:
  assumes "serialRe serial"
  shows "\<exists>ieee. serialToBCD6 serial = Some ieee \<and> length ieee = 6 \<and> bcd6ToSerial ieee = serial
    \<and> idToBCD serial = Inr ieee \<and> PeerUIDHexFromBCD ieee = serial"
proof -
  have l: "length serial = 12" and d: "list_all is_digit serial" using assms by (auto simp: serialRe_def)
  have h: "hex_string (decode_digits serial) = serial" using hex_decode_digits l d by simp
  have b: "decode_digits serial = map (\<lambda>i. bcd_byte (serial ! (2 * i)) (serial ! (2 * i + 1))) [0..<6]"
    using decode_digits_bcd [of serial] l d by simp
  have "serialToBCD6 serial = Some (decode_digits serial)" using assms by (simp add: serialToBCD6_def)
  moreover have "idToBCD serial = Inr (decode_digits serial)" unfolding idToBCD_def b using l by simp
  moreover have "length (decode_digits serial) = 6" unfolding b by simp
  ultimately show ?thesis using h by (simp add: bcd6ToSerial_def PeerUIDHexFromBCD_def)
qed

lemma serial_roundtrip_witness:
  "\<exists>ieee. serialToBCD6 ''806000042582'' = Some ieee \<and> length ieee = 6
    \<and> bcd6ToSerial ieee = ''806000042582'' \<and> idToBCD ''806000042582'' = Inr ieee
    \<and> PeerUIDHexFromBCD ieee = ''806000042582''"
  by (rule serial_roundtrip) code_simp

section \<open>Replies bind only the inverter asked for\<close>

lemma take6_eq_iff:
  assumes "length w = 6" and "length r \<ge> n + 6"
  shows "take 6 (drop n r) = w \<longleftrightarrow> (\<forall>i \<in> set [0..<6]. r ! (n + i) = w ! i)"
  using assms by (auto simp: list_eq_iff_nth_eq)

text \<open>
  A short address is taken from a reply exactly when it is unreserved and the reply carries
  the IEEE address that was asked for, in the framed and in the bare layout.
\<close>

theorem short_addr_reply_exact:
  assumes "length ieee = 6" and "length want = 6"
  shows "parseShortAddrReply ([L1ReplySOF, L1ReplySOF, a, b, x, y] @ ieee @ rest) want
      = (if u16_of a b < 0xFFF8 \<and> ieee = want then Some (u16_of a b) else None)
    \<and> (a \<noteq> L1ReplySOF \<or> b \<noteq> L1ReplySOF \<longrightarrow>
      parseShortAddrReply ([a, b, x, y] @ ieee @ rest) want
      = (if u16_of a b < 0xFFF8 \<and> ieee = want then Some (u16_of a b) else None))"
proof -
  have m: "ieee = want \<longleftrightarrow> \<not> (\<exists>i \<in> set [0..<6]. (ieee @ rest) ! i \<noteq> want ! i)"
    using assms by (auto simp: list_eq_iff_nth_eq nth_append)
  show ?thesis
    using assms(1) by (auto simp: parseShortAddrReply_def Let_def m not_le)
qed

lemma short_addr_reply_exact_witness:
  "parseShortAddrReply ([L1ReplySOF, L1ReplySOF, 0x12, 0x34, 0, 0] @ [1, 2, 3, 4, 5, 6] @ []) [1, 2, 3, 4, 5, 6]
     = Some 0x1234"
  using short_addr_reply_exact [of "[1, 2, 3, 4, 5, 6]" "[1, 2, 3, 4, 5, 6]" "0x12" "0x34"]
  by (simp add: u16_of_def)

section \<open>What the codec recognises of the frames sent\<close>

lemma directed_shape:
  "length params = 8 \<Longrightarrow> directed params trailer =
     [0xAA, 0xAA, 0xAA, 0xAA] @ params @ [hi8 (sum_bytes 0 params), lo8 (sum_bytes 0 params)] @ trailer"
  by (simp add: directed_def bytesum8_def Let_def)

lemma length_6_cases:
  assumes "length xs = 6"
  obtains a b c d e f where "xs = [a, b, c, d, e, f]"
  using assms by (auto simp: length_Suc_conv eval_nat_numeral)

text \<open>
  Of the pairing frames the gateway writes, the codec's recogniser reads the bind with the
  short address it was built for, and the commit; the prime it misses, since it expects the tag
  one byte further on, unless the address starts with the tag, and then it reads a wrong address.
\<close>

theorem pair_frames_recognised:
  assumes "length ieee = 6"
  shows "ParsePairFrame DirOutbound (buildBindZigbee sa)
      = Some ((pair_of_kind PairOffReportBind)\<lparr>pf_ShortAddr := sa\<rparr>)
    \<and> ParsePairFrame DirOutbound (buildCommitPanNow pan ch) = Some (pair_of_kind PairChangePan22)
    \<and> ParsePairFrame DirOutbound (buildPrimeInverterPan pan ch ieee)
      = (if ieee ! 0 = tagIeee8
         then Some ((pair_of_kind PairChangePan11)\<lparr>pf_PeerUID := hex_string (drop 1 ieee @ [0])\<rparr>)
         else None)"
proof (intro conjI)
  show "ParsePairFrame DirOutbound (buildBindZigbee sa)
      = Some ((pair_of_kind PairOffReportBind)\<lparr>pf_ShortAddr := sa\<rparr>)"
    by (simp add: ParsePairFrame_def buildBindZigbee_def directed_shape parseOutboundPair_def codec_consts)
  show "ParsePairFrame DirOutbound (buildCommitPanNow pan ch) = Some (pair_of_kind PairChangePan22)"
    by (simp add: ParsePairFrame_def buildCommitPanNow_def directed_shape parseOutboundPair_def codec_consts)
  obtain a b c d e f where i: "ieee = [a, b, c, d, e, f]" using assms by (rule length_6_cases)
  show "ParsePairFrame DirOutbound (buildPrimeInverterPan pan ch ieee)
      = (if ieee ! 0 = tagIeee8
         then Some ((pair_of_kind PairChangePan11)\<lparr>pf_PeerUID := hex_string (drop 1 ieee @ [0])\<rparr>)
         else None)"
    by (simp add: ParsePairFrame_def buildPrimeInverterPan_def directed_shape parseOutboundPair_def
        codec_consts i del: hex_string.simps)
qed

lemma pair_frames_recognised_witness:
  "ParsePairFrame DirOutbound (buildPrimeInverterPan 0x1234 16 [0x80, 0x60, 0, 4, 0x25, 0x82]) = None"
  using pair_frames_recognised [of "[0x80, 0x60, 0, 4, 0x25, 0x82]"] by (simp add: tagIeee8_def)

section \<open>Acknowledgements\<close>

lemma first_index_Cons:
  assumes "b \<noteq> a"
  shows "(\<exists>i. n = k + i \<and> i + m \<le> length (b # bs) \<and> (b # bs) ! i = a \<and> (\<forall>j < i. (b # bs) ! j \<noteq> a)) \<longleftrightarrow>
    (\<exists>i. n = Suc k + i \<and> i + m \<le> length bs \<and> bs ! i = a \<and> (\<forall>j < i. bs ! j \<noteq> a))"
    (is "?L \<longleftrightarrow> ?R")
proof
  assume ?L
  then obtain i where i: "n = k + i" "i + m \<le> length (b # bs)" "(b # bs) ! i = a"
    "\<forall>j < i. (b # bs) ! j \<noteq> a" by blast
  then obtain i' where "i = Suc i'" using assms by (cases i) auto
  then show ?R using i by (intro exI [of _ i']) (auto simp: nth_Cons')
next
  assume ?R
  then obtain i where "n = Suc k + i" "i + m \<le> length bs" "bs ! i = a"
    "\<forall>j < i. bs ! j \<noteq> a" by blast
  then show ?L using assms by (intro exI [of _ "Suc i"]) (auto simp: nth_Cons' less_Suc_eq_0_disj)
qed

lemma find_ack_from_Some:
  "find_ack_from k bs = Some n \<longleftrightarrow>
     (\<exists>i. n = k + i \<and> i + ackLen \<le> length bs \<and> bs ! i = ackByte \<and> (\<forall>j < i. bs ! j \<noteq> ackByte))"
proof (induction bs arbitrary: k)
  case Nil
  then show ?case by (simp add: ackLen_def)
next
  case (Cons b bs)
  show ?case
  proof (cases "b = ackByte")
    case True
    have "(\<forall>j < i. (b # bs) ! j \<noteq> ackByte) \<longleftrightarrow> i = 0" for i
      using True by (cases i) auto
    then show ?thesis using True Cons.IH [of "Suc k"] by (auto simp: ackLen_def)
  next
    case False
    then show ?thesis by (simp only: first_index_Cons [OF False] Cons.IH find_ack_from.simps False simp_thms if_False)
  qed
qed

lemma findAck_Some_iff:
  "findAck buf = Some i \<longleftrightarrow>
     i + 3 \<le> length buf \<and> buf ! i = ackByte \<and> (\<forall>j < i. buf ! j \<noteq> ackByte)"
  by (auto simp: findAck_def find_ack_from_Some ackLen_def)

section \<open>PAN sources\<close>

lemma hex_digit_values:
  "list_all (\<lambda>n. hex_digit_value (hex_digit n) = Some n) [0..<16]" by code_simp

lemma hex_digit_value_hex [simp]: "n < 16 \<Longrightarrow> hex_digit_value (hex_digit n) = Some n"
  using hex_digit_values by (simp only: list_all_iff set_upt) simp

lemma map_filter_hex_string:
  "List.map_filter hex_digit_value (hex_string bs) = concat (map (\<lambda>b. [unat b div 16, unat b mod 16]) bs)"
proof (induction bs)
  case (Cons b bs)
  then show ?case by (simp add: List.map_filter_def byte_nibble_less)
qed (simp add: List.map_filter_def)

lemma pair_up_hex: "pair_up (concat (map (\<lambda>b. [unat b div 16, unat b mod 16]) bs)) = bs"
  by (induction bs) (simp_all del: of_nat_add of_nat_mult)

lemma macOctets_hex: "macOctets (hex_string bs) = bs"
  by (simp add: macOctets_def map_filter_hex_string pair_up_hex)

lemma digits_value_hex:
  "n < 16 \<Longrightarrow> digits_value 16 acc (hex_digit n # s) = digits_value 16 (acc * 16 + n) s"
  by simp

lemma hex_digit_not_space: "n < 16 \<Longrightarrow> \<not> is_space (hex_digit n)"
proof -
  have "list_all (\<lambda>n. \<not> is_space (hex_digit n)) [0..<16]" by code_simp
  then show "n < 16 \<Longrightarrow> \<not> is_space (hex_digit n)" by (simp only: list_all_iff set_upt) simp
qed

lemma hex_digit_not_x: "n < 16 \<Longrightarrow> hex_digit n \<noteq> CHR ''x'' \<and> hex_digit n \<noteq> CHR ''X''"
proof -
  have "list_all (\<lambda>n. hex_digit n \<noteq> CHR ''x'' \<and> hex_digit n \<noteq> CHR ''X'') [0..<16]" by code_simp
  then show "n < 16 \<Longrightarrow> hex_digit n \<noteq> CHR ''x'' \<and> hex_digit n \<noteq> CHR ''X''"
    by (simp only: list_all_iff set_upt) simp
qed

lemma trim_space_ends:
  assumes "\<not> is_space c" and "\<not> is_space d" and "list_all is_space ws"
  shows "trim_space (c # xs @ [d] @ ws) = c # xs @ [d]"
proof -
  have "dropWhile is_space (rev ws @ d # rev xs @ [c]) = d # rev xs @ [c]"
    using assms by (subst dropWhile_append2) (auto simp: list_all_iff)
  then show ?thesis using assms(1) by (simp add: trim_space_def)
qed

lemma hex_pan:
  obtains c d e f where "hex_string [hi8 pan, lo8 pan] = c # [d, e] @ [f]"
    and "\<not> is_space c" "\<not> is_space f" "d \<noteq> CHR ''x''" "d \<noteq> CHR ''X''"
    and "ParseUint (c # [d, e] @ [f]) 16 16 = Some (unat pan)"
proof -
  define h where "h = unat (hi8 pan)"
  define l where "l = unat (lo8 pan)"
  have hl: "h div 16 < 16" "l div 16 < 16" "h mod 16 < 16" "l mod 16 < 16"
    unfolding h_def l_def by (simp_all add: byte_nibble_less)
  have "(((h div 16) * 16 + h mod 16) * 16 + l div 16) * 16 + l mod 16 = unat pan"
    using unat_u16_of [of "hi8 pan" "lo8 pan"] by (simp add: h_def l_def)
  moreover have "unat pan < 2 ^ 16" using unsigned_less [of pan] by simp
  ultimately have "ParseUint (hex_digit (h div 16) # [hex_digit (h mod 16), hex_digit (l div 16)]
      @ [hex_digit (l mod 16)]) 16 16 = Some (unat pan)"
    using hl by (simp add: ParseUint_def)
  then show thesis
    using that hl by (simp add: h_def l_def hex_digit_not_space hex_digit_not_x)
qed

text \<open>
  The PAN is the last two octets of the address, with any separators, the provisioned file
  taking precedence over the kernel's; and the hexadecimal form of a PAN, with or without prefix
  and surrounding space, parses back to it.
\<close>

theorem pan_sources:
  assumes "List.map_filter hex_digit_value mac = List.map_filter hex_digit_value (hex_string (octets @ [a, b]))"
    and "list_all is_space ws"
  shows "ReadPAN (Some mac) sysfs = Some (u16_of a b) \<and> ReadPAN None (Some mac) = Some (u16_of a b)
    \<and> ParsePANHex (hex_string [hi8 pan, lo8 pan] @ ws) = Some pan
    \<and> ParsePANHex (''0x'' @ hex_string [hi8 pan, lo8 pan] @ ws) = Some pan"
proof -
  have "macOctets mac = octets @ [a, b]"
    using assms(1) macOctets_hex [of "octets @ [a, b]"] by (simp only: macOctets_def)
  then have p: "parsePAN mac = Some (u16_of a b)"
    by (simp add: parsePAN_def Let_def nth_append)
  obtain c d e f where h: "hex_string [hi8 pan, lo8 pan] = c # [d, e] @ [f]"
    and sp: "\<not> is_space c" "\<not> is_space f" and x: "d \<noteq> CHR ''x''" "d \<noteq> CHR ''X''"
    and pu: "ParseUint (c # [d, e] @ [f]) 16 16 = Some (unat pan)" by (rule hex_pan)
  have "trim_space (c # ([d, e] @ [f]) @ ws) = c # [d, e] @ [f]"
    using trim_space_ends [OF sp assms(2), of "[d, e]"] by simp
  then have "ParsePANHex (hex_string [hi8 pan, lo8 pan] @ ws) = Some pan"
    unfolding h using pu x by (simp add: ParsePANHex_def trim_prefix_def)
  moreover have "trim_space (CHR ''0'' # ([CHR ''x'', c, d, e]) @ [f] @ ws) = CHR ''0'' # [CHR ''x'', c, d, e] @ [f]"
    by (rule trim_space_ends [OF _ sp(2) assms(2)]) (simp add: is_space_def)
  then have "ParsePANHex (''0x'' @ hex_string [hi8 pan, lo8 pan] @ ws) = Some pan"
    unfolding h using pu x by (simp add: ParsePANHex_def trim_prefix_def)
  ultimately show ?thesis by (simp add: ReadPAN_def p)
qed

lemma pan_sources_witness:
  "ReadPAN None (Some ''80:97:1B:03:AB:cd'') = Some (u16_of 0xAB 0xCD)"
proof -
  have "List.map_filter hex_digit_value ''80:97:1B:03:AB:cd''
      = List.map_filter hex_digit_value (hex_string ([0x80, 0x97, 0x1B, 0x03] @ [0xAB, 0xCD]))"
    by code_simp
  from pan_sources [OF this, of "[]"] show ?thesis by simp
qed

end
