(* ===== verification/Watchdog.thy ===== *)
theory Watchdog
  imports Prelude
begin

text \<open>
  The modem watchdog (\<open>internal/zigbee/modem/watchdog.go\<close>): the silence and cooldown windows,
  the tick decision, the probe and what follows it, and the running loop as a step relation in
  which \<open>NoteInbound\<close> interleaves with the critical sections of \<open>Run\<close>.
  A duration is its number of nanoseconds, a time is nanoseconds since an epoch, and the zero
  \<open>time.Time\<close> is None.  The failure counter is a natural number: at one failure per minute it
  would take four thousand years to wrap.  The lemmas: the backoff has a closed form, a reset
  happens only for a silent and unresponsive module, and resets keep their distance.
\<close>

section \<open>Clocks and durations\<close>

type_synonym duration = int
type_synonym time = int

definition minute :: duration where "minute = 60 * 1000000000"
definition hour :: duration where "hour = 60 * minute"
definition maxDuration :: duration where "maxDuration = 2 ^ 63 - 1"

text \<open>\<open>now.Sub(t)\<close>: saturated, and over any real date the distance to the zero time saturates.\<close>

definition time_sub :: "time \<Rightarrow> time option \<Rightarrow> duration" where
  "time_sub now t =
     (case t of
        None \<Rightarrow> maxDuration
      | Some t \<Rightarrow> max (- (2 ^ 63)) (min maxDuration (now - t)))"

definition defaultWatchdogSilence :: duration where "defaultWatchdogSilence = 5 * minute"
definition defaultWatchdogInterval :: duration where "defaultWatchdogInterval = 2 * minute"
definition defaultWatchdogCooldown :: duration where "defaultWatchdogCooldown = 3 * minute"
definition maxRecoverBackoff :: duration where "maxRecoverBackoff = 1 * hour"

section \<open>State and operations\<close>

record watchdog =
  wd_Silence :: duration
  wd_Interval :: duration
  wd_Cooldown :: duration
  wd_lastInbound :: "time option"
  wd_lastRecover :: "time option"
  wd_recoverFails :: nat
  wd_started :: bool

definition NoteInbound :: "time \<Rightarrow> watchdog \<Rightarrow> watchdog" where
  "NoteInbound now w = w\<lparr>wd_lastInbound := Some now\<rparr>"

definition wd_defaults :: "watchdog \<Rightarrow> watchdog" where
  "wd_defaults w =
     w\<lparr>wd_Silence := (if wd_Silence w \<le> 0 then defaultWatchdogSilence else wd_Silence w),
       wd_Interval := (if wd_Interval w \<le> 0 then defaultWatchdogInterval else wd_Interval w),
       wd_Cooldown := (if wd_Cooldown w \<le> 0 then defaultWatchdogCooldown else wd_Cooldown w)\<rparr>"

datatype wd_action = actionSkip | actionProbe

text \<open>The doubling loop: \<open>n\<close> iterations are left.\<close>

fun cooldown_loop :: "nat \<Rightarrow> duration \<Rightarrow> duration" where
  "cooldown_loop 0 d = d"
| "cooldown_loop (Suc n) d = (if d < maxRecoverBackoff then cooldown_loop n (d * 2) else d)"

definition cooldownLocked :: "watchdog \<Rightarrow> duration" where
  "cooldownLocked w =
     (let d = cooldown_loop (wd_recoverFails w - 1) (wd_Cooldown w)
      in if d > maxRecoverBackoff then maxRecoverBackoff else d)"

definition tickDecision :: "time \<Rightarrow> watchdog \<Rightarrow> wd_action" where
  "tickDecision now w =
     (if wd_lastRecover w \<noteq> None \<and> time_sub now (wd_lastRecover w) < cooldownLocked w then actionSkip
      else if time_sub now (wd_lastInbound w) < wd_Silence w then actionSkip
      else actionProbe)"

text \<open>The critical sections at the start of \<open>Run\<close>, after an alive probe and after a recovery.\<close>

definition run_start :: "time \<Rightarrow> watchdog \<Rightarrow> watchdog" where
  "run_start now w = (wd_defaults w)\<lparr>wd_lastInbound := Some now, wd_started := True\<rparr>"

definition probe_alive :: "watchdog \<Rightarrow> watchdog" where
  "probe_alive w = w\<lparr>wd_recoverFails := 0\<rparr>"

definition recover_done :: "bool \<Rightarrow> time \<Rightarrow> watchdog \<Rightarrow> watchdog" where
  "recover_done ok now w =
     (let w1 = w\<lparr>wd_lastRecover := Some now\<rparr>
      in if ok then w1\<lparr>wd_lastInbound := Some now, wd_recoverFails := 0\<rparr>
         else w1\<lparr>wd_recoverFails := wd_recoverFails w1 + 1\<rparr>)"

text \<open>
  \<open>runProbe\<close>: what the probe and the recovery return and whether the context is cancelled
  before each are its inputs; the second component says whether \<open>Recover\<close> ran.
\<close>

datatype probe_result = ProbeErr | ProbeAlive | ProbeDead

definition runProbe ::
  "bool \<Rightarrow> probe_result \<Rightarrow> bool \<Rightarrow> bool \<Rightarrow> time \<Rightarrow> watchdog \<Rightarrow> watchdog \<times> bool" where
  "runProbe cancelled1 probe cancelled2 recover_ok now w =
     (if cancelled1 then (w, False)
      else case probe of
             ProbeErr \<Rightarrow> (w, False)
           | ProbeAlive \<Rightarrow> (probe_alive w, False)
           | ProbeDead \<Rightarrow> if cancelled2 then (w, False) else (recover_done recover_ok now w, True))"

section \<open>The backoff\<close>

lemma maxRecoverBackoff_pos [simp]: "0 < maxRecoverBackoff"
  by (simp add: maxRecoverBackoff_def hour_def minute_def)

lemma cooldown_loop_capped:
  assumes "0 < d"
  shows "min maxRecoverBackoff (cooldown_loop n d) = min maxRecoverBackoff (d * 2 ^ n)"
  using assms
proof (induction n arbitrary: d)
  case (Suc n)
  show ?case
  proof (cases "d < maxRecoverBackoff")
    case True
    then show ?thesis using Suc.IH [of "d * 2"] Suc.prems by (simp add: mult.assoc)
  next
    case False
    have "d * 1 \<le> d * 2 ^ Suc n"
      by (rule mult_left_mono) (use Suc.prems one_le_power [of "2 :: int" "Suc n"] in auto)
    then show ?thesis using False by simp
  qed
qed simp

text \<open>
  The quiet window after a recovery is the configured cooldown, doubled once per consecutive
  failure after the first, never above one hour.
\<close>

theorem cooldown_closed_form:
  assumes "0 < wd_Cooldown w"
  shows "cooldownLocked w = min maxRecoverBackoff (wd_Cooldown w * 2 ^ (wd_recoverFails w - 1))"
  using cooldown_loop_capped [OF assms, of "wd_recoverFails w - 1"]
  by (simp add: cooldownLocked_def Let_def min_def split: if_splits)

lemma cooldown_closed_form_witness:
  "cooldownLocked \<lparr>wd_Silence = 5 * minute, wd_Interval = 2 * minute, wd_Cooldown = 3 * minute,
     wd_lastInbound = None, wd_lastRecover = Some 0, wd_recoverFails = 3, wd_started = True\<rparr> = 12 * minute
   \<and> cooldownLocked \<lparr>wd_Silence = 5 * minute, wd_Interval = 2 * minute, wd_Cooldown = 3 * minute,
     wd_lastInbound = None, wd_lastRecover = Some 0, wd_recoverFails = 100, wd_started = True\<rparr> = hour"
  by (subst (1 2) cooldown_closed_form) (simp_all add: minute_def hour_def maxRecoverBackoff_def)

lemma cooldown_le: "cooldownLocked w \<le> maxRecoverBackoff"
  by (simp add: cooldownLocked_def Let_def)

lemma cooldown_ge:
  assumes "0 < wd_Cooldown w"
  shows "min maxRecoverBackoff (wd_Cooldown w) \<le> cooldownLocked w"
proof -
  have "wd_Cooldown w * 1 \<le> wd_Cooldown w * 2 ^ (wd_recoverFails w - 1)"
    by (rule mult_left_mono) (use assms in auto)
  then show ?thesis by (simp add: cooldown_closed_form [OF assms])
qed

section \<open>The running watchdog\<close>

text \<open>
  Where the loop of \<open>Run\<close> is: waiting for a tick, with a probe under way (decided at a time), or
  with a recovery under way (decided at a time).  The log holds the times at which \<open>Recover\<close> was
  started and finished, newest first, with the outcome.
\<close>

datatype wd_phase = Waiting | Probing time | Recovering time time

record wd_recovery =
  rec_decided :: time
  rec_started :: time
  rec_finished :: time
  rec_ok :: bool
  rec_silent_since :: "time option"

record wd_run =
  run_w :: watchdog
  run_clock :: time
  run_phase :: wd_phase
  run_quiet :: "time option"
  run_log :: "wd_recovery list"

text \<open>\<open>run_quiet\<close> is a ghost: the inbound stamp the last decision saw.\<close>

inductive wd_step :: "wd_run \<Rightarrow> wd_run \<Rightarrow> bool" where
  passes: "run_clock s \<le> t \<Longrightarrow> wd_step s (s\<lparr>run_clock := t\<rparr>)"
| inbound: "wd_step s (s\<lparr>run_w := NoteInbound (run_clock s) (run_w s)\<rparr>)"
| tick_skip:
    "run_phase s = Waiting \<Longrightarrow> tickDecision (run_clock s) (run_w s) = actionSkip \<Longrightarrow> wd_step s s"
| tick_probe:
    "run_phase s = Waiting \<Longrightarrow> tickDecision (run_clock s) (run_w s) = actionProbe \<Longrightarrow>
     wd_step s (s\<lparr>run_phase := Probing (run_clock s), run_quiet := wd_lastInbound (run_w s)\<rparr>)"
| probe_inconclusive:
    "run_phase s = Probing t \<Longrightarrow> wd_step s (s\<lparr>run_phase := Waiting\<rparr>)"
| probe_answers:
    "run_phase s = Probing t \<Longrightarrow>
     wd_step s (s\<lparr>run_phase := Waiting, run_w := probe_alive (run_w s)\<rparr>)"
| probe_silent:
    "run_phase s = Probing t \<Longrightarrow> wd_step s (s\<lparr>run_phase := Recovering t (run_clock s)\<rparr>)"
| recovered:
    "run_phase s = Recovering t u \<Longrightarrow>
     wd_step s (s\<lparr>run_phase := Waiting, run_w := recover_done ok (run_clock s) (run_w s),
       run_log := \<lparr>rec_decided = t, rec_started = u, rec_finished = run_clock s, rec_ok = ok,
                   rec_silent_since = run_quiet s\<rparr> # run_log s\<rparr>)"

definition wd_initial :: "time \<Rightarrow> watchdog \<Rightarrow> wd_run" where
  "wd_initial now w =
     \<lparr>run_w = run_start now w, run_clock = now, run_phase = Waiting, run_quiet = None, run_log = []\<rparr>"

inductive wd_reachable :: "time \<Rightarrow> watchdog \<Rightarrow> wd_run \<Rightarrow> bool" for now w where
  start: "wd_lastRecover w = None \<Longrightarrow> wd_recoverFails w = 0 \<Longrightarrow> wd_reachable now w (wd_initial now w)"
| more: "wd_reachable now w s \<Longrightarrow> wd_step s s' \<Longrightarrow> wd_reachable now w s'"

text \<open>The distance from the end of one recovery to the decision that led to the next.\<close>

fun spaced :: "duration \<Rightarrow> wd_recovery list \<Rightarrow> bool" where
  "spaced c (r # r' # rs) = (c \<le> rec_decided r - rec_finished r' \<and> spaced c (r' # rs))"
| "spaced c rs = True"

definition recovery_ok :: "duration \<Rightarrow> wd_recovery \<Rightarrow> bool" where
  "recovery_ok silence r \<longleftrightarrow>
     (\<exists>q. rec_silent_since r = Some q \<and> silence \<le> rec_decided r - q)
     \<and> rec_decided r \<le> rec_started r \<and> rec_started r \<le> rec_finished r"

definition min_gap :: "watchdog \<Rightarrow> duration" where
  "min_gap w = min maxRecoverBackoff (wd_Cooldown w)"

text \<open>What a decision to probe at time \<open>t\<close> established.\<close>

definition decided_ok :: "wd_run \<Rightarrow> time \<Rightarrow> bool" where
  "decided_ok s t \<longleftrightarrow> t \<le> run_clock s
     \<and> (\<exists>q. run_quiet s = Some q \<and> wd_Silence (run_w s) \<le> t - q)
     \<and> (\<forall>r rs. run_log s = r # rs \<longrightarrow> min_gap (run_w s) \<le> t - rec_finished r)"

definition wd_inv :: "watchdog \<Rightarrow> wd_run \<Rightarrow> bool" where
  "wd_inv w0 s \<longleftrightarrow>
     wd_Silence (run_w s) = wd_Silence w0 \<and> wd_Cooldown (run_w s) = wd_Cooldown w0
     \<and> wd_lastInbound (run_w s) \<noteq> None
     \<and> wd_lastRecover (run_w s) = (case run_log s of [] \<Rightarrow> None | r # _ \<Rightarrow> Some (rec_finished r))
     \<and> (case run_phase s of Waiting \<Rightarrow> True | Probing t \<Rightarrow> decided_ok s t
          | Recovering t u \<Rightarrow> decided_ok s t \<and> t \<le> u \<and> u \<le> run_clock s)
     \<and> spaced (min_gap w0) (run_log s) \<and> (\<forall>r \<in> set (run_log s). recovery_ok (wd_Silence w0) r)"

lemma time_sub_ge: "c \<le> time_sub now (Some t) \<Longrightarrow> - (2 ^ 63) < c \<Longrightarrow> c \<le> now - t"
  by (simp add: time_sub_def max_def min_def split: if_splits)

lemma tickDecision_probe:
  assumes "tickDecision now w = actionProbe" and "0 < wd_Silence w" and "0 < wd_Cooldown w"
    and "wd_lastInbound w = Some q"
  shows "wd_Silence w \<le> now - q" and "wd_lastRecover w = Some t \<Longrightarrow> min_gap w \<le> now - t"
proof -
  have neg: "- (2 ^ 63) < wd_Silence w" using assms(2) by simp
  have "wd_Silence w \<le> time_sub now (Some q)"
    using assms(1,4) by (auto simp: tickDecision_def split: if_splits)
  then show "wd_Silence w \<le> now - q" using neg by (rule time_sub_ge)
  assume r: "wd_lastRecover w = Some t"
  then have "cooldownLocked w \<le> time_sub now (Some t)"
    using assms(1) by (auto simp: tickDecision_def split: if_splits)
  then have "min_gap w \<le> time_sub now (Some t)"
    using cooldown_ge [OF assms(3)] by (simp add: min_gap_def)
  moreover have "0 < min_gap w" using assms(3) by (simp add: min_gap_def)
  then have "- (2 ^ 63) < min_gap w" by (rule order_less_trans [rotated]) simp
  ultimately show "min_gap w \<le> now - t" by (rule time_sub_ge)
qed

lemma wd_step_inv:
  assumes "wd_step s s'" and "wd_inv w0 s" and "0 < wd_Silence w0" and "0 < wd_Cooldown w0"
  shows "wd_inv w0 s'"
  using assms
proof cases
  case (tick_probe)
  obtain q where q: "wd_lastInbound (run_w s) = Some q" using assms(2) by (auto simp: wd_inv_def)
  have pos: "0 < wd_Silence (run_w s)" "0 < wd_Cooldown (run_w s)"
    using assms(2-4) by (auto simp: wd_inv_def)
  note d = tickDecision_probe [OF tick_probe(3) pos q]
  have "decided_ok (s\<lparr>run_phase := Probing (run_clock s), run_quiet := wd_lastInbound (run_w s)\<rparr>) (run_clock s)"
    using d assms(2) q by (auto simp: decided_ok_def wd_inv_def)
  then show ?thesis using assms(2) tick_probe(1) by (simp add: wd_inv_def)
next
  case (recovered t u ok)
  have d: "decided_ok s t" "t \<le> u" "u \<le> run_clock s" using assms(2) recovered(2) by (auto simp: wd_inv_def)
  then have "recovery_ok (wd_Silence w0) \<lparr>rec_decided = t, rec_started = u, rec_finished = run_clock s,
      rec_ok = ok, rec_silent_since = run_quiet s\<rparr>"
    using assms(2) by (auto simp: recovery_ok_def decided_ok_def wd_inv_def)
  moreover have "spaced (min_gap w0) (\<lparr>rec_decided = t, rec_started = u, rec_finished = run_clock s,
      rec_ok = ok, rec_silent_since = run_quiet s\<rparr> # run_log s)"
    using d(1) assms(2) by (cases "run_log s") (auto simp: decided_ok_def wd_inv_def min_gap_def)
  ultimately show ?thesis using assms(2) recovered(1)
    by (auto simp: wd_inv_def recover_done_def Let_def)
qed (auto simp: wd_inv_def decided_ok_def NoteInbound_def probe_alive_def min_gap_def split: wd_phase.splits)

lemma wd_defaults_pos: "0 < wd_Silence (wd_defaults w)" "0 < wd_Cooldown (wd_defaults w)"
  by (simp_all add: wd_defaults_def defaultWatchdogSilence_def defaultWatchdogCooldown_def minute_def)

lemma wd_reachable_inv:
  assumes "wd_reachable now w s"
  shows "wd_inv (wd_defaults w) s"
  using assms
proof induction
  case start
  then show ?case by (simp add: wd_inv_def wd_initial_def run_start_def wd_defaults_def)
next
  case (more s s')
  then show ?case using wd_step_inv wd_defaults_pos by blast
qed

text \<open>
  C6: in every run, however inbound activity interleaves, the module is reset only on a decision
  taken after the configured silence, and the next decision to reset comes at least the cooldown
  (or one hour, if that is less) after the last reset finished: no reset storm.
\<close>

theorem resets_keep_distance:
  assumes "wd_reachable now w s"
  shows "spaced (min maxRecoverBackoff (wd_Cooldown (wd_defaults w))) (run_log s)
    \<and> (\<forall>r \<in> set (run_log s). recovery_ok (wd_Silence (wd_defaults w)) r)"
  using wd_reachable_inv [OF assms] by (simp add: wd_inv_def min_gap_def)

text \<open>One night on the default timings: silence, a dead probe, a failed reset.\<close>

definition sample_watchdog :: watchdog where
  "sample_watchdog = \<lparr>wd_Silence = 0, wd_Interval = 0, wd_Cooldown = 0, wd_lastInbound = None,
     wd_lastRecover = None, wd_recoverFails = 0, wd_started = False\<rparr>"

lemma sample_run:
  "\<exists>s :: wd_run. wd_reachable 0 sample_watchdog s \<and> length (run_log s) = 1
     \<and> wd_Cooldown (wd_defaults sample_watchdog) = 3 * minute"
proof -
  let ?s0 = "wd_initial 0 sample_watchdog"
  let ?s1 = "?s0\<lparr>run_clock := 6 * minute\<rparr>"
  let ?s2 = "?s1\<lparr>run_phase := Probing (run_clock ?s1), run_quiet := wd_lastInbound (run_w ?s1)\<rparr>"
  let ?s3 = "?s2\<lparr>run_phase := Recovering (6 * minute) (run_clock ?s2)\<rparr>"
  have r0: "wd_reachable 0 sample_watchdog ?s0" by (rule start) (simp_all add: sample_watchdog_def)
  have "wd_step ?s0 ?s1" by (rule passes) (simp add: wd_initial_def minute_def)
  then have r1: "wd_reachable 0 sample_watchdog ?s1" by (rule more [OF r0])
  have "wd_step ?s1 ?s2"
    by (rule tick_probe) (simp_all add: wd_initial_def tickDecision_def run_start_def wd_defaults_def
        sample_watchdog_def time_sub_def minute_def defaultWatchdogSilence_def maxDuration_def)
  then have r2: "wd_reachable 0 sample_watchdog ?s2" by (rule more [OF r1])
  have "wd_step ?s2 ?s3" by (rule probe_silent) (simp add: wd_initial_def)
  then have r3: "wd_reachable 0 sample_watchdog ?s3" by (rule more [OF r2])
  have p: "run_phase ?s3 = Recovering (6 * minute) (run_clock ?s2)" by simp
  note r4 = more [OF r3 recovered [OF p, of False]]
  show ?thesis
    by (rule exI, rule conjI, rule r4) (simp add: wd_initial_def sample_watchdog_def wd_defaults_def
        defaultWatchdogCooldown_def)
qed

lemma resets_keep_distance_witness:
  "\<exists>s :: wd_run. length (run_log s) = 1 \<and> spaced (min maxRecoverBackoff (wd_Cooldown (wd_defaults sample_watchdog))) (run_log s)
    \<and> (\<forall>r \<in> set (run_log s). recovery_ok (wd_Silence (wd_defaults sample_watchdog)) r)"
proof -
  obtain s where "wd_reachable 0 sample_watchdog s" "length (run_log s) = 1" using sample_run by blast
  then show ?thesis using resets_keep_distance [of 0 sample_watchdog s] by blast
qed

section \<open>The probe tells sleep from wedge\<close>

lemma cooldown_after_recovery:
  assumes "0 < wd_Cooldown w"
  shows "cooldownLocked (recover_done True now w) = min maxRecoverBackoff (wd_Cooldown w)"
    and "cooldownLocked (recover_done False now w)
      = (if wd_recoverFails w = 0 then min maxRecoverBackoff (wd_Cooldown w)
         else min maxRecoverBackoff (2 * cooldownLocked w))"
proof -
  show "cooldownLocked (recover_done True now w) = min maxRecoverBackoff (wd_Cooldown w)"
    using assms by (subst cooldown_closed_form) (simp_all add: recover_done_def Let_def)
  have f: "cooldownLocked (recover_done False now w)
      = min maxRecoverBackoff (wd_Cooldown w * 2 ^ wd_recoverFails w)"
    using assms by (subst cooldown_closed_form) (simp_all add: recover_done_def Let_def)
  show "cooldownLocked (recover_done False now w)
      = (if wd_recoverFails w = 0 then min maxRecoverBackoff (wd_Cooldown w)
         else min maxRecoverBackoff (2 * cooldownLocked w))"
  proof (cases "wd_recoverFails w")
    case (Suc m)
    define X where "X = wd_Cooldown w * 2 ^ m"
    have "0 \<le> X" using assms by (simp add: X_def)
    moreover have "wd_Cooldown w * 2 ^ Suc m = 2 * X" by (simp add: X_def)
    moreover have "cooldownLocked w = min maxRecoverBackoff X"
      using assms Suc by (simp add: cooldown_closed_form X_def)
    ultimately show ?thesis using f Suc by (simp only: nat.simps if_False) (simp add: min_def)
  qed (simp add: f)
qed

text \<open>
  \<open>Recover\<close> runs only for a module that did not answer, in a context that is still alive;
  a module that answers ends the failure streak and keeps its windows; an inconclusive probe
  changes nothing; and after a failed recovery the bus counts as silent as before, with the next
  window twice the last up to an hour.
\<close>

theorem runProbe_cases:
  assumes "runProbe c1 probe c2 ok now w = (w', recovered)" and "0 < wd_Cooldown w"
  shows "(recovered \<longleftrightarrow> \<not> c1 \<and> probe = ProbeDead \<and> \<not> c2)
    \<and> (\<not> recovered \<longrightarrow> w' = (if \<not> c1 \<and> probe = ProbeAlive then w\<lparr>wd_recoverFails := 0\<rparr> else w))
    \<and> (recovered \<and> ok \<longrightarrow> wd_lastInbound w' = Some now \<and> cooldownLocked w' = min maxRecoverBackoff (wd_Cooldown w))
    \<and> (recovered \<and> \<not> ok \<longrightarrow> wd_lastInbound w' = wd_lastInbound w
         \<and> cooldownLocked w' = (if wd_recoverFails w = 0 then min maxRecoverBackoff (wd_Cooldown w)
                                else min maxRecoverBackoff (2 * cooldownLocked w)))"
proof -
  have "wd_lastInbound (recover_done True now w) = Some now"
    "wd_lastInbound (recover_done False now w) = wd_lastInbound w"
    by (simp_all add: recover_done_def Let_def)
  then show ?thesis
    using assms(1) cooldown_after_recovery [OF assms(2), of now]
    by (cases c1; cases probe; cases c2; cases ok) (auto simp: runProbe_def probe_alive_def)
qed

lemma runProbe_cases_witness:
  "snd (runProbe False ProbeDead False True 7 (wd_defaults sample_watchdog))
    \<and> \<not> snd (runProbe False ProbeAlive False True 7 (wd_defaults sample_watchdog))"
  using runProbe_cases [of False ProbeDead False True 7 "wd_defaults sample_watchdog"]
    runProbe_cases [of False ProbeAlive False True 7 "wd_defaults sample_watchdog"] wd_defaults_pos(2)
  by (metis prod.collapse probe_result.distinct(5))

end
