(* ===== verification/BusLock.thy ===== *)
theory BusLock
  imports Prelude
begin

text \<open>
  The process-wide bus guard (\<open>internal/buslock/buslock.go\<close>): its state, the critical section of
  every operation as a function, and the threads that use it as a step relation whose steps are
  those critical sections, in any interleaving.  Channels are numbers; a set records the closed
  ones, and closing a closed channel, which panics in Go, is None.
  The lemmas: one holder at a time whatever the interleaving, a polite holder is revoked the
  moment an operator waits, no channel is closed twice, and a request that timed out leaves
  nothing behind.
\<close>

section \<open>The lock\<close>

type_synonym chan = nat

record lock =
  lk_held :: bool
  lk_owner :: string
  lk_waiting :: int
  lk_yield :: "chan option"

text \<open>The runtime's channels: the next fresh one, and those closed.\<close>

record channels =
  ch_next :: chan
  ch_closed :: "chan set"

definition close_chan :: "chan \<Rightarrow> channels \<Rightarrow> channels option" where
  "close_chan c ch = (if c \<in> ch_closed ch then None else Some (ch\<lparr>ch_closed := insert c (ch_closed ch)\<rparr>))"

definition zero_lock :: lock where
  "zero_lock = \<lparr>lk_held = False, lk_owner = [], lk_waiting = 0, lk_yield = None\<rparr>"

definition TryAcquire :: "string \<Rightarrow> lock \<Rightarrow> lock \<times> bool \<times> string" where
  "TryAcquire owner l =
     (if lk_held l then (l, False, lk_owner l)
      else (l\<lparr>lk_held := True, lk_owner := owner\<rparr>, True, []))"

definition Release :: "lock \<Rightarrow> lock" where
  "Release l = l\<lparr>lk_held := False, lk_owner := [], lk_yield := None\<rparr>"

definition Held :: "lock \<Rightarrow> bool \<times> string" where
  "Held l = (lk_held l, lk_owner l)"

text \<open>
  \<open>AcquirePriority\<close> is three critical sections: the entry, one attempt of its loop (the third
  component is the holder it reports when the deadline has passed), and the deferred exit.
\<close>

definition priority_enter :: "lock \<times> channels \<Rightarrow> (lock \<times> channels) option" where
  "priority_enter s =
     (case s of (l, ch) \<Rightarrow>
        let l1 = l\<lparr>lk_waiting := lk_waiting l + 1\<rparr>
        in case lk_yield l1 of
             None \<Rightarrow> Some (l1, ch)
           | Some c \<Rightarrow> (case close_chan c ch of
                          None \<Rightarrow> None
                        | Some ch' \<Rightarrow> Some (l1\<lparr>lk_yield := None\<rparr>, ch')))"

definition priority_attempt :: "string \<Rightarrow> lock \<Rightarrow> lock \<times> bool \<times> string" where
  "priority_attempt owner l =
     (if \<not> lk_held l then (l\<lparr>lk_held := True, lk_owner := owner\<rparr>, True, [])
      else (l, False, lk_owner l))"

definition priority_exit :: "lock \<Rightarrow> lock" where
  "priority_exit l = l\<lparr>lk_waiting := lk_waiting l - 1\<rparr>"

definition AcquirePolite :: "string \<Rightarrow> lock \<times> channels \<Rightarrow> (lock \<times> channels) \<times> chan option" where
  "AcquirePolite owner s =
     (case s of (l, ch) \<Rightarrow>
        if lk_held l \<or> lk_waiting l > 0 then ((l, ch), None)
        else ((l\<lparr>lk_held := True, lk_owner := owner, lk_yield := Some (ch_next ch)\<rparr>,
               ch\<lparr>ch_next := Suc (ch_next ch)\<rparr>), Some (ch_next ch)))"

section \<open>What every kind of acquisition promises\<close>

text \<open>
  The contract a caller relies on, whichever operation it acquires with: nothing is acquired from
  a held lock, a failed attempt changes nothing, and after a success the lock is held by the label.
\<close>

locale acquirer =
  fixes acquire :: "string \<Rightarrow> lock \<times> channels \<Rightarrow> (lock \<times> channels) \<times> bool"
  assumes held_refused: "lk_held (fst s) \<Longrightarrow> acquire me s = (s, False)"
    and failed_same: "acquire me s = (s', False) \<Longrightarrow> s' = s"
    and acquired: "acquire me s = (s', True) \<Longrightarrow> Held (fst s') = (True, me)"
begin

lemma second_refused: "acquire me s = (s', True) \<Longrightarrow> acquire you s' = (s', False)"
  using acquired held_refused by (fastforce simp: Held_def)

lemma success_from_free: "acquire me s = (s', True) \<Longrightarrow> \<not> lk_held (fst s)"
  using held_refused by fastforce

lemma release_frees: "acquire me s = (s', True) \<Longrightarrow> Held (Release (fst s')) = (False, [])"
  by (simp add: Held_def Release_def)

end

definition polite_acquire :: "string \<Rightarrow> lock \<times> channels \<Rightarrow> (lock \<times> channels) \<times> bool" where
  "polite_acquire me s = (case AcquirePolite me s of (s', y) \<Rightarrow> (s', y \<noteq> None))"

definition on_lock :: "(lock \<Rightarrow> lock \<times> bool \<times> string) \<Rightarrow> lock \<times> channels \<Rightarrow> (lock \<times> channels) \<times> bool" where
  "on_lock f s = (case f (fst s) of (l', ok, who) \<Rightarrow> ((l', snd s), ok))"

interpretation polite: acquirer polite_acquire
  by unfold_locales (auto simp: polite_acquire_def AcquirePolite_def Held_def split: if_splits prod.splits)

interpretation trying: acquirer "\<lambda>me. on_lock (TryAcquire me)"
  by unfold_locales (auto simp: on_lock_def TryAcquire_def Held_def split: if_splits)

interpretation priority: acquirer "\<lambda>me. on_lock (priority_attempt me)"
  by unfold_locales (auto simp: on_lock_def priority_attempt_def Held_def split: if_splits)

section \<open>The threads\<close>

text \<open>
  Where a thread is: idle, in the wait loop of \<open>AcquirePriority\<close>, past a successful attempt but
  before the deferred decrement, past the deadline and before it, or holding the lock (with the
  channel it selects on, when it acquired politely).
\<close>

datatype pc = Idle | PWaiting | PClaimed | PTimedOut | Holding | HoldingPolite chan

record bus =
  bus_lock :: lock
  bus_chans :: channels
  bus_pc :: "nat \<Rightarrow> pc"

definition holds :: "pc \<Rightarrow> bool" where
  "holds p \<longleftrightarrow> (p = PClaimed \<or> p = Holding \<or> (\<exists>c. p = HoldingPolite c))"

definition waits :: "pc \<Rightarrow> bool" where
  "waits p \<longleftrightarrow> (p = PWaiting \<or> p = PClaimed \<or> p = PTimedOut)"

text \<open>\<open>name\<close> gives every thread's owner label.\<close>

inductive bus_step :: "(nat \<Rightarrow> string) \<Rightarrow> bus \<Rightarrow> bus \<Rightarrow> bool" for name where
  try_ok:
    "bus_pc b i = Idle \<Longrightarrow> TryAcquire (name i) (bus_lock b) = (l, True, who) \<Longrightarrow>
     bus_step name b (b\<lparr>bus_lock := l, bus_pc := (bus_pc b)(i := Holding)\<rparr>)"
| try_busy:
    "bus_pc b i = Idle \<Longrightarrow> TryAcquire (name i) (bus_lock b) = (l, False, who) \<Longrightarrow>
     bus_step name b (b\<lparr>bus_lock := l\<rparr>)"
| enter:
    "bus_pc b i = Idle \<Longrightarrow> priority_enter (bus_lock b, bus_chans b) = Some (l, ch) \<Longrightarrow>
     bus_step name b (b\<lparr>bus_lock := l, bus_chans := ch, bus_pc := (bus_pc b)(i := PWaiting)\<rparr>)"
| attempt_ok:
    "bus_pc b i = PWaiting \<Longrightarrow> priority_attempt (name i) (bus_lock b) = (l, True, who) \<Longrightarrow>
     bus_step name b (b\<lparr>bus_lock := l, bus_pc := (bus_pc b)(i := PClaimed)\<rparr>)"
| attempt_again:
    "bus_pc b i = PWaiting \<Longrightarrow> priority_attempt (name i) (bus_lock b) = (l, False, who) \<Longrightarrow>
     bus_step name b (b\<lparr>bus_lock := l\<rparr>)"
| attempt_last:
    "bus_pc b i = PWaiting \<Longrightarrow> priority_attempt (name i) (bus_lock b) = (l, False, who) \<Longrightarrow>
     bus_step name b (b\<lparr>bus_lock := l, bus_pc := (bus_pc b)(i := PTimedOut)\<rparr>)"
| exit_ok:
    "bus_pc b i = PClaimed \<Longrightarrow>
     bus_step name b (b\<lparr>bus_lock := priority_exit (bus_lock b), bus_pc := (bus_pc b)(i := Holding)\<rparr>)"
| exit_timeout:
    "bus_pc b i = PTimedOut \<Longrightarrow>
     bus_step name b (b\<lparr>bus_lock := priority_exit (bus_lock b), bus_pc := (bus_pc b)(i := Idle)\<rparr>)"
| polite_ok:
    "bus_pc b i = Idle \<Longrightarrow>
     AcquirePolite (name i) (bus_lock b, bus_chans b) = ((l, ch), Some c) \<Longrightarrow>
     bus_step name b (b\<lparr>bus_lock := l, bus_chans := ch, bus_pc := (bus_pc b)(i := HoldingPolite c)\<rparr>)"
| polite_refused:
    "bus_pc b i = Idle \<Longrightarrow>
     AcquirePolite (name i) (bus_lock b, bus_chans b) = ((l, ch), None) \<Longrightarrow>
     bus_step name b (b\<lparr>bus_lock := l, bus_chans := ch\<rparr>)"
| release:
    "bus_pc b i = Holding \<Longrightarrow>
     bus_step name b (b\<lparr>bus_lock := Release (bus_lock b), bus_pc := (bus_pc b)(i := Idle)\<rparr>)"
| release_polite:
    "bus_pc b i = HoldingPolite c \<Longrightarrow>
     bus_step name b (b\<lparr>bus_lock := Release (bus_lock b), bus_pc := (bus_pc b)(i := Idle)\<rparr>)"

definition bus_init :: bus where
  "bus_init = \<lparr>bus_lock = zero_lock, bus_chans = \<lparr>ch_next = 0, ch_closed = {}\<rparr>, bus_pc = (\<lambda>_. Idle)\<rparr>"

inductive bus_reachable :: "(nat \<Rightarrow> string) \<Rightarrow> bus \<Rightarrow> bool" for name where
  init: "bus_reachable name bus_init"
| step: "bus_reachable name b \<Longrightarrow> bus_step name b b' \<Longrightarrow> bus_reachable name b'"

section \<open>The invariant\<close>

definition waiters :: "bus \<Rightarrow> nat set" where
  "waiters b = {i. waits (bus_pc b i)}"

definition holders :: "bus \<Rightarrow> nat set" where
  "holders b = {i. holds (bus_pc b i)}"

definition holders_inv :: "(nat \<Rightarrow> string) \<Rightarrow> bus \<Rightarrow> bool" where
  "holders_inv name b \<longleftrightarrow>
     (if lk_held (bus_lock b) then \<exists>i. holders b = {i} \<and> lk_owner (bus_lock b) = name i
      else holders b = {})"

definition waiting_inv :: "bus \<Rightarrow> bool" where
  "waiting_inv b \<longleftrightarrow> finite (waiters b) \<and> lk_waiting (bus_lock b) = int (card (waiters b))"

definition yield_inv :: "bus \<Rightarrow> bool" where
  "yield_inv b \<longleftrightarrow>
     (\<forall>c \<in> ch_closed (bus_chans b). c < ch_next (bus_chans b))
     \<and> (\<forall>c. lk_yield (bus_lock b) = Some c \<longrightarrow> c \<notin> ch_closed (bus_chans b)
           \<and> c < ch_next (bus_chans b) \<and> lk_waiting (bus_lock b) = 0)
     \<and> (\<forall>i c. bus_pc b i = HoldingPolite c \<longrightarrow>
           lk_yield (bus_lock b) = Some c \<or> c \<in> ch_closed (bus_chans b))"

lemma waiters_upd:
  "bus_pc b' = (bus_pc b)(i := p) \<Longrightarrow>
   waiters b' = (if waits p then insert i (waiters b) else waiters b - {i})"
  by (auto simp: waiters_def)

lemma holders_upd:
  "bus_pc b' = (bus_pc b)(i := p) \<Longrightarrow>
   holders b' = (if holds p then insert i (holders b) else holders b - {i})"
  by (auto simp: holders_def)

lemma same_pc:
  "bus_pc b' = bus_pc b \<Longrightarrow> waiters b' = waiters b \<and> holders b' = holders b"
  by (simp add: waiters_def holders_def)

lemma waits_simps [simp]:
  "\<not> waits Idle" "waits PWaiting" "waits PClaimed" "waits PTimedOut" "\<not> waits Holding"
  "\<not> waits (HoldingPolite c)"
  by (simp_all add: waits_def)

lemma holds_simps [simp]:
  "\<not> holds Idle" "\<not> holds PWaiting" "holds PClaimed" "\<not> holds PTimedOut" "holds Holding"
  "holds (HoldingPolite c)"
  by (simp_all add: holds_def)

lemmas lock_ops = TryAcquire_def priority_enter_def priority_attempt_def priority_exit_def
  AcquirePolite_def Release_def close_chan_def

lemma holders_inv_same:
  assumes "holders_inv name b" and "holders b' = holders b" and "Held (bus_lock b') = Held (bus_lock b)"
  shows "holders_inv name b'"
  using assms by (simp add: holders_inv_def Held_def)

lemma holders_inv_taken:
  assumes "holders_inv name b" and "\<not> lk_held (bus_lock b)" and "holders b' = insert i (holders b)"
    and "Held (bus_lock b') = (True, name i)"
  shows "holders_inv name b'"
  using assms by (simp add: holders_inv_def Held_def)

lemma holders_inv_freed:
  assumes "holders_inv name b" and "i \<in> holders b" and "holders b' = holders b - {i}"
    and "Held (bus_lock b') = (False, [])"
  shows "holders_inv name b'"
  using assms by (auto simp: holders_inv_def Held_def split: if_splits)

lemma priority_enter_lock:
  "priority_enter (l, ch) = Some (l', ch') \<Longrightarrow>
   Held l' = Held l \<and> lk_waiting l' = lk_waiting l + 1 \<and> lk_yield l' = None"
  by (auto simp: priority_enter_def close_chan_def Held_def Let_def split: option.splits if_splits)

lemma holders_step:
  assumes "bus_step name b b'" and "holders_inv name b"
  shows "holders_inv name b'"
proof -
  have mem: "i \<in> holders b \<longleftrightarrow> holds (bus_pc b i)" for i by (simp add: holders_def)
  note same = holders_inv_same [OF assms(2)] and taken = holders_inv_taken [OF assms(2)]
    and freed = holders_inv_freed [OF assms(2)]
  show ?thesis
    using assms(1)
  proof cases
    case (try_ok i l who)
    then show ?thesis
      by (intro taken [where i = i]) (auto simp: holders_upd TryAcquire_def Held_def split: if_splits)
  next
    case (attempt_ok i l who)
    then show ?thesis
      by (intro taken [where i = i]) (auto simp: holders_upd priority_attempt_def Held_def split: if_splits)
  next
    case (polite_ok i l ch c)
    then show ?thesis
      by (intro taken [where i = i]) (auto simp: holders_upd AcquirePolite_def Held_def split: if_splits)
  next
    case (release i)
    then show ?thesis using mem [of i]
      by (intro freed [where i = i]) (simp_all add: holders_upd Release_def Held_def)
  next
    case (release_polite i c)
    then show ?thesis using mem [of i]
      by (intro freed [where i = i]) (simp_all add: holders_upd Release_def Held_def)
  next
    case (enter i l ch)
    then show ?thesis using mem [of i] priority_enter_lock [OF enter(3)]
      by (intro same) (simp_all add: holders_upd)
  next
    case (attempt_last i l who)
    then show ?thesis using mem [of i]
      by (intro same) (auto simp: holders_upd priority_attempt_def split: if_splits)
  next
    case (exit_ok i)
    then show ?thesis using mem [of i]
      by (intro same) (simp_all add: holders_upd priority_exit_def Held_def insert_absorb)
  next
    case (exit_timeout i)
    then show ?thesis using mem [of i]
      by (intro same) (simp_all add: holders_upd priority_exit_def Held_def)
  next
    case (try_busy i l who)
    then show ?thesis using same_pc [of b' b]
      by (intro same) (auto simp: TryAcquire_def split: if_splits)
  next
    case (attempt_again i l who)
    then show ?thesis using same_pc [of b' b]
      by (intro same) (auto simp: priority_attempt_def split: if_splits)
  next
    case (polite_refused i l ch)
    then show ?thesis using same_pc [of b' b]
      by (intro same) (auto simp: AcquirePolite_def split: if_splits)
  qed
qed

text \<open>Every step but three keeps the set of waiters and the counter.\<close>

lemma waiting_inv_same:
  assumes "waiting_inv b" and "waiters b' = waiters b"
    and "lk_waiting (bus_lock b') = lk_waiting (bus_lock b)"
  shows "waiting_inv b'"
  using assms by (simp add: waiting_inv_def)

lemma waiting_inv_less:
  assumes "waiting_inv b" and "i \<in> waiters b" and "waiters b' = waiters b - {i}"
    and "lk_waiting (bus_lock b') = lk_waiting (bus_lock b) - 1"
  shows "waiting_inv b'"
proof -
  have f: "finite (waiters b)" using assms(1) by (simp add: waiting_inv_def)
  then have "card (waiters b) = Suc (card (waiters b - {i}))" using assms(2) by (rule card.remove)
  then show ?thesis using assms by (simp add: waiting_inv_def)
qed

lemma waiting_step:
  assumes "bus_step name b b'" and "waiting_inv b"
  shows "waiting_inv b'"
proof -
  have mem: "i \<in> waiters b \<longleftrightarrow> waits (bus_pc b i)" for i by (simp add: waiters_def)
  show ?thesis
    using assms(1)
  proof cases
    case (enter i l ch)
    then show ?thesis using assms(2) mem [of i]
      by (auto simp: waiting_inv_def waiters_upd lock_ops Let_def split: option.splits if_splits)
  next
    case (exit_ok i)
    then show ?thesis using mem [of i]
      by (intro waiting_inv_less [OF assms(2), of i]) (simp_all add: waiters_upd priority_exit_def)
  next
    case (exit_timeout i)
    then show ?thesis using mem [of i]
      by (intro waiting_inv_less [OF assms(2), of i]) (simp_all add: waiters_upd priority_exit_def)
  next
    case (try_ok i l who)
    then show ?thesis using mem [of i]
      by (intro waiting_inv_same [OF assms(2)]) (auto simp: waiters_upd TryAcquire_def split: if_splits)
  next
    case (attempt_ok i l who)
    then show ?thesis using mem [of i]
      by (intro waiting_inv_same [OF assms(2)])
        (auto simp: waiters_upd priority_attempt_def insert_absorb split: if_splits)
  next
    case (attempt_last i l who)
    then show ?thesis using mem [of i]
      by (intro waiting_inv_same [OF assms(2)])
        (auto simp: waiters_upd priority_attempt_def insert_absorb split: if_splits)
  next
    case (polite_ok i l ch c)
    then show ?thesis using mem [of i]
      by (intro waiting_inv_same [OF assms(2)]) (auto simp: waiters_upd AcquirePolite_def split: if_splits)
  next
    case (release i)
    then show ?thesis using mem [of i]
      by (intro waiting_inv_same [OF assms(2)]) (auto simp: waiters_upd Release_def)
  next
    case (release_polite i c)
    then show ?thesis using mem [of i]
      by (intro waiting_inv_same [OF assms(2)]) (auto simp: waiters_upd Release_def)
  next
    case (try_busy i l who)
    then show ?thesis using same_pc [of b' b]
      by (intro waiting_inv_same [OF assms(2)]) (auto simp: TryAcquire_def split: if_splits)
  next
    case (attempt_again i l who)
    then show ?thesis using same_pc [of b' b]
      by (intro waiting_inv_same [OF assms(2)]) (auto simp: priority_attempt_def split: if_splits)
  next
    case (polite_refused i l ch)
    then show ?thesis using same_pc [of b' b]
      by (intro waiting_inv_same [OF assms(2)]) (auto simp: AcquirePolite_def split: if_splits)
  qed
qed

lemma only_holder:
  assumes "holders_inv name b" and "holds (bus_pc b i)" and "holds (bus_pc b j)"
  shows "j = i"
proof -
  have "i \<in> holders b" "j \<in> holders b" using assms(2,3) by (simp_all add: holders_def)
  then show ?thesis using assms(1) by (auto simp: holders_inv_def split: if_splits)
qed

text \<open>A step that frees the lock, or takes the free lock, meets no other polite holder.\<close>

lemma yield_inv_same:
  assumes "yield_inv b" and "lk_yield (bus_lock b') = lk_yield (bus_lock b)"
    and "bus_chans b' = bus_chans b" and "bus_pc b' = (bus_pc b)(i := p)"
    and "\<forall>c. p \<noteq> HoldingPolite c"
    and "lk_yield (bus_lock b) \<noteq> None \<Longrightarrow> lk_waiting (bus_lock b') = lk_waiting (bus_lock b)"
  shows "yield_inv b'"
proof -
  have "lk_yield (bus_lock b) = Some c \<or> c \<in> ch_closed (bus_chans b)"
    if "bus_pc b' j = HoldingPolite c" for j c
    using assms(1,4,5) that by (cases "j = i") (auto simp: yield_inv_def)
  then show ?thesis using assms(1-3,6) unfolding yield_inv_def by auto
qed

lemma yield_step:
  assumes "bus_step name b b'" and "holders_inv name b" and "waiting_inv b" and "yield_inv b"
  shows "yield_inv b'"
proof -
  have waiting: "lk_waiting (bus_lock b) \<noteq> 0" if "waits (bus_pc b i)" for i
  proof -
    have "i \<in> waiters b" using that by (simp add: waiters_def)
    then show ?thesis using assms(3) by (auto simp: waiting_inv_def)
  qed
  have yield_closed: "c \<in> ch_closed (bus_chans b) \<or> lk_yield (bus_lock b) = Some c"
    if "bus_pc b j = HoldingPolite c" for j c using assms(4) that by (auto simp: yield_inv_def)
  show ?thesis
    using assms(1)
  proof cases
    case (enter i l ch)
    show ?thesis
    proof (cases "lk_yield (bus_lock b)")
      case None
      then show ?thesis using enter assms(4)
        by (auto simp: yield_inv_def priority_enter_def Let_def)
    next
      case (Some c)
      then have "c \<notin> ch_closed (bus_chans b)" "c < ch_next (bus_chans b)"
        using assms(4) by (auto simp: yield_inv_def)
      then have "bus_chans b' = (bus_chans b)\<lparr>ch_closed := insert c (ch_closed (bus_chans b))\<rparr>"
        and "lk_yield (bus_lock b') = None" and "bus_pc b' = (bus_pc b)(i := PWaiting)"
        using enter Some by (auto simp: priority_enter_def close_chan_def Let_def)
      then show ?thesis using assms(4) Some \<open>c < ch_next (bus_chans b)\<close> yield_closed
        unfolding yield_inv_def by (auto split: if_splits)
    qed
  next
    case (exit_ok i)
    then have "lk_yield (bus_lock b) = None" using assms(4) waiting [of i] by (auto simp: yield_inv_def)
    then show ?thesis using exit_ok
      by (intro yield_inv_same [OF assms(4), of _ i Holding]) (simp_all add: priority_exit_def)
  next
    case (exit_timeout i)
    then have "lk_yield (bus_lock b) = None" using assms(4) waiting [of i] by (auto simp: yield_inv_def)
    then show ?thesis using exit_timeout
      by (intro yield_inv_same [OF assms(4), of _ i Idle]) (simp_all add: priority_exit_def)
  next
    case (try_ok i l who)
    then show ?thesis
      by (intro yield_inv_same [OF assms(4), of _ i Holding]) (auto simp: TryAcquire_def split: if_splits)
  next
    case (attempt_ok i l who)
    then show ?thesis
      by (intro yield_inv_same [OF assms(4), of _ i PClaimed]) (auto simp: priority_attempt_def split: if_splits)
  next
    case (attempt_last i l who)
    then show ?thesis
      by (intro yield_inv_same [OF assms(4), of _ i PTimedOut]) (auto simp: priority_attempt_def split: if_splits)
  next
    case (polite_ok i l ch c)
    then have "\<not> lk_held (bus_lock b)" "\<not> lk_waiting (bus_lock b) > 0"
      by (auto simp: AcquirePolite_def split: if_splits)
    then have nh: "bus_pc b j \<noteq> HoldingPolite c" for j c
      using assms(2) by (auto simp: holders_inv_def holders_def) (metis holds_simps(6))
    have "lk_waiting (bus_lock b) = 0"
      using assms(3) \<open>\<not> lk_waiting (bus_lock b) > 0\<close> by (simp add: waiting_inv_def)
    then show ?thesis using polite_ok assms(4) nh
      by (auto simp: yield_inv_def AcquirePolite_def less_Suc_eq split: if_splits)
  next
    case (release i)
    then have "bus_pc b' j \<noteq> HoldingPolite c" for j c
      using only_holder [OF assms(2), of i j] by (cases "j = i") auto
    moreover have "lk_yield (bus_lock b') = None" "bus_chans b' = bus_chans b"
      using release by (simp_all add: Release_def)
    ultimately show ?thesis using assms(4) by (simp add: yield_inv_def)
  next
    case (release_polite i c)
    then have "bus_pc b' j \<noteq> HoldingPolite c'" for j c'
      using only_holder [OF assms(2), of i j] by (cases "j = i") auto
    moreover have "lk_yield (bus_lock b') = None" "bus_chans b' = bus_chans b"
      using release_polite by (simp_all add: Release_def)
    ultimately show ?thesis using assms(4) by (simp add: yield_inv_def)
  qed (use assms(4) in \<open>auto simp: yield_inv_def TryAcquire_def priority_attempt_def
      AcquirePolite_def split: if_splits\<close>)
qed

definition bus_inv :: "(nat \<Rightarrow> string) \<Rightarrow> bus \<Rightarrow> bool" where
  "bus_inv name b \<longleftrightarrow> holders_inv name b \<and> waiting_inv b \<and> yield_inv b"

lemma bus_reachable_inv:
  assumes "bus_reachable name b"
  shows "bus_inv name b"
  using assms
proof induction
  case init
  then show ?case
    by (simp add: bus_inv_def holders_inv_def waiting_inv_def yield_inv_def bus_init_def zero_lock_def
        waiters_def holders_def)
next
  case (step b b')
  then show ?case using holders_step waiting_step yield_step by (auto simp: bus_inv_def)
qed

section \<open>Properties\<close>

text \<open>
  C5: in every interleaving of pairing, broadcast and polling threads at most one holds the bus,
  the lock is held exactly while one does, and the label it reports is that thread's.
\<close>

theorem bus_exclusive:
  assumes "bus_reachable name b"
  shows "(holds (bus_pc b i) \<longrightarrow> holds (bus_pc b j) \<longrightarrow> i = j)
    \<and> (holds (bus_pc b i) \<longrightarrow> Held (bus_lock b) = (True, name i))
    \<and> ((\<forall>k. \<not> holds (bus_pc b k)) \<longrightarrow> \<not> fst (Held (bus_lock b)))"
proof -
  have inv: "holders_inv name b" using bus_reachable_inv [OF assms] by (simp add: bus_inv_def)
  have "Held (bus_lock b) = (True, name i)" if "i \<in> holders b"
    using that inv by (auto simp: holders_inv_def Held_def split: if_splits)
  moreover have "\<not> lk_held (bus_lock b)" if "holders b = {}"
    using that inv by (auto simp: holders_inv_def split: if_splits)
  ultimately show ?thesis using only_holder [OF inv] by (auto simp: holders_def Held_def)
qed

text \<open>
  As soon as an operator waits, the polite holder's channel is closed, a further polite
  acquisition is refused, and no interleaving of operators closes a channel twice, so
  \<open>AcquirePriority\<close> never panics.
\<close>

theorem polite_revoked:
  assumes "bus_reachable name b"
  shows "(waits (bus_pc b i) \<longrightarrow> bus_pc b j = HoldingPolite c \<longrightarrow> c \<in> ch_closed (bus_chans b))
    \<and> (waits (bus_pc b i) \<longrightarrow> snd (AcquirePolite who (bus_lock b, bus_chans b)) = None)
    \<and> priority_enter (bus_lock b, bus_chans b) \<noteq> None"
proof -
  have inv: "waiting_inv b" "yield_inv b" using bus_reachable_inv [OF assms] by (auto simp: bus_inv_def)
  have w: "lk_waiting (bus_lock b) > 0" if "waits (bus_pc b i)"
  proof -
    have "i \<in> waiters b" using that by (simp add: waiters_def)
    then have "0 < card (waiters b)" using inv(1) by (auto simp: waiting_inv_def card_gt_0_iff)
    then show ?thesis using inv(1) by (simp add: waiting_inv_def)
  qed
  have closed: "c \<in> ch_closed (bus_chans b)" if "waits (bus_pc b i)" "bus_pc b j = HoldingPolite c"
    using inv(2) w [OF that(1)] that(2) by (auto simp: yield_inv_def)
  have "priority_enter (bus_lock b, bus_chans b) \<noteq> None"
    using inv(2) by (auto simp: yield_inv_def lock_ops Let_def split: option.splits)
  then show ?thesis using closed w by (simp add: AcquirePolite_def)
qed

text \<open>
  A request that timed out, or any other, leaves nothing behind: once every thread is idle
  again the poller's polite acquisition succeeds, with an open channel.
\<close>

theorem idle_bus_is_free:
  assumes "bus_reachable name b" and "\<forall>i. bus_pc b i = Idle"
  shows "\<exists>l ch c. AcquirePolite who (bus_lock b, bus_chans b) = ((l, ch), Some c)
    \<and> Held l = (True, who) \<and> c \<notin> ch_closed ch"
proof -
  have "waiters b = {}" using assms(2) by (simp add: waiters_def)
  moreover have "waiting_inv b" "holders_inv name b" "yield_inv b"
    using bus_reachable_inv [OF assms(1)] by (auto simp: bus_inv_def)
  ultimately have "lk_waiting (bus_lock b) = 0" "\<not> lk_held (bus_lock b)"
    "ch_next (bus_chans b) \<notin> ch_closed (bus_chans b)"
    using assms(2) by (auto simp: waiting_inv_def holders_inv_def yield_inv_def holders_def split: if_splits)
  then show ?thesis by (simp add: AcquirePolite_def Held_def)
qed

text \<open>
  Each of the three ways to acquire refuses a bus another one has taken, and the owner of
  the free bus afterwards is nobody.
\<close>

theorem acquirers_exclude:
  "(polite_acquire me s = (s', True) \<longrightarrow> on_lock (priority_attempt you) s' = (s', False))
   \<and> (on_lock (priority_attempt me) s = (s', True) \<longrightarrow> on_lock (TryAcquire you) s' = (s', False))
   \<and> (on_lock (TryAcquire me) s = (s', True) \<longrightarrow> polite_acquire you s' = (s', False)
        \<and> Held (Release (fst s')) = (False, []))"
  using polite.acquired [of me s s'] priority.acquired [of me s s'] trying.acquired [of me s s']
    priority.held_refused [of s' you] trying.held_refused [of s' you] polite.held_refused [of s' you]
    trying.release_frees [of me s s']
  by (auto simp: Held_def)

text \<open>The poller holds, an operator comes in.\<close>

lemma sample_bus:
  "\<exists>b :: bus. bus_reachable (\<lambda>i. if i = 0 then ''telemetry-poll'' else ''pairing'') b
     \<and> bus_pc b 0 = HoldingPolite 0 \<and> bus_pc b 1 = PWaiting"
proof -
  let ?n = "\<lambda>i :: nat. if i = 0 then ''telemetry-poll'' else ''pairing''"
  let ?l1 = "zero_lock\<lparr>lk_held := True, lk_owner := ?n 0, lk_yield := Some 0\<rparr>"
  let ?c1 = "\<lparr>ch_next = Suc 0, ch_closed = {}\<rparr>"
  let ?b1 = "bus_init\<lparr>bus_lock := ?l1, bus_chans := ?c1, bus_pc := (bus_pc bus_init)(0 := HoldingPolite 0)\<rparr>"
  have "bus_step ?n bus_init ?b1"
    by (rule polite_ok) (simp_all add: bus_init_def AcquirePolite_def zero_lock_def)
  then have r1: "bus_reachable ?n ?b1" by (rule bus_reachable.step [OF bus_reachable.init])
  have pe: "priority_enter (bus_lock ?b1, bus_chans ?b1)
      = Some (?l1\<lparr>lk_waiting := 1, lk_yield := None\<rparr>, ?c1\<lparr>ch_closed := {0}\<rparr>)"
    by (simp add: priority_enter_def close_chan_def zero_lock_def)
  have "bus_pc ?b1 1 = Idle" by (simp add: bus_init_def)
  note r2 = bus_reachable.step [OF r1 enter [OF this pe]]
  show ?thesis by (rule exI, rule conjI, rule r2) simp
qed

lemma bus_exclusive_witness:
  "\<exists>b :: bus. bus_pc b 0 = HoldingPolite 0 \<and> Held (bus_lock b) = (True, ''telemetry-poll'')"
proof -
  obtain b :: bus where b: "bus_reachable (\<lambda>i. if i = 0 then ''telemetry-poll'' else ''pairing'') b"
    "bus_pc b 0 = HoldingPolite 0" using sample_bus by blast
  then have "holds (bus_pc b 0)" by simp
  then show ?thesis using bus_exclusive [OF b(1), of 0] b(2) by auto
qed

lemma polite_revoked_witness:
  "\<exists>b :: bus. bus_pc b 0 = HoldingPolite 0 \<and> 0 \<in> ch_closed (bus_chans b)"
proof -
  obtain b :: bus where b: "bus_reachable (\<lambda>i. if i = 0 then ''telemetry-poll'' else ''pairing'') b"
    "bus_pc b 0 = HoldingPolite 0" "bus_pc b 1 = PWaiting" using sample_bus by blast
  then have "waits (bus_pc b 1)" by simp
  then show ?thesis using polite_revoked [OF b(1), of 1 0 0] b(2) by blast
qed

lemma idle_bus_is_free_witness:
  "\<exists>l ch c. AcquirePolite ''telemetry-poll'' (bus_lock bus_init, bus_chans bus_init) = ((l, ch), Some c)
    \<and> Held l = (True, ''telemetry-poll'') \<and> c \<notin> ch_closed ch"
  by (rule idle_bus_is_free [OF bus_reachable.init]) (simp add: bus_init_def)

lemma acquirers_exclude_witness:
  "polite_acquire ''b'' (zero_lock\<lparr>lk_held := True, lk_owner := ''a''\<rparr>, bus_chans bus_init)
     = ((zero_lock\<lparr>lk_held := True, lk_owner := ''a''\<rparr>, bus_chans bus_init), False)"
proof -
  have "on_lock (TryAcquire ''a'') (zero_lock, bus_chans bus_init)
      = ((zero_lock\<lparr>lk_held := True, lk_owner := ''a''\<rparr>, bus_chans bus_init), True)"
    by (simp add: on_lock_def TryAcquire_def zero_lock_def)
  then show ?thesis using acquirers_exclude [of "''a''"] by blast
qed

end
