(* ===== verification/BusTracker.thy ===== *)
theory BusTracker
  imports Frame
begin

text \<open>
  The bus tracker hook (\<open>internal/zigbee/proxy/poll.go\<close>): the queries outstanding per short
  address, the reassembly of the reply under way, and the decision which bytes the host sees.
  Each operation is one critical section of \<open>h.mu\<close>; the clock readings inside one are taken as
  one instant, in nanoseconds.  Handing a frame to \<open>RawReplySink\<close> is a returned value.
  The lemmas: the pending table refines a queue of live queries per address, a reply is
  reassembled to exactly the bytes between its start and its end marker, bytes are withheld from
  the host only for queries the gateway injected itself, and a failed injection leaves no trace.
\<close>

section \<open>State\<close>

record pendingEntry =
  pe_issuedAt :: int
  pe_deadline :: int
  pe_mine :: bool

record tracker =
  bt_ResponseTTL :: int
  bt_DroppingTimeout :: int
  bt_sink :: bool
  bt_pending :: "u16 \<rightharpoonup> pendingEntry list"
  bt_reassembling :: bool
  bt_mine :: bool
  bt_buf :: bytes
  bt_deadline :: int
  bt_inj :: bool

record ChunkAction =
  ca_Drop :: bool
  ca_Mine :: bool

datatype FrameDirection = DirToModem | DirToHost

definition no_action :: ChunkAction where
  "no_action = \<lparr>ca_Drop = False, ca_Mine = False\<rparr>"

definition act :: "bool \<Rightarrow> ChunkAction" where
  "act mine = \<lparr>ca_Drop = mine, ca_Mine = mine\<rparr>"

definition second :: int where "second = 1000000000"

definition NewBusTrackerHook :: "bool \<Rightarrow> tracker" where
  "NewBusTrackerHook sink =
     \<lparr>bt_ResponseTTL = 1500 * 1000000, bt_DroppingTimeout = 2 * second, bt_sink = sink,
      bt_pending = Map.empty, bt_reassembling = False, bt_mine = False, bt_buf = [],
      bt_deadline = 0, bt_inj = False\<rparr>"

text \<open>\<open>Start\<close> on a hook made by \<open>NewBusTrackerHook\<close>, whose map is never nil.\<close>

definition Start :: "tracker \<Rightarrow> tracker" where
  "Start h =
     h\<lparr>bt_ResponseTTL := (if bt_ResponseTTL h \<le> 0 then 1500 * 1000000 else bt_ResponseTTL h),
       bt_DroppingTimeout := (if bt_DroppingTimeout h \<le> 0 then 2 * second else bt_DroppingTimeout h),
       bt_inj := True\<rparr>"

section \<open>Pending queries\<close>

definition alive :: "int \<Rightarrow> pendingEntry \<Rightarrow> bool" where
  "alive now e \<longleftrightarrow> now < pe_deadline e"

definition gcExpiredLocked :: "int \<Rightarrow> tracker \<Rightarrow> tracker" where
  "gcExpiredLocked now h =
     h\<lparr>bt_pending := (\<lambda>sa. case bt_pending h sa of
          None \<Rightarrow> None
        | Some es \<Rightarrow> let kept = filter (alive now) es in if kept = [] then None else Some kept)\<rparr>"

text \<open>A lookup of a missing key gives the nil slice.\<close>

definition queue_of :: "tracker \<Rightarrow> u16 \<Rightarrow> pendingEntry list" where
  "queue_of h sa = (case bt_pending h sa of None \<Rightarrow> [] | Some es \<Rightarrow> es)"

definition new_entry :: "int \<Rightarrow> bool \<Rightarrow> tracker \<Rightarrow> pendingEntry" where
  "new_entry now mine h =
     \<lparr>pe_issuedAt = now, pe_deadline = now + bt_ResponseTTL h, pe_mine = mine\<rparr>"

definition append_pending :: "int \<Rightarrow> u16 \<Rightarrow> bool \<Rightarrow> tracker \<Rightarrow> tracker" where
  "append_pending now sa mine h =
     h\<lparr>bt_pending := (bt_pending h)(sa \<mapsto> queue_of h sa @ [new_entry now mine h])\<rparr>"

definition markPending :: "int \<Rightarrow> u16 \<Rightarrow> bool \<Rightarrow> tracker \<Rightarrow> tracker" where
  "markPending now sa mine h = append_pending now sa mine (gcExpiredLocked now h)"

text \<open>The loop runs from the newest entry down and removes the first it finds to be ours.\<close>

fun remove_last_mine :: "pendingEntry list \<Rightarrow> pendingEntry list option" where
  "remove_last_mine [] = None"
| "remove_last_mine (e # es) =
     (case remove_last_mine es of
        Some es' \<Rightarrow> Some (e # es')
      | None \<Rightarrow> if pe_mine e then Some es else None)"

definition popMinePending :: "u16 \<Rightarrow> tracker \<Rightarrow> tracker" where
  "popMinePending sa h =
     (case remove_last_mine (queue_of h sa) of
        None \<Rightarrow> h
      | Some es \<Rightarrow> h\<lparr>bt_pending := (bt_pending h)(sa \<mapsto> es)\<rparr>)"

definition popOldestForLocked :: "u16 \<Rightarrow> tracker \<Rightarrow> tracker \<times> pendingEntry option" where
  "popOldestForLocked sa h =
     (case queue_of h sa of
        [] \<Rightarrow> (h, None)
      | [e] \<Rightarrow> (h\<lparr>bt_pending := (bt_pending h)(sa := None)\<rparr>, Some e)
      | e # es \<Rightarrow> (h\<lparr>bt_pending := (bt_pending h)(sa \<mapsto> es)\<rparr>, Some e))"

section \<open>Frame shapes\<close>

definition isL1SOF :: "bytes \<Rightarrow> bool" where
  "isL1SOF raw \<longleftrightarrow> length raw \<ge> 4 \<and> raw ! 0 = L1ReplySOF \<and> raw ! 1 = L1ReplySOF"

definition endsWithFEFE :: "bytes \<Rightarrow> bool" where
  "endsWithFEFE b \<longleftrightarrow> length b \<ge> 2 \<and> b ! (length b - 2) = L2EOF \<and> b ! (length b - 1) = L2EOF"

definition IsOutboundInverterCmdPrefix :: "bytes \<Rightarrow> bool" where
  "IsOutboundInverterCmdPrefix raw =
     (if length raw < 7 then False
      else if raw ! 0 \<noteq> L1Preamble \<or> raw ! 1 \<noteq> L1Preamble \<or> raw ! 2 \<noteq> L1Preamble \<or> raw ! 3 \<noteq> L1Preamble
        then False
      else raw ! 4 = L1Sentinel)"

definition parseOutboundQuerySA :: "bytes \<Rightarrow> u16 option" where
  "parseOutboundQuerySA raw =
     (if \<not> IsOutboundInverterCmdPrefix raw then None else Some (u16_of (raw ! 5) (raw ! 6)))"

section \<open>Chunks\<close>

definition clear_reassembly :: "tracker \<Rightarrow> tracker" where
  "clear_reassembly h = h\<lparr>bt_reassembling := False, bt_buf := []\<rparr>"

definition dispatchReplyLocked :: "tracker \<Rightarrow> tracker \<times> (u16 \<times> bytes) option" where
  "dispatchReplyLocked h =
     (clear_reassembly h,
      if length (bt_buf h) < 4 then None
      else if \<not> bt_sink h then None
      else Some (u16_of (bt_buf h ! 2) (bt_buf h ! 3), bt_buf h))"

definition startReassemblyLocked ::
  "int \<Rightarrow> bytes \<Rightarrow> tracker \<Rightarrow> tracker \<times> ChunkAction \<times> (u16 \<times> bytes) option" where
  "startReassemblyLocked now raw h0 =
     (let h1 = gcExpiredLocked now h0;
          (h2, entry) = popOldestForLocked (u16_of (raw ! 2) (raw ! 3)) h1;
          mine = (case entry of None \<Rightarrow> False | Some e \<Rightarrow> pe_mine e);
          h3 = h2\<lparr>bt_reassembling := True, bt_mine := mine, bt_buf := raw,
                  bt_deadline := now + bt_DroppingTimeout h2\<rparr>
      in if endsWithFEFE raw
         then (case dispatchReplyLocked h3 of (h4, out) \<Rightarrow> (h4, act mine, out))
         else (h3, act mine, None))"

definition OnChunk ::
  "int \<Rightarrow> FrameDirection \<Rightarrow> bytes \<Rightarrow> tracker \<Rightarrow> tracker \<times> ChunkAction \<times> (u16 \<times> bytes) option" where
  "OnChunk now dir raw h =
     (if dir = DirToModem then
        (case parseOutboundQuerySA raw of
           None \<Rightarrow> (h, no_action, None)
         | Some sa \<Rightarrow> (append_pending now sa False (gcExpiredLocked now h), no_action, None))
      else if isL1SOF raw then startReassemblyLocked now raw h
      else if bt_reassembling h then
        (if bt_deadline h < now then (clear_reassembly h, act (bt_mine h), None)
         else let h1 = h\<lparr>bt_buf := bt_buf h @ raw\<rparr>
              in if endsWithFEFE raw
                 then (case dispatchReplyLocked h1 of (h2, out) \<Rightarrow> (h2, act (bt_mine h), out))
                 else (h1, act (bt_mine h), None))
      else (h, no_action, None))"

section \<open>Injection\<close>

datatype inject_error = ErrNotInverterCmd | ErrNoInjector | ErrInject

text \<open>
  \<open>InjectTracked\<close> writes to the modem between two critical sections; \<open>between\<close> is what the
  other threads do to the hook meanwhile, \<open>ok\<close> whether the write succeeds.
\<close>

definition InjectTracked ::
  "int \<Rightarrow> bool \<Rightarrow> (tracker \<Rightarrow> tracker) \<Rightarrow> bytes \<Rightarrow> tracker \<Rightarrow> tracker \<times> inject_error option" where
  "InjectTracked now ok between frame h =
     (case parseOutboundQuerySA frame of
        None \<Rightarrow> (h, Some ErrNotInverterCmd)
      | Some sa \<Rightarrow>
          if \<not> bt_inj h then (h, Some ErrNoInjector)
          else let broadcast = (sa = 0);
                   h1 = (if \<not> broadcast then markPending now sa True h else h);
                   h2 = between h1
               in if ok then (h2, None)
                  else ((if \<not> broadcast then popMinePending sa h2 else h2), Some ErrInject))"

section \<open>The table refines a queue of live queries\<close>

text \<open>The abstract state at an instant: per address, whose the unexpired queries are, oldest first.\<close>

definition live :: "int \<Rightarrow> tracker \<Rightarrow> u16 \<Rightarrow> bool list" where
  "live now h sa = map pe_mine (filter (alive now) (queue_of h sa))"

lemma queue_of_gc: "queue_of (gcExpiredLocked now h) sa = filter (alive now) (queue_of h sa)"
  by (auto simp: queue_of_def gcExpiredLocked_def Let_def split: option.splits)

lemma queue_of_append:
  "queue_of (append_pending now sa mine h) sb
     = (if sb = sa then queue_of h sa @ [new_entry now mine h] else queue_of h sb)"
  by (simp add: queue_of_def append_pending_def)

lemma gc_fields [simp]:
  "bt_ResponseTTL (gcExpiredLocked now h) = bt_ResponseTTL h"
  "bt_DroppingTimeout (gcExpiredLocked now h) = bt_DroppingTimeout h"
  "bt_sink (gcExpiredLocked now h) = bt_sink h" "bt_inj (gcExpiredLocked now h) = bt_inj h"
  "bt_reassembling (gcExpiredLocked now h) = bt_reassembling h"
  "bt_mine (gcExpiredLocked now h) = bt_mine h" "bt_buf (gcExpiredLocked now h) = bt_buf h"
  "bt_deadline (gcExpiredLocked now h) = bt_deadline h"
  by (simp_all add: gcExpiredLocked_def)

lemma append_fields [simp]:
  "bt_reassembling (append_pending now sa mine h) = bt_reassembling h"
  "bt_mine (append_pending now sa mine h) = bt_mine h"
  by (simp_all add: append_pending_def)

lemma pop_fields:
  assumes "popOldestForLocked sa h = (h', e)"
  shows "bt_ResponseTTL h' = bt_ResponseTTL h" "bt_DroppingTimeout h' = bt_DroppingTimeout h"
    "bt_sink h' = bt_sink h" "bt_inj h' = bt_inj h"
  using assms by (auto simp: popOldestForLocked_def split: list.splits)

lemma popOldest_spec:
  "popOldestForLocked sa h = (h', e) \<Longrightarrow>
     e = (case queue_of h sa of [] \<Rightarrow> None | x # _ \<Rightarrow> Some x)
     \<and> queue_of h' sb = (if sb = sa then tl (queue_of h sa) else queue_of h sb)"
  by (auto simp: popOldestForLocked_def queue_of_def split: list.splits option.splits if_splits)

text \<open>What one chunk does to the abstract state, and whose reply its first bytes are.\<close>

definition spec_pop :: "u16 \<Rightarrow> (u16 \<Rightarrow> bool list) \<Rightarrow> (u16 \<Rightarrow> bool list) \<times> bool" where
  "spec_pop sa q = (q(sa := tl (q sa)), (case q sa of [] \<Rightarrow> False | m # _ \<Rightarrow> m))"

definition spec_chunk :: "FrameDirection \<Rightarrow> bytes \<Rightarrow> (u16 \<Rightarrow> bool list) \<Rightarrow> (u16 \<Rightarrow> bool list)" where
  "spec_chunk dir raw q =
     (if dir = DirToModem
      then (case parseOutboundQuerySA raw of None \<Rightarrow> q | Some sa \<Rightarrow> q(sa := q sa @ [False]))
      else if isL1SOF raw then fst (spec_pop (u16_of (raw ! 2) (raw ! 3)) q) else q)"

lemma live_gc: "live now (gcExpiredLocked now h) = live now h"
  by (simp add: live_def queue_of_gc fun_eq_iff)

lemma live_append:
  assumes "0 < bt_ResponseTTL h"
  shows "live now (append_pending now sa mine h) = (live now h)(sa := live now h sa @ [mine])"
  using assms by (auto simp: live_def queue_of_append alive_def new_entry_def fun_eq_iff)

lemma live_cong: "bt_pending h' = bt_pending h \<Longrightarrow> live now h' = live now h"
  by (simp add: live_def queue_of_def fun_eq_iff)

lemma filter_tl_filter: "filter P (tl (filter P es)) = tl (filter P es)"
proof (cases "filter P es")
  case (Cons x xs)
  have "\<forall>y \<in> set (filter P es). P y" by simp
  then have "\<forall>y \<in> set xs. P y" unfolding Cons by simp
  then show ?thesis unfolding Cons by simp
qed simp

lemma live_pop:
  assumes "popOldestForLocked sa (gcExpiredLocked now h) = (h', e)"
  shows "(live now h', case e of None \<Rightarrow> False | Some x \<Rightarrow> pe_mine x) = spec_pop sa (live now h)"
proof -
  let ?q = "filter (alive now) (queue_of h sa)"
  have e: "e = (case ?q of [] \<Rightarrow> None | x # _ \<Rightarrow> Some x)"
    and q: "queue_of h' sb = (if sb = sa then tl ?q else filter (alive now) (queue_of h sb))" for sb
    using popOldest_spec [OF assms, of sb] unfolding queue_of_gc by blast+
  have "live now h' = (live now h)(sa := tl (live now h sa))"
    by (simp add: live_def q fun_eq_iff filter_tl_filter map_tl)
  moreover have "(case e of None \<Rightarrow> False | Some x \<Rightarrow> pe_mine x) = (case live now h sa of [] \<Rightarrow> False | m # _ \<Rightarrow> m)"
    unfolding e live_def by (cases ?q) simp_all
  ultimately show ?thesis by (simp add: spec_pop_def)
qed

lemma live_mark:
  assumes "0 < bt_ResponseTTL h"
  shows "live now (markPending now sa mine h) = (live now h)(sa := live now h sa @ [mine])"
  unfolding markPending_def using live_append [of "gcExpiredLocked now h"] assms by (simp add: live_gc)

lemma dispatch_pending: "bt_pending (fst (dispatchReplyLocked h)) = bt_pending h"
  by (simp add: dispatchReplyLocked_def clear_reassembly_def)

lemma startReassembly_refines:
  assumes "startReassemblyLocked now raw h = (h', a, out)"
  shows "(live now h', ca_Drop a) = spec_pop (u16_of (raw ! 2) (raw ! 3)) (live now h)"
proof -
  obtain h2 e where p: "popOldestForLocked (u16_of (raw ! 2) (raw ! 3)) (gcExpiredLocked now h) = (h2, e)"
    by fastforce
  have "bt_pending h' = bt_pending h2 \<and> ca_Drop a = (case e of None \<Rightarrow> False | Some x \<Rightarrow> pe_mine x)"
  proof (cases "endsWithFEFE raw")
    case True
    then show ?thesis using assms unfolding startReassemblyLocked_def Let_def p
      by (simp add: act_def dispatchReplyLocked_def clear_reassembly_def) auto
  next
    case False
    then show ?thesis using assms unfolding startReassemblyLocked_def Let_def p
      by (simp add: act_def) auto
  qed
  then show ?thesis using live_pop [OF p] live_cong [of h' h2] by simp
qed

lemma OnChunk_other:
  assumes "OnChunk now DirToHost raw h = (h', a, out)" and "\<not> isL1SOF raw"
  shows "bt_pending h' = bt_pending h \<and> bt_mine h' = bt_mine h \<and> (bt_reassembling h' \<longrightarrow> bt_reassembling h)
    \<and> a = (if bt_reassembling h then act (bt_mine h) else no_action)"
proof (cases "bt_reassembling h \<and> \<not> bt_deadline h < now")
  case True
  then show ?thesis using assms
    by (cases "endsWithFEFE raw") (auto simp: OnChunk_def Let_def dispatchReplyLocked_def clear_reassembly_def)
next
  case False
  then show ?thesis using assms
    by (cases "bt_reassembling h") (auto simp: OnChunk_def clear_reassembly_def)
qed

lemma OnChunk_out:
  assumes "OnChunk now DirToModem raw h = (h', a, out)"
  shows "a = no_action \<and> h' = (case parseOutboundQuerySA raw of None \<Rightarrow> h
    | Some sa \<Rightarrow> append_pending now sa False (gcExpiredLocked now h))"
  using assms by (cases "parseOutboundQuerySA raw") (simp_all add: OnChunk_def)

text \<open>
  C2: the pending table, its garbage collection included, refines one queue of live queries per
  address: a host query is appended, a reply takes the oldest, the bytes of a reply are withheld
  from the host exactly when that oldest query was injected, and other chunks change nothing.
\<close>

theorem tracker_refines_queue:
  assumes "OnChunk now dir raw h = (h', a, out)" and "0 < bt_ResponseTTL h"
  shows "live now h' = spec_chunk dir raw (live now h)
    \<and> (dir = DirToHost \<and> isL1SOF raw \<longrightarrow>
        ca_Drop a = snd (spec_pop (u16_of (raw ! 2) (raw ! 3)) (live now h)))
    \<and> live now (markPending now sa mine h) = (live now h)(sa := live now h sa @ [mine])"
proof (intro conjI impI)
  show "live now (markPending now sa mine h) = (live now h)(sa := live now h sa @ [mine])"
    by (rule live_mark [OF assms(2)])
  show "ca_Drop a = snd (spec_pop (u16_of (raw ! 2) (raw ! 3)) (live now h))"
    if "dir = DirToHost \<and> isL1SOF raw"
  proof -
    have "startReassemblyLocked now raw h = (h', a, out)" using assms(1) that by (simp add: OnChunk_def)
    from arg_cong [OF startReassembly_refines [OF this], of snd] show ?thesis unfolding snd_conv .
  qed
  consider (out) "dir = DirToModem" | (sof) "dir = DirToHost" "isL1SOF raw"
    | (other) "dir = DirToHost" "\<not> isL1SOF raw" by (cases dir) auto
  then show "live now h' = spec_chunk dir raw (live now h)"
  proof cases
    case out
    then have "h' = (case parseOutboundQuerySA raw of None \<Rightarrow> h
        | Some sa \<Rightarrow> append_pending now sa False (gcExpiredLocked now h))"
      using OnChunk_out assms(1) by blast
    then show ?thesis using out assms(2) live_append [of "gcExpiredLocked now h"]
      by (simp add: spec_chunk_def live_gc split: option.split)
  next
    case sof
    then have "startReassemblyLocked now raw h = (h', a, out)" using assms(1) by (simp add: OnChunk_def)
    from arg_cong [OF startReassembly_refines [OF this], of fst]
    have "live now h' = fst (spec_pop (u16_of (raw ! 2) (raw ! 3)) (live now h))" unfolding fst_conv .
    then show ?thesis using sof by (simp add: spec_chunk_def)
  next
    case other
    then have "bt_pending h' = bt_pending h" using OnChunk_other assms(1) by blast
    from live_cong [OF this] show ?thesis using other by (simp add: spec_chunk_def)
  qed
qed

lemma tracker_refines_queue_witness:
  "live 5 (fst (OnChunk 5 DirToModem [0xAA, 0xAA, 0xAA, 0xAA, 0x55, 0x12, 0x34] (NewBusTrackerHook True))) 0x1234
     = [False]"
proof -
  obtain h' a out where o: "OnChunk 5 DirToModem [0xAA, 0xAA, 0xAA, 0xAA, 0x55, 0x12, 0x34] (NewBusTrackerHook True)
      = (h', a, out)" by (metis prod.collapse)
  have "0 < bt_ResponseTTL (NewBusTrackerHook True)" by (simp add: NewBusTrackerHook_def)
  from tracker_refines_queue [OF o this] show ?thesis unfolding o
    by (simp add: spec_chunk_def parseOutboundQuerySA_def IsOutboundInverterCmdPrefix_def codec_consts
        u16_of_def live_def queue_of_def NewBusTrackerHook_def)
qed

section \<open>Reassembly\<close>

text \<open>A stream of chunks with the time of each: the actions, and the frames handed on, in order.\<close>

fun feed ::
  "(int \<times> FrameDirection \<times> bytes) list \<Rightarrow> tracker \<Rightarrow> tracker \<times> ChunkAction list \<times> (u16 \<times> bytes) list" where
  "feed [] h = (h, [], [])"
| "feed ((now, dir, raw) # cs) h =
     (case OnChunk now dir raw h of
        (h1, a, out) \<Rightarrow>
          (case feed cs h1 of
             (h2, actions, outs) \<Rightarrow> (h2, a # actions, (case out of None \<Rightarrow> outs | Some f \<Rightarrow> f # outs))))"

definition continuation :: "int \<Rightarrow> int \<times> FrameDirection \<times> bytes \<Rightarrow> bool" where
  "continuation limit c \<longleftrightarrow>
     (case c of (now, dir, raw) \<Rightarrow> now \<le> limit \<and> dir = DirToHost \<and> \<not> isL1SOF raw \<and> \<not> endsWithFEFE raw)"

lemma feed_continuations:
  assumes "bt_reassembling h" and "list_all (continuation (bt_deadline h)) mids"
    and "t \<le> bt_deadline h" and "\<not> isL1SOF e" and "endsWithFEFE e"
    and "4 \<le> length (bt_buf h)" and "bt_sink h"
  shows "\<exists>h'. feed (mids @ [(t, DirToHost, e)]) h
      = (h', replicate (Suc (length mids)) (act (bt_mine h)),
         [(u16_of (bt_buf h ! 2) (bt_buf h ! 3), bt_buf h @ concat (map (\<lambda>c. snd (snd c)) mids) @ e)])
    \<and> \<not> bt_reassembling h'"
  using assms
proof (induction mids arbitrary: h)
  case Nil
  then have "OnChunk t DirToHost e h
      = (case dispatchReplyLocked (h\<lparr>bt_buf := bt_buf h @ e\<rparr>) of (h2, out) \<Rightarrow> (h2, act (bt_mine h), out))"
    by (simp add: OnChunk_def)
  then show ?case using Nil.prems(6,7)
    by (simp add: dispatchReplyLocked_def clear_reassembly_def nth_append)
next
  case (Cons c mids)
  obtain now dir raw where c: "c = (now, dir, raw)" by (cases c)
  let ?h = "h\<lparr>bt_buf := bt_buf h @ raw\<rparr>"
  have "OnChunk now dir raw h = (?h, act (bt_mine h), None)"
    using Cons.prems(1,2) by (simp add: c OnChunk_def continuation_def)
  moreover have "\<exists>h'. feed (mids @ [(t, DirToHost, e)]) ?h
      = (h', replicate (Suc (length mids)) (act (bt_mine ?h)),
         [(u16_of (bt_buf ?h ! 2) (bt_buf ?h ! 3), bt_buf ?h @ concat (map (\<lambda>c. snd (snd c)) mids) @ e)])
    \<and> \<not> bt_reassembling h'"
    using Cons.prems by (intro Cons.IH) simp_all
  ultimately show ?case using Cons.prems(6) by (auto simp: c nth_append)
qed

text \<open>
  A reply that arrives in pieces before the deadline is handed on once, whole, under the
  address in its header, and all its pieces are kept from the host or all are passed on.
\<close>

theorem reply_reassembled:
  assumes "isL1SOF c0" and "\<not> endsWithFEFE c0" and "bt_sink h"
    and "list_all (continuation (t0 + bt_DroppingTimeout h)) mids"
    and "t \<le> t0 + bt_DroppingTimeout h" and "\<not> isL1SOF e" and "endsWithFEFE e"
  shows "\<exists>h'. feed ((t0, DirToHost, c0) # mids @ [(t, DirToHost, e)]) h
      = (h', replicate (length mids + 2) (act (snd (spec_pop (u16_of (c0 ! 2) (c0 ! 3)) (live t0 h)))),
         [(u16_of (c0 ! 2) (c0 ! 3), c0 @ concat (map (\<lambda>c. snd (snd c)) mids) @ e)])
    \<and> \<not> bt_reassembling h'"
proof -
  obtain h2 entry where p: "popOldestForLocked (u16_of (c0 ! 2) (c0 ! 3)) (gcExpiredLocked t0 h) = (h2, entry)"
    by fastforce
  define mine where "mine = (case entry of None \<Rightarrow> False | Some e \<Rightarrow> pe_mine e)"
  define h3 where "h3 = h2\<lparr>bt_reassembling := True, bt_mine := mine, bt_buf := c0,
      bt_deadline := t0 + bt_DroppingTimeout h2\<rparr>"
  have o: "OnChunk t0 DirToHost c0 h = (h3, act mine, None)"
    using assms(1,2) p by (simp add: OnChunk_def startReassemblyLocked_def Let_def mine_def h3_def)
  have m: "mine = snd (spec_pop (u16_of (c0 ! 2) (c0 ! 3)) (live t0 h))"
    using live_pop [OF p] by (simp add: mine_def prod_eq_iff)
  have d: "bt_deadline h3 = t0 + bt_DroppingTimeout h" and s: "bt_sink h3 = bt_sink h"
    using pop_fields [OF p] by (simp_all add: h3_def)
  have "\<exists>h'. feed (mids @ [(t, DirToHost, e)]) h3
      = (h', replicate (Suc (length mids)) (act (bt_mine h3)),
         [(u16_of (bt_buf h3 ! 2) (bt_buf h3 ! 3), bt_buf h3 @ concat (map (\<lambda>c. snd (snd c)) mids) @ e)])
    \<and> \<not> bt_reassembling h'"
    using assms(3-7) d s assms(1)
    by (intro feed_continuations) (simp_all add: h3_def isL1SOF_def)
  then show ?thesis using o by (auto simp: h3_def m)
qed

lemma reply_reassembled_witness:
  "\<exists>h'. feed [(0, DirToHost, [0xFC, 0xFC, 0x12, 0x34, 1]), (9, DirToHost, [2, 3]), (10, DirToHost, [0xFE, 0xFE])]
       (NewBusTrackerHook True)
     = (h', [no_action, no_action, no_action], [(0x1234, [0xFC, 0xFC, 0x12, 0x34, 1, 2, 3, 0xFE, 0xFE])])"
proof -
  let ?h = "NewBusTrackerHook True" and ?c = "[0xFC, 0xFC, 0x12, 0x34, 1] :: bytes"
  have m: "snd (spec_pop (u16_of (?c ! 2) (?c ! 3)) (live 0 ?h)) = False"
    by (simp add: spec_pop_def live_def queue_of_def NewBusTrackerHook_def)
  have u: "u16_of (?c ! 2) (?c ! 3) = 0x1234" by (simp add: u16_of_def)
  have "\<exists>h'. feed ((0, DirToHost, ?c) # [(9, DirToHost, [2, 3])] @ [(10, DirToHost, [0xFE, 0xFE])]) ?h
      = (h', replicate (length [(9 :: int, DirToHost, [2, 3 :: byte])] + 2) (act False),
         [(0x1234, ?c @ concat (map (\<lambda>c. snd (snd c)) [(9 :: int, DirToHost, [2, 3 :: byte])]) @ [0xFE, 0xFE])])
      \<and> \<not> bt_reassembling h'"
    unfolding m [symmetric] u [symmetric]
    by (rule reply_reassembled)
      (simp_all add: isL1SOF_def endsWithFEFE_def continuation_def NewBusTrackerHook_def codec_consts second_def)
  moreover have "replicate (length [(9 :: int, DirToHost, [2, 3 :: byte])] + 2) (act False)
      = [no_action, no_action, no_action]" by (simp add: act_def no_action_def numeral_eq_Suc)
  ultimately show ?thesis by auto
qed

section \<open>The host sees everything that is not ours\<close>

definition no_mine :: "tracker \<Rightarrow> bool" where
  "no_mine h \<longleftrightarrow> (\<forall>sa. \<forall>e \<in> set (queue_of h sa). \<not> pe_mine e) \<and> (bt_reassembling h \<longrightarrow> \<not> bt_mine h)"

lemma no_mine_step:
  assumes "OnChunk now dir raw h = (h', a, out)" and "no_mine h"
  shows "no_mine h' \<and> \<not> ca_Drop a"
proof -
  have gc: "\<forall>sa. \<forall>e \<in> set (queue_of (gcExpiredLocked now h) sa). \<not> pe_mine e"
    using assms(2) by (auto simp: no_mine_def queue_of_gc)
  consider (out) "dir = DirToModem" | (sof) "dir = DirToHost" "isL1SOF raw"
    | (other) "dir = DirToHost" "\<not> isL1SOF raw" by (cases dir) auto
  then show ?thesis
  proof cases
    case out
    then have "a = no_action" "h' = (case parseOutboundQuerySA raw of None \<Rightarrow> h
        | Some sa \<Rightarrow> append_pending now sa False (gcExpiredLocked now h))"
      using OnChunk_out assms(1) by blast+
    then show ?thesis using assms(2) gc
      by (cases "parseOutboundQuerySA raw")
        (simp_all add: no_mine_def queue_of_append new_entry_def no_action_def)
  next
    case sof
    obtain h2 e where p: "popOldestForLocked (u16_of (raw ! 2) (raw ! 3)) (gcExpiredLocked now h) = (h2, e)"
      by fastforce
    have tl: "set (tl xs) \<subseteq> set xs" for xs :: "pendingEntry list" by (cases xs) auto
    have q: "\<forall>sa. \<forall>x \<in> set (queue_of h2 sa). \<not> pe_mine x"
    proof (intro allI ballI)
      fix sa x assume "x \<in> set (queue_of h2 sa)"
      then have "x \<in> set (queue_of (gcExpiredLocked now h) sa)"
        using popOldest_spec [OF p, of sa] tl by (auto split: if_splits)
      then show "\<not> pe_mine x" using gc by blast
    qed
    have e: "\<not> (case e of None \<Rightarrow> False | Some x \<Rightarrow> pe_mine x)"
      using popOldest_spec [OF p] gc
      by (cases "queue_of (gcExpiredLocked now h) (u16_of (raw ! 2) (raw ! 3))")
        (auto dest: spec [of _ "u16_of (raw ! 2) (raw ! 3)"])
    have s: "startReassemblyLocked now raw h = (h', a, out)" using sof assms(1) by (simp add: OnChunk_def)
    have "bt_pending h' = bt_pending h2 \<and> \<not> ca_Drop a \<and> (bt_reassembling h' \<longrightarrow> \<not> bt_mine h')"
      using s e unfolding startReassemblyLocked_def Let_def p
      by (cases "endsWithFEFE raw") (auto simp: act_def dispatchReplyLocked_def clear_reassembly_def)
    then show ?thesis using q by (simp add: no_mine_def queue_of_def)
  next
    case other
    then show ?thesis using OnChunk_other [of now raw h h' a out] assms
      by (auto simp: no_mine_def queue_of_def act_def no_action_def)
  qed
qed

text \<open>
  With no injection under way the hook is transparent: whatever chunks pass in either
  direction, and however they are cut, none is kept from the host.
\<close>

theorem host_traffic_untouched:
  assumes "no_mine h" and "feed cs h = (h', actions, outs)"
  shows "no_mine h' \<and> (\<forall>a \<in> set actions. \<not> ca_Drop a)"
  using assms
proof (induction cs arbitrary: h h' actions outs)
  case (Cons c cs)
  obtain now dir raw where c: "c = (now, dir, raw)" by (cases c)
  obtain h1 a out where o: "OnChunk now dir raw h = (h1, a, out)" by (metis prod.collapse)
  obtain h2 as os where f: "feed cs h1 = (h2, as, os)" by (metis prod.collapse)
  have "no_mine h1" "\<not> ca_Drop a" using no_mine_step [OF o Cons.prems(1)] by auto
  then show ?case using Cons.IH [OF _ f] Cons.prems(2) by (auto simp: c o f)
qed simp

lemma host_traffic_untouched_witness:
  "filter ca_Drop (fst (snd (feed [(0, DirToModem, [0xAA, 0xAA, 0xAA, 0xAA, 0x55, 0, 1]),
      (1, DirToHost, [0xFC, 0xFC, 0, 1, 0xFE, 0xFE])] (NewBusTrackerHook True)))) = []"
proof -
  have "no_mine (NewBusTrackerHook True)" by (simp add: no_mine_def NewBusTrackerHook_def queue_of_def)
  then show ?thesis using host_traffic_untouched prod.collapse by (metis filter_False)
qed

section \<open>Failed injections\<close>

lemma remove_last_mine_append:
  "\<forall>e \<in> set ys. \<not> pe_mine e \<Longrightarrow> pe_mine x \<Longrightarrow> remove_last_mine (xs @ x # ys) = Some (xs @ ys)"
proof (induction xs)
  case Nil
  have "remove_last_mine ys = None" using Nil.prems(1) by (induction ys) simp_all
  then show ?case using Nil.prems(2) by simp
qed simp

text \<open>
  When the write to the modem fails, the query just recorded is taken back, even when host
  queries for the same address came in between, and every other queue is as it was.
\<close>

theorem failed_injection_undone:
  assumes "parseOutboundQuerySA frame = Some sa" and "sa \<noteq> 0" and "bt_inj h"
    and "\<And>sb. queue_of (between (markPending now sa True h)) sb
      = queue_of (markPending now sa True h) sb @ host sb"
    and "\<forall>e \<in> set (host sa). \<not> pe_mine e"
    and "InjectTracked now False between frame h = (h', err)"
  shows "err = Some ErrInject \<and> queue_of h' sb = filter (alive now) (queue_of h sb) @ host sb"
proof -
  let ?h1 = "markPending now sa True h"
  have q: "queue_of (between ?h1) sa
      = filter (alive now) (queue_of h sa) @ new_entry now True (gcExpiredLocked now h) # host sa"
    using assms(4) [of sa] by (simp add: markPending_def queue_of_append queue_of_gc)
  have "remove_last_mine (queue_of (between ?h1) sa)
      = Some (filter (alive now) (queue_of h sa) @ host sa)"
    unfolding q using assms(5) by (intro remove_last_mine_append) (simp_all add: new_entry_def)
  then have h': "err = Some ErrInject"
    "h' = (between ?h1)\<lparr>bt_pending := (bt_pending (between ?h1))(sa \<mapsto> filter (alive now) (queue_of h sa) @ host sa)\<rparr>"
    using assms(1-3,6) by (simp_all add: InjectTracked_def Let_def popMinePending_def)
  have "queue_of h' sb = (if sb = sa then filter (alive now) (queue_of h sa) @ host sa
      else queue_of (between ?h1) sb)" by (simp add: h'(2) queue_of_def)
  then show ?thesis using h'(1) assms(4) [of sb]
    by (simp add: markPending_def queue_of_append queue_of_gc)
qed

lemma failed_injection_undone_witness:
  "queue_of (fst (InjectTracked 7 False id [0xAA, 0xAA, 0xAA, 0xAA, 0x55, 0x12, 0x34]
     (Start (NewBusTrackerHook True)))) 0x1234 = []"
proof -
  let ?h = "Start (NewBusTrackerHook True)" and ?f = "[0xAA, 0xAA, 0xAA, 0xAA, 0x55, 0x12, 0x34] :: bytes"
  have p: "parseOutboundQuerySA ?f = Some 0x1234"
    by (simp add: parseOutboundQuerySA_def IsOutboundInverterCmdPrefix_def codec_consts u16_of_def)
  obtain h' err where i: "InjectTracked 7 False id ?f ?h = (h', err)" by fastforce
  have "queue_of h' 0x1234 = filter (alive 7) (queue_of ?h 0x1234) @ []"
    using failed_injection_undone [OF p _ _ _ _ i, where host = "\<lambda>_. []"] by (simp add: Start_def)
  then show ?thesis unfolding i fst_conv by (simp add: queue_of_def Start_def NewBusTrackerHook_def)
qed

end
