(* ===== verification/PairExec.thy ===== *)
theory PairExec
  imports ModemFrames
begin

text \<open>
  The gateway's half of over-the-air pairing: the runner that exchanges frames with the radio
  module (\<open>internal/zigbee/modem/pairing_runner_linux.go\<close>), the adapter that owns the operating
  PAN and channel (\<open>cmd/ecu-zb/pairing.go\<close>) and the handler of the driver's pairing commands
  (\<open>internal/zigbee/busmgr/pairing.go\<close>).
  The module is a parameter: for the n-th frame the runner tries to write, \<open>modem n\<close> is None when
  the write fails, and else the chunks that arrive before the primitive's deadline, grouped by the
  idle gaps between them.  Settling times and sleeps carry no state and are left out.
  The lemmas: an acknowledgement is found however it is cut into chunks, a scan reports each
  announcement once, and the operating PAN follows exactly the successful real sets.
\<close>

section \<open>Reading replies\<close>

type_synonym chunks = "bytes list"
type_synonym modem = "nat \<Rightarrow> chunks list option"

fun awaitAckChan :: "bytes \<Rightarrow> chunks \<Rightarrow> bytes option" where
  "awaitAckChan acc [] = None"
| "awaitAckChan acc (chunk # cs) =
     (let acc' = acc @ chunk
      in case findAck acc' of
           Some i \<Rightarrow> Some (take ackLen (drop i acc'))
         | None \<Rightarrow>
             awaitAckChan (if length acc' > 256 then drop (length acc' - ackLen) acc' else acc') cs)"

text \<open>The next frame (and whether it is marked encrypted), and the groups still to come.\<close>

fun readFrameChan :: "chunks list \<Rightarrow> (bytes \<times> bool) option \<times> chunks list" where
  "readFrameChan [] = (None, [])"
| "readFrameChan (g # gs) =
     (let acc = concat g
      in if acc = [] then readFrameChan gs else (Some (acc, isEncryptedFrame acc), gs))"

section \<open>The runner\<close>

datatype exec_error =
    ErrWrite | ErrNoAck | ErrSerial | ErrReply | ErrChannel | ErrNoExecutor | ErrUnknownOp

text \<open>How many frames were tried, and the frames on the wire, oldest first.\<close>

record runner =
  rn_tried :: nat
  rn_wire :: "bytes list"

definition writeFrame :: "modem \<Rightarrow> bytes \<Rightarrow> runner \<Rightarrow> runner \<times> chunks list option" where
  "writeFrame modem frame r =
     (let r' = r\<lparr>rn_tried := rn_tried r + 1\<rparr>
      in case modem (rn_tried r) of
           None \<Rightarrow> (r', None)
         | Some gs \<Rightarrow> (r'\<lparr>rn_wire := rn_wire r @ [frame]\<rparr>, Some gs))"

definition rn_Ping :: "modem \<Rightarrow> runner \<Rightarrow> runner \<times> (exec_error + bool)" where
  "rn_Ping modem r =
     (case writeFrame modem buildPing r of
        (r', None) \<Rightarrow> (r', Inl ErrWrite)
      | (r', Some gs) \<Rightarrow>
          (case awaitAckChan [] (concat gs) of None \<Rightarrow> (r', Inr False) | Some _ \<Rightarrow> (r', Inr True)))"

definition rn_SetModulePan :: "modem \<Rightarrow> u16 \<Rightarrow> byte \<Rightarrow> runner \<Rightarrow> runner \<times> exec_error option" where
  "rn_SetModulePan modem pan ch r =
     (case writeFrame modem (buildSetPanidChannel pan ch) r of
        (r', None) \<Rightarrow> (r', Some ErrWrite)
      | (r', Some gs) \<Rightarrow>
          (case awaitAckChan [] (concat gs) of None \<Rightarrow> (r', Some ErrNoAck) | Some _ \<Rightarrow> (r', None)))"

definition rn_GetShortAddr :: "modem \<Rightarrow> string \<Rightarrow> runner \<Rightarrow> runner \<times> (exec_error + u16)" where
  "rn_GetShortAddr modem serial r =
     (case serialToBCD6 serial of
        None \<Rightarrow> (r, Inl ErrSerial)
      | Some ieee \<Rightarrow>
          (case writeFrame modem (buildGetInverterShortAddr ieee) r of
             (r', None) \<Rightarrow> (r', Inl ErrWrite)
           | (r', Some gs) \<Rightarrow>
               (case fst (readFrameChan gs) of
                  None \<Rightarrow> (r', Inl ErrNoAck)
                | Some (reply, _) \<Rightarrow>
                    (case parseShortAddrReply reply ieee of
                       None \<Rightarrow> (r', Inl ErrReply)
                     | Some sa \<Rightarrow> (r', Inr sa)))))"

text \<open>The directed set and prime have no reply: what arrives is not read.\<close>

definition rn_directed :: "modem \<Rightarrow> (bytes \<Rightarrow> bytes) \<Rightarrow> string \<Rightarrow> runner \<Rightarrow> runner \<times> exec_error option" where
  "rn_directed modem build serial r =
     (case serialToBCD6 serial of
        None \<Rightarrow> (r, Some ErrSerial)
      | Some ieee \<Rightarrow>
          (case writeFrame modem (build ieee) r of
             (r', None) \<Rightarrow> (r', Some ErrWrite)
           | (r', Some _) \<Rightarrow> (r', None)))"

definition rn_SetInvPan :: "modem \<Rightarrow> string \<Rightarrow> u16 \<Rightarrow> byte \<Rightarrow> runner \<Rightarrow> runner \<times> exec_error option" where
  "rn_SetInvPan modem serial pan ch = rn_directed modem (buildSetInverterPan pan ch) serial"

definition rn_PrimeInv :: "modem \<Rightarrow> string \<Rightarrow> u16 \<Rightarrow> byte \<Rightarrow> runner \<Rightarrow> runner \<times> exec_error option" where
  "rn_PrimeInv modem serial pan ch = rn_directed modem (buildPrimeInverterPan pan ch) serial"

fun commit_loop :: "modem \<Rightarrow> bytes \<Rightarrow> nat \<Rightarrow> runner \<Rightarrow> runner \<times> exec_error option" where
  "commit_loop modem frame 0 r = (r, None)"
| "commit_loop modem frame (Suc n) r =
     (case writeFrame modem frame r of
        (r', None) \<Rightarrow> (r', Some ErrWrite)
      | (r', Some _) \<Rightarrow> commit_loop modem frame n r')"

definition rn_CommitPan :: "modem \<Rightarrow> u16 \<Rightarrow> byte \<Rightarrow> runner \<Rightarrow> runner \<times> exec_error option" where
  "rn_CommitPan modem pan ch r = commit_loop modem (buildCommitPanNow pan ch) 3 r"

definition bindAckByte :: byte where "bindAckByte = 0xA5"

definition rn_BindQuiet :: "modem \<Rightarrow> u16 \<Rightarrow> runner \<Rightarrow> runner \<times> exec_error option" where
  "rn_BindQuiet modem sa r =
     (case writeFrame modem (buildBindZigbee sa) r of
        (r', None) \<Rightarrow> (r', Some ErrWrite)
      | (r', Some gs) \<Rightarrow>
          (case fst (readFrameChan gs) of
             None \<Rightarrow> (r', Some ErrNoAck)
           | Some (reply, _) \<Rightarrow>
               if length reply < 4 \<or> reply ! 2 \<noteq> bindAckByte \<or> reply ! 3 \<noteq> bindAckByte
               then (r', Some ErrReply) else (r', None)))"

record FoundUnit =
  fu_Serial :: string
  fu_Encrypted :: bool

text \<open>The collection loop: the frames that arrive in the window, de-duplicated by serial.\<close>

fun scan_loop ::
  "string list \<Rightarrow> FoundUnit list \<Rightarrow> bytes list \<Rightarrow> chunks list \<Rightarrow> FoundUnit list \<times> bytes list" where
  "scan_loop seen found ieees [] = (found, ieees)"
| "scan_loop seen found ieees (g # gs) =
     (let frame = concat g; encrypted = isEncryptedFrame frame
      in if frame = [] then scan_loop seen found ieees gs
         else case parseAnnounce frame of
                None \<Rightarrow> scan_loop seen found ieees gs
              | Some ieee \<Rightarrow>
                  let serial = bcd6ToSerial ieee
                  in if serial \<in> set seen then scan_loop seen found ieees gs
                     else scan_loop (serial # seen)
                            (found @ [\<lparr>fu_Serial = serial, fu_Encrypted = encrypted\<rparr>])
                            (ieees @ [ieee]) gs)"

definition rn_ReportScan :: "modem \<Rightarrow> byte \<Rightarrow> runner \<Rightarrow> runner \<times> (exec_error + FoundUnit list)" where
  "rn_ReportScan modem seq r =
     (case writeFrame modem (buildReportIdOn 0x3C seq) r of
        (r1, None) \<Rightarrow> (r1, Inl ErrWrite)
      | (r1, Some gs) \<Rightarrow>
          let (found, ieees) = scan_loop [] [] [] gs;
              (r2, _) = writeFrame modem (buildReportIdOff ieees (seq + 1)) r1;
              (r3, _) = writeFrame modem buildReportIdQuiet r2
          in (r3, Inr found))"

section \<open>The adapter that owns the operating PAN\<close>

record adapter =
  ad_opPAN :: u16
  ad_opChannel :: byte
  ad_seq :: u32
  ad_runner :: runner

definition with_runner :: "(runner \<Rightarrow> runner \<times> 'a) \<Rightarrow> adapter \<Rightarrow> adapter \<times> 'a" where
  "with_runner f a = (case f (ad_runner a) of (r, x) \<Rightarrow> (a\<lparr>ad_runner := r\<rparr>, x))"

definition ad_SetModulePan :: "modem \<Rightarrow> u16 \<Rightarrow> byte \<Rightarrow> adapter \<Rightarrow> adapter \<times> exec_error option" where
  "ad_SetModulePan modem pan ch a =
     (if pan = 0xFFFF then with_runner (rn_SetModulePan modem 0xFFFF ch) a
      else if pan = 0 then with_runner (rn_SetModulePan modem (ad_opPAN a) (ad_opChannel a)) a
      else case with_runner (rn_SetModulePan modem pan ch) a of
             (a', Some e) \<Rightarrow> (a', Some e)
           | (a', None) \<Rightarrow> (a'\<lparr>ad_opPAN := pan, ad_opChannel := ch\<rparr>, None))"

definition nextSeq :: "adapter \<Rightarrow> adapter \<times> byte" where
  "nextSeq a = (let s = ad_seq a + 1 in (a\<lparr>ad_seq := s\<rparr>, ucast s))"

definition ad_ReportScan :: "modem \<Rightarrow> adapter \<Rightarrow> adapter \<times> (exec_error + FoundUnit list)" where
  "ad_ReportScan modem a = (case nextSeq a of (a', s) \<Rightarrow> with_runner (rn_ReportScan modem s) a')"

definition ad_Probe :: "modem \<Rightarrow> bool \<Rightarrow> adapter \<Rightarrow> adapter \<times> (exec_error option + bool)" where
  "ad_Probe modem cancelled a =
     (if cancelled then (a, Inl None)
      else case with_runner (rn_Ping modem) a of
             (a', Inl e) \<Rightarrow> (a', Inl (Some e))
           | (a', Inr alive) \<Rightarrow> (a', Inr alive))"

datatype recover_error = RecCancelled | RecNoPAN | RecReset | RecSet exec_error

definition ad_Recover :: "modem \<Rightarrow> bool \<Rightarrow> bool \<Rightarrow> adapter \<Rightarrow> adapter \<times> recover_error option" where
  "ad_Recover modem cancelled reset_ok a =
     (if cancelled then (a, Some RecCancelled)
      else if ad_opPAN a = 0 then (a, Some RecNoPAN)
      else if \<not> reset_ok then (a, Some RecReset)
      else case with_runner (rn_SetModulePan modem (ad_opPAN a) (ad_opChannel a)) a of
             (a', Some e) \<Rightarrow> (a', Some (RecSet e))
           | (a', None) \<Rightarrow> (a', None))"

section \<open>The command handler\<close>

datatype pairing_op =
    SetModulePan u32 u32
  | ReportScan u32
  | GetShortAddr string
  | SetInvPan string u32 u32
  | PrimeInv string u32 u32
  | CommitPan u32 u32
  | BindQuiet u32
  | GetModulePan
  | NoOp

record FoundInverter =
  fi_Serial :: string
  fi_ShortAddr :: u32
  fi_Encrypted :: bool

record PairingCmdResult =
  pr_ReqId :: u64
  pr_Ok :: bool
  pr_Error :: "exec_error option"
  pr_Found :: "FoundInverter list"
  pr_ShortAddr :: u32
  pr_Pan :: u32
  pr_Channel :: u32

definition ok_result :: "u64 \<Rightarrow> PairingCmdResult" where
  "ok_result reqId = \<lparr>pr_ReqId = reqId, pr_Ok = True, pr_Error = None, pr_Found = [], pr_ShortAddr = 0,
     pr_Pan = 0, pr_Channel = 0\<rparr>"

definition finishPairing :: "PairingCmdResult \<Rightarrow> exec_error option \<Rightarrow> PairingCmdResult" where
  "finishPairing res err =
     (case err of None \<Rightarrow> res | Some e \<Rightarrow> res\<lparr>pr_Ok := False, pr_Error := Some e\<rparr>)"

definition replyPairingErr :: "u64 \<Rightarrow> exec_error \<Rightarrow> PairingCmdResult" where
  "replyPairingErr reqId e = (ok_result reqId)\<lparr>pr_Ok := False, pr_Error := Some e\<rparr>"

definition minChannel :: u32 where "minChannel = 11"
definition maxChannel :: u32 where "maxChannel = 26"

definition checkChannel :: "u32 \<Rightarrow> exec_error option" where
  "checkChannel ch = (if ch \<noteq> 0 \<and> (ch < minChannel \<or> ch > maxChannel) then Some ErrChannel else None)"

definition checked ::
  "u32 \<Rightarrow> (adapter \<Rightarrow> adapter \<times> exec_error option) \<Rightarrow> u64 \<Rightarrow> adapter \<Rightarrow> adapter \<times> PairingCmdResult" where
  "checked ch run reqId a =
     (case checkChannel ch of
        Some e \<Rightarrow> (a, finishPairing (ok_result reqId) (Some e))
      | None \<Rightarrow> (case run a of (a', err) \<Rightarrow> (a', finishPairing (ok_result reqId) err)))"

definition run_pairing_op ::
  "modem \<Rightarrow> u64 \<Rightarrow> pairing_op \<Rightarrow> adapter \<Rightarrow> adapter \<times> PairingCmdResult" where
  "run_pairing_op modem reqId cmd a =
     (let res = ok_result reqId
      in case cmd of
        SetModulePan pan ch \<Rightarrow> checked ch (ad_SetModulePan modem (ucast pan) (ucast ch)) reqId a
      | ReportScan timeoutMs \<Rightarrow>
          (case ad_ReportScan modem a of
             (a', Inl e) \<Rightarrow> (a', finishPairing res (Some e))
           | (a', Inr found) \<Rightarrow>
               (a', finishPairing (res\<lparr>pr_Found :=
                  map (\<lambda>u. \<lparr>fi_Serial = fu_Serial u, fi_ShortAddr = 0, fi_Encrypted = fu_Encrypted u\<rparr>) found\<rparr>) None))
      | GetShortAddr serial \<Rightarrow>
          (case with_runner (rn_GetShortAddr modem serial) a of
             (a', Inl e) \<Rightarrow> (a', finishPairing res (Some e))
           | (a', Inr sa) \<Rightarrow> (a', finishPairing (res\<lparr>pr_ShortAddr := ucast sa\<rparr>) None))
      | SetInvPan serial pan ch \<Rightarrow>
          checked ch (with_runner (rn_SetInvPan modem serial (ucast pan) (ucast ch))) reqId a
      | PrimeInv serial pan ch \<Rightarrow>
          checked ch (with_runner (rn_PrimeInv modem serial (ucast pan) (ucast ch))) reqId a
      | CommitPan pan ch \<Rightarrow>
          checked ch (with_runner (rn_CommitPan modem (ucast pan) (ucast ch))) reqId a
      | BindQuiet sa \<Rightarrow>
          (case with_runner (rn_BindQuiet modem (ucast sa)) a of
             (a', err) \<Rightarrow> (a', finishPairing res err))
      | GetModulePan \<Rightarrow>
          (a, finishPairing (res\<lparr>pr_Pan := ucast (ad_opPAN a), pr_Channel := ucast (ad_opChannel a)\<rparr>) None)
      | NoOp \<Rightarrow> (a, replyPairingErr reqId ErrUnknownOp))"

text \<open>The executor is None when pairing is not configured on the backend.\<close>

definition handlePairingCmd ::
  "modem \<Rightarrow> u64 \<Rightarrow> pairing_op \<Rightarrow> adapter option \<Rightarrow> adapter option \<times> PairingCmdResult" where
  "handlePairingCmd modem reqId cmd ex =
     (case ex of
        None \<Rightarrow> (None, replyPairingErr reqId ErrNoExecutor)
      | Some a \<Rightarrow> (case run_pairing_op modem reqId cmd a of (a', res) \<Rightarrow> (Some a', res)))"

section \<open>Acknowledgements in pieces\<close>

text \<open>The reference: the first acknowledgement of the whole byte stream.\<close>

fun first_ack :: "bytes \<Rightarrow> bytes option" where
  "first_ack [] = None"
| "first_ack (b # bs) =
     (if b = ackByte \<and> Suc (length bs) \<ge> ackLen then Some (take ackLen (b # bs)) else first_ack bs)"

lemma find_ack_from_shift: "find_ack_from (i + k) bs = map_option (\<lambda>j. j + k) (find_ack_from i bs)"
proof (induction bs arbitrary: i)
  case (Cons b bs)
  show ?case using Cons.IH [of "Suc i"] by simp
qed simp

lemma first_ack_findAck: "first_ack bs = map_option (\<lambda>i. take ackLen (drop i bs)) (findAck bs)"
proof (induction bs)
  case (Cons b bs)
  have "find_ack_from 1 bs = map_option Suc (find_ack_from 0 bs)"
    using find_ack_from_shift [of 0 1 bs] by simp
  then show ?case using Cons.IH by (simp add: findAck_def option.map_comp comp_def)
qed (simp add: findAck_def)

lemma first_ack_length: "first_ack xs = Some a \<Longrightarrow> ackLen \<le> length xs"
  by (induction xs) (auto split: if_splits)

lemma first_ack_append: "first_ack xs = Some a \<Longrightarrow> first_ack (xs @ ys) = Some a"
proof (induction xs)
  case (Cons x xs)
  show ?case
  proof (cases "x = ackByte \<and> Suc (length xs) \<ge> ackLen")
    case True
    then have "a = take ackLen (x # xs)" using Cons.prems by simp
    moreover have "take ackLen (x # xs @ ys) = take ackLen (x # xs)"
      using True take_append [of ackLen "x # xs" ys] by simp
    ultimately show ?thesis using True by simp
  next
    case False
    then have a: "first_ack xs = Some a" using Cons.prems by (simp split: if_splits)
    then have "x \<noteq> ackByte" using False first_ack_length [OF a] by auto
    then show ?thesis using Cons.IH [OF a] by simp
  qed
qed simp

lemma first_ack_trim: "first_ack xs = None \<Longrightarrow> first_ack (drop (length xs - ackLen) xs @ ys) = first_ack (xs @ ys)"
proof (induction xs)
  case (Cons x xs)
  show ?case
  proof (cases "length (x # xs) \<le> ackLen")
    case False
    then have "x \<noteq> ackByte" "first_ack xs = None" using Cons.prems by (auto split: if_splits)
    moreover have "length (x # xs) - ackLen = Suc (length xs - ackLen)" using False by simp
    ultimately show ?thesis using Cons.IH by simp
  qed simp
qed simp

lemma awaitAckChan_first_ack:
  "first_ack acc = None \<Longrightarrow> awaitAckChan acc cs = first_ack (acc @ concat cs)"
proof (induction cs arbitrary: acc)
  case (Cons c cs)
  let ?acc = "acc @ c"
  show ?case
  proof (cases "findAck ?acc")
    case None
    then have n: "first_ack ?acc = None" by (simp add: first_ack_findAck)
    let ?t = "if length ?acc > 256 then drop (length ?acc - ackLen) ?acc else ?acc"
    have tail: "first_ack (?t @ ys) = first_ack (?acc @ ys)" for ys
      using first_ack_trim [OF n] by simp
    from tail [of "[]"] n have "first_ack ?t = None" by simp
    then have "awaitAckChan ?t cs = first_ack (?t @ concat cs)" by (rule Cons.IH)
    then show ?thesis using None by (simp only: awaitAckChan.simps Let_def tail) simp
  next
    case (Some i)
    then have "first_ack ?acc = Some (take ackLen (drop i ?acc))" by (simp add: first_ack_findAck)
    then show ?thesis using Some first_ack_append [of ?acc _ "concat cs"] by simp
  qed
qed simp

text \<open>
  An acknowledgement is found however the serial line cuts the stream into chunks, and
  however much noise comes first: the buffer the loop throws away never holds part of one.
\<close>

theorem ack_any_cut:
  "awaitAckChan [] cs = map_option (\<lambda>i. take ackLen (drop i (concat cs))) (findAck (concat cs))"
proof -
  have "awaitAckChan [] cs = first_ack ([] @ concat cs)"
    by (rule awaitAckChan_first_ack) simp
  then show ?thesis by (simp add: first_ack_findAck)
qed

section \<open>Scans\<close>

text \<open>The IEEE addresses announced in a window, in order and with repetitions.\<close>

definition announced :: "chunks list \<Rightarrow> bytes list" where
  "announced gs = List.map_filter (\<lambda>g. parseAnnounce (concat g)) gs"

lemma parseAnnounce_Nil [simp]: "parseAnnounce [] = None"
  by (simp add: parseAnnounce_def)

lemma announce_not_encrypted: "parseAnnounce f = Some ieee \<Longrightarrow> \<not> isEncryptedFrame f"
  by (auto simp: parseAnnounce_def isEncryptedFrame_def announceTag_def L1ReplySOF_def split: if_splits)

lemma announced_simps [simp]:
  "announced [] = []"
  "announced (g # gs) = (case parseAnnounce (concat g) of None \<Rightarrow> announced gs | Some i \<Rightarrow> i # announced gs)"
  by (simp_all add: announced_def map_filter_simps split: option.splits)

definition scan_inv :: "string list \<Rightarrow> FoundUnit list \<Rightarrow> bytes list \<Rightarrow> bool" where
  "scan_inv seen found ieees \<longleftrightarrow>
     map fu_Serial found = map bcd6ToSerial ieees \<and> set seen = bcd6ToSerial ` set ieees
     \<and> distinct (map bcd6ToSerial ieees) \<and> (\<forall>u \<in> set found. \<not> fu_Encrypted u)"

lemma scan_loop_inv:
  assumes "scan_inv seen found ieees" and "scan_loop seen found ieees gs = (found', ieees')"
  shows "scan_inv (map bcd6ToSerial ieees') found' ieees'
    \<and> bcd6ToSerial ` set ieees' = bcd6ToSerial ` set ieees \<union> bcd6ToSerial ` set (announced gs)"
  using assms
proof (induction gs arbitrary: seen found ieees)
  case Nil
  then show ?case by (auto simp: scan_inv_def)
next
  case (Cons g gs)
  show ?case
  proof (cases "parseAnnounce (concat g)")
    case None
    then have "scan_loop seen found ieees gs = (found', ieees')"
      using Cons.prems(2) by (auto simp: Let_def split: if_splits)
    then show ?thesis using Cons.IH [OF Cons.prems(1)] None by simp
  next
    case (Some ieee)
    then have ne: "concat g \<noteq> []" using parseAnnounce_Nil by (metis option.distinct(1))
    let ?s = "bcd6ToSerial ieee"
    show ?thesis
    proof (cases "?s \<in> set seen")
      case True
      then have "scan_loop seen found ieees gs = (found', ieees')"
        using Cons.prems(2) Some ne by (auto simp: Let_def split: if_splits)
      moreover have "?s \<in> bcd6ToSerial ` set ieees" using True Cons.prems(1) unfolding scan_inv_def by blast
      ultimately show ?thesis using Cons.IH [OF Cons.prems(1)] Some by auto
    next
      case False
      let ?f = "found @ [\<lparr>fu_Serial = ?s, fu_Encrypted = isEncryptedFrame (concat g)\<rparr>]"
      have "scan_loop (?s # seen) ?f (ieees @ [ieee]) gs = (found', ieees')"
        using Cons.prems(2) Some ne False by (auto simp: Let_def split: if_splits)
      moreover have "scan_inv (?s # seen) ?f (ieees @ [ieee])"
        using Cons.prems(1) False announce_not_encrypted [OF Some] by (auto simp: scan_inv_def)
      ultimately show ?thesis using Cons.IH [of "?s # seen" ?f "ieees @ [ieee]"] Some by auto
    qed
  qed
qed

text \<open>
  A scan reports every inverter whose announcement arrived in the window, once, and no other,
  and the frame that silences them names exactly those reported.  It never reports one as
  encrypted: the parser wants the bare announcement tag where the encryption marker would be.
\<close>

theorem scan_reports:
  assumes "modem (rn_tried r) = Some gs" and "rn_ReportScan modem seq r = (r', Inr found)"
  shows "distinct (map fu_Serial found)
    \<and> set (map fu_Serial found) = bcd6ToSerial ` set (announced gs)
    \<and> (\<forall>u \<in> set found. \<not> fu_Encrypted u)
    \<and> (modem (rn_tried r + 1) \<noteq> None \<longrightarrow>
        (\<exists>ieees. map bcd6ToSerial ieees = map fu_Serial found
           \<and> buildReportIdOff ieees (seq + 1) \<in> set (rn_wire r')))"
proof -
  obtain found' ieees where l: "scan_loop [] [] [] gs = (found', ieees)" by fastforce
  have "scan_inv [] [] []" by (simp add: scan_inv_def)
  note i = scan_loop_inv [OF this l]
  have "found' = found" and w: "modem (rn_tried r + 1) \<noteq> None \<longrightarrow> buildReportIdOff ieees (seq + 1) \<in> set (rn_wire r')"
    using assms l by (auto simp: rn_ReportScan_def writeFrame_def Let_def split: option.splits prod.splits)
  show ?thesis
  proof (intro conjI)
    have m: "map bcd6ToSerial ieees = map fu_Serial found"
      using i \<open>found' = found\<close> unfolding scan_inv_def by metis
    show "distinct (map fu_Serial found)" "\<forall>u \<in> set found. \<not> fu_Encrypted u"
      using i \<open>found' = found\<close> unfolding scan_inv_def m by blast+
    show "set (map fu_Serial found) = bcd6ToSerial ` set (announced gs)"
      using i unfolding m [symmetric] by simp
    from m show "modem (rn_tried r + 1) \<noteq> None \<longrightarrow>
        (\<exists>ieees. map bcd6ToSerial ieees = map fu_Serial found
           \<and> buildReportIdOff ieees (seq + 1) \<in> set (rn_wire r'))"
      using w by blast
  qed
qed

lemma scan_reports_witness:
  "set (map fu_Serial [\<lparr>fu_Serial = ''806000042582'', fu_Encrypted = False\<rparr>])
     = bcd6ToSerial ` set (announced [[[0x1D, 0x1D, 0x80, 0x60], [0x00, 0x04, 0x25, 0x82, 0x57, 0xF5]]])"
proof -
  let ?modem = "\<lambda>n. if n = 0 then Some [[[0x1D, 0x1D, 0x80, 0x60], [0x00, 0x04, 0x25, 0x82, 0x57, 0xF5]]] else None"
  let ?r = "\<lparr>rn_tried = 0, rn_wire = []\<rparr>"
  have "parseAnnounce [0x1D, 0x1D, 0x80, 0x60, 0x00, 0x04, 0x25, 0x82, 0x57, 0xF5] = Some [0x80, 0x60, 0x00, 0x04, 0x25, 0x82]"
    by code_simp
  moreover have "bcd6ToSerial [0x80, 0x60, 0x00, 0x04, 0x25, 0x82] = ''806000042582''" by code_simp
  moreover have "\<not> isEncryptedFrame [0x1D, 0x1D, 0x80, 0x60, 0x00, 0x04, 0x25, 0x82, 0x57, 0xF5]" by code_simp
  ultimately have "snd (rn_ReportScan ?modem 1 ?r) = Inr [\<lparr>fu_Serial = ''806000042582'', fu_Encrypted = False\<rparr>]"
    by (simp add: rn_ReportScan_def writeFrame_def)
  then obtain r' where "rn_ReportScan ?modem 1 ?r = (r', Inr [\<lparr>fu_Serial = ''806000042582'', fu_Encrypted = False\<rparr>])"
    by (metis prod.collapse)
  from scan_reports [OF _ this] show ?thesis by simp
qed

section \<open>Who owns the operating PAN\<close>

text \<open>
  The contract of \<open>SetModulePan\<close> in the protocol: 0xFFFF parks, 0 restores, another PAN is
  adopted when the module takes it, and no other primitive changes what is adopted.
\<close>

datatype 'o owner_step = SetPan u16 byte | OtherStep 'o

locale radio_owner =
  fixes setPan :: "u16 \<Rightarrow> byte \<Rightarrow> 's \<Rightarrow> 's \<times> exec_error option"
    and other :: "'o \<Rightarrow> 's \<Rightarrow> 's"
    and operating :: "'s \<Rightarrow> u16 \<times> byte"
  assumes park: "p = 0xFFFF \<or> p = 0 \<Longrightarrow> operating (fst (setPan p ch s)) = operating s"
    and adopt: "p \<noteq> 0xFFFF \<Longrightarrow> p \<noteq> 0 \<Longrightarrow> setPan p ch s = (s', e) \<Longrightarrow>
      operating s' = (if e = None then (p, ch) else operating s)"
    and other_keeps: "operating (other x s) = operating s"
begin

fun run :: "'o owner_step list \<Rightarrow> 's \<Rightarrow> 's" where
  "run [] s = s"
| "run (SetPan p ch # xs) s = run xs (fst (setPan p ch s))"
| "run (OtherStep x # xs) s = run xs (other x s)"

fun adopted :: "'o owner_step list \<Rightarrow> 's \<Rightarrow> u16 \<times> byte \<Rightarrow> u16 \<times> byte" where
  "adopted [] s cur = cur"
| "adopted (SetPan p ch # xs) s cur =
     adopted xs (fst (setPan p ch s))
       (if p \<noteq> 0xFFFF \<and> p \<noteq> 0 \<and> snd (setPan p ch s) = None then (p, ch) else cur)"
| "adopted (OtherStep x # xs) s cur = adopted xs (other x s) cur"

lemma operating_setPan:
  "operating (fst (setPan p ch s)) =
     (if p \<noteq> 0xFFFF \<and> p \<noteq> 0 \<and> snd (setPan p ch s) = None then (p, ch) else operating s)"
proof (cases "p = 0xFFFF \<or> p = 0")
  case True
  then show ?thesis using park by auto
next
  case False
  then have "operating (fst (setPan p ch s)) = (if snd (setPan p ch s) = None then (p, ch) else operating s)"
    using adopt [OF _ _ prod.collapse [symmetric]] by blast
  then show ?thesis using False by simp
qed

lemma operating_is_last_adopted: "operating (run xs s) = adopted xs s (operating s)"
proof (induction xs arbitrary: s)
  case (Cons x xs)
  then show ?case by (cases x) (simp_all add: operating_setPan other_keeps)
qed simp

end

definition ad_operating :: "adapter \<Rightarrow> u16 \<times> byte" where
  "ad_operating a = (ad_opPAN a, ad_opChannel a)"

lemma with_runner_operating [simp]:
  "ad_operating (fst (with_runner f a)) = ad_operating a" "ad_seq (fst (with_runner f a)) = ad_seq a"
  by (simp_all add: ad_operating_def with_runner_def split: prod.splits)

lemma with_runner_operating_eq: "with_runner f a = (a', x) \<Longrightarrow> ad_operating a' = ad_operating a"
  by (metis fst_conv with_runner_operating(1))

lemma ad_SetModulePan_park:
  "p = 0xFFFF \<or> p = 0 \<Longrightarrow> ad_operating (fst (ad_SetModulePan modem p ch a)) = ad_operating a"
  by (auto simp: ad_SetModulePan_def)

lemma ad_SetModulePan_adopt:
  assumes "p \<noteq> 0xFFFF" and "p \<noteq> 0" and "ad_SetModulePan modem p ch a = (a', e)"
  shows "ad_operating a' = (if e = None then (p, ch) else ad_operating a)"
  using assms with_runner_operating(1) [of "rn_SetModulePan modem p ch" a]
  by (auto simp: ad_SetModulePan_def ad_operating_def split: prod.splits option.splits)

interpretation owner: radio_owner "ad_SetModulePan modem" "\<lambda>f a. fst (with_runner f a)" ad_operating
  by unfold_locales (auto simp: ad_SetModulePan_park dest: ad_SetModulePan_adopt)

fun last_adopted :: "modem \<Rightarrow> (u64 \<times> pairing_op) list \<Rightarrow> adapter \<Rightarrow> u16 \<times> byte \<Rightarrow> u16 \<times> byte" where
  "last_adopted modem [] a cur = cur"
| "last_adopted modem ((n, cmd) # xs) a cur =
     (case run_pairing_op modem n cmd a of
        (a', res) \<Rightarrow>
          last_adopted modem xs a'
            (case cmd of
               SetModulePan pan ch \<Rightarrow>
                 if pr_Ok res \<and> (ucast pan :: u16) \<noteq> 0 \<and> (ucast pan :: u16) \<noteq> 0xFFFF
                 then (ucast pan, ucast ch) else cur
             | _ \<Rightarrow> cur))"

fun run_cmds :: "modem \<Rightarrow> (u64 \<times> pairing_op) list \<Rightarrow> adapter \<Rightarrow> adapter" where
  "run_cmds modem [] a = a"
| "run_cmds modem ((n, cmd) # xs) a = run_cmds modem xs (fst (run_pairing_op modem n cmd a))"

lemma finishPairing_Ok [simp]: "pr_Ok (finishPairing res err) \<longleftrightarrow> pr_Ok res \<and> err = None"
  by (auto simp: finishPairing_def split: option.splits)

lemma ok_result_Ok [simp]: "pr_Ok (ok_result n)" "pr_ReqId (ok_result n) = n"
  by (simp_all add: ok_result_def)

lemma checked_operating:
  "(\<And>a. ad_operating (fst (run a)) = ad_operating a) \<Longrightarrow>
   ad_operating (fst (checked ch run n a)) = ad_operating a"
  by (auto simp: checked_def split: option.splits prod.splits) (metis fst_conv)

lemma run_pairing_op_operating:
  "ad_operating (fst (run_pairing_op modem n cmd a)) =
     (case cmd of
        SetModulePan pan ch \<Rightarrow>
          if pr_Ok (snd (run_pairing_op modem n cmd a)) \<and> (ucast pan :: u16) \<noteq> 0 \<and> (ucast pan :: u16) \<noteq> 0xFFFF
          then (ucast pan, ucast ch) else ad_operating a
      | _ \<Rightarrow> ad_operating a)"
proof (cases cmd)
  case (SetModulePan pan ch)
  then show ?thesis
    using owner.operating_setPan [of modem "ucast pan" "ucast ch" a]
    by (auto simp: run_pairing_op_def checked_def Let_def split: option.splits prod.splits)
next
  case (ReportScan w)
  have "ad_operating (fst (ad_ReportScan modem a)) = ad_operating a"
    by (simp add: ad_ReportScan_def nextSeq_def Let_def split: prod.splits) (simp add: ad_operating_def)
  then show ?thesis using ReportScan
    by (auto simp: run_pairing_op_def Let_def split: sum.splits prod.splits)
next
  case (GetShortAddr s)
  then show ?thesis
    by (auto simp: run_pairing_op_def Let_def dest: with_runner_operating_eq split: sum.splits prod.splits)
next
  case (BindQuiet sa)
  then show ?thesis
    by (auto simp: run_pairing_op_def Let_def dest: with_runner_operating_eq split: prod.splits)
qed (simp_all add: run_pairing_op_def Let_def checked_operating)

text \<open>
  Over any sequence of commands from the driver, whatever the radio answers, the operating PAN
  and channel the gateway reports are those of the last real set (neither the 0xFFFF park nor the
  0 restore) that the module acknowledged, or the ones it came up with.
\<close>

theorem operating_pan_owned:
  "ad_operating (run_cmds modem cmds a) = last_adopted modem cmds a (ad_operating a)"
proof (induction cmds arbitrary: a)
  case (Cons c cmds)
  obtain n cmd where c: "c = (n, cmd)" by (cases c)
  obtain a' res where r: "run_pairing_op modem n cmd a = (a', res)" by fastforce
  show ?case
    using Cons.IH [of a'] run_pairing_op_operating [of modem n cmd a, unfolded r fst_conv snd_conv]
    by (simp add: c r)
qed simp

section \<open>What the conversions let through\<close>

text \<open>
  A command whose channel is set and lies outside 11 to 26 is refused with an error and puts
  nothing on the wire; every other command with a channel hands on exactly the channel it names,
  the 32-bit value surviving the conversion to a byte.
\<close>

theorem channel_checked:
  "(ch \<noteq> 0 \<and> (ch < 11 \<or> 26 < ch) \<longleftrightarrow> checkChannel ch \<noteq> None)
   \<and> (checkChannel ch \<noteq> None \<longrightarrow>
        (\<forall>cmd \<in> {SetModulePan pan ch, SetInvPan serial pan ch, PrimeInv serial pan ch, CommitPan pan ch}.
           fst (run_pairing_op modem n cmd a) = a \<and> \<not> pr_Ok (snd (run_pairing_op modem n cmd a))))
   \<and> (checkChannel ch = None \<longrightarrow> unat (ucast ch :: byte) = unat ch)"
proof (intro conjI impI)
  show "(ch \<noteq> 0 \<and> (ch < 11 \<or> 26 < ch)) = (checkChannel ch \<noteq> None)"
    by (simp add: checkChannel_def minChannel_def maxChannel_def)
  show "\<forall>cmd \<in> {SetModulePan pan ch, SetInvPan serial pan ch, PrimeInv serial pan ch, CommitPan pan ch}.
      fst (run_pairing_op modem n cmd a) = a \<and> \<not> pr_Ok (snd (run_pairing_op modem n cmd a))"
    if "checkChannel ch \<noteq> None"
    using that by (auto simp: run_pairing_op_def checked_def)
  show "unat (ucast ch :: byte) = unat ch" if "checkChannel ch = None"
  proof -
    have "ch \<le> 26" using that
      by (auto simp: checkChannel_def minChannel_def maxChannel_def not_less split: if_splits)
    then have "unat ch < 2 ^ 8" by (simp add: word_le_nat_alt)
    then show ?thesis by (simp add: unsigned_ucast_eq take_bit_nat_eq_self)
  qed
qed

definition sample_adapter :: adapter where
  "sample_adapter = \<lparr>ad_opPAN = 0x0DCE, ad_opChannel = 16, ad_seq = 0, ad_runner = \<lparr>rn_tried = 0, rn_wire = []\<rparr>\<rparr>"

lemma channel_checked_witness:
  "run_pairing_op (\<lambda>_. None) 1 (CommitPan 0x1234 27) sample_adapter
     = (sample_adapter, (ok_result 1)\<lparr>pr_Ok := False, pr_Error := Some ErrChannel\<rparr>)"
proof -
  have "checkChannel 27 \<noteq> None" by (simp add: checkChannel_def minChannel_def maxChannel_def)
  then have "fst (run_pairing_op (\<lambda>_. None) 1 (CommitPan 0x1234 27) sample_adapter) = sample_adapter"
    using channel_checked [of 27 "0x1234" "[]" "\<lambda>_. None" 1 sample_adapter] by simp
  then show ?thesis
    by (simp add: run_pairing_op_def checked_def checkChannel_def minChannel_def maxChannel_def finishPairing_def)
qed

text \<open>
  The PAN and the short address have no such check: they are cut to 16 bits, so a PAN of
  0x10000 restores, 0x1FFFF parks, and 0x10001 binds address 1, though the Send path refuses an
  address above 0xFFFF for exactly this reason.
\<close>

theorem pan_truncated:
  "run_pairing_op modem n (SetModulePan (0x10000 + ucast (p :: u16)) ch) a
     = run_pairing_op modem n (SetModulePan (ucast p) ch) a
   \<and> run_pairing_op modem n (CommitPan (0x10000 + ucast p) ch) a
     = run_pairing_op modem n (CommitPan (ucast p) ch) a
   \<and> run_pairing_op modem n (BindQuiet (0x10000 + ucast p)) a
     = run_pairing_op modem n (BindQuiet (ucast p)) a"
proof -
  have p: "unat p < 65536" using unsigned_less [of p] by simp
  have u: "unat (ucast p :: u32) = unat p"
    using p by (simp add: unsigned_ucast_eq take_bit_nat_eq_self)
  have "unat (0x10000 + ucast p :: u32) = 0x10000 + unat p"
    using p by (simp add: unat_word_ariths u)
  then have "unat (ucast (0x10000 + ucast p :: u32) :: u16) = unat (ucast (ucast p :: u32) :: u16)"
    unfolding unsigned_ucast_eq [where 'c = 16] u using p by (simp add: take_bit_eq_mod)
  then have "(ucast (0x10000 + ucast p :: u32) :: u16) = ucast (ucast p :: u32)"
    by (simp only: word_unat_eq_iff)
  then show ?thesis by (simp add: run_pairing_op_def)
qed

end
