(* ===== verification/BusClient.thy ===== *)
theory BusClient
  imports BusTracker SetPower ProtectionRead PairExec
begin

text \<open>
  The gateway's side of the driver socket (\<open>internal/zigbee/busmgr\<close>): the gate every downstream
  frame passes (\<open>validateFrame\<close>), the outer envelope, dispatch of Send and Broadcast, the
  address book (\<open>internal/zigbee/inventory\<close>) and the publisher that fills it.
  Pairing commands go to the executor of theory \<open>PairExec\<close>; what is sent upstream passes a queue of
  256 that drops when full.  The address book is None when not configured; \<open>OnSend\<close> is None when not configured, and else
  says whether the injection succeeds.  The lemmas: the gate accepts exactly the well-formed
  frames of the allowed commands, every frame the codec builds for a unicast passes it, what is
  injected goes to the address asked for, and what a broadcast can and cannot carry.
\<close>

section \<open>The gate\<close>

definition minL2Len :: nat where "minL2Len = 13"
definition maxL2Len :: nat where "maxL2Len = 64"

definition allowedL2Cmds :: "byte list" where
  "allowedL2Cmds =
     [CmdSetPowerQS1Unicast, CmdSetPowerQS1Broadcast, CmdSetPowerDS3Unicast, CmdSetPowerDS3Broadcast,
      CmdSetPowerC3Unicast, CmdSetPowerC3Broadcast, CmdTurnOnUnicast, CmdTurnOffUnicast,
      CmdGridRecoveryQS1, 0x11, 0x12, 0x13, 0x14, 0x57, 0x58, 0x59, 0x5a,
      CmdProtReadPageA, CmdProtReadPageB, CmdProtReadPageC, CmdInfoQuery, CmdTelemetryBBQuery]"

definition broadcastProtoValidated :: bool where "broadcastProtoValidated = True"

definition setpowerBroadcastSubs :: "byte list" where
  "setpowerBroadcastSubs = [SubMaxPowerDS3, SubMaxPowerQS1]"

datatype reject =
    RejShort | RejLong | RejSOF | RejInnerLen | RejEOF | RejSum | RejCmd | RejBroadcastSub

definition l2SumOver :: "bytes \<Rightarrow> u16" where
  "l2SumOver b = sum_bytes 0 b"

definition validateFrame :: "bytes \<Rightarrow> reject option" where
  "validateFrame l2 =
     (if length l2 < minL2Len then Some RejShort
      else if length l2 > maxL2Len then Some RejLong
      else if l2 ! 0 \<noteq> L2SOF \<or> l2 ! 1 \<noteq> L2SOF then Some RejSOF
      else let innerLen = unat (l2 ! 2)
      in if innerLen + 7 \<noteq> length l2 then Some RejInnerLen
      else if l2 ! (length l2 - 2) \<noteq> L2EOF \<or> l2 ! (length l2 - 1) \<noteq> L2EOF then Some RejEOF
      else let sum = l2SumOver (take (1 + innerLen) (drop 2 l2));
               gotSum = u16_of (l2 ! (3 + innerLen)) (l2 ! (4 + innerLen))
      in if gotSum \<noteq> sum then Some RejSum
      else let cmd = l2 ! 3
      in if cmd \<notin> set allowedL2Cmds then Some RejCmd
      else if \<not> broadcastProtoValidated
             \<and> (cmd = CmdSetPowerDS3Broadcast \<or> cmd = CmdSetPowerQS1Broadcast)
             \<and> l2 ! 4 \<notin> set setpowerBroadcastSubs then Some RejBroadcastSub
      else None)"

definition isUnicastOnlyCmd :: "bytes \<Rightarrow> bool" where
  "isUnicastOnlyCmd l2 \<longleftrightarrow> length l2 > 3 \<and> l2 ! 3 \<in> set QS1YC600ProtCmds"

section \<open>The outer envelope\<close>

definition BuildL1Frame :: "u16 \<Rightarrow> bytes \<Rightarrow> bytes" where
  "BuildL1Frame sa l2 =
     (let saHi = hi8 sa; saLo = lo8 sa;
          sum = (ucast L1Sentinel + ucast saHi + ucast saLo :: u16)
      in [L1Preamble, L1Preamble, L1Preamble, L1Preamble, L1Sentinel, saHi, saLo,
          0, 0, 0, 0, 0, hi8 sum, lo8 sum, of_nat (length l2)] @ l2)"

section \<open>The address book\<close>

type_synonym inventory = "string \<rightharpoonup> u16"

definition Record :: "string \<Rightarrow> u16 \<Rightarrow> inventory option \<Rightarrow> inventory option" where
  "Record peerUID sa m =
     (case m of
        None \<Rightarrow> None
      | Some b \<Rightarrow> if peerUID = [] then Some b else Some (b(to_lower peerUID \<mapsto> sa)))"

definition LookupSA :: "string \<Rightarrow> inventory option \<Rightarrow> u16 option" where
  "LookupSA peerUID m =
     (case m of None \<Rightarrow> None | Some b \<Rightarrow> if peerUID = [] then None else b (to_lower peerUID))"

section \<open>Dispatch\<close>

text \<open>
  The frames handed to \<open>OnSend\<close> are logged oldest first, the outbound queue likewise; the counters
  count up.  The wall-clock stamp of an upstream frame is left out.
\<close>

datatype upstream = UpRawFrame u32 bytes | UpPairingResult PairingCmdResult

record client =
  cl_Inventory :: "inventory option"
  cl_OnSend :: "(bytes \<Rightarrow> bool) option"
  cl_sendOk :: nat
  cl_sendFail :: nat
  cl_injected :: "bytes list"
  cl_Pairing :: "adapter option"
  cl_out :: "upstream list"
  cl_dropped :: nat

definition outboundCap :: nat where "outboundCap = 256"

definition Enqueue :: "upstream \<Rightarrow> client \<Rightarrow> client" where
  "Enqueue env c =
     (if length (cl_out c) < outboundCap then c\<lparr>cl_out := cl_out c @ [env]\<rparr>
      else c\<lparr>cl_dropped := cl_dropped c + 1\<rparr>)"

definition send_failed :: "client \<Rightarrow> client" where
  "send_failed c = c\<lparr>cl_sendFail := cl_sendFail c + 1\<rparr>"

definition injectL1 :: "bytes \<Rightarrow> client \<Rightarrow> client" where
  "injectL1 frame c =
     (case cl_OnSend c of
        None \<Rightarrow> send_failed c
      | Some cb \<Rightarrow>
          let c1 = c\<lparr>cl_injected := cl_injected c @ [frame]\<rparr>
          in if \<not> cb frame then send_failed c1 else c1\<lparr>cl_sendOk := cl_sendOk c1 + 1\<rparr>)"

definition dispatchSend :: "bytes \<Rightarrow> string \<Rightarrow> u16 \<Rightarrow> client \<Rightarrow> client" where
  "dispatchSend l2 peerUID shortAddr c =
     (if validateFrame l2 \<noteq> None then send_failed c
      else if shortAddr \<noteq> 0 then injectL1 (BuildL1Frame shortAddr l2) c
      else if peerUID = [] then send_failed c
      else case LookupSA peerUID (cl_Inventory c) of
             None \<Rightarrow> send_failed c
           | Some sa \<Rightarrow> injectL1 (BuildL1Frame sa l2) c)"

definition dispatchBroadcast :: "bytes \<Rightarrow> client \<Rightarrow> client" where
  "dispatchBroadcast l2 c =
     (if validateFrame l2 \<noteq> None then send_failed c
      else if isUnicastOnlyCmd l2 then send_failed c
      else injectL1 (BuildL1Frame 0 l2) c)"

datatype downstream = Send string u32 bytes | Broadcast bytes | PairingCmd u64 pairing_op | OtherBody

definition handleInbound :: "modem \<Rightarrow> downstream \<Rightarrow> client \<Rightarrow> client" where
  "handleInbound modem env c =
     (case env of
        Send peer rawSA frame \<Rightarrow>
          if rawSA > 0xFFFF then send_failed c else dispatchSend frame peer (ucast rawSA) c
      | Broadcast frame \<Rightarrow> dispatchBroadcast frame c
      | PairingCmd reqId cmd \<Rightarrow>
          (case handlePairingCmd modem reqId cmd (cl_Pairing c) of
             (ex, res) \<Rightarrow> Enqueue (UpPairingResult res) (c\<lparr>cl_Pairing := ex\<rparr>))
      | OtherBody \<Rightarrow> c)"

section \<open>Publishing\<close>

definition peerUIDFromL1Reply :: "bytes \<Rightarrow> string option" where
  "peerUIDFromL1Reply l1 =
     (if length l1 < 12 then None
      else if l1 ! 0 \<noteq> L1ReplySOF \<or> l1 ! 1 \<noteq> L1ReplySOF then None
      else Some (hex_string (take 6 (drop 6 l1))))"

definition RawFrame :: "u16 \<Rightarrow> bytes \<Rightarrow> client \<Rightarrow> client" where
  "RawFrame shortAddr l1 c =
     (let c1 = (if cl_Inventory c = None then c
                else case peerUIDFromL1Reply l1 of
                       None \<Rightarrow> c
                     | Some uid \<Rightarrow> c\<lparr>cl_Inventory := Record uid shortAddr (cl_Inventory c)\<rparr>)
      in Enqueue (UpRawFrame (ucast shortAddr) l1) c1)"

section \<open>What the gate accepts\<close>

lemma sum_bytes_Cons2: "sum_bytes 0 (t # c # body) = sum_bytes (ucast t + ucast c) body"
  by simp

text \<open>
  C4: the gate lets through exactly the frames the codec's builder makes, of 13 to 64 bytes, for a
  command on the list: framing, length byte and checksum leave no other byte string.
\<close>

theorem validateFrame_exact:
  "validateFrame l2 = None \<longleftrightarrow>
     (\<exists>cmd body. l2 = BuildL2Frame cmd body \<and> cmd \<in> set allowedL2Cmds
        \<and> 5 \<le> length body \<and> length body \<le> 56)"
proof
  assume acc: "validateFrame l2 = None"
  then have len: "13 \<le> length l2" "length l2 \<le> 64"
    by (auto simp: validateFrame_def minL2Len_def maxL2Len_def split: if_splits)
  then have "8 \<le> length l2" by simp
  then obtain a b t c body h l x y where l2: "l2 = [a, b, t, c] @ body @ [h, l, x, y]"
    by (rule frame_split)
  have n: "length l2 = length body + 8" by (simp add: l2)
  have idx: "l2 ! 0 = a" "l2 ! 1 = b" "l2 ! 2 = t" "l2 ! 3 = c"
    "l2 ! (length l2 - 2) = x" "l2 ! (length l2 - 1) = y"
    by (simp_all add: l2 nth_append)
  have inner: "unat t + 7 = length l2" and sof: "a = L2SOF" "b = L2SOF" and eof: "x = L2EOF" "y = L2EOF"
    using acc len unfolding validateFrame_def minL2Len_def maxL2Len_def Let_def idx
    by (simp_all split: if_splits)
  then have t: "unat t = length body + 1" using n by simp
  then have pos: "l2 ! (3 + unat t) = h" "l2 ! (4 + unat t) = l"
    and body: "take (1 + unat t) (drop 2 l2) = t # c # body"
    by (simp_all add: l2 nth_append)
  have sum: "u16_of h l = sum_bytes (ucast t + ucast c) body" and cmd: "c \<in> set allowedL2Cmds"
    using acc len inner sof eof
    unfolding validateFrame_def minL2Len_def maxL2Len_def idx Let_def pos body l2SumOver_def sum_bytes_Cons2
    by (simp_all split: if_splits)
  have "of_nat (unat t) = inner_len body" unfolding inner_len_def t by (simp only: add.commute)
  then have "t = inner_len body" by simp
  then have "hi8 (l2_sum c body) = h" "lo8 (l2_sum c body) = l"
    using sum by (metis hi8_u16_of l2_sum_def, metis lo8_u16_of l2_sum_def)
  then have "l2 = BuildL2Frame c body"
    by (simp add: BuildL2Frame_def Let_def l2 sof eof \<open>t = inner_len body\<close>)
  then show "\<exists>cmd body. l2 = BuildL2Frame cmd body \<and> cmd \<in> set allowedL2Cmds
      \<and> 5 \<le> length body \<and> length body \<le> 56"
    using cmd len n by auto
next
  assume "\<exists>cmd body. l2 = BuildL2Frame cmd body \<and> cmd \<in> set allowedL2Cmds
      \<and> 5 \<le> length body \<and> length body \<le> 56"
  then obtain c body where l2: "l2 = BuildL2Frame c body" and c: "c \<in> set allowedL2Cmds"
    and b: "5 \<le> length body" "length body \<le> 56" by blast
  have t: "unat (inner_len body) = 1 + length body"
    unfolding inner_len_def unat_of_nat using b by simp
  have f: "l2 = [L2SOF, L2SOF, inner_len body, c] @ body @ [hi8 (l2_sum c body), lo8 (l2_sum c body), L2EOF, L2EOF]"
    by (simp add: l2 BuildL2Frame_def Let_def)
  have idx: "l2 ! 0 = L2SOF" "l2 ! 1 = L2SOF" "l2 ! 2 = inner_len body" "l2 ! 3 = c"
    "l2 ! (length l2 - 2) = L2EOF" "l2 ! (length l2 - 1) = L2EOF" "length l2 = length body + 8"
    by (simp_all add: f nth_append)
  have pos: "l2 ! (3 + unat (inner_len body)) = hi8 (l2_sum c body)"
    "l2 ! (4 + unat (inner_len body)) = lo8 (l2_sum c body)"
    and body: "take (1 + unat (inner_len body)) (drop 2 l2) = inner_len body # c # body"
    by (simp_all add: f t nth_append)
  show "validateFrame l2 = None"
    unfolding validateFrame_def minL2Len_def maxL2Len_def Let_def idx pos body l2SumOver_def sum_bytes_Cons2
    using b c t idx(5,6) unfolding idx(7) by (simp add: l2_sum_def broadcastProtoValidated_def)
qed

lemma accept_built:
  "cmd \<in> set allowedL2Cmds \<Longrightarrow> 5 \<le> length body \<Longrightarrow> length body \<le> 56 \<Longrightarrow>
   validateFrame (BuildL2Frame cmd body) = None"
  unfolding validateFrame_exact by blast

lemma BuildL2Frame_cmd [simp]: "BuildL2Frame cmd body ! 3 = cmd"
  by (simp add: BuildL2Frame_def Let_def)

lemma isUnicastOnlyCmd_built [simp]:
  "isUnicastOnlyCmd (BuildL2Frame cmd body) \<longleftrightarrow> cmd \<in> set QS1YC600ProtCmds"
  by (simp add: isUnicastOnlyCmd_def)

section \<open>The codec's frames pass the gate\<close>

lemmas gate_consts = codec_consts allowedL2Cmds_def QS1YC600ProtCmds_def

lemma set_power_accepted:
  "EncodeSetPower cv m w b = Inr f \<Longrightarrow> validateFrame f = None"
  by (auto simp: EncodeSetPower_family EncodeSetPowerDS3_def EncodeSetPowerQS1A_def EncodeSetPowerC3_def
      Let_def gate_consts split: family.splits option.splits intro!: accept_built)

lemma yc600_cmds_allowed: "set QS1YC600ProtCmds \<subseteq> set allowedL2Cmds"
  by (simp add: gate_consts)

lemma opcode_frame_accepted:
  "opcode_frame opcode x f \<Longrightarrow> opcode \<in> set allowedL2Cmds \<Longrightarrow> validateFrame f = None"
  by (auto simp: opcode_frame_def intro!: accept_built)

lemma yc600_frame_accepted: "yc600_frame f \<Longrightarrow> validateFrame f = None"
  using yc600_cmds_allowed by (auto simp: yc600_frame_def intro!: accept_built)

lemma protection_accepted:
  assumes "EncodeSetProtection cv m p v = Inr fs" and "f \<in> set fs"
  shows "validateFrame f = None"
proof -
  consider "encodeProtectionDS3 cv p v CmdSetPowerDS3Unicast = Inr fs"
    | "encodeProtectionQS1A cv p v CmdSetPowerQS1Unicast = Inr fs"
    using assms(1) unfolding EncodeSetProtection_family
    by (auto split: if_splits option.splits family.splits)
  then show ?thesis
  proof cases
    case 1
    then have "opcode_frame CmdSetPowerDS3Unicast SubMaxPowerDS3 f"
      using encodeProtectionDS3_frames assms(2) by fastforce
    then show ?thesis by (rule opcode_frame_accepted) (simp add: gate_consts)
  next
    case 2
    then have "qs1_frames_ok p CmdSetPowerQS1Unicast fs" by (rule encodeProtectionQS1A_frames)
    then have "yc600_frame f \<or> opcode_frame CmdSetPowerQS1Unicast SubMaxPowerQS1 f"
      using assms(2) by (auto simp: qs1_frames_ok_def split: if_splits)
    then show ?thesis
      using yc600_frame_accepted opcode_frame_accepted by (fastforce simp: gate_consts)
  qed
qed

lemma broadcast_accepted:
  assumes "EncodeSetProtectionBroadcast cv m p v = Inr fs" and "f \<in> set fs"
  shows "validateFrame f = None \<and> \<not> isUnicastOnlyCmd f"
proof -
  have ok: "validateFrame f = None \<and> \<not> isUnicastOnlyCmd f"
    if "opcode_frame opcode x f" "opcode \<in> {CmdSetPowerDS3Broadcast, CmdSetPowerQS1Broadcast}" for opcode x
    using that opcode_frame_accepted [OF that(1)] by (auto simp: opcode_frame_def gate_consts)
  consider "encodeProtectionDS3 cv p v CmdSetPowerDS3Broadcast = Inr fs"
    | "encodeProtectionQS1A cv p v CmdSetPowerQS1Broadcast = Inr fs" "\<not> isQS1YC600BuilderParam p"
    using assms(1) unfolding EncodeSetProtectionBroadcast_family
    by (auto split: if_splits option.splits family.splits)
  then show ?thesis
  proof cases
    case 1
    then have "opcode_frame CmdSetPowerDS3Broadcast SubMaxPowerDS3 f"
      using encodeProtectionDS3_frames assms(2) by fastforce
    then show ?thesis by (rule ok) simp
  next
    case 2
    from 2(1) have "qs1_frames_ok p CmdSetPowerQS1Broadcast fs" by (rule encodeProtectionQS1A_frames)
    then have "opcode_frame CmdSetPowerQS1Broadcast SubMaxPowerQS1 f"
      using assms(2) 2(2) by (auto simp: qs1_frames_ok_def)
    then show ?thesis by (rule ok) simp
  qed
qed

text \<open>
  Every frame the codec builds for a driver command passes the gate (set-power both ways,
  on and off to one inverter, protection both ways, page, info and telemetry queries), a
  broadcast protection frame passes the broadcast rule too, and a broadcast on or off does not
  pass.
\<close>

theorem codec_frames_accepted:
  "(EncodeSetPower cvw m w b = Inr f \<longrightarrow> validateFrame f = None)
   \<and> validateFrame (EncodeOnOff on False) = None \<and> validateFrame (EncodeOnOff on True) = Some RejCmd
   \<and> (EncodeSetProtection cv m p v = Inr fs \<longrightarrow> (\<forall>f \<in> set fs. validateFrame f = None))
   \<and> (EncodeSetProtectionBroadcast cv m p v = Inr gs
        \<longrightarrow> (\<forall>g \<in> set gs. validateFrame g = None \<and> \<not> isUnicastOnlyCmd g))
   \<and> (\<forall>q \<in> set (OutboundInfoQueryL2 # OutboundBBQueryL2 # ProtectionQueryFrames). validateFrame q = None)"
proof (intro conjI)
  show "EncodeSetPower cvw m w b = Inr f \<longrightarrow> validateFrame f = None" using set_power_accepted by blast
  show "validateFrame (EncodeOnOff on False) = None"
    by (auto simp: EncodeOnOff_def Let_def onOffBodyLen_def gate_consts intro!: accept_built)
  have "validateFrame (EncodeOnOff True True) = Some RejCmd" "validateFrame (EncodeOnOff False True) = Some RejCmd"
    by code_simp+
  then show "validateFrame (EncodeOnOff on True) = Some RejCmd" by (cases on) simp_all
  show "EncodeSetProtection cv m p v = Inr fs \<longrightarrow> (\<forall>f \<in> set fs. validateFrame f = None)"
    using protection_accepted by blast
  show "EncodeSetProtectionBroadcast cv m p v = Inr gs
      \<longrightarrow> (\<forall>g \<in> set gs. validateFrame g = None \<and> \<not> isUnicastOnlyCmd g)"
    using broadcast_accepted by blast
  show "\<forall>q \<in> set (OutboundInfoQueryL2 # OutboundBBQueryL2 # ProtectionQueryFrames). validateFrame q = None"
    by (simp add: OutboundInfoQueryL2_def OutboundBBQueryL2_def ProtectionQueryFrames_def protQueryBodyLen_def
        accept_built gate_consts)
qed

lemma codec_frames_accepted_witness: "validateFrame (BuildL2Frame 0xAA [3, 0, 0, 3, 0xD9]) = None"
  using codec_frames_accepted encode_264 by fastforce

section \<open>Where a frame goes\<close>

lemma parse_BuildL1Frame [simp]: "parseOutboundQuerySA (BuildL1Frame sa l2) = Some sa"
  by (simp add: parseOutboundQuerySA_def IsOutboundInverterCmdPrefix_def BuildL1Frame_def Let_def)

lemma drop_BuildL1Frame [simp]: "drop 15 (BuildL1Frame sa l2) = l2"
  by (simp add: BuildL1Frame_def Let_def)

lemma injectL1_injected:
  "cl_injected (injectL1 f c) = cl_injected c @ (if cl_OnSend c = None then [] else [f])"
  "cl_sendOk (injectL1 f c) + cl_sendFail (injectL1 f c) = cl_sendOk c + cl_sendFail c + 1"
  by (auto simp: injectL1_def send_failed_def Let_def split: option.splits)

lemma send_failed_facts [simp]:
  "cl_injected (send_failed c) = cl_injected c" "cl_sendFail (send_failed c) = cl_sendFail c + 1"
  "cl_sendOk (send_failed c) = cl_sendOk c"
  by (simp_all add: send_failed_def)

text \<open>The address a Send resolves to: the one given, or else the one in the book.\<close>

definition target :: "string \<Rightarrow> u32 \<Rightarrow> inventory option \<Rightarrow> u16 option" where
  "target peer rawSA book =
     (if rawSA > 0xFFFF then None
      else if ucast rawSA \<noteq> (0 :: u16) then Some (ucast rawSA)
      else LookupSA peer book)"

text \<open>
  A downstream command is injected at most once and counted exactly once; a Send only when
  its frame passes the gate and an address is known, in an envelope for that address, frame
  unchanged; a Broadcast only for the gate and never for a command that has no broadcast form.
\<close>

theorem dispatch_exact:
  "(\<lambda>c'. cl_injected c' = cl_injected c @
        (case target peer rawSA (cl_Inventory c) of
           None \<Rightarrow> []
         | Some sa \<Rightarrow> if validateFrame l2 = None \<and> cl_OnSend c \<noteq> None then [BuildL1Frame sa l2] else [])
      \<and> cl_sendOk c' + cl_sendFail c' = cl_sendOk c + cl_sendFail c + 1)
     (handleInbound modem (Send peer rawSA l2) c)
   \<and> (\<lambda>c'. cl_injected c' = cl_injected c @
        (if validateFrame l2 = None \<and> \<not> isUnicastOnlyCmd l2 \<and> cl_OnSend c \<noteq> None
         then [BuildL1Frame 0 l2] else [])
      \<and> cl_sendOk c' + cl_sendFail c' = cl_sendOk c + cl_sendFail c + 1)
     (handleInbound modem (Broadcast l2) c)"
  using injectL1_injected
  by (auto simp: handleInbound_def dispatchSend_def dispatchBroadcast_def target_def LookupSA_def
      split: option.splits if_splits)

text \<open>
  After a reply from an inverter has been published, a Send naming that inverter, in any
  letter case and without an address, goes to the short address the reply came from.
\<close>

theorem learned_address:
  assumes "peerUIDFromL1Reply l1 = Some uid" and "to_lower peer = to_lower uid"
    and "cl_Inventory c = Some book" and "cl_OnSend c = Some cb" and "validateFrame l2 = None"
  shows "cl_injected (handleInbound modem (Send peer 0 l2) (RawFrame sa l1 c))
    = cl_injected c @ [BuildL1Frame sa l2]"
proof -
  have "length uid = 12" using assms(1)
    by (auto simp: peerUIDFromL1Reply_def split: if_splits)
  then have ne: "uid \<noteq> []" "peer \<noteq> []" using assms(2) by (auto simp: to_lower_def)
  have enq: "cl_Inventory (Enqueue e c') = cl_Inventory c'" "cl_OnSend (Enqueue e c') = cl_OnSend c'"
    "cl_injected (Enqueue e c') = cl_injected c'" for e c'
    by (simp_all add: Enqueue_def)
  from ne have "cl_Inventory (RawFrame sa l1 c) = Some (book(to_lower uid \<mapsto> sa))"
    using assms(1,3) by (simp add: RawFrame_def Record_def enq)
  then have "LookupSA peer (cl_Inventory (RawFrame sa l1 c)) = Some sa"
    using ne assms(2) by (simp add: LookupSA_def)
  moreover have "cl_OnSend (RawFrame sa l1 c) = Some cb" "cl_injected (RawFrame sa l1 c) = cl_injected c"
    using assms(1,3,4) by (simp_all add: RawFrame_def enq)
  ultimately show ?thesis
    using assms(5) ne by (simp add: handleInbound_def dispatchSend_def injectL1_injected)
qed

definition sample_client :: client where
  "sample_client = \<lparr>cl_Inventory = Some Map.empty, cl_OnSend = Some (\<lambda>_. True), cl_sendOk = 0,
     cl_sendFail = 0, cl_injected = [], cl_Pairing = None, cl_out = [], cl_dropped = 0\<rparr>"

lemma learned_address_witness:
  "cl_injected (handleInbound (\<lambda>_. None) (Send ''80600004258A'' 0 OutboundBBQueryL2)
       (RawFrame 0x1234 [0xFC, 0xFC, 0x12, 0x34, 0, 0, 0x80, 0x60, 0, 4, 0x25, 0x8A] sample_client))
     = [BuildL1Frame 0x1234 OutboundBBQueryL2]"
proof -
  have p: "peerUIDFromL1Reply [0xFC, 0xFC, 0x12, 0x34, 0, 0, 0x80, 0x60, 0, 4, 0x25, 0x8A]
      = Some ''80600004258a''" by code_simp
  have l: "to_lower ''80600004258A'' = to_lower ''80600004258a''" by code_simp
  have v: "validateFrame OutboundBBQueryL2 = None" by code_simp
  show ?thesis
    using learned_address [OF p l _ _ v, where c = sample_client and sa = "0x1234" and modem = "\<lambda>_. None"]
    by (simp add: sample_client_def)
qed

text \<open>
  The gate's rule for broadcasts names the yc600 commands only: a broadcast carrying the
  unicast off command is injected to every inverter, though the broadcast form of the same
  command is refused.
\<close>

theorem broadcast_off_injected:
  assumes "cl_OnSend c = Some cb"
  shows "cl_injected (handleInbound modem (Broadcast (EncodeOnOff False False)) c)
      = cl_injected c @ [BuildL1Frame 0 (EncodeOnOff False False)]
    \<and> cl_injected (handleInbound modem (Broadcast (EncodeOnOff False True)) c) = cl_injected c"
proof -
  have "validateFrame (EncodeOnOff False False) = None" "validateFrame (EncodeOnOff False True) \<noteq> None"
    "\<not> isUnicastOnlyCmd (EncodeOnOff False False)" by code_simp+
  then show ?thesis
    using assms by (simp add: handleInbound_def dispatchBroadcast_def injectL1_injected)
qed

lemma broadcast_off_injected_witness:
  "length (cl_injected (handleInbound (\<lambda>_. None) (Broadcast (EncodeOnOff False False)) sample_client)) = 1"
  using broadcast_off_injected [of sample_client "\<lambda>_. True" "\<lambda>_. None"] by (simp add: sample_client_def)

section \<open>From the socket to the tracker\<close>

text \<open>
  With the tracker as the injector, as the gateway wires it, a Send to a known inverter
  records one query of ours at its address, behind those already waiting there, and a Broadcast
  records none.
\<close>

theorem send_is_tracked:
  assumes "sa \<noteq> 0" and "bt_inj h" and "0 < bt_ResponseTTL h"
    and "InjectTracked now True id (BuildL1Frame sa l2) h = (h', err)"
    and "InjectTracked now True id (BuildL1Frame 0 l2) h = (h'', err')"
  shows "err = None \<and> live now h' = (live now h)(sa := live now h sa @ [True]) \<and> err' = None \<and> h'' = h"
  using assms live_mark [OF assms(3)] by (auto simp: InjectTracked_def Let_def)

lemma send_is_tracked_witness:
  "live 0 (fst (InjectTracked 0 True id (BuildL1Frame 0x1234 OutboundBBQueryL2) (Start (NewBusTrackerHook True))))
     0x1234 = [True]"
proof -
  let ?h = "Start (NewBusTrackerHook True)"
  obtain h' err where a: "InjectTracked 0 True id (BuildL1Frame 0x1234 OutboundBBQueryL2) ?h = (h', err)"
    by fastforce
  obtain h'' err' where b: "InjectTracked 0 True id (BuildL1Frame 0 OutboundBBQueryL2) ?h = (h'', err')"
    by fastforce
  have "live 0 h' = (live 0 ?h)(0x1234 := live 0 ?h 0x1234 @ [True])"
    using send_is_tracked [OF _ _ _ a b] by (simp add: Start_def NewBusTrackerHook_def)
  moreover have "live 0 ?h 0x1234 = []"
    by (simp add: live_def queue_of_def Start_def NewBusTrackerHook_def)
  ultimately show ?thesis unfolding a fst_conv by simp
qed

end
