(* ===== verification/Flow.thy ===== *)
theory Flow
  imports Main "HOL-Library.State_Monad"
begin

text \<open>
  Reasoning about the code's long sequential flows, written in the state monad of the library:
  a weakest precondition that runs a program symbolically, and the vocabulary for the commands a
  flow has issued: a script run to its end, or stopped on the way by the first that failed.
\<close>

section \<open>Weakest preconditions\<close>

definition wp :: "('s, 'a) state \<Rightarrow> ('a \<Rightarrow> 's \<Rightarrow> bool) \<Rightarrow> 's \<Rightarrow> bool" where
  "wp m Q s = (case run_state m s of (a, s') \<Rightarrow> Q a s')"

named_theorems wp_simps \<open>how each program construct transforms its postcondition\<close>

lemma wp_return [wp_simps]: "wp (State_Monad.return a) Q = Q a"
  by (simp add: wp_def fun_eq_iff)

lemma wp_bind [wp_simps]: "wp (State_Monad.bind m f) Q = wp m (\<lambda>a. wp (f a) Q)"
  by (simp add: wp_def fun_eq_iff split: prod.splits)

lemma wp_get [wp_simps]: "wp State_Monad.get Q = (\<lambda>s. Q s s)"
  by (simp add: wp_def fun_eq_iff)

lemma wp_set [wp_simps]: "wp (State_Monad.set s') Q = (\<lambda>s. Q () s')"
  by (simp add: wp_def fun_eq_iff)

lemma wp_update [wp_simps]: "wp (State_Monad.update f) Q = (\<lambda>s. Q () (f s))"
  by (simp add: wp_def State_Monad.update_def fun_eq_iff)

lemma wp_mono: "wp m Q s \<Longrightarrow> (\<And>a s'. Q a s' \<Longrightarrow> R a s') \<Longrightarrow> wp m R s"
  by (auto simp: wp_def split: prod.splits)

lemma wp_triv: "(\<And>a s'. Q a s') \<Longrightarrow> wp m Q s"
  by (simp add: wp_def split: prod.splits)

lemma wp_conj: "wp m Q s \<Longrightarrow> wp m R s \<Longrightarrow> wp m (\<lambda>a s'. Q a s' \<and> R a s') s"
  by (auto simp: wp_def)

lemma wpD: "wp m Q s \<Longrightarrow> run_state m s = (a, s') \<Longrightarrow> Q a s'"
  by (simp add: wp_def)

lemma wpI: "(\<And>a s'. run_state m s = (a, s') \<Longrightarrow> Q a s') \<Longrightarrow> wp m Q s"
  by (auto simp: wp_def split: prod.splits)

section \<open>Scripts\<close>

text \<open>The log of a script of which every command succeeded, and of one that was cut short.\<close>

definition oks :: "'c list \<Rightarrow> ('c \<times> bool) list" where
  "oks cs = map (\<lambda>c. (c, True)) cs"

fun stopped :: "'c list \<Rightarrow> ('c \<times> bool) list \<Rightarrow> bool" where
  "stopped script [] = True"
| "stopped [] (e # t) = False"
| "stopped (c # cs) ((d, ok) # t) = (c = d \<and> (if ok then stopped cs t else t = []))"

lemma oks_simps [simp]:
  "oks [] = []" "oks (c # cs) = (c, True) # oks cs" "oks (xs @ ys) = oks xs @ oks ys"
  "set (oks xs) = (\<lambda>c. (c, True)) ` set xs"
  by (simp_all add: oks_def)

lemma stopped_oks [simp]: "stopped cs (oks cs)"
  by (induction cs) simp_all

lemma stopped_app1: "stopped xs t \<Longrightarrow> stopped (xs @ ys) t"
  by (induction xs t rule: stopped.induct) (auto split: if_splits)

lemma stopped_app2 [simp]: "stopped (xs @ ys) (oks xs @ t) \<longleftrightarrow> stopped ys t"
  by (induction xs) simp_all

lemma stopped_member: "stopped cs t \<Longrightarrow> x \<in> set t \<Longrightarrow> fst x \<in> set cs"
  by (induction cs t rule: stopped.induct) (auto split: if_splits)

text \<open>Once a command of the second part was tried, the first part has run to its end.\<close>

lemma stopped_before:
  "stopped (xs @ ys) t \<Longrightarrow> (y, b) \<in> set t \<Longrightarrow> y \<notin> set xs \<Longrightarrow> \<exists>u. t = oks xs @ u \<and> stopped ys u"
proof (induction xs arbitrary: t)
  case (Cons x xs)
  then obtain ok u where t: "t = (x, ok) # u" by (cases t) auto
  then have ok: ok and u: "stopped (xs @ ys) u" "(y, b) \<in> set u"
    using Cons.prems by (auto split: if_splits)
  from Cons.IH [OF u] Cons.prems(3) show ?case using t ok by auto
qed simp

end
