(* ===== verification/Pairing.thy ===== *)
theory Pairing
  imports Flow PairExec BusLock
begin

text \<open>
  The driver's half of over-the-air pairing (\<open>internal/pairing\<close>): the status record, the command
  transport, and the state machines for scanning, adding, replacing, removing, moving the fleet to
  another PAN and moving it to another channel, written in the state monad in the order the code
  performs its effects.
  The other side of the socket is a parameter: a function from a command and the backend's state to
  its new state and what the driver sees of the reply, which covers a lost reply after the
  command was carried out.  What else the flows ask of their surroundings (is the context
  cancelled, does a write persist, the inventory, profile and label inheritance) is the
  environment.  Every effect goes to one log, so that an order of effects is an order in the log.
  A formatted text is kept as its format and arguments; clock values are left out.
\<close>

section \<open>Texts and errors\<close>

datatype arg = N u32 | S string | Er err
and err =
    ErrCanceled | ErrTimedOut | ErrNotSent | ErrPrimitive "exec_error option"
  | ErrBadPan u32 | ErrBadAddr string u32 | ErrNotJoined string | ErrNoChannel | ErrPersist
  | ErrStore | ErrInherit | Wrap string "arg list" err

type_synonym msg = "string \<times> arg list"

abbreviation plain :: "string \<Rightarrow> msg" where "plain s \<equiv> (s, [])"

text \<open>\<open>errors.Is(err, context.Canceled)\<close>.\<close>

fun is_canceled :: "err \<Rightarrow> bool" where
  "is_canceled ErrCanceled = True"
| "is_canceled (Wrap f args e) = is_canceled e"
| "is_canceled _ = False"

section \<open>The status\<close>

datatype stage =
    StageNone | StageScan | StageBind | StageMigrate | StageConfigure | StageRekey | StageChannel
  | StageRemove | StageEvict | StageDelete | StageDone | StageAborted | StageError

datatype pop = OpNone | OpScan | OpAdd | OpReplace | OpRekey | OpChannel | OpRemove

record PerInverter =
  pi_Serial :: string
  pi_ShortAddr :: u32
  pi_State :: string
  pi_Encrypted :: bool

record PairingStatus =
  ps_Op :: pop
  ps_Stage :: stage
  ps_Total :: nat
  ps_Done :: nat
  ps_CurrentSerial :: string
  ps_Substep :: msg
  ps_Sweep :: "u32 \<times> u32 \<times> u32"
  ps_PerInverter :: "PerInverter list"
  ps_Message :: msg
  ps_Evicted :: bool
  ps_Error :: msg

definition begin_status :: "pop \<Rightarrow> stage \<Rightarrow> nat \<Rightarrow> PairingStatus" where
  "begin_status oper stage n =
     \<lparr>ps_Op = oper, ps_Stage = stage, ps_Total = n, ps_Done = 0, ps_CurrentSerial = [],
      ps_Substep = plain [], ps_Sweep = (0, 0, 0), ps_PerInverter = [], ps_Message = plain [],
      ps_Evicted = False, ps_Error = plain []\<rparr>"

definition setStage :: "stage \<Rightarrow> msg \<Rightarrow> PairingStatus \<Rightarrow> PairingStatus" where
  "setStage stage substep s = s\<lparr>ps_Stage := stage, ps_Substep := substep\<rparr>"

definition finishError :: "msg \<Rightarrow> PairingStatus \<Rightarrow> PairingStatus" where
  "finishError msg s = s\<lparr>ps_Stage := StageError, ps_Error := msg\<rparr>"

definition finishAborted :: "PairingStatus \<Rightarrow> PairingStatus" where
  "finishAborted s = s\<lparr>ps_Stage := StageAborted, ps_Message := plain ''aborted by operator''\<rparr>"

definition finishDone :: "msg \<Rightarrow> PairingStatus \<Rightarrow> PairingStatus" where
  "finishDone msg s = s\<lparr>ps_Stage := StageDone, ps_Done := ps_Total s, ps_Message := msg\<rparr>"

definition merge_inverter :: "PerInverter \<Rightarrow> PerInverter \<Rightarrow> PerInverter" where
  "merge_inverter pi old =
     old\<lparr>pi_ShortAddr := (if pi_ShortAddr pi \<noteq> 0 then pi_ShortAddr pi else pi_ShortAddr old),
        pi_State := (if pi_State pi \<noteq> [] then pi_State pi else pi_State old),
        pi_Encrypted := pi_Encrypted pi\<rparr>"

fun upsert_list :: "PerInverter \<Rightarrow> PerInverter list \<Rightarrow> PerInverter list" where
  "upsert_list pi [] = [pi]"
| "upsert_list pi (x # xs) =
     (if pi_Serial x = pi_Serial pi then merge_inverter pi x # xs else x # upsert_list pi xs)"

definition upsertInverter :: "PerInverter \<Rightarrow> PairingStatus \<Rightarrow> PairingStatus" where
  "upsertInverter pi s = s\<lparr>ps_PerInverter := upsert_list pi (ps_PerInverter s)\<rparr>"

definition setInverterState :: "string \<Rightarrow> string \<Rightarrow> PairingStatus \<Rightarrow> PairingStatus" where
  "setInverterState serial state =
     upsertInverter \<lparr>pi_Serial = serial, pi_ShortAddr = 0, pi_State = state, pi_Encrypted = False\<rparr>"

section \<open>The world of a flow\<close>

datatype reply = Replied PairingCmdResult | NotSent | TimedOut | CtxDone

datatype effect =
    Cmd pairing_op bool
  | Milestone string string msg
  | SavePAN u32 bool
  | SaveChannel u32 bool
  | StoreShortAddr string u16 bool
  | StoreState string string
  | StoreEncrypted string bool
  | DeleteRows string bool
  | NotifyRemoved string
  | InheritProfile string string bool
  | InheritName string string bool

text \<open>
  \<open>e_cancelled\<close> and \<open>e_writes\<close> answer the n-th look at the context and the n-th write;
  the optional collaborators are None when they are nil.
\<close>

record 'g env =
  e_link :: "u64 \<Rightarrow> pairing_op \<Rightarrow> 'g \<Rightarrow> 'g \<times> reply"
  e_cancelled :: "nat \<Rightarrow> bool"
  e_writes :: "nat \<Rightarrow> bool"
  e_transport :: bool
  e_settings :: bool
  e_store :: bool
  e_currentChannel :: "u32 option"
  e_list :: "string list option"
  e_profiles :: "(string \<Rightarrow> string \<Rightarrow> string option) option"
  e_names :: "(string \<Rightarrow> string \<Rightarrow> bool option) option"

record 'g world =
  w_gw :: 'g
  w_reqSeq :: u64
  w_looks :: nat
  w_writes :: nat
  w_status :: PairingStatus
  w_lock :: lock
  w_running :: bool
  w_log :: "effect list"

type_synonym ('g, 'a) flow = "('g world, 'a) state"

definition status :: "(PairingStatus \<Rightarrow> PairingStatus) \<Rightarrow> ('g, unit) flow" where
  "status f = State_Monad.update (\<lambda>w. w\<lparr>w_status := f (w_status w)\<rparr>)"

definition emit :: "effect \<Rightarrow> ('g, unit) flow" where
  "emit e = State_Monad.update (\<lambda>w. w\<lparr>w_log := w_log w @ [e]\<rparr>)"

definition milestone :: "string \<Rightarrow> string \<Rightarrow> msg \<Rightarrow> ('g, unit) flow" where
  "milestone uid kind detail = emit (Milestone uid kind detail)"

definition ctx_done :: "'g env \<Rightarrow> ('g, bool) flow" where
  "ctx_done E = do {
     w \<leftarrow> State_Monad.get;
     State_Monad.set (w\<lparr>w_looks := w_looks w + 1\<rparr>);
     State_Monad.return (e_cancelled E (w_looks w))
   }"

definition persist :: "'g env \<Rightarrow> (bool \<Rightarrow> effect) \<Rightarrow> ('g, bool) flow" where
  "persist E eff = do {
     w \<leftarrow> State_Monad.get;
     let ok = e_writes E (w_writes w);
     State_Monad.set (w\<lparr>w_writes := w_writes w + 1, w_log := w_log w @ [eff ok]\<rparr>);
     State_Monad.return ok
   }"

section \<open>The transport\<close>

definition read_reply :: "reply \<Rightarrow> err + PairingCmdResult" where
  "read_reply r =
     (case r of
        Replied res \<Rightarrow> if pr_Ok res then Inr res else Inl (ErrPrimitive (pr_Error res))
      | NotSent \<Rightarrow> Inl ErrNotSent
      | TimedOut \<Rightarrow> Inl ErrTimedOut
      | CtxDone \<Rightarrow> Inl ErrCanceled)"

definition transport_do :: "'g env \<Rightarrow> pairing_op \<Rightarrow> ('g, err + PairingCmdResult) flow" where
  "transport_do E cmd = do {
     w \<leftarrow> State_Monad.get;
     let n = w_reqSeq w + 1;
     let (g, r) = e_link E n cmd (w_gw w);
     let res = read_reply r;
     State_Monad.set (w\<lparr>w_gw := g, w_reqSeq := n, w_log := w_log w @ [Cmd cmd (\<not> isl res)]\<rparr>);
     State_Monad.return res
   }"

definition err_only :: "'e + 'a \<Rightarrow> 'e option" where
  "err_only x = (case x of Inl e \<Rightarrow> Some e | Inr _ \<Rightarrow> None)"

definition cmd_err :: "'g env \<Rightarrow> pairing_op \<Rightarrow> ('g, err option) flow" where
  "cmd_err E cmd = do { r \<leftarrow> transport_do E cmd; State_Monad.return (err_only r) }"

definition setModulePan :: "'g env \<Rightarrow> u32 \<Rightarrow> u32 \<Rightarrow> ('g, err option) flow" where
  "setModulePan E pan ch = cmd_err E (SetModulePan pan ch)"

definition reportScan :: "'g env \<Rightarrow> u32 \<Rightarrow> ('g, err + FoundInverter list) flow" where
  "reportScan E ms = do {
     r \<leftarrow> transport_do E (ReportScan ms);
     State_Monad.return (map_sum id pr_Found r)
   }"

definition getShortAddr :: "'g env \<Rightarrow> string \<Rightarrow> ('g, err + u16) flow" where
  "getShortAddr E serial = do {
     r \<leftarrow> transport_do E (GetShortAddr serial);
     State_Monad.return (case r of
         Inl e \<Rightarrow> Inl e
       | Inr res \<Rightarrow> if pr_ShortAddr res > 0xFFFF then Inl (ErrBadAddr serial (pr_ShortAddr res))
                    else Inr (ucast (pr_ShortAddr res)))
   }"

definition setInvPan :: "'g env \<Rightarrow> string \<Rightarrow> u32 \<Rightarrow> u32 \<Rightarrow> ('g, err option) flow" where
  "setInvPan E serial pan ch = cmd_err E (SetInvPan serial pan ch)"

definition primeInv :: "'g env \<Rightarrow> string \<Rightarrow> u32 \<Rightarrow> u32 \<Rightarrow> ('g, err option) flow" where
  "primeInv E serial pan ch = cmd_err E (PrimeInv serial pan ch)"

definition commitPan :: "'g env \<Rightarrow> u32 \<Rightarrow> u32 \<Rightarrow> ('g, err option) flow" where
  "commitPan E pan ch = cmd_err E (CommitPan pan ch)"

definition bindQuiet :: "'g env \<Rightarrow> u16 \<Rightarrow> ('g, err option) flow" where
  "bindQuiet E sa = cmd_err E (BindQuiet (ucast sa))"

definition getModuleConfig :: "'g env \<Rightarrow> ('g, err + u32 \<times> u32) flow" where
  "getModuleConfig E = do {
     r \<leftarrow> transport_do E GetModulePan;
     State_Monad.return (case r of
         Inl e \<Rightarrow> Inl e
       | Inr res \<Rightarrow> if pr_Pan res = 0 \<or> pr_Pan res > 0xFFFF then Inl (ErrBadPan (pr_Pan res))
                    else Inr (pr_Pan res, pr_Channel res))
   }"

definition getModulePan :: "'g env \<Rightarrow> ('g, err + u32) flow" where
  "getModulePan E = do { r \<leftarrow> getModuleConfig E; State_Monad.return (map_sum id fst r) }"

section \<open>Common steps\<close>

definition defaultChanLo :: u32 where "defaultChanLo = 11"
definition defaultChanHi :: u32 where "defaultChanHi = 26"
definition defaultDwellMs :: u32 where "defaultDwellMs = 2000"
definition fastScanWindowMs :: u32 where "fastScanWindowMs = 3000"
definition maxDwellMs :: u32 where "maxDwellMs = 10000"

definition clampScanWindow :: "u32 \<Rightarrow> u32" where
  "clampScanWindow dwell =
     (if dwell = 0 then defaultDwellMs else if dwell > maxDwellMs then maxDwellMs else dwell)"

definition channelOrCurrent :: "'g env \<Rightarrow> u32 \<Rightarrow> u32 option" where
  "channelOrCurrent E reqChannel =
     (let ch = (if reqChannel = 0 then (case e_currentChannel E of None \<Rightarrow> 0 | Some c \<Rightarrow> c) else reqChannel)
      in if ch = 0 then None else Some ch)"

definition abortedOr :: "'g env \<Rightarrow> ('g, bool) flow" where
  "abortedOr E = do {
     c \<leftarrow> ctx_done E;
     if \<not> c then State_Monad.return False
     else do {
       status finishAborted;
       milestone [] ''pairing_aborted'' (plain []);
       State_Monad.return True
     }
   }"

definition fail :: "err \<Rightarrow> ('g, unit) flow" where
  "fail e =
     (if is_canceled e then do {
        status finishAborted;
        milestone [] ''pairing_aborted'' (plain [])
      } else do {
        status (finishError (''%v'', [Er e]));
        milestone [] ''pairing_error'' (''%v'', [Er e])
      })"

definition restoreModule :: "'g env \<Rightarrow> ('g, unit) flow" where
  "restoreModule E = do {
     e \<leftarrow> setModulePan E 0 0;
     case e of
       None \<Rightarrow> State_Monad.return ()
     | Some err \<Rightarrow>
         status (\<lambda>s. s\<lparr>ps_Message := (''warning: module not restored to operating PAN: %v'', [Er err])\<rparr>)
   }"

definition deleteInverter :: "'g env \<Rightarrow> string \<Rightarrow> ('g, bool) flow" where
  "deleteInverter E uid = do {
     ok \<leftarrow> persist E (DeleteRows uid);
     if ok then do { emit (NotifyRemoved uid); State_Monad.return True } else State_Monad.return False
   }"

text \<open>The uids with a known address; those that are not twelve decimal digits are left out.\<close>

definition fleetSerials :: "'g env \<Rightarrow> string list option" where
  "fleetSerials E = (if e_store E then map_option (filter serialRe) (e_list E) else None)"

end
