(* ===== verification/PairTransport.thy ===== *)
theory PairTransport
  imports Pairing
begin

text \<open>
  The correlation of asynchronous replies in the pairing transport
  (\<open>internal/pairing/transport.go\<close>): calls register a waiter under a fresh request id, the ingest
  loop delivers results, and each call ends by its result, by a timeout or by its context.  The
  critical sections of the code are the operations; the interleavings of callers and the ingest
  loop are the steps.  A call has a channel of its own with room for one result; calls and their
  channels are numbered.
\<close>

section \<open>Operations\<close>

datatype call_state = Waiting | Finished PairingCmdResult | GaveUp

record transport =
  tr_reqSeq :: u64
  tr_waiters :: "u64 \<Rightarrow> nat option"
  tr_chans :: "nat \<Rightarrow> PairingCmdResult list"
  tr_calls :: "(u64 \<times> call_state) list"

definition NewTransport :: transport where
  "NewTransport = \<lparr>tr_reqSeq = 0, tr_waiters = (\<lambda>_. None), tr_chans = (\<lambda>_. []), tr_calls = []\<rparr>"

definition register :: "transport \<Rightarrow> transport" where
  "register t =
     (let reqID = tr_reqSeq t + 1; k = length (tr_calls t)
      in t\<lparr>tr_reqSeq := reqID, tr_waiters := (tr_waiters t)(reqID \<mapsto> k),
           tr_calls := tr_calls t @ [(reqID, Waiting)]\<rparr>)"

definition Deliver :: "PairingCmdResult \<Rightarrow> transport \<Rightarrow> transport \<times> bool" where
  "Deliver res t =
     (case tr_waiters t (pr_ReqId res) of
        None \<Rightarrow> (t, False)
      | Some k \<Rightarrow>
          (t\<lparr>tr_waiters := (tr_waiters t)(pr_ReqId res := None),
             tr_chans := (tr_chans t)(k := tr_chans t k @ [res])\<rparr>, True))"

definition give_up :: "nat \<Rightarrow> transport \<Rightarrow> transport" where
  "give_up k t =
     (let reqID = fst (tr_calls t ! k)
      in t\<lparr>tr_waiters := (tr_waiters t)(reqID := None), tr_calls := (tr_calls t)[k := (reqID, GaveUp)]\<rparr>)"

definition receive :: "nat \<Rightarrow> transport \<Rightarrow> transport" where
  "receive k t = t\<lparr>tr_chans := (tr_chans t)(k := tl (tr_chans t k)),
     tr_calls := (tr_calls t)[k := (fst (tr_calls t ! k), Finished (hd (tr_chans t k)))]\<rparr>"

section \<open>Steps\<close>

inductive tr_step :: "transport \<Rightarrow> transport \<Rightarrow> bool" where
  Call: "tr_step t (register t)"
| Result: "tr_step t (fst (Deliver res t))"
| GiveUp: "k < length (tr_calls t) \<Longrightarrow> snd (tr_calls t ! k) = Waiting \<Longrightarrow> tr_step t (give_up k t)"
| Receive: "k < length (tr_calls t) \<Longrightarrow> snd (tr_calls t ! k) = Waiting \<Longrightarrow> tr_chans t k \<noteq> [] \<Longrightarrow>
    tr_step t (receive k t)"

inductive_cases tr_stepE: "tr_step t t'"

abbreviation tr_steps :: "transport \<Rightarrow> transport \<Rightarrow> bool" where
  "tr_steps \<equiv> tr_step\<^sup>*\<^sup>*"

section \<open>The invariant\<close>

definition id_of :: "nat \<Rightarrow> u64" where
  "id_of k = of_nat (Suc k)"

lemma unat_id_of: "k < 2 ^ 64 - 1 \<Longrightarrow> unat (id_of k) = Suc k"
  unfolding id_of_def unsigned_of_nat of_nat_id by (rule take_bit_nat_eq_self) simp

lemma id_of_inj: "i < 2 ^ 64 - 1 \<Longrightarrow> j < 2 ^ 64 - 1 \<Longrightarrow> id_of i = id_of j \<Longrightarrow> i = j"
  using unat_id_of by (metis nat.inject)

text \<open>Fewer calls than request ids, so that no id is given twice.\<close>

definition room :: "transport \<Rightarrow> bool" where
  "room t \<longleftrightarrow> length (tr_calls t) < 2 ^ 64"

definition call_ok :: "transport \<Rightarrow> nat \<Rightarrow> bool" where
  "call_ok t k \<longleftrightarrow> fst (tr_calls t ! k) = id_of k
     \<and> (case snd (tr_calls t ! k) of
          Waiting \<Rightarrow> (tr_chans t k = [] \<and> tr_waiters t (id_of k) = Some k)
            \<or> (\<exists>r. tr_chans t k = [r] \<and> pr_ReqId r = id_of k \<and> tr_waiters t (id_of k) = None)
        | Finished r \<Rightarrow> pr_ReqId r = id_of k \<and> tr_waiters t (id_of k) = None
        | GaveUp \<Rightarrow> tr_waiters t (id_of k) = None)"

definition correlated :: "transport \<Rightarrow> bool" where
  "correlated t \<longleftrightarrow>
     tr_reqSeq t = of_nat (length (tr_calls t))
     \<and> (\<forall>k < length (tr_calls t). call_ok t k)
     \<and> (\<forall>i k. tr_waiters t i = Some k \<longrightarrow> k < length (tr_calls t) \<and> i = id_of k)
     \<and> (\<forall>k \<ge> length (tr_calls t). tr_chans t k = [])"

lemma correlatedD:
  assumes "correlated t"
  shows "k < length (tr_calls t) \<Longrightarrow> call_ok t k"
    and "tr_waiters t i = Some k \<Longrightarrow> k < length (tr_calls t) \<and> i = id_of k \<and> snd (tr_calls t ! k) = Waiting \<and> tr_chans t k = []"
proof -
  show ok: "call_ok t k" if "k < length (tr_calls t)" for k using assms that by (simp add: correlated_def)
  assume w: "tr_waiters t i = Some k"
  then have "k < length (tr_calls t)" "i = id_of k" using assms by (auto simp: correlated_def)
  with ok [of k] w show "k < length (tr_calls t) \<and> i = id_of k \<and> snd (tr_calls t ! k) = Waiting \<and> tr_chans t k = []"
    by (auto simp: call_ok_def split: call_state.splits)
qed

text \<open>A step that touches one call leaves the others as they are.\<close>

lemma call_ok_frame:
  assumes "call_ok t j" and "tr_calls t' ! j = tr_calls t ! j" and "tr_chans t' j = tr_chans t j"
    and "tr_waiters t' (id_of j) = tr_waiters t (id_of j)"
  shows "call_ok t' j"
  using assms by (simp add: call_ok_def split: call_state.splits)

lemma correlated_touch:
  assumes c: "correlated t" and r: "room t" and k: "k < length (tr_calls t)"
    and "length (tr_calls t') = length (tr_calls t)" "tr_reqSeq t' = tr_reqSeq t"
    and "\<And>j. j \<noteq> k \<Longrightarrow> tr_calls t' ! j = tr_calls t ! j" "\<And>j. j \<noteq> k \<Longrightarrow> tr_chans t' j = tr_chans t j"
    and w: "tr_waiters t' = (tr_waiters t)(id_of k := None)" and ok: "call_ok t' k"
  shows "correlated t'"
proof -
  have "call_ok t' j" if j: "j < length (tr_calls t)" for j
  proof (cases "j = k")
    case False
    then have "id_of j \<noteq> id_of k" using id_of_inj [of j k] j k r by (auto simp: room_def)
    then show ?thesis using call_ok_frame [OF correlatedD(1) [OF c j]] assms(6,7) [OF False] w by simp
  qed (simp add: ok)
  moreover have "tr_waiters t' i = Some m \<Longrightarrow> m < length (tr_calls t) \<and> i = id_of m" for i m
    using w correlatedD(2) [OF c] by (simp split: if_splits)
  moreover have "tr_chans t' j = []" if "length (tr_calls t) \<le> j" for j
    using assms(7) [of j] that k c by (simp add: correlated_def)
  moreover have "tr_reqSeq t' = of_nat (length (tr_calls t))" using assms(5) c by (simp add: correlated_def)
  ultimately show ?thesis unfolding correlated_def assms(4) by blast
qed

lemma correlated_new: "correlated NewTransport"
  by (simp add: correlated_def NewTransport_def)

lemma correlated_register:
  assumes c: "correlated t" and r: "room (register t)"
  shows "correlated (register t)"
proof -
  let ?n = "length (tr_calls t)"
  have new: "tr_reqSeq t + 1 = id_of ?n" using c by (simp add: correlated_def id_of_def)
  have other: "id_of j \<noteq> id_of ?n" if "j < ?n" for j
    using id_of_inj [of j ?n] that r by (auto simp: room_def register_def Let_def)
  have "call_ok (register t) j" if "j < Suc ?n" for j
  proof (cases "j = ?n")
    case True
    then show ?thesis using c new by (simp add: call_ok_def register_def Let_def correlated_def)
  next
    case False
    then have "j < ?n" using that by simp
    then show ?thesis using call_ok_frame [OF correlatedD(1) [OF c]] other new
      by (simp add: register_def Let_def nth_append)
  qed
  moreover have "tr_waiters (register t) i = Some k \<Longrightarrow> k < Suc ?n \<and> i = id_of k" for i k
  proof (cases "i = tr_reqSeq t + 1")
    case False
    moreover assume "tr_waiters (register t) i = Some k"
    ultimately have "tr_waiters t i = Some k" by (simp add: register_def Let_def)
    then show ?thesis using correlatedD(2) [OF c] by fastforce
  next
    case True
    then have "tr_waiters (register t) i = Some ?n" by (simp add: register_def Let_def)
    moreover assume "tr_waiters (register t) i = Some k"
    ultimately have "k = ?n" by simp
    then show ?thesis using True new by (metis lessI)
  qed
  moreover have "length (tr_calls (register t)) = Suc ?n" "tr_reqSeq (register t) = of_nat (Suc ?n)"
    "\<forall>k \<ge> Suc ?n. tr_chans (register t) k = []"
    using c new by (simp_all add: register_def Let_def correlated_def id_of_def)
  ultimately show ?thesis unfolding correlated_def by simp
qed

lemma correlated_Deliver:
  assumes c: "correlated t" and r: "room t"
  shows "correlated (fst (Deliver res t))"
proof (cases "tr_waiters t (pr_ReqId res)")
  case None
  then show ?thesis using c by (simp add: Deliver_def)
next
  case (Some k)
  note k = correlatedD(2) [OF c Some]
  have "fst (tr_calls t ! k) = id_of k" using correlatedD(1) [OF c] k by (simp add: call_ok_def)
  then show ?thesis
    using k Some by (intro correlated_touch [OF c r]) (auto simp: Deliver_def call_ok_def)
qed

lemma correlated_end:
  assumes c: "correlated t" and r: "room t" and k: "k < length (tr_calls t)" "snd (tr_calls t ! k) = Waiting"
  shows "correlated (give_up k t)" and "tr_chans t k \<noteq> [] \<Longrightarrow> correlated (receive k t)"
proof -
  have i: "fst (tr_calls t ! k) = id_of k" using correlatedD(1) [OF c k(1)] by (simp add: call_ok_def)
  show "correlated (give_up k t)"
    using k i by (intro correlated_touch [OF c r k(1)]) (auto simp: give_up_def Let_def call_ok_def)
  assume "tr_chans t k \<noteq> []"
  then obtain res where "tr_chans t k = [res]" "pr_ReqId res = id_of k" "tr_waiters t (id_of k) = None"
    using correlatedD(1) [OF c k(1)] k(2) by (auto simp: call_ok_def)
  then show "correlated (receive k t)"
    using k i by (intro correlated_touch [OF c r k(1)]) (auto simp: receive_def call_ok_def)
qed

lemma step_grows: "tr_step t t' \<Longrightarrow> length (tr_calls t) \<le> length (tr_calls t')"
  by (erule tr_stepE) (auto simp: register_def Deliver_def give_up_def receive_def Let_def split: option.splits)

lemma steps_grow: "tr_steps t t' \<Longrightarrow> length (tr_calls t) \<le> length (tr_calls t')"
  by (induction rule: rtranclp_induct) (auto dest: step_grows)

lemma step_correlated: "tr_step t t' \<Longrightarrow> correlated t \<Longrightarrow> room t' \<Longrightarrow> correlated t'"
proof -
  assume s: "tr_step t t'" and c: "correlated t" and r: "room t'"
  have "room t" using step_grows [OF s] r by (simp add: room_def)
  with s c r show ?thesis
    by (auto elim!: tr_stepE intro: correlated_register correlated_Deliver correlated_end)
qed

lemma reachable_correlated: "tr_steps t t' \<Longrightarrow> correlated t \<Longrightarrow> room t' \<Longrightarrow> correlated t'"
proof (induction rule: rtranclp_induct)
  case (step y z)
  have "room y" using step_grows [OF step.hyps(2)] step.prems(2) by (simp add: room_def)
  then show ?case using step step_correlated by blast
qed

text \<open>
  C34: replies and calls never get mixed up: in every interleaving of callers, deliveries, timeouts
  and aborts (with fewer than 2^64 calls) a call that ends with a result got the result that
  carries its own request id, no two calls have the same id, exactly the calls still waiting and
  not yet answered have a waiter, and a delivery never finds the channel full.
\<close>

theorem replies_correlated:
  assumes "tr_steps NewTransport t" and "room t"
  shows "(\<forall>k < length (tr_calls t). \<forall>r. snd (tr_calls t ! k) = Finished r \<longrightarrow> pr_ReqId r = fst (tr_calls t ! k))
    \<and> distinct (map fst (tr_calls t))
    \<and> dom (tr_waiters t) = fst ` {tr_calls t ! k | k. k < length (tr_calls t) \<and> snd (tr_calls t ! k) = Waiting \<and> tr_chans t k = []}
    \<and> (\<forall>k. tr_waiters t (pr_ReqId res) = Some k \<longrightarrow> tr_chans t k = [])"
proof -
  have c: "correlated t" using reachable_correlated [OF assms(1) correlated_new assms(2)] .
  have id: "fst (tr_calls t ! k) = id_of k" if "k < length (tr_calls t)" for k
    using correlatedD(1) [OF c that] by (simp add: call_ok_def)
  have "distinct (map fst (tr_calls t))"
    using id_of_inj assms(2) by (auto simp: distinct_conv_nth id room_def)
  moreover have "dom (tr_waiters t) = fst ` {tr_calls t ! k | k. k < length (tr_calls t) \<and> snd (tr_calls t ! k) = Waiting \<and> tr_chans t k = []}"
  proof (intro equalityI subsetI)
    fix i assume "i \<in> dom (tr_waiters t)"
    then obtain k where w: "tr_waiters t i = Some k" by blast
    note k = correlatedD(2) [OF c w]
    then have "i = fst (tr_calls t ! k)" using id by simp
    then show "i \<in> fst ` {tr_calls t ! k | k. k < length (tr_calls t) \<and> snd (tr_calls t ! k) = Waiting \<and> tr_chans t k = []}"
      using k by blast
  next
    fix i assume "i \<in> fst ` {tr_calls t ! k | k. k < length (tr_calls t) \<and> snd (tr_calls t ! k) = Waiting \<and> tr_chans t k = []}"
    then obtain k where "k < length (tr_calls t)" "snd (tr_calls t ! k) = Waiting" "tr_chans t k = []" "i = id_of k"
      using id by auto
    then show "i \<in> dom (tr_waiters t)" using correlatedD(1) [OF c, of k] by (auto simp: call_ok_def)
  qed
  moreover have "\<forall>k < length (tr_calls t). \<forall>r. snd (tr_calls t ! k) = Finished r \<longrightarrow> pr_ReqId r = fst (tr_calls t ! k)"
    using correlatedD(1) [OF c] by (force simp: call_ok_def)
  ultimately show ?thesis using correlatedD(2) [OF c] by blast
qed

text \<open>The id of a call that has no waiter any more never gets one again.\<close>

definition spent :: "u64 \<Rightarrow> transport \<Rightarrow> bool" where
  "spent i t \<longleftrightarrow> (\<exists>k < length (tr_calls t). i = id_of k) \<and> tr_waiters t i = None"

lemma spent_step:
  assumes "tr_step t t'" and "spent i t" and "correlated t" and "room t'"
  shows "spent i t'"
proof -
  have "i \<noteq> tr_reqSeq t + 1" if "room (register t)"
  proof -
    obtain k where "k < length (tr_calls t)" "i = id_of k" using assms(2) by (auto simp: spent_def)
    moreover have "tr_reqSeq t + 1 = id_of (length (tr_calls t))" using assms(3) by (simp add: correlated_def id_of_def)
    ultimately show ?thesis using id_of_inj [of k "length (tr_calls t)"] that
      by (auto simp: room_def register_def Let_def)
  qed
  then show ?thesis using assms
    by (auto elim!: tr_stepE simp: spent_def register_def Deliver_def give_up_def receive_def Let_def less_Suc_eq
        split: option.splits)
qed

lemma spent_steps: "tr_steps t t' \<Longrightarrow> spent i t \<Longrightarrow> correlated t \<Longrightarrow> room t' \<Longrightarrow> spent i t'"
proof (induction rule: rtranclp_induct)
  case (step y z)
  have "room y" using step_grows [OF step.hyps(2)] step.prems(3) by (simp add: room_def)
  then show ?case using step spent_step reachable_correlated by blast
qed

text \<open>
  A result is handed on once: after one was delivered for a request id, every later delivery
  for that id is dropped, however many duplicates arrive and whatever happens in between.
\<close>

theorem delivered_once:
  assumes "tr_steps NewTransport t" and "snd (Deliver res t)" and "tr_steps (fst (Deliver res t)) t'" and "room t'"
    and "pr_ReqId res' = pr_ReqId res"
  shows "Deliver res' t' = (t', False)"
proof -
  let ?t1 = "fst (Deliver res t)"
  have grow: "length (tr_calls t) \<le> length (tr_calls ?t1)" "length (tr_calls ?t1) \<le> length (tr_calls t')"
    using step_grows [OF Result] steps_grow [OF assms(3)] by auto
  then have room: "room t" "room ?t1" using assms(4) by (auto simp: room_def)
  have c: "correlated t" using reachable_correlated [OF assms(1) correlated_new room(1)] .
  then have c1: "correlated ?t1" using room(1) by (rule correlated_Deliver)
  obtain k where k: "tr_waiters t (pr_ReqId res) = Some k" using assms(2) by (auto simp: Deliver_def split: option.splits)
  have "spent (pr_ReqId res) ?t1"
    using correlatedD(2) [OF c k] k by (auto simp: spent_def Deliver_def)
  then have "spent (pr_ReqId res) t'" using spent_steps [OF assms(3) _ c1 assms(4)] by simp
  then show ?thesis using assms(5) by (simp add: Deliver_def spent_def)
qed

lemma replies_correlated_witness:
  "snd (tr_calls (receive 0 (fst (Deliver (ok_result 1) (register NewTransport)))) ! 0) = Finished (ok_result 1)
   \<and> distinct (map fst (tr_calls (receive 0 (fst (Deliver (ok_result 1) (register NewTransport))))))"
proof -
  let ?t1 = "register NewTransport" let ?t2 = "fst (Deliver (ok_result 1) ?t1)" let ?t3 = "receive 0 ?t2"
  have d: "?t2 = ?t1\<lparr>tr_waiters := (tr_waiters ?t1)(1 := None), tr_chans := (tr_chans ?t1)(0 := [ok_result 1])\<rparr>"
    by (simp add: Deliver_def register_def NewTransport_def)
  have "tr_step NewTransport ?t1" "tr_step ?t1 ?t2" by (rule Call Result)+
  moreover have "tr_step ?t2 ?t3" unfolding d by (rule Receive) (simp_all add: register_def NewTransport_def)
  ultimately have "tr_steps NewTransport ?t3" by (blast intro: converse_rtranclp_into_rtranclp)
  moreover have "room ?t3" unfolding d by (simp add: room_def receive_def register_def NewTransport_def)
  ultimately have "distinct (map fst (tr_calls ?t3))" using replies_correlated by blast
  moreover have "snd (tr_calls ?t3 ! 0) = Finished (ok_result 1)"
    unfolding d by (simp add: receive_def register_def NewTransport_def)
  ultimately show ?thesis by blast
qed

lemma delivered_once_witness:
  "snd (Deliver (ok_result 1) (fst (Deliver (ok_result 1) (register NewTransport)))) = False"
proof -
  let ?t1 = "register NewTransport" let ?t2 = "fst (Deliver (ok_result 1) ?t1)"
  have "tr_steps NewTransport ?t1" using Call by blast
  moreover have "snd (Deliver (ok_result 1) ?t1)" by (simp add: Deliver_def register_def NewTransport_def)
  moreover have "room ?t2" by (simp add: Deliver_def room_def register_def NewTransport_def)
  ultimately show ?thesis using delivered_once [of ?t1 "ok_result 1" ?t2 "ok_result 1"] by simp
qed

end
