(* ===== verification/PairFlows.thy ===== *)
theory PairFlows
  imports Pairing
begin

text \<open>
  The pairing operations of the driver (\<open>internal/pairing\<close>: \<open>statemachine.go\<close>, \<open>rekey.go\<close>,
  \<open>channel.go\<close>, \<open>remove.go\<close> and the shared parts of \<open>pairing.go\<close>): for each operation its request
  checks, the claim of the bus and the body, over the vocabulary of theory \<open>Pairing\<close>.
  A sweep over channels counts a 32-bit variable up to the requested bound and is given fuel; the
  composition with the gateway shows how much is enough.
\<close>

section \<open>Starting an operation\<close>

datatype response = Started | Snapshot PairingStatus | NothingRunning | Refused msg | BusBusy string

definition lockOwner :: string where "lockOwner = ''pairing''"

text \<open>
  \<open>AcquirePriority\<close> as one step: the polite holder is revoked, the attempt that decides (the
  first on a free bus, the last before the deadline on a taken one), and the request withdrawn.
\<close>

definition acquire_bus :: "lock \<Rightarrow> lock \<times> bool \<times> string" where
  "acquire_bus l = priority_attempt lockOwner (l\<lparr>lk_yield := None\<rparr>)"

definition set_lock :: "lock \<Rightarrow> bool \<Rightarrow> ('g, unit) flow" where
  "set_lock l running = State_Monad.update (\<lambda>w. w\<lparr>w_lock := l, w_running := running\<rparr>)"

definition release_bus :: "('g, unit) flow" where
  "release_bus = State_Monad.update (\<lambda>w. w\<lparr>w_lock := Release (w_lock w), w_running := False\<rparr>)"

definition startOp :: "pop \<Rightarrow> stage \<Rightarrow> nat \<Rightarrow> ('g, unit) flow \<Rightarrow> ('g, response) flow" where
  "startOp oper stage n body = do {
     w \<leftarrow> State_Monad.get;
     if w_running w then State_Monad.return (Refused (plain ''a pairing op is already running''))
     else case acquire_bus (w_lock w) of
       (l, False, blocker) \<Rightarrow> do { set_lock l False; State_Monad.return (BusBusy blocker) }
     | (l, True, _) \<Rightarrow> do {
         set_lock l True;
         status (\<lambda>_. begin_status oper stage n);
         body;
         release_bus;
         State_Monad.return Started
       }
   }"

section \<open>Scan\<close>

fun merge_found :: "FoundInverter \<Rightarrow> FoundInverter list \<Rightarrow> FoundInverter list" where
  "merge_found fi [] = [fi]"
| "merge_found fi (x # xs) = (if fi_Serial x = fi_Serial fi then fi # xs else x # merge_found fi xs)"

primrec sweep_loop ::
  "'g env \<Rightarrow> u32 \<Rightarrow> u32 \<Rightarrow> u32 \<Rightarrow> nat \<Rightarrow> u32 \<Rightarrow> FoundInverter list
     \<Rightarrow> ('g, (err + FoundInverter list) option) flow" where
  "sweep_loop E chLo chHi dwell 0 = (\<lambda>ch acc. State_Monad.return None)"
| "sweep_loop E chLo chHi dwell (Suc n) = (\<lambda>ch acc.
     if \<not> ch \<le> chHi then State_Monad.return (Some (Inr acc))
     else do {
       c \<leftarrow> ctx_done E;
       if c then State_Monad.return (Some (Inl ErrCanceled))
       else do {
         status (\<lambda>s. s\<lparr>ps_Sweep := (ch, chLo, chHi), ps_Substep := (''sweep channel %d'', [N ch])\<rparr>);
         e \<leftarrow> setModulePan E 0xFFFF ch;
         case e of
           Some err \<Rightarrow> State_Monad.return (Some (Inl (Wrap ''set module pan ch=%d: %w'' [N ch] err)))
         | None \<Rightarrow> do {
             r \<leftarrow> reportScan E dwell;
             case r of
               Inl err \<Rightarrow> State_Monad.return (Some (Inl (Wrap ''report scan ch=%d: %w'' [N ch] err)))
             | Inr found \<Rightarrow> sweep_loop E chLo chHi dwell n (ch + 1) (fold merge_found found acc)
           }
       }
     })"

definition sweepScan ::
  "'g env \<Rightarrow> nat \<Rightarrow> u32 \<Rightarrow> u32 \<Rightarrow> u32 \<Rightarrow> ('g, (err + FoundInverter list) option) flow" where
  "sweepScan E fuel chLo chHi dwell = do {
     r \<leftarrow> sweep_loop E chLo chHi dwell fuel chLo [];
     if r = None then State_Monad.return None
     else do { restoreModule E; State_Monad.return r }
   }"

definition fastScan :: "'g env \<Rightarrow> u32 \<Rightarrow> ('g, err + FoundInverter list) flow" where
  "fastScan E ch = do {
     status (setStage StageScan (plain ''park on rendezvous PAN''));
     e \<leftarrow> setModulePan E 0xFFFF ch;
     case e of
       Some err \<Rightarrow> State_Monad.return (Inl err)
     | None \<Rightarrow> do {
         status (\<lambda>s. s\<lparr>ps_Sweep := (ch, ch, ch), ps_Substep := plain ''report-id scan''\<rparr>);
         r \<leftarrow> reportScan E fastScanWindowMs;
         restoreModule E;
         State_Monad.return r
       }
   }"

primrec recordFound :: "'g env \<Rightarrow> FoundInverter list \<Rightarrow> ('g, unit) flow" where
  "recordFound E [] = State_Monad.return ()"
| "recordFound E (fi # fis) =
     (if \<not> serialRe (fi_Serial fi) then recordFound E fis
      else do {
        status (upsertInverter \<lparr>pi_Serial = fi_Serial fi, pi_ShortAddr = fi_ShortAddr fi,
                  pi_State = ''found'', pi_Encrypted = fi_Encrypted fi\<rparr>);
        (if e_store E then do {
          emit (StoreState (fi_Serial fi) ''found'');
          emit (StoreEncrypted (fi_Serial fi) (fi_Encrypted fi))
        } else State_Monad.return ());
        milestone (fi_Serial fi) ''inverter_found''
          (if fi_Encrypted fi then plain ''encrypted=true'' else plain ''encrypted=false'');
        recordFound E fis
      })"

definition scanDetail :: "bool \<Rightarrow> u32 \<Rightarrow> u32 \<Rightarrow> msg" where
  "scanDetail slow chLo chHi =
     (if slow then (''slow sweep ch %d-%d on PAN 0xFFFF'', [N chLo, N chHi])
      else plain ''fast scan on PAN 0xFFFF'')"

definition runScan :: "'g env \<Rightarrow> nat \<Rightarrow> bool \<Rightarrow> u32 \<Rightarrow> u32 \<Rightarrow> u32 \<Rightarrow> u32 \<Rightarrow> ('g, unit) flow" where
  "runScan E fuel slow ch chLo chHi dwell = do {
     milestone [] ''scan_started'' (scanDetail slow chLo chHi);
     r \<leftarrow> (if slow then sweepScan E fuel chLo chHi dwell
          else do { x \<leftarrow> fastScan E ch; State_Monad.return (Some x) });
     case r of
       None \<Rightarrow> State_Monad.return ()
     | Some found \<Rightarrow> do {
         a \<leftarrow> abortedOr E;
         if a then State_Monad.return ()
         else case found of
           Inl err \<Rightarrow> fail (Wrap ''scan: %w'' [] err)
         | Inr fis \<Rightarrow> do {
             recordFound E fis;
             status (finishDone (''scan complete: %d inverter(s) found'', [N (of_nat (length fis))]))
           }
       }
   }"

definition startScan :: "'g env \<Rightarrow> nat \<Rightarrow> bool \<Rightarrow> u32 \<Rightarrow> u32 \<Rightarrow> u32 \<Rightarrow> ('g, response) flow" where
  "startScan E fuel slow lo hi dwell0 =
     (if \<not> e_transport E then State_Monad.return (Refused (plain ''scan: transport not configured''))
      else let chLo = (if lo = 0 then defaultChanLo else lo);
               chHi = (if hi = 0 then defaultChanHi else hi);
               dwell = clampScanWindow dwell0
      in case channelOrCurrent E 0 of
           None \<Rightarrow> State_Monad.return (Refused (''scan: %v'', [Er ErrNoChannel]))
         | Some ch \<Rightarrow> startOp OpScan StageScan 0 (runScan E fuel slow ch chLo chHi dwell))"

section \<open>Bind and migrate\<close>

definition migrate_body :: "'g env \<Rightarrow> string \<Rightarrow> u32 \<Rightarrow> u32 \<Rightarrow> ('g, err option) flow" where
  "migrate_body E serial pan ch = do {
     e1 \<leftarrow> setModulePan E 0xFFFF ch;
     case e1 of
       Some err \<Rightarrow> State_Monad.return (Some (Wrap ''module to 0xFFFF: %w'' [] err))
     | None \<Rightarrow> do {
         status (setStage StageMigrate (plain ''prime inverter''));
         e2 \<leftarrow> primeInv E serial pan ch;
         case e2 of
           Some err \<Rightarrow> State_Monad.return (Some (Wrap ''prime: %w'' [] err))
         | None \<Rightarrow> do {
             status (setStage StageMigrate (plain ''commit PAN''));
             e3 \<leftarrow> commitPan E pan ch;
             case e3 of
               Some err \<Rightarrow> State_Monad.return (Some (Wrap ''commit: %w'' [] err))
             | None \<Rightarrow> do {
                 c \<leftarrow> ctx_done E;
                 if c then State_Monad.return (Some ErrCanceled)
                 else do {
                   milestone serial ''migrate_ok'' (''pan=0x%04X ch=%d'', [N pan, N ch]);
                   State_Monad.return None
                 }
               }
           }
       }
   }"

definition migrateOne :: "'g env \<Rightarrow> string \<Rightarrow> u32 \<Rightarrow> u32 \<Rightarrow> ('g, err option) flow" where
  "migrateOne E serial pan ch = do {
     status (setStage StageMigrate (plain ''rendezvous on PAN 0xFFFF''));
     status (setInverterState serial ''migrating'');
     r \<leftarrow> migrate_body E serial pan ch;
     restoreModule E;
     State_Monad.return r
   }"

definition bind_found :: "'g env \<Rightarrow> string \<Rightarrow> u16 \<Rightarrow> ('g, err option) flow" where
  "bind_found E serial sa =
     (if sa = 0 then State_Monad.return (Some (ErrNotJoined serial))
      else do {
        status (upsertInverter \<lparr>pi_Serial = serial, pi_ShortAddr = ucast sa, pi_State = ''bound'',
                  pi_Encrypted = False\<rparr>);
        ok \<leftarrow> (if e_store E then persist E (StoreShortAddr serial sa) else State_Monad.return True);
        if \<not> ok then State_Monad.return (Some (Wrap ''persist short addr: %w'' [] ErrStore))
        else do {
          (if e_store E then emit (StoreState serial ''bound'') else State_Monad.return ());
          status (setStage StageBind (plain ''bind quiet''));
          e \<leftarrow> bindQuiet E sa;
          case e of
            Some err \<Rightarrow> State_Monad.return (Some (Wrap ''bind quiet: %w'' [] err))
          | None \<Rightarrow> do {
              milestone serial ''bind_ok'' (''short_addr=0x%04X'', [N (ucast sa)]);
              State_Monad.return None
            }
        }
      })"

definition bindAndMigrate :: "'g env \<Rightarrow> string \<Rightarrow> ('g, err option) flow" where
  "bindAndMigrate E serial = do {
     p \<leftarrow> getModulePan E;
     case p of
       Inl e \<Rightarrow> State_Monad.return (Some (Wrap ''operating PAN: %w'' [] e))
     | Inr pan \<Rightarrow>
         (case channelOrCurrent E 0 of
            None \<Rightarrow> State_Monad.return (Some ErrNoChannel)
          | Some ch \<Rightarrow> do {
              status (setStage StageBind (plain ''query short address''));
              q \<leftarrow> getShortAddr E serial;
              case q of
                Inr sa \<Rightarrow> bind_found E serial sa
              | Inl _ \<Rightarrow> do {
                  m \<leftarrow> migrateOne E serial pan ch;
                  case m of
                    Some e \<Rightarrow> State_Monad.return (Some (Wrap ''migrate: %w'' [] e))
                  | None \<Rightarrow> do {
                      status (setStage StageBind (plain ''re-query short address''));
                      q2 \<leftarrow> getShortAddr E serial;
                      case q2 of
                        Inl e \<Rightarrow> State_Monad.return (Some (Wrap ''get short addr after migrate: %w'' [] e))
                      | Inr sa \<Rightarrow> bind_found E serial sa
                    }
                }
            })
   }"

section \<open>Add and replace\<close>

definition runAdd :: "'g env \<Rightarrow> string \<Rightarrow> ('g, unit) flow" where
  "runAdd E serial = do {
     status (\<lambda>s. s\<lparr>ps_CurrentSerial := serial\<rparr>);
     status (upsertInverter \<lparr>pi_Serial = serial, pi_ShortAddr = 0, pi_State = ''binding'', pi_Encrypted = False\<rparr>);
     r \<leftarrow> bindAndMigrate E serial;
     case r of
       Some err \<Rightarrow> do {
         a \<leftarrow> abortedOr E;
         if a then State_Monad.return () else fail (Wrap ''add %s: %w'' [S serial] err)
       }
     | None \<Rightarrow> do {
         status (\<lambda>s. s\<lparr>ps_Done := 1\<rparr>);
         status (finishDone (''inverter added: %s'', [S serial]))
       }
   }"

definition startAdd :: "'g env \<Rightarrow> string \<Rightarrow> ('g, response) flow" where
  "startAdd E serial =
     (if \<not> serialRe serial
      then State_Monad.return (Refused (''add: serial %q is not 12 decimal digits'', [S serial]))
      else if \<not> e_transport E then State_Monad.return (Refused (plain ''add: transport not configured''))
      else if channelOrCurrent E 0 = None then State_Monad.return (Refused (''add: %v'', [Er ErrNoChannel]))
      else startOp OpAdd StageBind 1 (runAdd E serial))"

definition uidRe :: "string \<Rightarrow> bool" where
  "uidRe s \<longleftrightarrow> length s = 12 \<and> list_all (\<lambda>c. hex_digit_value c \<noteq> None) s"

definition inherit_profile :: "'g env \<Rightarrow> string \<Rightarrow> string \<Rightarrow> ('g, string option) flow" where
  "inherit_profile E oldUID newSerial =
     (case e_profiles E of
        None \<Rightarrow> State_Monad.return (Some ''config inherited'')
      | Some f \<Rightarrow> do {
          let r = f oldUID newSerial;
          emit (InheritProfile oldUID newSerial (r \<noteq> None));
          State_Monad.return (map_option (\<lambda>s. if s = [] then ''config inherited'' else s) r)
        })"

definition inherit_name :: "'g env \<Rightarrow> string \<Rightarrow> string \<Rightarrow> ('g, bool option) flow" where
  "inherit_name E oldUID newSerial =
     (case e_names E of
        None \<Rightarrow> State_Monad.return (Some False)
      | Some f \<Rightarrow> do {
          let r = f oldUID newSerial;
          emit (InheritName oldUID newSerial (r \<noteq> None));
          State_Monad.return r
        })"

definition runReplace :: "'g env \<Rightarrow> string \<Rightarrow> string \<Rightarrow> ('g, unit) flow" where
  "runReplace E oldUID newSerial = do {
     status (\<lambda>s. s\<lparr>ps_CurrentSerial := newSerial\<rparr>);
     status (upsertInverter \<lparr>pi_Serial = newSerial, pi_ShortAddr = 0, pi_State = ''binding'', pi_Encrypted = False\<rparr>);
     r \<leftarrow> bindAndMigrate E newSerial;
     case r of
       Some err \<Rightarrow> do {
         a \<leftarrow> abortedOr E;
         if a then State_Monad.return () else fail (Wrap ''replace %s: %w'' [S newSerial] err)
       }
     | None \<Rightarrow> do {
         status (setStage StageConfigure (plain ''inherit grid profile''));
         status (setInverterState newSerial ''configuring'');
         p \<leftarrow> inherit_profile E oldUID newSerial;
         case p of
           None \<Rightarrow> fail (Wrap ''replace %s: inherit profile: %w'' [S newSerial] ErrInherit)
         | Some summary \<Rightarrow> do {
             n \<leftarrow> inherit_name E oldUID newSerial;
             case n of
               None \<Rightarrow> fail (Wrap ''replace %s: inherit label: %w'' [S newSerial] ErrInherit)
             | Some moved \<Rightarrow> do {
                 ok \<leftarrow> (if e_store E then deleteInverter E oldUID else State_Monad.return True);
                 if \<not> ok then fail (Wrap ''replace: retire old unit %s: %w'' [S oldUID] ErrStore)
                 else do {
                   status (setInverterState newSerial ''configured'');
                   status (\<lambda>s. s\<lparr>ps_Done := 1\<rparr>);
                   status (finishDone (''replaced %s with %s (%s); re-apply power cap if needed'',
                     [S oldUID, S newSerial, S (summary @ (if moved then ''; label inherited'' else []))]))
                 }
               }
           }
       }
   }"

definition startReplace :: "'g env \<Rightarrow> string \<Rightarrow> string \<Rightarrow> ('g, response) flow" where
  "startReplace E oldUID newSerial =
     (if \<not> uidRe oldUID then State_Monad.return (Refused (''replace: old_uid %q invalid'', [S oldUID]))
      else if newSerial = []
        then State_Monad.return (Refused (plain ''replace: new_serial is required (scan-to-find not yet implemented)''))
      else if \<not> serialRe newSerial
        then State_Monad.return (Refused (''replace: new_serial %q is not 12 decimal digits'', [S newSerial]))
      else if \<not> e_transport E then State_Monad.return (Refused (plain ''replace: transport not configured''))
      else if channelOrCurrent E 0 = None then State_Monad.return (Refused (''replace: %v'', [Er ErrNoChannel]))
      else startOp OpReplace StageBind 1 (runReplace E oldUID newSerial))"

end
