(* ===== verification/PairFleet.thy ===== *)
theory PairFleet
  imports PairFlows
begin

text \<open>
  Moving the whole fleet (\<open>internal/pairing\<close>: \<open>rekey.go\<close>, \<open>channel.go\<close>) and removing an inverter
  (\<open>remove.go\<close>), the verification that follows a move (\<open>rebindVerify\<close>), and the dispatch of a
  request.  Theory \<open>PairProofs\<close> holds what is shown of them.
\<close>

section \<open>Verification after a move\<close>

text \<open>\<open>verified\<close> holds the serials that answered, with their addresses, in order.\<close>

primrec verifyPass ::
  "'g env \<Rightarrow> string list \<Rightarrow> (string \<times> u16) list \<Rightarrow> ('g, (string \<times> u16) list) flow" where
  "verifyPass E [] = (\<lambda>verified. State_Monad.return verified)"
| "verifyPass E (s # ss) = (\<lambda>verified.
     if s \<in> fst ` set verified then verifyPass E ss verified
     else do {
       c \<leftarrow> ctx_done E;
       if c then State_Monad.return verified
       else do {
         status (\<lambda>st. st\<lparr>ps_CurrentSerial := s, ps_Substep := (''verify %s'', [S s]), ps_Done := length verified\<rparr>);
         r \<leftarrow> getShortAddr E s;
         case r of
           Inl _ \<Rightarrow> verifyPass E ss verified
         | Inr sa \<Rightarrow>
             if sa = 0 then verifyPass E ss verified
             else do {
               (if e_store E then do {
                  _ \<leftarrow> persist E (StoreShortAddr s sa);
                  emit (StoreState s ''bound'')
                } else State_Monad.return ());
               status (upsertInverter \<lparr>pi_Serial = s, pi_ShortAddr = ucast sa, pi_State = ''verified'',
                         pi_Encrypted = False\<rparr>);
               verifyPass E ss (verified @ [(s, sa)])
             }
       }
     })"

definition verifyRetries :: nat where "verifyRetries = 2"

primrec verify_retries ::
  "'g env \<Rightarrow> string list \<Rightarrow> nat \<Rightarrow> (string \<times> u16) list \<Rightarrow> ('g, (string \<times> u16) list) flow" where
  "verify_retries E serials 0 = (\<lambda>verified. State_Monad.return verified)"
| "verify_retries E serials (Suc n) = (\<lambda>verified.
     if \<not> length verified < length serials then State_Monad.return verified
     else do {
       c \<leftarrow> ctx_done E;
       if c then State_Monad.return verified
       else do {
         v \<leftarrow> verifyPass E serials verified;
         verify_retries E serials n v
       }
     })"

record rebindTemplates =
  rt_stage :: stage
  rt_errKind :: string
  rt_partialErr :: "u32 \<Rightarrow> u32 \<Rightarrow> msg"
  rt_partialMsg :: "u32 \<Rightarrow> u32 \<Rightarrow> msg"
  rt_done :: "u32 \<Rightarrow> u32 \<Rightarrow> msg"

definition mark_unverified :: "string list \<Rightarrow> (string \<times> u16) list \<Rightarrow> PairingStatus \<Rightarrow> PairingStatus" where
  "mark_unverified serials verified =
     fold (\<lambda>s. setInverterState s ''unverified'') (filter (\<lambda>s. s \<notin> fst ` set verified) serials)"

definition rebindVerify :: "'g env \<Rightarrow> string list \<Rightarrow> rebindTemplates \<Rightarrow> ('g, nat) flow" where
  "rebindVerify E serials t = do {
     status (setStage (rt_stage t) (plain ''verify''));
     v1 \<leftarrow> verifyPass E serials [];
     verified \<leftarrow> verify_retries E serials verifyRetries v1;
     status (mark_unverified serials verified);
     let (n, m) = (of_nat (length verified), of_nat (length serials));
     if length verified < length serials then do {
       status (\<lambda>st. st\<lparr>ps_Stage := StageError, ps_Error := rt_partialErr t n m, ps_Done := length verified\<rparr>);
       milestone [] (rt_errKind t) (rt_partialMsg t n m);
       State_Monad.return (length verified)
     } else do {
       status (finishDone (rt_done t n m));
       State_Monad.return (length verified)
     }
   }"

section \<open>Moving the fleet to another PAN\<close>

definition rekeyRollback :: "'g env \<Rightarrow> u32 \<Rightarrow> u32 \<Rightarrow> err \<Rightarrow> ('g, unit) flow" where
  "rekeyRollback E oldPan ch cause = do {
     e \<leftarrow> setModulePan E oldPan ch;
     let msg = (case e of
         Some rbErr \<Rightarrow> (''%v; rollback to PAN 0x%04X also failed: %v'', [Er cause, N oldPan, Er rbErr])
       | None \<Rightarrow> (''%v; rolled back module to PAN 0x%04X'', [Er cause, N oldPan]));
     status (finishError msg);
     milestone [] ''pairing_error'' msg
   }"

primrec prime_loop :: "'g env \<Rightarrow> u32 \<Rightarrow> u32 \<Rightarrow> string list \<Rightarrow> nat \<Rightarrow> ('g, err option) flow" where
  "prime_loop E newPan ch [] = (\<lambda>i. State_Monad.return None)"
| "prime_loop E newPan ch (s # ss) = (\<lambda>i. do {
     c \<leftarrow> ctx_done E;
     if c then State_Monad.return (Some ErrCanceled)
     else do {
       status (\<lambda>st. st\<lparr>ps_CurrentSerial := s, ps_Substep := (''prime %s'', [S s])\<rparr>);
       status (setInverterState s ''priming'');
       e \<leftarrow> primeInv E s newPan ch;
       case e of
         Some err \<Rightarrow> State_Monad.return (Some (Wrap ''prime %s: %w'' [S s] err))
       | None \<Rightarrow> do {
           status (setInverterState s ''primed'');
           status (\<lambda>st. st\<lparr>ps_Done := i + 1\<rparr>);
           prime_loop E newPan ch ss (i + 1)
         }
     }
   })"

definition commitRounds :: nat where "commitRounds = 3"

primrec commit_rounds :: "'g env \<Rightarrow> u32 \<Rightarrow> u32 \<Rightarrow> nat \<Rightarrow> u32 \<Rightarrow> ('g, err option) flow" where
  "commit_rounds E newPan ch 0 = (\<lambda>r. State_Monad.return None)"
| "commit_rounds E newPan ch (Suc n) = (\<lambda>r. do {
     c \<leftarrow> ctx_done E;
     if c then State_Monad.return (Some ErrCanceled)
     else do {
       e \<leftarrow> commitPan E newPan ch;
       case e of
         Some err \<Rightarrow> State_Monad.return (Some (Wrap ''commit round %d: %w'' [N (r + 1)] err))
       | None \<Rightarrow> commit_rounds E newPan ch n (r + 1)
     }
   })"

text \<open>Everything before the verification: the first error, or None once the new PAN is persisted.\<close>

definition rekey_move :: "'g env \<Rightarrow> string list \<Rightarrow> u32 \<Rightarrow> u32 \<Rightarrow> ('g, err option) flow" where
  "rekey_move E serials newPan ch = do {
     status (setStage StageRekey (plain ''rendezvous on PAN 0xFFFF''));
     e1 \<leftarrow> setModulePan E 0xFFFF ch;
     case e1 of
       Some err \<Rightarrow> State_Monad.return (Some (Wrap ''module to 0xFFFF: %w'' [] err))
     | None \<Rightarrow> do {
         e2 \<leftarrow> prime_loop E newPan ch serials 0;
         case e2 of
           Some err \<Rightarrow> State_Monad.return (Some err)
         | None \<Rightarrow> do {
             status (\<lambda>st. st\<lparr>ps_Done := 0, ps_Substep := plain ''commit broadcast''\<rparr>);
             e3 \<leftarrow> commit_rounds E newPan ch commitRounds 0;
             case e3 of
               Some err \<Rightarrow> State_Monad.return (Some err)
             | None \<Rightarrow> do {
                 c \<leftarrow> ctx_done E;
                 if c then State_Monad.return (Some ErrCanceled)
                 else do {
                   status (setStage StageRekey (plain ''rearm module on new PAN''));
                   e4 \<leftarrow> setModulePan E newPan ch;
                   case e4 of
                     Some err \<Rightarrow> State_Monad.return (Some (Wrap ''rearm module on new PAN: %w'' [] err))
                   | None \<Rightarrow> do {
                       ok \<leftarrow> persist E (SavePAN newPan);
                       State_Monad.return (if ok then None else Some (Wrap ''persist pan_override: %w'' [] ErrPersist))
                     }
                 }
               }
           }
       }
   }"

definition runRekey :: "'g env \<Rightarrow> string list \<Rightarrow> u32 \<Rightarrow> u32 \<Rightarrow> u32 \<Rightarrow> ('g, unit) flow" where
  "runRekey E serials oldPan newPan ch = do {
     status (setStage StageRekey (''prep: 0x%04X -> 0x%04X ch=%d'', [N oldPan, N newPan, N ch]));
     status (fold (\<lambda>s. setInverterState s ''pending'') serials);
     r \<leftarrow> rekey_move E serials newPan ch;
     case r of
       Some err \<Rightarrow> rekeyRollback E oldPan ch err
     | None \<Rightarrow> do {
         milestone [] ''rekey_committed'' (''0x%04X -> 0x%04X ch=%d'', [N oldPan, N newPan, N ch]);
         _ \<leftarrow> rebindVerify E serials
           \<lparr>rt_stage = StageRekey, rt_errKind = ''pairing_error'',
            rt_partialErr = (\<lambda>n m. (''rekey committed to 0x%04X but only %d/%d inverters verified'', [N newPan, N n, N m])),
            rt_partialMsg = (\<lambda>n m. (''rekey partial verify %d/%d'', [N n, N m])),
            rt_done = (\<lambda>n m. (''fleet rekeyed to 0x%04X (%d/%d verified)'', [N newPan, N n, N m]))\<rparr>;
         State_Monad.return ()
       }
   }"

text \<open>\<open>parsePAN\<close> of the driver.\<close>

definition parse_pan_hex :: "string \<Rightarrow> u32 option" where
  "parse_pan_hex s0 =
     (let s = trim_prefix (trim_prefix (trim_space s0) ''0x'') ''0X''
      in if s = [] \<or> length s > 4 then None else map_option of_nat (ParseUint s 16 16))"

definition startRekey :: "'g env \<Rightarrow> string \<Rightarrow> u32 \<Rightarrow> ('g, response) flow" where
  "startRekey E newPanText reqChannel =
     (if \<not> e_transport E then State_Monad.return (Refused (plain ''rekey: transport not configured''))
      else if \<not> e_settings E then State_Monad.return (Refused (plain ''rekey: settings (pan_override) not configured''))
      else case parse_pan_hex newPanText of
        None \<Rightarrow> State_Monad.return (Refused (''rekey: PAN %q not valid'', [S newPanText]))
      | Some newPan \<Rightarrow> do {
          p \<leftarrow> getModulePan E;
          case p of
            Inl e \<Rightarrow> State_Monad.return (Refused (''rekey: current/operating PAN unknown: %v'', [Er e]))
          | Inr oldPan \<Rightarrow>
              if newPan = oldPan
                then State_Monad.return (Refused (''rekey: new PAN 0x%04X equals current PAN'', [N newPan]))
              else case channelOrCurrent E reqChannel of
                None \<Rightarrow> State_Monad.return (Refused (''rekey: %v'', [Er ErrNoChannel]))
              | Some ch \<Rightarrow>
                  (case fleetSerials E of
                     None \<Rightarrow> State_Monad.return (Refused (''rekey: %v'', [Er ErrStore]))
                   | Some serials \<Rightarrow>
                       if serials = []
                       then State_Monad.return (Refused (plain ''rekey: no inverters in inventory to migrate''))
                       else startOp OpRekey StageRekey (length serials) (runRekey E serials oldPan newPan ch))
        })"

section \<open>Moving the fleet to another channel\<close>

definition changeChannelRollback :: "'g env \<Rightarrow> u32 \<Rightarrow> u32 \<Rightarrow> u32 \<Rightarrow> err \<Rightarrow> ('g, unit) flow" where
  "changeChannelRollback E pan oldChannel newChannel cause = do {
     e \<leftarrow> setModulePan E pan oldChannel;
     let msg = (case e of
         Some rbErr \<Rightarrow>
           (''%v; rollback to channel %d also failed: %v; any already-hopped inverters are on channel %d - re-run the change-channel to %d to converge the fleet'',
            [Er cause, N oldChannel, Er rbErr, N newChannel, N newChannel])
       | None \<Rightarrow>
           (''%v; module rolled back to channel %d, but any already-hopped inverters are on channel %d - re-run the change-channel to %d to converge the fleet'',
            [Er cause, N oldChannel, N newChannel, N newChannel]));
     status (finishError msg);
     milestone [] ''channel_change_error'' msg
   }"

primrec hop_loop :: "'g env \<Rightarrow> u32 \<Rightarrow> u32 \<Rightarrow> string list \<Rightarrow> nat \<Rightarrow> ('g, err option) flow" where
  "hop_loop E pan newChannel [] = (\<lambda>i. State_Monad.return None)"
| "hop_loop E pan newChannel (s # ss) = (\<lambda>i. do {
     c \<leftarrow> ctx_done E;
     if c then State_Monad.return (Some ErrCanceled)
     else do {
       status (\<lambda>st. st\<lparr>ps_CurrentSerial := s, ps_Substep := (''hop %s'', [S s])\<rparr>);
       status (setInverterState s ''hopping'');
       e \<leftarrow> setInvPan E s pan newChannel;
       case e of
         Some err \<Rightarrow> State_Monad.return (Some (Wrap ''set_inv_pan %s: %w'' [S s] err))
       | None \<Rightarrow> do {
           status (setInverterState s ''hopped'');
           status (\<lambda>st. st\<lparr>ps_Done := i + 1\<rparr>);
           hop_loop E pan newChannel ss (i + 1)
         }
     }
   })"

definition channel_move :: "'g env \<Rightarrow> string list \<Rightarrow> u32 \<Rightarrow> u32 \<Rightarrow> ('g, err option) flow" where
  "channel_move E serials pan newChannel = do {
     e1 \<leftarrow> hop_loop E pan newChannel serials 0;
     case e1 of
       Some err \<Rightarrow> State_Monad.return (Some err)
     | None \<Rightarrow> do {
         status (setStage StageChannel (plain ''move module to new channel''));
         e2 \<leftarrow> setModulePan E pan newChannel;
         case e2 of
           Some err \<Rightarrow> State_Monad.return (Some (Wrap ''move module to ch %d: %w'' [N newChannel] err))
         | None \<Rightarrow> do {
             ok \<leftarrow> persist E (SaveChannel newChannel);
             State_Monad.return (if ok then None else Some (Wrap ''persist channel: %w'' [] ErrPersist))
           }
       }
   }"

definition runChangeChannel :: "'g env \<Rightarrow> string list \<Rightarrow> u32 \<Rightarrow> u32 \<Rightarrow> u32 \<Rightarrow> ('g, unit) flow" where
  "runChangeChannel E serials pan oldChannel newChannel = do {
     status (setStage StageChannel (''prep: ch %d -> %d (PAN 0x%04X)'', [N oldChannel, N newChannel, N pan]));
     status (\<lambda>st. st\<lparr>ps_Sweep := (newChannel, oldChannel, newChannel)\<rparr>);
     status (fold (\<lambda>s. setInverterState s ''pending'') serials);
     milestone [] ''channel_change_started'' (''ch %d -> %d (PAN 0x%04X)'', [N oldChannel, N newChannel, N pan]);
     r \<leftarrow> channel_move E serials pan newChannel;
     case r of
       Some err \<Rightarrow> changeChannelRollback E pan oldChannel newChannel err
     | None \<Rightarrow> do {
         milestone [] ''channel_change_committed'' (''ch %d -> %d (PAN 0x%04X)'', [N oldChannel, N newChannel, N pan]);
         _ \<leftarrow> rebindVerify E serials
           \<lparr>rt_stage = StageChannel, rt_errKind = ''channel_change_error'',
            rt_partialErr = (\<lambda>n m. (''channel migrated to %d but only %d/%d inverters verified; re-run the change-channel to %d to converge the fleet'', [N newChannel, N n, N m, N newChannel])),
            rt_partialMsg = (\<lambda>n m. (''channel partial verify %d/%d; re-run change-channel to %d to converge'', [N n, N m, N newChannel])),
            rt_done = (\<lambda>n m. (''fleet moved to channel %d (%d/%d verified)'', [N newChannel, N n, N m]))\<rparr>;
         State_Monad.return ()
       }
   }"

definition startChangeChannel :: "'g env \<Rightarrow> u32 \<Rightarrow> ('g, response) flow" where
  "startChangeChannel E newChannel =
     (if \<not> e_transport E then State_Monad.return (Refused (plain ''change_channel: transport not configured''))
      else if \<not> e_settings E then State_Monad.return (Refused (plain ''change_channel: settings (channel) not configured''))
      else if newChannel = 0 then State_Monad.return (Refused (plain ''change_channel: target channel required''))
      else do {
        p \<leftarrow> getModuleConfig E;
        case p of
          Inl e \<Rightarrow> State_Monad.return (Refused (''change_channel: current/operating PAN unknown: %v'', [Er e]))
        | Inr (pan, cur) \<Rightarrow>
            let oldChannel = (if cur = 0 then (case e_currentChannel E of None \<Rightarrow> 0 | Some c \<Rightarrow> c) else cur)
            in if oldChannel = 0 then State_Monad.return (Refused (plain ''change_channel: current channel unknown''))
               else if newChannel = oldChannel
                 then State_Monad.return (Refused (''change_channel: new channel %d equals current channel'', [N newChannel]))
               else case fleetSerials E of
                 None \<Rightarrow> State_Monad.return (Refused (''change_channel: %v'', [Er ErrStore]))
               | Some serials \<Rightarrow>
                   if serials = []
                   then State_Monad.return (Refused (plain ''change_channel: no inverters in inventory to migrate''))
                   else startOp OpChannel StageChannel (length serials)
                          (runChangeChannel E serials pan oldChannel newChannel)
      })"

section \<open>Removing an inverter\<close>

definition evictInverter :: "'g env \<Rightarrow> string \<Rightarrow> ('g, err option) flow" where
  "evictInverter E serial = do {
     p \<leftarrow> getModuleConfig E;
     case p of
       Inl e \<Rightarrow> State_Monad.return (Some (Wrap ''read operating channel: %w'' [] e))
     | Inr (_, cur) \<Rightarrow>
         (case (if cur = 0 then channelOrCurrent E 0 else Some cur) of
            None \<Rightarrow> State_Monad.return (Some (Wrap ''operating channel unavailable: %w'' [] ErrNoChannel))
          | Some channel \<Rightarrow> do {
              e \<leftarrow> setInvPan E serial 0xFFFF channel;
              State_Monad.return (map_option (Wrap ''set inverter PAN 0xFFFF ch=%d: %w'' [N channel]) e)
            })
   }"

definition runRemove :: "'g env \<Rightarrow> string \<Rightarrow> bool \<Rightarrow> ('g, unit) flow" where
  "runRemove E serial force = do {
     status (\<lambda>s. s\<lparr>ps_CurrentSerial := serial\<rparr>);
     (evicted, message) \<leftarrow>
       (if force
        then State_Monad.return (False, (''removed entry %s (no evict; force delete)'', [S serial]))
        else do {
          status (setStage StageEvict (plain ''re-PAN to rendezvous 0xFFFF''));
          status (setInverterState serial ''evicting'');
          e \<leftarrow> evictInverter E serial;
          case e of
            Some err \<Rightarrow> do {
              status (setInverterState serial ''evict-failed'');
              milestone serial ''inverter_evict_failed'' (''%v'', [Er err]);
              State_Monad.return (False, (''evict of %s failed (%v); inventory entry deleted - the unit may reappear if it calls in again, re-run remove to evict it'', [S serial, Er err]))
            }
          | None \<Rightarrow> do {
              status (setInverterState serial ''evicted'');
              State_Monad.return (True, (''evicted %s to rendezvous PAN 0xFFFF; inventory entry deleted'', [S serial]))
            }
        });
     status (setStage StageDelete (plain ''delete inventory rows''));
     ok \<leftarrow> deleteInverter E serial;
     if \<not> ok then fail (Wrap ''remove %s: delete inventory: %w'' [S serial] ErrStore)
     else do {
       milestone serial ''inverter_removed'' (''evicted=%v force=%v'', [S (if evicted then ''true'' else ''false''), S (if force then ''true'' else ''false'')]);
       status (\<lambda>s. s\<lparr>ps_Evicted := evicted, ps_Done := 1\<rparr>);
       status (finishDone message)
     }
   }"

definition startRemove :: "'g env \<Rightarrow> string \<Rightarrow> bool \<Rightarrow> ('g, response) flow" where
  "startRemove E serial force =
     (if \<not> serialRe serial
        then State_Monad.return (Refused (''remove: serial %q is not 12 decimal digits'', [S serial]))
      else if \<not> e_store E then State_Monad.return (Refused (plain ''remove: store not configured''))
      else if \<not> force \<and> \<not> e_transport E
        then State_Monad.return (Refused (plain ''remove: transport not configured (use force to delete the entry without evicting)''))
      else startOp OpRemove StageRemove 1 (runRemove E serial force))"

section \<open>Requests\<close>

datatype request =
    ReqScan bool u32 u32 u32 | ReqAdd string | ReqReplace string string | ReqRekey string u32
  | ReqChangeChannel u32 | ReqRemove string bool | ReqAbort | ReqGetStatus | ReqUnknown

text \<open>
  An abort answers at once, with the status when some operation was ever started; its effect is the
  cancelled context of the running flow.
\<close>

definition Handle :: "'g env \<Rightarrow> nat \<Rightarrow> request \<Rightarrow> ('g, response) flow" where
  "Handle E fuel req =
     (case req of
        ReqScan slow lo hi dwell \<Rightarrow> startScan E fuel slow lo hi dwell
      | ReqAdd serial \<Rightarrow> startAdd E serial
      | ReqReplace oldUID newSerial \<Rightarrow> startReplace E oldUID newSerial
      | ReqRekey pan ch \<Rightarrow> startRekey E pan ch
      | ReqChangeChannel ch \<Rightarrow> startChangeChannel E ch
      | ReqRemove serial force \<Rightarrow> startRemove E serial force
      | ReqAbort \<Rightarrow> do {
          w \<leftarrow> State_Monad.get;
          State_Monad.return (if ps_Op (w_status w) = OpNone then NothingRunning else Snapshot (w_status w))
        }
      | ReqGetStatus \<Rightarrow> do { w \<leftarrow> State_Monad.get; State_Monad.return (Snapshot (w_status w)) }
      | ReqUnknown \<Rightarrow> State_Monad.return (Refused (plain ''unknown PairingRequest op'')))"

end
