(* ===== verification/PairProofs.thy ===== *)
theory PairProofs
  imports PairFleet
begin

text \<open>
  What the driver's flows do, whatever the backend answers, loses or times out on and whenever the
  operator aborts: the exact commands of each flow and how far a run can get, what it sends last,
  and what it has persisted by then.  A flow is described by \<open>ran\<close>: the script it works through,
  the settings it has saved, and whether it was stopped.
\<close>

section \<open>Views of the log\<close>

definition cmds :: "effect list \<Rightarrow> (pairing_op \<times> bool) list" where
  "cmds log = List.map_filter (\<lambda>e. case e of Cmd c ok \<Rightarrow> Some (c, ok) | _ \<Rightarrow> None) log"

definition saves :: "effect list \<Rightarrow> effect list" where
  "saves log = filter (\<lambda>e. case e of SavePAN _ _ \<Rightarrow> True | SaveChannel _ _ \<Rightarrow> True | _ \<Rightarrow> False) log"

definition addresses :: "effect list \<Rightarrow> (string \<times> u16) list" where
  "addresses log = List.map_filter (\<lambda>e. case e of StoreShortAddr s a _ \<Rightarrow> Some (s, a) | _ \<Rightarrow> None) log"

lemma cmds_simps [simp]:
  "cmds [] = []" "cmds (xs @ ys) = cmds xs @ cmds ys" "cmds (Cmd c ok # xs) = (c, ok) # cmds xs"
  "cmds (Milestone u k d # xs) = cmds xs" "cmds (SavePAN p b # xs) = cmds xs"
  "cmds (SaveChannel q b # xs) = cmds xs" "cmds (StoreShortAddr s a b # xs) = cmds xs"
  "cmds (StoreState s t # xs) = cmds xs" "cmds (StoreEncrypted s b # xs) = cmds xs"
  "cmds (DeleteRows s b # xs) = cmds xs" "cmds (NotifyRemoved s # xs) = cmds xs"
  "cmds (InheritProfile s t b # xs) = cmds xs" "cmds (InheritName s t b # xs) = cmds xs"
  by (simp_all add: cmds_def map_filter_def)

lemma saves_simps [simp]:
  "saves [] = []" "saves (xs @ ys) = saves xs @ saves ys" "saves (Cmd c ok # xs) = saves xs"
  "saves (Milestone u k d # xs) = saves xs" "saves (SavePAN p b # xs) = SavePAN p b # saves xs"
  "saves (SaveChannel q b # xs) = SaveChannel q b # saves xs" "saves (StoreShortAddr s a b # xs) = saves xs"
  "saves (StoreState s t # xs) = saves xs" "saves (StoreEncrypted s b # xs) = saves xs"
  "saves (DeleteRows s b # xs) = saves xs" "saves (NotifyRemoved s # xs) = saves xs"
  "saves (InheritProfile s t b # xs) = saves xs" "saves (InheritName s t b # xs) = saves xs"
  by (simp_all add: saves_def)

lemma addresses_simps [simp]:
  "addresses [] = []" "addresses (xs @ ys) = addresses xs @ addresses ys"
  "addresses (Cmd c ok # xs) = addresses xs" "addresses (Milestone u k d # xs) = addresses xs"
  "addresses (StoreShortAddr s a b # xs) = (s, a) # addresses xs" "addresses (StoreState s t # xs) = addresses xs"
  by (simp_all add: addresses_def map_filter_def)

section \<open>Single steps\<close>

lemma wp_status [wp_simps]: "wp (status f) Q = (\<lambda>w. Q () (w\<lparr>w_status := f (w_status w)\<rparr>))"
  by (simp add: status_def wp_simps)

lemma wp_emit [wp_simps]: "wp (emit e) Q = (\<lambda>w. Q () (w\<lparr>w_log := w_log w @ [e]\<rparr>))"
  by (simp add: emit_def wp_simps)

lemma wp_milestone [wp_simps]:
  "wp (milestone u k d) Q = (\<lambda>w. Q () (w\<lparr>w_log := w_log w @ [Milestone u k d]\<rparr>))"
  by (simp add: milestone_def wp_simps)

lemma wp_ctx_done [wp_simps]:
  "wp (ctx_done E) Q = (\<lambda>w. Q (e_cancelled E (w_looks w)) (w\<lparr>w_looks := w_looks w + 1\<rparr>))"
  by (simp add: ctx_done_def wp_simps)

lemma wp_persist [wp_simps]:
  "wp (persist E eff) Q = (\<lambda>w. Q (e_writes E (w_writes w))
     (w\<lparr>w_writes := w_writes w + 1, w_log := w_log w @ [eff (e_writes E (w_writes w))]\<rparr>))"
  by (simp add: persist_def wp_simps Let_def)

definition send :: "'g env \<Rightarrow> pairing_op \<Rightarrow> 'g world \<Rightarrow> (err + PairingCmdResult) \<times> 'g world" where
  "send E cmd w =
     (let (g, r) = e_link E (w_reqSeq w + 1) cmd (w_gw w); res = read_reply r
      in (res, w\<lparr>w_gw := g, w_reqSeq := w_reqSeq w + 1, w_log := w_log w @ [Cmd cmd (\<not> isl res)]\<rparr>))"

lemma wp_transport_do [wp_simps]:
  "wp (transport_do E cmd) Q = (\<lambda>w. case send E cmd w of (r, w') \<Rightarrow> Q r w')"
  by (simp add: transport_do_def send_def wp_simps Let_def fun_eq_iff split: prod.splits)

section \<open>Scripts as relations between worlds\<close>

definition ran :: "pairing_op list \<Rightarrow> effect list \<Rightarrow> err option \<Rightarrow> 'g world \<Rightarrow> 'g world \<Rightarrow> bool" where
  "ran script saved r w w' \<longleftrightarrow>
     (\<exists>t. cmds (w_log w') = cmds (w_log w) @ t \<and> stopped script t \<and> (r = None \<longrightarrow> t = oks script))
     \<and> saves (w_log w') = saves (w_log w) @ saved
     \<and> w_lock w' = w_lock w \<and> w_running w' = w_running w"

lemma ran_world [simp]:
  "ran sc sv r w (w'\<lparr>w_status := x\<rparr>) = ran sc sv r w w'" "ran sc sv r w (w'\<lparr>w_looks := n\<rparr>) = ran sc sv r w w'"
  "ran sc sv r (w\<lparr>w_status := x\<rparr>) w' = ran sc sv r w w'" "ran sc sv r (w\<lparr>w_looks := n\<rparr>) w' = ran sc sv r w w'"
  "ran sc sv r w (w'\<lparr>w_log := w_log w' @ [Milestone u k d]\<rparr>) = ran sc sv r w w'"
  "ran sc sv r (w\<lparr>w_log := w_log w @ [Milestone u k d]\<rparr>) w' = ran sc sv r w w'"
  by (simp_all add: ran_def)

lemma ran_refl [simp]: "ran sc [] (Some e) w w" "ran [] [] r w w"
  by (simp_all add: ran_def)

lemma ran_seq: "ran s1 v1 None w w1 \<Longrightarrow> ran s2 v2 r w1 w2 \<Longrightarrow> ran (s1 @ s2) (v1 @ v2) r w w2"
  by (auto simp: ran_def)

lemma ran_stop: "ran s1 v (Some e) w w1 \<Longrightarrow> ran (s1 @ s2) v (Some e') w w1"
  by (auto simp: ran_def intro: stopped_app1)

lemma ran_fail: "ran s v r w w1 \<Longrightarrow> ran s v (Some e') w w1"
  by (auto simp: ran_def)

lemma ran_Cons: "ran [c] [] None w w1 \<Longrightarrow> ran s2 v2 r w1 w2 \<Longrightarrow> ran (c # s2) v2 r w w2"
  using ran_seq [of "[c]" "[]" w w1 s2 v2 r w2] by simp

lemma ran_stop_Cons: "ran [c] v (Some e) w w1 \<Longrightarrow> ran (c # s2) v (Some e') w w1"
  using ran_stop [of "[c]" v e w w1 s2 e'] by simp

lemma send_ran: "send E cmd w = (r, w') \<Longrightarrow> ran [cmd] [] (err_only r) w w'"
  by (auto simp: send_def ran_def err_only_def Let_def split: prod.splits sum.splits)

lemma send_status: "send E cmd w = (r, w') \<Longrightarrow> w_status w' = w_status w"
  by (auto simp: send_def Let_def split: prod.splits)

lemma cmd_err_ran: "wp (cmd_err E c) (\<lambda>r w'. ran [c] [] r w w') w"
  by (auto simp: cmd_err_def wp_simps split: prod.splits dest: send_ran)

lemmas cmd_defs = setModulePan_def primeInv_def commitPan_def setInvPan_def bindQuiet_def

text \<open>A command and what follows it: either it failed, or the rest starts in the world it left.\<close>

lemma wp_cmd:
  assumes "\<And>w1 err. ran [c] [] (Some err) w w1 \<Longrightarrow> Q (Some err) w1"
    and "\<And>w1. ran [c] [] None w w1 \<Longrightarrow> Q None w1"
  shows "wp (cmd_err E c) Q w"
proof (rule wp_mono [OF cmd_err_ran])
  fix r w1 assume "ran [c] [] r w w1"
  then show "Q r w1" using assms by (cases r) auto
qed

lemma wp_bindI:
  assumes "wp m Q s" and "\<And>a s'. Q a s' \<Longrightarrow> wp (f a) R s'"
  shows "wp (State_Monad.bind m f) R s"
  using assms by (auto simp: wp_bind intro: wp_mono)

text \<open>
  A part of a flow and its continuation.  \<open>good\<close> says which settings may have been saved with
  which outcome.
\<close>

definition flow_post ::
  "pairing_op list \<Rightarrow> (err option \<Rightarrow> effect list \<Rightarrow> bool) \<Rightarrow> 'g world \<Rightarrow> err option \<Rightarrow> 'g world \<Rightarrow> bool" where
  "flow_post script good w r w' \<longleftrightarrow> (\<exists>sv. ran script sv r w w' \<and> good r sv)"

lemma flow_post_world [simp]:
  "flow_post sc good (w\<lparr>w_status := x\<rparr>) = flow_post sc good w"
  "flow_post sc good (w\<lparr>w_looks := n\<rparr>) = flow_post sc good w"
  by (intro ext; simp add: flow_post_def)+

lemma flow_seq:
  assumes "\<And>w. wp m (\<lambda>r w'. ran s1 [] r w w') w"
    and "\<And>w. wp k (flow_post s2 good w) w"
    and "\<And>e. good (Some e) []"
  shows "wp (State_Monad.bind m
      (\<lambda>r. case r of Some e \<Rightarrow> State_Monad.return (Some (f e)) | None \<Rightarrow> k)) (flow_post (s1 @ s2) good w) w"
proof (rule wp_bindI [OF assms(1)])
  fix r w1 assume r: "ran s1 [] r w w1"
  show "wp (case r of Some e \<Rightarrow> State_Monad.return (Some (f e)) | None \<Rightarrow> k) (flow_post (s1 @ s2) good w) w1"
  proof (cases r)
    case None
    then have "flow_post s2 good w1 r' w' \<Longrightarrow> flow_post (s1 @ s2) good w r' w'" for r' w'
      using r ran_seq by (fastforce simp: flow_post_def)
    then show ?thesis using None wp_mono [OF assms(2)] by simp
  next
    case (Some e)
    then have "flow_post (s1 @ s2) good w (Some (f e)) w1"
      using r assms(3) [of "f e"] ran_stop [of s1 "[]" e w w1 s2 "f e"]
      unfolding flow_post_def by blast
    then show ?thesis using Some by (simp add: wp_simps)
  qed
qed

lemma flow_status:
  assumes "\<And>w. wp k (flow_post s good w) w"
  shows "wp (State_Monad.bind (status f) (\<lambda>_. k)) (flow_post s good w) w"
  using assms [of "w\<lparr>w_status := f (w_status w)\<rparr>"] by (simp add: wp_simps)

lemma flow_look:
  "(\<And>w. wp k (flow_post s good w) w) \<Longrightarrow> good (Some e) [] \<Longrightarrow>
   wp (State_Monad.bind (ctx_done E) (\<lambda>c. if c then State_Monad.return (Some e) else k)) (flow_post s good w) w"
proof -
  assume k: "\<And>w. wp k (flow_post s good w) w" and g: "good (Some e) []"
  let ?w = "w\<lparr>w_looks := w_looks w + 1\<rparr>"
  have "flow_post s good w (Some e) ?w" using g by (auto simp: flow_post_def intro!: exI [of _ "[]"])
  moreover have "wp k (flow_post s good w) ?w" using k [of ?w] by (simp only: flow_post_world)
  ultimately show ?thesis by (simp add: wp_simps)
qed

lemmas flow_intros = flow_status flow_look flow_seq

section \<open>The loops\<close>

lemma prime_loop_ran:
  "wp (prime_loop E pan ch ss i) (\<lambda>r w'. ran (map (\<lambda>s. PrimeInv s pan ch) ss) [] r w w') w"
proof (induction ss arbitrary: i w)
  case (Cons s ss)
  show ?case
    apply (simp add: wp_simps cmd_defs)
    apply (intro impI)
    apply (rule wp_cmd)
     apply (simp add: wp_simps ran_stop_Cons)
    apply (simp add: wp_simps)
    apply (rule wp_mono [OF Cons.IH])
    apply (simp add: ran_Cons)
    done
qed (simp add: wp_simps)

lemma hop_loop_ran:
  "wp (hop_loop E pan ch ss i) (\<lambda>r w'. ran (map (\<lambda>s. SetInvPan s pan ch) ss) [] r w w') w"
proof (induction ss arbitrary: i w)
  case (Cons s ss)
  show ?case
    apply (simp add: wp_simps cmd_defs)
    apply (intro impI)
    apply (rule wp_cmd)
     apply (simp add: wp_simps ran_stop_Cons)
    apply (simp add: wp_simps)
    apply (rule wp_mono [OF Cons.IH])
    apply (simp add: ran_Cons)
    done
qed (simp add: wp_simps)

lemma commit_rounds_ran:
  "wp (commit_rounds E pan ch n i) (\<lambda>r w'. ran (replicate n (CommitPan pan ch)) [] r w w') w"
proof (induction n arbitrary: i w)
  case (Suc n)
  show ?case
    apply (simp add: wp_simps cmd_defs)
    apply (intro impI)
    apply (rule wp_cmd)
     apply (simp add: wp_simps ran_stop_Cons)
    apply (simp add: wp_simps)
    apply (rule wp_mono [OF Suc.IH])
    apply (simp add: ran_Cons)
    done
qed (simp add: wp_simps)

section \<open>Rekey\<close>

definition rekey_script :: "string list \<Rightarrow> u32 \<Rightarrow> u32 \<Rightarrow> pairing_op list" where
  "rekey_script serials newPan ch =
     [SetModulePan 0xFFFF ch] @ map (\<lambda>s. PrimeInv s newPan ch) serials
     @ replicate commitRounds (CommitPan newPan ch) @ [SetModulePan newPan ch]"

text \<open>A setting is saved successfully exactly when the move succeeded.\<close>

definition saved_iff_ok :: "(bool \<Rightarrow> effect) \<Rightarrow> err option \<Rightarrow> effect list \<Rightarrow> bool" where
  "saved_iff_ok eff r sv \<longleftrightarrow> (if r = None then sv = [eff True] else sv = [] \<or> sv = [eff False])"

lemma saved_iff_ok_stop [simp]: "saved_iff_ok eff (Some e) []"
  by (simp add: saved_iff_ok_def)

lemma last_step:
  assumes "\<And>b. saves [eff b] = [eff b]" and "\<And>b. cmds [eff b] = []"
  shows "wp (State_Monad.bind (setModulePan E pan ch)
    (\<lambda>e. case e of
        Some err \<Rightarrow> State_Monad.return (Some (f err))
      | None \<Rightarrow> State_Monad.bind (persist E eff)
          (\<lambda>ok. State_Monad.return (if ok then None else Some g))))
    (flow_post [SetModulePan pan ch] (saved_iff_ok eff) w) w"
proof -
  have "ran s [eff b] r w (w1\<lparr>w_writes := n, w_log := w_log w1 @ [eff b]\<rparr>)"
    if "ran s [] None w w1" for s b r n and w w1 :: "'a world"
    using that assms by (auto simp: ran_def)
  then have "wp (State_Monad.bind (persist E eff) (\<lambda>ok. State_Monad.return (if ok then None else Some g)))
      (flow_post [] (saved_iff_ok eff) w1) w1" for w1
    by (auto simp: wp_simps flow_post_def saved_iff_ok_def intro!: exI [of _ "[eff _]"])
  from flow_seq [OF _ this, of "setModulePan E pan ch" "[SetModulePan pan ch]"] show ?thesis
    by (simp add: setModulePan_def cmd_err_ran)
qed

lemma setModulePan_ran: "wp (setModulePan E pan ch) (\<lambda>r w'. ran [SetModulePan pan ch] [] r w w') w"
  by (simp add: setModulePan_def cmd_err_ran)

lemma rekey_move_post:
  "wp (rekey_move E serials newPan ch) (flow_post (rekey_script serials newPan ch) (saved_iff_ok (SavePAN newPan)) w) w"
  unfolding rekey_move_def rekey_script_def
  by (intro flow_intros last_step setModulePan_ran prime_loop_ran commit_rounds_ran saved_iff_ok_stop) simp_all

definition channel_script :: "string list \<Rightarrow> u32 \<Rightarrow> u32 \<Rightarrow> pairing_op list" where
  "channel_script serials pan newChannel =
     map (\<lambda>s. SetInvPan s pan newChannel) serials @ [SetModulePan pan newChannel]"

lemma channel_move_post:
  "wp (channel_move E serials pan ch) (flow_post (channel_script serials pan ch) (saved_iff_ok (SaveChannel ch)) w) w"
  unfolding channel_move_def channel_script_def
  by (intro flow_intros last_step hop_loop_ran saved_iff_ok_stop) simp_all

section \<open>Verification\<close>

text \<open>
  What verifying adds: addresses for serials not verified yet, each from an acknowledged query,
  with at most \<open>n\<close> queries, none of them for a serial already verified; settings are left alone.
\<close>

definition verify_post ::
  "'g env \<Rightarrow> nat \<Rightarrow> string list \<Rightarrow> (string \<times> u16) list \<Rightarrow> 'g world \<Rightarrow> (string \<times> u16) list \<Rightarrow> 'g world \<Rightarrow> bool" where
  "verify_post E n ss v w v' w' \<longleftrightarrow>
     (\<exists>new t. v' = v @ new \<and> cmds (w_log w') = cmds (w_log w) @ t
        \<and> addresses (w_log w') = addresses (w_log w) @ (if e_store E then new else [])
        \<and> fst ` set new \<subseteq> set ss \<and> distinct (map fst new) \<and> fst ` set new \<inter> fst ` set v = {}
        \<and> (\<forall>s a. (s, a) \<in> set new \<longrightarrow> a \<noteq> 0 \<and> (GetShortAddr s, True) \<in> set t)
        \<and> (\<forall>c ok. (c, ok) \<in> set t \<longrightarrow> (\<exists>s \<in> set ss - fst ` set v. c = GetShortAddr s))
        \<and> length t \<le> n)
     \<and> saves (w_log w') = saves (w_log w) \<and> w_lock w' = w_lock w \<and> w_running w' = w_running w"

lemma verify_post_refl [simp]: "verify_post E n ss v w v w"
  by (auto simp: verify_post_def intro!: exI [of _ "[]"])

lemma verify_post_world [simp]:
  "verify_post E n ss v (w\<lparr>w_status := x\<rparr>) = verify_post E n ss v w"
  "verify_post E n ss v (w\<lparr>w_looks := m\<rparr>) = verify_post E n ss v w"
  by (intro ext; simp add: verify_post_def)+

lemma verify_post_after [simp]:
  "verify_post E n ss v w v' (w'\<lparr>w_status := x\<rparr>) = verify_post E n ss v w v' w'"
  "verify_post E n ss v w v' (w'\<lparr>w_looks := m\<rparr>) = verify_post E n ss v w v' w'"
  by (simp_all add: verify_post_def)

lemma verify_post_trans:
  assumes "verify_post E n1 ss v w v1 w1" and "verify_post E n2 ss v1 w1 v2 w2" and "n1 + n2 \<le> n"
  shows "verify_post E n ss v w v2 w2"
proof -
  obtain new1 t1 where 1: "v1 = v @ new1" "cmds (w_log w1) = cmds (w_log w) @ t1"
    "addresses (w_log w1) = addresses (w_log w) @ (if e_store E then new1 else [])"
    "fst ` set new1 \<subseteq> set ss" "distinct (map fst new1)" "fst ` set new1 \<inter> fst ` set v = {}"
    "\<forall>s a. (s, a) \<in> set new1 \<longrightarrow> a \<noteq> 0 \<and> (GetShortAddr s, True) \<in> set t1"
    "\<forall>c ok. (c, ok) \<in> set t1 \<longrightarrow> (\<exists>s \<in> set ss - fst ` set v. c = GetShortAddr s)" "length t1 \<le> n1"
    using assms(1) unfolding verify_post_def by blast
  obtain new2 t2 where 2: "v2 = v1 @ new2" "cmds (w_log w2) = cmds (w_log w1) @ t2"
    "addresses (w_log w2) = addresses (w_log w1) @ (if e_store E then new2 else [])"
    "fst ` set new2 \<subseteq> set ss" "distinct (map fst new2)" "fst ` set new2 \<inter> fst ` set v1 = {}"
    "\<forall>s a. (s, a) \<in> set new2 \<longrightarrow> a \<noteq> 0 \<and> (GetShortAddr s, True) \<in> set t2"
    "\<forall>c ok. (c, ok) \<in> set t2 \<longrightarrow> (\<exists>s \<in> set ss - fst ` set v1. c = GetShortAddr s)" "length t2 \<le> n2"
    using assms(2) unfolding verify_post_def by blast
  have "v2 = v @ (new1 @ new2)" "cmds (w_log w2) = cmds (w_log w) @ (t1 @ t2)"
    "addresses (w_log w2) = addresses (w_log w) @ (if e_store E then new1 @ new2 else [])"
    using 1 2 by auto
  moreover have "fst ` set (new1 @ new2) \<subseteq> set ss" "distinct (map fst (new1 @ new2))"
    "fst ` set (new1 @ new2) \<inter> fst ` set v = {}" "length (t1 @ t2) \<le> n"
    using 1 2 assms(3) by auto
  moreover have "\<forall>s a. (s, a) \<in> set (new1 @ new2) \<longrightarrow> a \<noteq> 0 \<and> (GetShortAddr s, True) \<in> set (t1 @ t2)"
    using 1(7) 2(7) by auto
  moreover have "\<forall>c ok. (c, ok) \<in> set (t1 @ t2) \<longrightarrow> (\<exists>s \<in> set ss - fst ` set v. c = GetShortAddr s)"
    using 1(8) 2(8) 1(1) by fastforce
  ultimately show ?thesis
    using assms(1,2) unfolding verify_post_def by metis
qed

lemma verify_post_mono:
  assumes p: "verify_post E n ss v w v' w'" and le: "n \<le> n'" and sub: "set ss \<subseteq> set ss'"
  shows "verify_post E n' ss' v w v' w'"
proof -
  obtain new t where 1: "v' = v @ new" "cmds (w_log w') = cmds (w_log w) @ t"
    "addresses (w_log w') = addresses (w_log w) @ (if e_store E then new else [])"
    and 2: "fst ` set new \<subseteq> set ss" "distinct (map fst new)" "fst ` set new \<inter> fst ` set v = {}"
    and 3: "\<forall>s a. (s, a) \<in> set new \<longrightarrow> a \<noteq> 0 \<and> (GetShortAddr s, True) \<in> set t"
    and 4: "\<forall>c ok. (c, ok) \<in> set t \<longrightarrow> (\<exists>s \<in> set ss - fst ` set v. c = GetShortAddr s)" and 5: "length t \<le> n"
    and 6: "saves (w_log w') = saves (w_log w)" "w_lock w' = w_lock w" "w_running w' = w_running w"
    using p unfolding verify_post_def by blast
  have 4: "\<forall>c ok. (c, ok) \<in> set t \<longrightarrow> (\<exists>s \<in> set ss' - fst ` set v. c = GetShortAddr s)"
    using 4 sub by blast
  show ?thesis
    unfolding verify_post_def
    by (intro conjI exI [of _ new] exI [of _ t] 1 2(2,3) 3 4 6 order_trans [OF 2(1) sub] order_trans [OF 5 le])
qed

text \<open>One query: it either adds nothing or one address.\<close>

lemma query_post:
  assumes "s \<notin> fst ` set v" and "send E (GetShortAddr s) w = (r, w1)"
  shows "verify_post E 1 [s] v w v w1"
    and "r = Inr res \<Longrightarrow> sa \<noteq> 0 \<Longrightarrow> e_store E \<Longrightarrow> verify_post E 1 [s] v w (v @ [(s, sa)])
      (w1\<lparr>w_writes := n, w_log := w_log w1 @ [StoreShortAddr s sa b, StoreState s t]\<rparr>)"
    and "r = Inr res \<Longrightarrow> sa \<noteq> 0 \<Longrightarrow> \<not> e_store E \<Longrightarrow> verify_post E 1 [s] v w (v @ [(s, sa)]) w1"
  using assms by (auto simp: send_def verify_post_def Let_def split: prod.splits)

lemma wp_getShortAddr:
  "wp (getShortAddr E s) Q w =
     (case send E (GetShortAddr s) w of (r, w1) \<Rightarrow>
        Q (case r of Inl e \<Rightarrow> Inl e
           | Inr res \<Rightarrow> if pr_ShortAddr res > 0xFFFF then Inl (ErrBadAddr s (pr_ShortAddr res))
                        else Inr (ucast (pr_ShortAddr res))) w1)"
  by (simp add: getShortAddr_def wp_simps split: prod.splits)

lemma verifyPass_post: "wp (verifyPass E ss v) (\<lambda>v' w'. verify_post E (length ss) ss v w v' w') w"
proof (induction ss arbitrary: v w)
  case (Cons s ss)
  have IH: "wp (verifyPass E ss v1) (\<lambda>v' w'. verify_post E (Suc (length ss)) (s # ss) v w v' w') w1"
    if "verify_post E 1 [s] v w v1 w1" for v1 w1
  proof (rule wp_mono [OF Cons.IH])
    fix v' w' assume "verify_post E (length ss) ss v1 w1 v' w'"
    then have "verify_post E (length ss) (s # ss) v1 w1 v' w'" by (rule verify_post_mono) auto
    moreover have "verify_post E 1 (s # ss) v w v1 w1" using that by (rule verify_post_mono) auto
    ultimately show "verify_post E (Suc (length ss)) (s # ss) v w v' w'"
      using verify_post_trans by fastforce
  qed
  have skip: "verify_post E 1 [s] v w v w" by simp
  show ?case
  proof (cases "s \<in> fst ` set v")
    case True
    then show ?thesis using IH [OF skip] by (simp add: wp_simps)
  next
    case False
    obtain r w1 where q: "send E (GetShortAddr s)
        (w\<lparr>w_looks := w_looks w + 1,
           w_status := (w_status w)\<lparr>ps_CurrentSerial := s, ps_Substep := (''verify %s'', [S s]), ps_Done := length v\<rparr>\<rparr>) = (r, w1)"
      by fastforce
    note qp = query_post [OF False q, unfolded verify_post_world]
    show ?thesis
      using False q IH [OF qp(1)] qp(2,3)
      by (auto simp: wp_simps wp_getShortAddr split: sum.splits intro!: IH)
  qed
qed (simp add: wp_simps)

lemma verify_retries_post:
  "wp (verify_retries E ss n v) (\<lambda>v' w'. verify_post E (n * length ss) ss v w v' w') w"
proof (induction n arbitrary: v w)
  case (Suc n)
  have step: "wp (State_Monad.bind (verifyPass E ss v) (\<lambda>v1. verify_retries E ss n v1))
      (\<lambda>v' w'. verify_post E (Suc n * length ss) ss v w v' w') w1"
    if "\<And>v1 w2. verify_post E (length ss) ss v w1 v1 w2 = verify_post E (length ss) ss v w v1 w2" for w1
  proof (rule wp_bindI [OF verifyPass_post])
    fix v1 w2 assume "verify_post E (length ss) ss v w1 v1 w2"
    then have "verify_post E (length ss) ss v w v1 w2" using that by simp
    then show "wp (verify_retries E ss n v1) (\<lambda>v' w'. verify_post E (Suc n * length ss) ss v w v' w') w2"
      by (intro wp_mono [OF Suc.IH]) (auto elim!: verify_post_trans)
  qed
  show ?case using step by (simp add: wp_simps)
qed (simp add: wp_simps)

lemma verify_post_milestone [simp]:
  "verify_post E n ss v w v' (w'\<lparr>w_log := w_log w' @ [Milestone a b c]\<rparr>) = verify_post E n ss v w v' w'"
  "verify_post E n ss v w v' (w'\<lparr>w_status := x, w_log := w_log w' @ [Milestone a b c]\<rparr>) = verify_post E n ss v w v' w'"
  by (simp_all add: verify_post_def)

definition verify_outcome :: "string list \<Rightarrow> (string \<times> u16) list \<Rightarrow> nat \<Rightarrow> PairingStatus \<Rightarrow> bool" where
  "verify_outcome serials verified n st \<longleftrightarrow>
     n = length verified
     \<and> (if n < length serials then ps_Stage st = StageError \<and> ps_Done st = n else ps_Stage st = StageDone)"

lemma rebindVerify_post:
  "wp (rebindVerify E serials t)
     (\<lambda>n w'. \<exists>verified. verify_post E (3 * length serials) serials [] w verified w'
        \<and> verify_outcome serials verified n (w_status w')) w"
proof -
  have retries: "wp (verify_retries E serials verifyRetries v1)
      (\<lambda>v2 w2. verify_post E (3 * length serials) serials [] w v2 w2) w1"
    if "verify_post E (length serials) serials [] w v1 w1" for v1 w1
    by (rule wp_mono [OF verify_retries_post]) (auto simp: verifyRetries_def intro: verify_post_trans [OF that])
  show ?thesis
    unfolding rebindVerify_def
    apply (simp only: wp_bind wp_status)
    apply (rule wp_mono [OF verifyPass_post])
    apply (rule wp_mono [OF retries])
     apply simp
    apply (auto simp: wp_simps verify_outcome_def finishDone_def)
    done
qed

text \<open>
  Verifying a fleet that has moved asks each inverter at most three times, never again once it
  answered, persists exactly the addresses it counts, one per inverter, and ends as done exactly
  when every inverter is counted; otherwise as an error that shows the count.  It never undoes
  the move: it saves no setting.
\<close>

theorem verify_outcomes:
  assumes "run_state (rebindVerify E serials t) w = (n, w')" and "distinct serials"
  shows "\<exists>verified queries.
      cmds (w_log w') = cmds (w_log w) @ queries \<and> length queries \<le> 3 * length serials
      \<and> (\<forall>(c, ok) \<in> set queries. \<exists>s \<in> set serials. c = GetShortAddr s)
      \<and> distinct (map fst verified) \<and> (\<forall>(s, a) \<in> set verified. s \<in> set serials \<and> a \<noteq> 0 \<and> (GetShortAddr s, True) \<in> set queries)
      \<and> addresses (w_log w') = addresses (w_log w) @ (if e_store E then verified else [])
      \<and> saves (w_log w') = saves (w_log w) \<and> n = length verified
      \<and> (ps_Stage (w_status w') = StageDone \<longleftrightarrow> fst ` set verified = set serials)
      \<and> (ps_Stage (w_status w') \<noteq> StageDone \<longrightarrow> ps_Stage (w_status w') = StageError \<and> ps_Done (w_status w') = n)"
proof -
  obtain verified where p: "verify_post E (3 * length serials) serials [] w verified w'"
    and o: "verify_outcome serials verified n (w_status w')"
    using wpD [OF rebindVerify_post assms(1)] by blast
  from p obtain queries where q: "cmds (w_log w') = cmds (w_log w) @ queries" "length queries \<le> 3 * length serials"
    "\<forall>c ok. (c, ok) \<in> set queries \<longrightarrow> (\<exists>s \<in> set serials. c = GetShortAddr s)"
    "distinct (map fst verified)" "fst ` set verified \<subseteq> set serials"
    "\<forall>s a. (s, a) \<in> set verified \<longrightarrow> a \<noteq> 0 \<and> (GetShortAddr s, True) \<in> set queries"
    "addresses (w_log w') = addresses (w_log w) @ (if e_store E then verified else [])"
    "saves (w_log w') = saves (w_log w)"
    by (auto simp: verify_post_def)
  have "card (fst ` set verified) = length verified" using distinct_card [OF q(4)] by simp
  moreover have "card (set serials) = length serials" using assms(2) by (rule distinct_card)
  ultimately have full: "fst ` set verified = set serials \<longleftrightarrow> \<not> length verified < length serials"
    using q(5) card_mono [OF finite_set q(5)] by (metis card_subset_eq finite_set le_antisym not_less order_refl)
  have member: "s \<in> set serials \<and> a \<noteq> 0 \<and> (GetShortAddr s, True) \<in> set queries" if "(s, a) \<in> set verified" for s a
    using q(5,6) that by force
  show ?thesis
    apply (rule exI [of _ verified], rule exI [of _ queries])
    using q(1,2,3,4,7,8) member o full by (auto simp: verify_outcome_def split: if_splits)
qed

section \<open>Fleet moves\<close>

lemma rekeyRollback_post:
  "wp (rekeyRollback E oldPan ch cause)
     (\<lambda>_ w'. (\<exists>ok. cmds (w_log w') = cmds (w_log w) @ [(SetModulePan oldPan ch, ok)])
        \<and> saves (w_log w') = saves (w_log w) \<and> ps_Stage (w_status w') = StageError) w"
  by (auto simp: rekeyRollback_def setModulePan_def cmd_err_def wp_simps Let_def send_def finishError_def
      split: prod.splits)

lemma changeChannelRollback_post:
  "wp (changeChannelRollback E pan oldCh newCh cause)
     (\<lambda>_ w'. (\<exists>ok. cmds (w_log w') = cmds (w_log w) @ [(SetModulePan pan oldCh, ok)])
        \<and> saves (w_log w') = saves (w_log w) \<and> ps_Stage (w_status w') = StageError) w"
  by (auto simp: changeChannelRollback_def setModulePan_def cmd_err_def wp_simps Let_def send_def finishError_def
      split: prod.splits)

text \<open>
  How a move ends: undone by the command \<open>undo\<close> after part of its script, or completed, with the
  setting saved, and followed by queries only.
\<close>

definition undone :: "pairing_op list \<Rightarrow> pairing_op \<Rightarrow> (bool \<Rightarrow> effect) \<Rightarrow> 'g world \<Rightarrow> 'g world \<Rightarrow> bool" where
  "undone script undo eff w w' \<longleftrightarrow>
     (\<exists>t ok. stopped script t \<and> cmds (w_log w') = cmds (w_log w) @ t @ [(undo, ok)]
        \<and> (saves (w_log w') = saves (w_log w) \<or> saves (w_log w') = saves (w_log w) @ [eff False])
        \<and> ps_Stage (w_status w') = StageError)"

definition completed :: "pairing_op list \<Rightarrow> string list \<Rightarrow> (bool \<Rightarrow> effect) \<Rightarrow> 'g world \<Rightarrow> 'g world \<Rightarrow> bool" where
  "completed script serials eff w w' \<longleftrightarrow>
     (\<exists>queries. cmds (w_log w') = cmds (w_log w) @ oks script @ queries
        \<and> length queries \<le> 3 * length serials
        \<and> (\<forall>c ok. (c, ok) \<in> set queries \<longrightarrow> (\<exists>s \<in> set serials. c = GetShortAddr s))
        \<and> saves (w_log w') = saves (w_log w) @ [eff True]
        \<and> (ps_Stage (w_status w') = StageDone \<or> ps_Stage (w_status w') = StageError))"

lemma undone_world [simp]: "undone sc u eff (w\<lparr>w_status := x\<rparr>) w' = undone sc u eff w w'"
  by (simp add: undone_def)

lemma completed_world [simp]: "completed sc ss eff (w\<lparr>w_status := x\<rparr>) w' = completed sc ss eff w w'"
  by (simp add: completed_def)

lemma move_ends:
  assumes move: "wp m (flow_post script (saved_iff_ok eff) w) w"
    and undo: "\<And>err w1. wp (rb err) (\<lambda>_ w'. (\<exists>ok. cmds (w_log w') = cmds (w_log w1) @ [(u, ok)])
        \<and> saves (w_log w') = saves (w_log w1) \<and> ps_Stage (w_status w') = StageError) w1"
  shows "wp (State_Monad.bind m (\<lambda>r. case r of
           Some err \<Rightarrow> rb err
         | None \<Rightarrow> State_Monad.bind (milestone a b c) (\<lambda>_. State_Monad.bind (rebindVerify E serials t)
                     (\<lambda>_. State_Monad.return ()))))
      (\<lambda>_ w'. undone script u eff w w' \<or> completed script serials eff w w') w"
proof (rule wp_bindI [OF move])
  fix r w1 assume p: "flow_post script (saved_iff_ok eff) w r w1"
  then obtain sv tr where sv: "saved_iff_ok eff r sv" "cmds (w_log w1) = cmds (w_log w) @ tr" "stopped script tr"
    "r = None \<Longrightarrow> tr = oks script" "saves (w_log w1) = saves (w_log w) @ sv"
    by (auto simp: flow_post_def ran_def)
  show "wp (case r of Some err \<Rightarrow> rb err
      | None \<Rightarrow> State_Monad.bind (milestone a b c) (\<lambda>_. State_Monad.bind (rebindVerify E serials t)
                     (\<lambda>_. State_Monad.return ())))
      (\<lambda>_ w'. undone script u eff w w' \<or> completed script serials eff w w') w1"
  proof (cases r)
    case (Some err)
    have "undone script u eff w w'" if "(\<exists>ok. cmds (w_log w') = cmds (w_log w1) @ [(u, ok)])
        \<and> saves (w_log w') = saves (w_log w1) \<and> ps_Stage (w_status w') = StageError" for w'
      using that sv Some by (auto simp: undone_def saved_iff_ok_def)
    then show ?thesis using Some wp_mono [OF undo] by auto
  next
    case None
    let ?w1 = "w1\<lparr>w_log := w_log w1 @ [Milestone a b c]\<rparr>"
    have fin: "completed script serials eff w w'"
      if "verify_post E (3 * length serials) serials [] ?w1 verified w'"
        "verify_outcome serials verified n (w_status w')" for verified n w'
      using that sv None by (auto simp: completed_def verify_post_def verify_outcome_def saved_iff_ok_def split: if_splits)
    show ?thesis
      using None by (auto simp: wp_bind wp_milestone wp_return intro!: wp_mono [OF rebindVerify_post] fin)
  qed
qed

lemma rekey_ends:
  assumes "run_state (runRekey E serials oldPan newPan ch) w = ((), w')"
  shows "undone (rekey_script serials newPan ch) (SetModulePan oldPan ch) (SavePAN newPan) w w'
    \<or> completed (rekey_script serials newPan ch) serials (SavePAN newPan) w w'"
proof -
  have "wp (runRekey E serials oldPan newPan ch)
     (\<lambda>_ w'. undone (rekey_script serials newPan ch) (SetModulePan oldPan ch) (SavePAN newPan) w w'
        \<or> completed (rekey_script serials newPan ch) serials (SavePAN newPan) w w') w"
    unfolding runRekey_def
    apply (simp only: wp_bind [of "status _"] wp_status)
    apply (rule wp_mono [OF move_ends [OF rekey_move_post rekeyRollback_post]])
    apply simp
    done
  then show ?thesis using assms by (rule wpD)
qed


lemma channel_ends:
  assumes "run_state (runChangeChannel E serials pan oldCh newCh) w = ((), w')"
  shows "undone (channel_script serials pan newCh) (SetModulePan pan oldCh) (SaveChannel newCh) w w'
    \<or> completed (channel_script serials pan newCh) serials (SaveChannel newCh) w w'"
proof -
  have "wp (runChangeChannel E serials pan oldCh newCh)
     (\<lambda>_ w'. undone (channel_script serials pan newCh) (SetModulePan pan oldCh) (SaveChannel newCh) w w'
        \<or> completed (channel_script serials pan newCh) serials (SaveChannel newCh) w w') w"
    unfolding runChangeChannel_def
    apply (simp only: wp_bind [of "status _"] wp_bind [of "milestone _ _ _"] wp_status wp_milestone)
    apply (rule wp_mono [OF move_ends [OF channel_move_post changeChannelRollback_post]])
    apply (simp add: undone_def completed_def)
    done
  then show ?thesis using assms by (rule wpD)
qed


text \<open>
  The commit that makes the primed inverters jump is broadcast only after every inverter of the
  fleet has been primed with the same PAN and channel and the prime was acknowledged.
\<close>

theorem commit_needs_every_prime:
  assumes "run_state (runRekey E serials oldPan newPan ch) w = ((), w')"
    and "cmds (w_log w') = cmds (w_log w) @ t" and "(CommitPan newPan ch, ok) \<in> set t"
  shows "\<exists>u. t = (SetModulePan 0xFFFF ch, True) # oks (map (\<lambda>s. PrimeInv s newPan ch) serials) @ u"
proof -
  let ?pre = "SetModulePan 0xFFFF ch # map (\<lambda>s. PrimeInv s newPan ch) serials"
  let ?post = "replicate commitRounds (CommitPan newPan ch) @ [SetModulePan newPan ch]"
  have script: "rekey_script serials newPan ch = ?pre @ ?post" by (simp add: rekey_script_def)
  from rekey_ends [OF assms(1)] show ?thesis
  proof
    assume "undone (rekey_script serials newPan ch) (SetModulePan oldPan ch) (SavePAN newPan) w w'"
    then obtain t' b where t': "stopped (?pre @ ?post) t'" "t = t' @ [(SetModulePan oldPan ch, b)]"
      using assms(2) unfolding script undone_def by auto
    have "(CommitPan newPan ch, ok) \<in> set t'" using assms(3) t'(2) by auto
    then obtain u where "t' = oks ?pre @ u" using stopped_before [OF t'(1)] by fastforce
    then show ?thesis using t'(2) by auto
  next
    assume "completed (rekey_script serials newPan ch) serials (SavePAN newPan) w w'"
    then show ?thesis using assms(2) unfolding script completed_def by auto
  qed
qed

section \<open>Parking and restoring\<close>

lemma restoreModule_post:
  "wp (restoreModule E) (\<lambda>_ w'. (\<exists>ok. cmds (w_log w') = cmds (w_log w) @ [(SetModulePan 0 0, ok)])
     \<and> saves (w_log w') = saves (w_log w)) w"
  by (auto simp: restoreModule_def setModulePan_def cmd_err_def wp_simps send_def Let_def
      split: prod.splits option.splits)

lemma flow_last:
  assumes "\<And>w. wp m (\<lambda>r w'. ran s1 [] r w w') w" and "\<And>e. good (Some e) []" and "good None []"
  shows "wp (State_Monad.bind m (\<lambda>r. case r of Some e \<Rightarrow> State_Monad.return (Some (f e))
      | None \<Rightarrow> State_Monad.bind (ctx_done E) (\<lambda>c. if c then State_Monad.return (Some g)
          else State_Monad.bind (milestone a b d) (\<lambda>_. State_Monad.return None))))
    (flow_post s1 good w) w"
proof -
  have "wp (State_Monad.bind (ctx_done E) (\<lambda>c. if c then State_Monad.return (Some g)
          else State_Monad.bind (milestone a b d) (\<lambda>_. State_Monad.return None))) (flow_post [] good w1) w1" for w1
    using assms(2,3) by (auto simp: wp_simps flow_post_def ran_def)
  from flow_seq [OF assms(1) this assms(2)] show ?thesis by simp
qed

lemma primeInv_ran: "wp (primeInv E s pan ch) (\<lambda>r w'. ran [PrimeInv s pan ch] [] r w w') w"
  by (simp add: primeInv_def cmd_err_ran)

lemma commitPan_ran: "wp (commitPan E pan ch) (\<lambda>r w'. ran [CommitPan pan ch] [] r w w') w"
  by (simp add: commitPan_def cmd_err_ran)

definition migrate_script :: "string \<Rightarrow> u32 \<Rightarrow> u32 \<Rightarrow> pairing_op list" where
  "migrate_script serial pan ch =
     [SetModulePan 0xFFFF ch] @ [PrimeInv serial pan ch] @ [CommitPan pan ch]"

lemma migrate_body_post:
  "wp (migrate_body E serial pan ch) (flow_post (migrate_script serial pan ch) (\<lambda>r sv. sv = []) w) w"
  unfolding migrate_body_def migrate_script_def
  by (intro flow_status flow_seq flow_last setModulePan_ran primeInv_ran commitPan_ran) simp_all

text \<open>
  Migrating one inverter parks the module, primes and commits in this order, stopping at the
  first failure or abort, and on every path ends by telling the gateway to restore its operating
  PAN; it reports success only when all three commands were acknowledged.
\<close>

theorem migrate_restores:
  assumes "run_state (migrateOne E serial pan ch) w = (r, w')"
  shows "\<exists>t ok. cmds (w_log w') = cmds (w_log w) @ t @ [(SetModulePan 0 0, ok)]
    \<and> stopped (migrate_script serial pan ch) t \<and> (r = None \<longrightarrow> t = oks (migrate_script serial pan ch))
    \<and> saves (w_log w') = saves (w_log w)"
proof -
  have "wp (migrateOne E serial pan ch)
    (\<lambda>r w'. \<exists>t ok. cmds (w_log w') = cmds (w_log w) @ t @ [(SetModulePan 0 0, ok)]
      \<and> stopped (migrate_script serial pan ch) t \<and> (r = None \<longrightarrow> t = oks (migrate_script serial pan ch))
      \<and> saves (w_log w') = saves (w_log w)) w"
    unfolding migrateOne_def
    apply (simp only: wp_bind [of "status _"] wp_status)
    apply (rule wp_bindI [OF migrate_body_post])
    apply (rule wp_bindI [OF restoreModule_post])
    apply (auto simp: wp_simps flow_post_def ran_def)
    done
  then show ?thesis using assms by (rule wpD)
qed

lemma reportScan_wp:
  "wp (reportScan E ms) Q w = (case send E (ReportScan ms) w of (r, w') \<Rightarrow> Q (map_sum id pr_Found r) w')"
  by (simp add: reportScan_def wp_simps split: prod.splits)

text \<open>
  A sweep ends by restoring the operating PAN on every path.  A fast scan restores only when
  its first command was acknowledged: when that one fails, as it also does when the module parked
  and only the reply was lost, the scan returns with nothing sent to bring the module back.
\<close>

theorem scan_restores:
  "(run_state (sweepScan E fuel lo hi dwell) w = (Some r, w') \<longrightarrow>
      (\<exists>ok. last (cmds (w_log w')) = (SetModulePan 0 0, ok)))
   \<and> (\<exists>t. cmds (w_log (snd (run_state (fastScan E ch) w))) = cmds (w_log w) @ t
        \<and> (t = [(SetModulePan 0xFFFF ch, False)]
           \<or> (\<exists>a b. t = [(SetModulePan 0xFFFF ch, True), (ReportScan fastScanWindowMs, a), (SetModulePan 0 0, b)])))"
proof (intro conjI impI)
  assume s: "run_state (sweepScan E fuel lo hi dwell) w = (Some r, w')"
  have "wp (sweepScan E fuel lo hi dwell)
      (\<lambda>r w'. r \<noteq> None \<longrightarrow> (\<exists>ok. last (cmds (w_log w')) = (SetModulePan 0 0, ok))) w"
    unfolding sweepScan_def
  proof (rule wp_bindI [where Q = "\<lambda>_ _. True"])
    show "wp (if x = None then State_Monad.return None
        else State_Monad.bind (restoreModule E) (\<lambda>_. State_Monad.return x))
      (\<lambda>r w'. r \<noteq> None \<longrightarrow> (\<exists>ok. last (cmds (w_log w')) = (SetModulePan 0 0, ok))) w1" for x w1
      by (auto simp: wp_bind wp_return intro!: wp_mono [OF restoreModule_post])
  qed (simp add: wp_def split: prod.splits)
  then show "\<exists>ok. last (cmds (w_log w')) = (SetModulePan 0 0, ok)" using wpD [OF _ s] by blast
next
  let ?Q = "\<lambda>w'. \<exists>t. cmds (w_log w') = cmds (w_log w) @ t
        \<and> (t = [(SetModulePan 0xFFFF ch, False)]
           \<or> (\<exists>a b. t = [(SetModulePan 0xFFFF ch, True), (ReportScan fastScanWindowMs, a), (SetModulePan 0 0, b)]))"
  have "wp (fastScan E ch) (\<lambda>_. ?Q) w"
    by (auto simp: fastScan_def setModulePan_def cmd_err_def restoreModule_def reportScan_wp wp_simps
        send_def Let_def err_only_def split: prod.splits sum.splits option.splits)
  then show "?Q (snd (run_state (fastScan E ch) w))" by (simp add: wp_def split: prod.splits)
qed

section \<open>Claiming the bus\<close>

definition bus_post :: "'g world \<Rightarrow> response \<Rightarrow> 'g world \<Rightarrow> bool" where
  "bus_post w r w' \<longleftrightarrow> \<not> w_running w'
     \<and> (r = Started \<longrightarrow> Held (w_lock w') = (False, []))
     \<and> (lk_held (w_lock w) \<longrightarrow> r \<noteq> Started \<and> Held (w_lock w') = Held (w_lock w) \<and> w_status w' = w_status w
          \<and> (\<exists>t. cmds (w_log w') = cmds (w_log w) @ t \<and> fst ` set t \<subseteq> {GetModulePan}))"

lemma startOp_bus:
  assumes "\<not> w_running w"
  shows "wp (startOp oper st n body) (bus_post w) w"
  using assms
  by (auto simp: startOp_def wp_simps set_lock_def release_bus_def bus_post_def acquire_bus_def
      priority_attempt_def Held_def Release_def intro!: wp_triv split: if_splits)

lemma refused_bus [simp]: "\<not> w_running w \<Longrightarrow> bus_post w (Refused m) w"
  by (simp add: bus_post_def)

lemma after_query_bus:
  assumes "send E GetModulePan w = (x, w1)" and "\<not> w_running w"
  shows "\<not> w_running w1" and "bus_post w1 r w' \<Longrightarrow> bus_post w r w'" and "bus_post w (Refused m) w1"
  using assms by (auto simp: send_def bus_post_def Let_def split: prod.splits)

lemma wp_getModuleConfig:
  "wp (getModuleConfig E) Q w =
     (case send E GetModulePan w of (r, w1) \<Rightarrow>
        Q (case r of Inl e \<Rightarrow> Inl e
           | Inr res \<Rightarrow> if pr_Pan res = 0 \<or> pr_Pan res > 0xFFFF then Inl (ErrBadPan (pr_Pan res))
                        else Inr (pr_Pan res, pr_Channel res)) w1)"
  by (simp add: getModuleConfig_def wp_simps split: prod.splits)

lemma wp_getModulePan:
  "wp (getModulePan E) Q w = wp (getModuleConfig E) (\<lambda>r. Q (map_sum id fst r)) w"
  by (simp add: getModulePan_def wp_simps)

lemma startOp_bus_after:
  assumes "send E GetModulePan w = (x, w1)" and "\<not> w_running w"
  shows "wp (startOp oper st n body) (bus_post w) w1"
  using startOp_bus [OF after_query_bus(1) [OF assms]] after_query_bus(2) [OF assms] by (rule wp_mono)

lemma startRekey_bus: "\<not> w_running w \<Longrightarrow> wp (startRekey E p ch) (bus_post w) w"
  by (auto simp: startRekey_def wp_simps wp_getModulePan wp_getModuleConfig
      split: option.splits sum.splits prod.splits if_splits
      intro: startOp_bus_after after_query_bus(3))

lemma startChangeChannel_bus: "\<not> w_running w \<Longrightarrow> wp (startChangeChannel E ch) (bus_post w) w"
  by (auto simp: startChangeChannel_def wp_simps wp_getModuleConfig Let_def
      split: option.splits sum.splits prod.splits if_splits
      intro: startOp_bus_after after_query_bus(3))

text \<open>
  Every operation that starts has the bus when it runs and has given it back when it ends, on
  every path through it; a request made while another holder has the bus starts nothing, leaves
  the holder and the status as they are, and sends at most the query for the operating PAN.
\<close>

theorem operations_release_bus:
  assumes "run_state (Handle E fuel req) w = (r, w')" and "\<not> w_running w"
  shows "\<not> w_running w'
    \<and> (r = Started \<longrightarrow> Held (w_lock w') = (False, []))
    \<and> (lk_held (w_lock w) \<longrightarrow> r \<noteq> Started \<and> Held (w_lock w') = Held (w_lock w) \<and> w_status w' = w_status w
         \<and> (\<exists>t. cmds (w_log w') = cmds (w_log w) @ t \<and> fst ` set t \<subseteq> {GetModulePan}))"
proof -
  have "wp (Handle E fuel req) (bus_post w) w"
  proof (cases req)
    case (ReqScan slow lo hi dwell)
    then show ?thesis using assms(2)
      by (auto simp: Handle_def startScan_def wp_simps Let_def startOp_bus split: option.splits)
  next
    case (ReqRekey p ch)
    then show ?thesis using startRekey_bus [OF assms(2)] by (simp add: Handle_def)
  next
    case (ReqChangeChannel ch)
    then show ?thesis using startChangeChannel_bus [OF assms(2)] by (simp add: Handle_def)
  qed (use assms(2) in \<open>auto simp: Handle_def startAdd_def startReplace_def startRemove_def wp_simps startOp_bus bus_post_def\<close>)
  from wpD [OF this assms(1)] show ?thesis by (simp add: bus_post_def)
qed

section \<open>Deleting inverters\<close>

definition deletes :: "effect list \<Rightarrow> effect list" where
  "deletes log = filter (\<lambda>e. case e of DeleteRows _ _ \<Rightarrow> True | _ \<Rightarrow> False) log"

lemma deletes_simps [simp]:
  "deletes [] = []" "deletes (xs @ ys) = deletes xs @ deletes ys"
  "deletes (DeleteRows u b # xs) = DeleteRows u b # deletes xs" "deletes (Cmd c ok # xs) = deletes xs"
  "deletes (Milestone u k d # xs) = deletes xs" "deletes (StoreShortAddr s a b # xs) = deletes xs"
  "deletes (StoreState s t # xs) = deletes xs" "deletes (NotifyRemoved s # xs) = deletes xs"
  "deletes (InheritProfile s t b # xs) = deletes xs" "deletes (InheritName s t b # xs) = deletes xs"
  by (simp_all add: deletes_def)

lemma fail_post:
  "wp (fail e) (\<lambda>_ w'. deletes (w_log w') = deletes (w_log w) \<and> cmds (w_log w') = cmds (w_log w)
     \<and> ps_Stage (w_status w') \<in> {StageError, StageAborted}) w"
  by (simp add: fail_def wp_simps finishError_def finishAborted_def)

text \<open>
  Removing an inverter deletes its rows whatever the radio does; with force no command is sent,
  otherwise exactly the query for the channel and, when that answers, the eviction; the operation
  is done when the rows are gone, and shows as evicted only an acknowledged eviction.
\<close>

theorem remove_always_deletes:
  assumes "run_state (runRemove E serial force) w = ((), w')"
  shows "\<exists>t ok. deletes (w_log w') = deletes (w_log w) @ [DeleteRows serial ok]
    \<and> cmds (w_log w') = cmds (w_log w) @ t
    \<and> (ps_Stage (w_status w') = StageDone \<longleftrightarrow> ok)
    \<and> (force \<longrightarrow> t = [])
    \<and> (\<not> force \<longrightarrow> (\<exists>a. t = [(GetModulePan, a)] \<or> (\<exists>ch b. t = [(GetModulePan, a), (SetInvPan serial 0xFFFF ch, b)])))
    \<and> (ok \<and> ps_Evicted (w_status w') \<longrightarrow> (\<exists>ch. (SetInvPan serial 0xFFFF ch, True) \<in> set t))"
proof -
  let ?Q = "\<lambda>w'. \<exists>t ok. deletes (w_log w') = deletes (w_log w) @ [DeleteRows serial ok]
    \<and> cmds (w_log w') = cmds (w_log w) @ t
    \<and> (ps_Stage (w_status w') = StageDone \<longleftrightarrow> ok)
    \<and> (force \<longrightarrow> t = [])
    \<and> (\<not> force \<longrightarrow> (\<exists>a. t = [(GetModulePan, a)] \<or> (\<exists>ch b. t = [(GetModulePan, a), (SetInvPan serial 0xFFFF ch, b)])))
    \<and> (ok \<and> ps_Evicted (w_status w') \<longrightarrow> (\<exists>ch. (SetInvPan serial 0xFFFF ch, True) \<in> set t))"
  have "wp (runRemove E serial force) (\<lambda>_. ?Q) w"
    by (auto simp: runRemove_def evictInverter_def wp_getModuleConfig wp_simps deleteInverter_def
        setInvPan_def cmd_err_def send_def Let_def err_only_def fail_def finishError_def finishDone_def
        split: prod.splits sum.splits option.splits if_splits)
  then show ?thesis using assms by (rule wpD)
qed

text \<open>What binding leaves in the log: no rows deleted, and on success the address stored and the bind acknowledged.\<close>

definition bound_post :: "'g env \<Rightarrow> string \<Rightarrow> 'g world \<Rightarrow> err option \<Rightarrow> 'g world \<Rightarrow> bool" where
  "bound_post E serial w r w' \<longleftrightarrow> deletes (w_log w') = deletes (w_log w)
     \<and> (\<exists>t. cmds (w_log w') = cmds (w_log w) @ t)
     \<and> (r = None \<longrightarrow> (\<exists>sa. sa \<noteq> 0 \<and> last (cmds (w_log w')) = (BindQuiet (ucast sa), True)
          \<and> cmds (w_log w') \<noteq> cmds (w_log w)
          \<and> (e_store E \<longrightarrow> (serial, sa) \<in> set (addresses (w_log w')))))"

lemma bound_post_trans:
  assumes "deletes (w_log w1) = deletes (w_log w)" and "cmds (w_log w1) = cmds (w_log w) @ t"
    and "bound_post E serial w1 r w'"
  shows "bound_post E serial w r w'"
  using assms by (auto simp: bound_post_def)

lemma bind_found_post: "wp (bind_found E serial sa) (bound_post E serial w) w"
  by (auto simp: bind_found_def wp_simps bindQuiet_def cmd_err_def send_def Let_def err_only_def
      bound_post_def split: prod.splits sum.splits option.splits)

definition no_deletes :: "'g world \<Rightarrow> 'g world \<Rightarrow> bool" where
  "no_deletes w w' \<longleftrightarrow> deletes (w_log w') = deletes (w_log w) \<and> (\<exists>t. cmds (w_log w') = cmds (w_log w) @ t)"

lemma send_no_deletes: "send E c w = (r, w') \<Longrightarrow> no_deletes w w'"
  by (auto simp: send_def no_deletes_def Let_def split: prod.splits)

lemma migrateOne_no_deletes: "wp (migrateOne E serial pan ch) (\<lambda>_ w'. no_deletes w w') w"
  by (auto simp: migrateOne_def migrate_body_def restoreModule_def cmd_defs cmd_err_def wp_simps send_def
      Let_def no_deletes_def split: prod.splits sum.splits option.splits)

lemma bindAndMigrate_post: "wp (bindAndMigrate E serial) (bound_post E serial w) w"
proof -
  have err: "no_deletes w w1 \<Longrightarrow> bound_post E serial w (Some e) w1" for e w1
    by (auto simp: bound_post_def no_deletes_def)
  have bound: "wp (bind_found E serial sa) (bound_post E serial w) w1" if "no_deletes w w1" for sa w1
    using that by (auto simp: no_deletes_def intro!: wp_mono [OF bind_found_post] elim!: bound_post_trans)
  have tr: "no_deletes w w1 \<Longrightarrow> no_deletes w1 w2 \<Longrightarrow> no_deletes w w2" for w1 w2
    by (auto simp: no_deletes_def)
  have st: "no_deletes u (w1\<lparr>w_status := x\<rparr>) = no_deletes u w1" "no_deletes (w1\<lparr>w_status := x\<rparr>) w2 = no_deletes w1 w2"
    for u w1 w2 :: "'a world" and x by (simp_all add: no_deletes_def)
  have q: "wp (getShortAddr E serial) (\<lambda>q2. wp (case q2 of
              Inl e \<Rightarrow> State_Monad.return (Some (Wrap f a e)) | Inr sa \<Rightarrow> bind_found E serial sa)
            (bound_post E serial w)) w1" if "no_deletes w w1" for w1 f a
    using that by (auto simp: wp_getShortAddr wp_simps split: prod.splits sum.splits
        dest!: send_no_deletes intro: err bound tr)
  have m: "wp (migrateOne E serial pan ch) (\<lambda>m. wp (case m of
            Some e \<Rightarrow> State_Monad.return (Some (Wrap f a e))
          | None \<Rightarrow> State_Monad.bind (status g) (\<lambda>_. State_Monad.bind (getShortAddr E serial) (\<lambda>q2.
              case q2 of Inl e \<Rightarrow> State_Monad.return (Some (Wrap f' a' e)) | Inr sa \<Rightarrow> bind_found E serial sa)))
        (bound_post E serial w)) w1" if "no_deletes w w1" for w1 pan ch f a f' a' g
    using that by (auto simp: wp_simps st split: option.splits intro!: wp_mono [OF migrateOne_no_deletes] q err
        tr [OF that])
  show ?thesis
    unfolding bindAndMigrate_def
    by (auto simp: wp_bind wp_return wp_status wp_getModulePan wp_getModuleConfig wp_getShortAddr st
        split: prod.splits sum.splits option.splits if_splits dest!: send_no_deletes
        intro!: err bound m [simplified wp_bind wp_status] elim: tr)
qed

lemma replace_outcome:
  assumes "run_state (runReplace E oldUID newSerial) w = ((), w')" and "e_store E"
  shows "(deletes (w_log w') = deletes (w_log w) \<and> ps_Stage (w_status w') \<in> {StageError, StageAborted})
    \<or> (\<exists>ok sa. deletes (w_log w') = deletes (w_log w) @ [DeleteRows oldUID ok]
         \<and> (ps_Stage (w_status w') = StageDone \<longleftrightarrow> ok)
         \<and> sa \<noteq> 0 \<and> (newSerial, sa) \<in> set (addresses (w_log w'))
         \<and> last (cmds (w_log w')) = (BindQuiet (ucast sa), True)
         \<and> (\<forall>f. e_profiles E = Some f \<longrightarrow> f oldUID newSerial \<noteq> None)
         \<and> (\<forall>f. e_names E = Some f \<longrightarrow> f oldUID newSerial \<noteq> None))"
proof -
  let ?Q = "\<lambda>w'. (deletes (w_log w') = deletes (w_log w) \<and> ps_Stage (w_status w') \<in> {StageError, StageAborted})
    \<or> (\<exists>ok sa. deletes (w_log w') = deletes (w_log w) @ [DeleteRows oldUID ok]
         \<and> (ps_Stage (w_status w') = StageDone \<longleftrightarrow> ok)
         \<and> sa \<noteq> 0 \<and> (newSerial, sa) \<in> set (addresses (w_log w'))
         \<and> last (cmds (w_log w')) = (BindQuiet (ucast sa), True)
         \<and> (\<forall>f. e_profiles E = Some f \<longrightarrow> f oldUID newSerial \<noteq> None)
         \<and> (\<forall>f. e_names E = Some f \<longrightarrow> f oldUID newSerial \<noteq> None))"
  have "wp (runReplace E oldUID newSerial) (\<lambda>_. ?Q) w"
    unfolding runReplace_def
    apply (simp only: wp_bind wp_status)
    apply (rule wp_mono [OF bindAndMigrate_post])
    apply (auto simp: wp_simps abortedOr_def fail_def finishError_def finishAborted_def bound_post_def
        inherit_profile_def inherit_name_def deleteInverter_def assms(2) finishDone_def Let_def
        split: option.splits if_splits)
    done
  then show ?thesis using assms(1) by (rule wpD)
qed

text \<open>
  Replacing an inverter never loses the old one early: its rows are deleted only after the new
  unit's short address was stored and its bind acknowledged, and the profile and label were
  inherited; whatever fails before leaves them, and the operation is done exactly when they go.
\<close>

theorem replace_keeps_old:
  assumes "run_state (runReplace E oldUID newSerial) w = ((), w')" and "e_store E"
  shows "(deletes (w_log w') = deletes (w_log w) \<and> ps_Stage (w_status w') \<in> {StageError, StageAborted})
    \<or> (\<exists>ok sa. deletes (w_log w') = deletes (w_log w) @ [DeleteRows oldUID ok]
         \<and> (ps_Stage (w_status w') = StageDone \<longleftrightarrow> ok)
         \<and> sa \<noteq> 0 \<and> (newSerial, sa) \<in> set (addresses (w_log w'))
         \<and> last (cmds (w_log w')) = (BindQuiet (ucast sa), True)
         \<and> (\<forall>f. e_profiles E = Some f \<longrightarrow> f oldUID newSerial \<noteq> None)
         \<and> (\<forall>f. e_names E = Some f \<longrightarrow> f oldUID newSerial \<noteq> None))"
  by (rule replace_outcome [OF assms])

end
