(* ===== verification/PairInvariants.thy ===== *)
theory PairInvariants
  imports PairProofs
begin

text \<open>
  Relations between the world before and after a flow that hold of every pairing operation as soon
  as they hold of its commands.  The interface \<open>quiet_relation\<close> asks it of the commands that do not
  set a real PAN (enough for scanning, adding, replacing and removing), \<open>command_relation\<close> of
  every command (needed for the two moves of the fleet).
\<close>

section \<open>Flows that respect a relation\<close>

definition upholds :: "('g world \<Rightarrow> 'g world \<Rightarrow> bool) \<Rightarrow> ('g, 'a) flow \<Rightarrow> bool" where
  "upholds R m \<longleftrightarrow> (\<forall>w. wp m (\<lambda>_ w'. R w w') w)"

lemma upholdsD: "upholds R m \<Longrightarrow> run_state m w = (a, w') \<Longrightarrow> R w w'"
  unfolding upholds_def by (blast dest: wpD)

named_theorems upholds_intros \<open>flows that respect the relation, and how they are put together\<close>

lemma upholds_if [upholds_intros]:
  "(b \<Longrightarrow> upholds R m) \<Longrightarrow> (\<not> b \<Longrightarrow> upholds R k) \<Longrightarrow> upholds R (if b then m else k)"
  by simp

lemma upholds_option [upholds_intros]:
  "upholds R m \<Longrightarrow> (\<And>x. upholds R (f x)) \<Longrightarrow> upholds R (case v of None \<Rightarrow> m | Some x \<Rightarrow> f x)"
  by (cases v) simp_all

lemma upholds_sum [upholds_intros]:
  "(\<And>x. upholds R (f x)) \<Longrightarrow> (\<And>x. upholds R (g x)) \<Longrightarrow> upholds R (case v of Inl x \<Rightarrow> f x | Inr x \<Rightarrow> g x)"
  by (cases v) simp_all

lemma upholds_prod [upholds_intros]:
  "(\<And>a b. upholds R (f a b)) \<Longrightarrow> upholds R (case v of (a, b) \<Rightarrow> f a b)"
  by (cases v) simp

lemma upholds_bool [upholds_intros]:
  "upholds R m \<Longrightarrow> upholds R k \<Longrightarrow> upholds R (case b of True \<Rightarrow> m | False \<Rightarrow> k)"
  by (cases b) simp_all

lemmas transport_ops =
  setModulePan_def reportScan_def getShortAddr_def setInvPan_def primeInv_def commitPan_def
  bindQuiet_def getModuleConfig_def getModulePan_def cmd_err_def

text \<open>The gateway adopts a PAN unless its 16 bits are one of the two special values.\<close>

definition adopts :: "u32 \<Rightarrow> bool" where
  "adopts pan \<longleftrightarrow> (ucast pan :: u16) \<noteq> 0 \<and> (ucast pan :: u16) \<noteq> 0xFFFF"

definition quiet_cmd :: "pairing_op \<Rightarrow> bool" where
  "quiet_cmd cmd = (case cmd of SetModulePan pan ch \<Rightarrow> \<not> adopts pan | _ \<Rightarrow> True)"

lemma quiet_cmd_simps [simp]:
  "quiet_cmd (SetModulePan pan ch) \<longleftrightarrow> \<not> adopts pan" "quiet_cmd (ReportScan ms)" "quiet_cmd (GetShortAddr s)"
  "quiet_cmd (SetInvPan s pan ch)" "quiet_cmd (PrimeInv s pan ch)" "quiet_cmd (CommitPan pan ch)"
  "quiet_cmd (BindQuiet sa)" "quiet_cmd GetModulePan" "\<not> adopts 0" "\<not> adopts 0xFFFF"
  by (simp_all add: quiet_cmd_def adopts_def)

section \<open>The interfaces\<close>

locale quiet_relation =
  fixes E :: "'g env" and R :: "'g world \<Rightarrow> 'g world \<Rightarrow> bool"
  assumes silent: "cmds (w_log w') = cmds (w_log w) \<Longrightarrow> w_gw w' = w_gw w \<Longrightarrow> R w w'"
    and step: "R w w1 \<Longrightarrow> R w1 w2 \<Longrightarrow> R w w2"
    and quiet: "quiet_cmd cmd \<Longrightarrow> send E cmd w = (r, w') \<Longrightarrow> R w w'"
begin

lemma basic [upholds_intros]: "upholds R (State_Monad.return a)" "upholds R State_Monad.get"
  by (simp_all add: upholds_def wp_simps silent)

lemma bind_flow [upholds_intros]:
  assumes "upholds R m" and "\<And>a. upholds R (f a)"
  shows "upholds R (State_Monad.bind m f)"
  unfolding upholds_def
proof
  fix w
  show "wp (State_Monad.bind m f) (\<lambda>_ w'. R w w') w"
  proof (rule wp_bindI)
    show "wp m (\<lambda>_ w'. R w w') w" using assms(1) by (simp add: upholds_def)
    show "wp (f a) (\<lambda>_ w'. R w w') w1" if "R w w1" for a w1
      using assms(2) [of a] that by (auto simp: upholds_def intro: wp_mono step)
  qed
qed

lemma effects [upholds_intros]:
  "upholds R (status f)" "upholds R (milestone u k d)" "upholds R (ctx_done E)"
  "upholds R (set_lock l running)" "upholds R release_bus" "upholds R (persist E (DeleteRows uid))"
  "upholds R (persist E (SavePAN p))" "upholds R (persist E (SaveChannel q))"
  "upholds R (persist E (StoreShortAddr s a))" "upholds R (emit (StoreState s t))"
  "upholds R (emit (StoreEncrypted s b))" "upholds R (emit (NotifyRemoved s))"
  "upholds R (emit (InheritProfile s t b))" "upholds R (emit (InheritName s t b))"
  by (simp_all add: upholds_def wp_simps silent set_lock_def release_bus_def)

lemma transport_quiet: "quiet_cmd cmd \<Longrightarrow> upholds R (transport_do E cmd)"
  by (auto simp: upholds_def wp_simps split: prod.splits intro: quiet)

lemma operations [upholds_intros]:
  "upholds R (reportScan E ms)" "upholds R (getShortAddr E s)" "upholds R (setInvPan E s pan ch)"
  "upholds R (primeInv E s pan ch)" "upholds R (commitPan E pan ch)" "upholds R (bindQuiet E sa)"
  "upholds R (getModuleConfig E)" "upholds R (getModulePan E)"
  "upholds R (setModulePan E 0xFFFF ch)" "upholds R (setModulePan E 0 ch)"
  unfolding transport_ops by (intro upholds_intros transport_quiet; simp)+

lemma common [upholds_intros]:
  "upholds R (restoreModule E)" "upholds R (deleteInverter E uid)" "upholds R (abortedOr E)" "upholds R (fail e)"
  unfolding restoreModule_def deleteInverter_def abortedOr_def fail_def by (intro upholds_intros)+

lemma sweep_flow [upholds_intros]: "upholds R (sweep_loop E lo hi dwell n ch acc)"
  by (induction n arbitrary: ch acc) (auto intro!: upholds_intros)

lemma record_flow [upholds_intros]: "upholds R (recordFound E fis)"
  by (induction fis) (auto intro!: upholds_intros)

lemma start_flow [upholds_intros]: "upholds R body \<Longrightarrow> upholds R (startOp oper st n body)"
  unfolding startOp_def by (intro upholds_intros)

lemma scan_flow [upholds_intros]: "upholds R (startScan E fuel slow lo hi dwell)"
  unfolding startScan_def runScan_def sweepScan_def fastScan_def Let_def by (intro upholds_intros)

lemma bind_found_flow [upholds_intros]: "upholds R (bind_found E serial sa)"
  unfolding bind_found_def by (intro upholds_intros)

lemma bindAndMigrate_flow [upholds_intros]: "upholds R (bindAndMigrate E serial)"
  unfolding bindAndMigrate_def migrateOne_def migrate_body_def by (intro upholds_intros)

lemma add_replace_flow [upholds_intros]:
  "upholds R (startAdd E serial)" "upholds R (startReplace E oldUID serial)"
  unfolding startAdd_def startReplace_def runAdd_def runReplace_def inherit_profile_def inherit_name_def Let_def
  by (intro upholds_intros)+

lemma remove_flow [upholds_intros]: "upholds R (startRemove E serial force)"
  unfolding startRemove_def runRemove_def evictInverter_def by (intro upholds_intros)

lemma pass_flow [upholds_intros]: "upholds R (verifyPass E ss v)"
  by (induction ss arbitrary: v) (auto intro!: upholds_intros)

lemma retries_flow [upholds_intros]: "upholds R (verify_retries E ss n v)"
  by (induction n arbitrary: v) (auto intro!: upholds_intros)

lemma rebindVerify_flow [upholds_intros]: "upholds R (rebindVerify E ss t)"
  unfolding rebindVerify_def Let_def by (intro upholds_intros)

lemma fleet_loops [upholds_intros]:
  "upholds R (prime_loop E pan ch ss i)" "upholds R (hop_loop E pan ch ss i)" "upholds R (commit_rounds E pan ch n r)"
proof -
  show "upholds R (prime_loop E pan ch ss i)"
    by (induction ss arbitrary: i) (auto intro!: upholds_intros)
  show "upholds R (hop_loop E pan ch ss i)"
    by (induction ss arbitrary: i) (auto intro!: upholds_intros)
  show "upholds R (commit_rounds E pan ch n r)"
    by (induction n arbitrary: r) (auto intro!: upholds_intros)
qed

lemma quiet_requests:
  "\<forall>p ch. req \<noteq> ReqRekey p ch \<Longrightarrow> \<forall>ch. req \<noteq> ReqChangeChannel ch \<Longrightarrow> upholds R (Handle E fuel req)"
  by (cases req) (auto simp: Handle_def intro!: upholds_intros)

end

locale command_relation = quiet_relation +
  assumes command: "send E cmd w = (r, w') \<Longrightarrow> R w w'"
begin

lemma set_flow [upholds_intros]: "upholds R (setModulePan E pan ch)"
proof -
  have "upholds R (transport_do E (SetModulePan pan ch))"
    by (auto simp: upholds_def wp_simps split: prod.splits intro: command)
  then show ?thesis unfolding setModulePan_def cmd_err_def by (intro upholds_intros)
qed

lemma run_moves [upholds_intros]:
  "upholds R (runRekey E ss oldPan newPan ch)" "upholds R (runChangeChannel E ss pan oldCh newCh)"
  unfolding runRekey_def rekey_move_def rekeyRollback_def runChangeChannel_def channel_move_def
    changeChannelRollback_def Let_def
  by (intro upholds_intros)+

lemma move_flow [upholds_intros]: "upholds R (startRekey E p ch)" "upholds R (startChangeChannel E ch)"
  unfolding startRekey_def startChangeChannel_def Let_def by (intro upholds_intros)+

lemma every_request: "upholds R (Handle E fuel req)"
  by (cases req) (auto simp: Handle_def intro!: upholds_intros)

end

end
