(* ===== verification/PairSystem.thy ===== *)
theory PairSystem
  imports PairInvariants
begin

text \<open>
  Pairing end to end: the driver's flows (theories \<open>PairFlows\<close> and \<open>PairFleet\<close>) on the
  gateway's executor (theory \<open>PairExec\<close>), over a link that may lose a command, or its reply after
  the command was carried out.  Shown here: what the driver's log of acknowledgements says about the
  PAN and channel the gateway has adopted, which requests can change them, where a rekey leaves
  them, and that a sweep over channels ends.
\<close>

section \<open>The link\<close>

text \<open>
  What becomes of the n-th command: not sent, answered in time, answered after the timeout, or
  carried out while the operator's abort ends the wait.
\<close>

datatype fate = NeverSent | Answered | Unanswered | Abandoned

definition gateway_link ::
  "(u64 \<Rightarrow> fate) \<Rightarrow> modem \<Rightarrow> u64 \<Rightarrow> pairing_op \<Rightarrow> adapter \<Rightarrow> adapter \<times> reply" where
  "gateway_link fate modem n cmd g =
     (case fate n of
        NeverSent \<Rightarrow> (g, NotSent)
      | Answered \<Rightarrow> (case run_pairing_op modem n cmd g of (g', res) \<Rightarrow> (g', Replied res))
      | Unanswered \<Rightarrow> (fst (run_pairing_op modem n cmd g), TimedOut)
      | Abandoned \<Rightarrow> (fst (run_pairing_op modem n cmd g), CtxDone))"

section \<open>What the log says about the operating PAN\<close>

text \<open>
  The settings the gateway may have after the logged commands: an acknowledged set leaves one, a
  set that was not acknowledged may or may not have been carried out.
\<close>

definition narrow :: "pairing_op \<times> bool \<Rightarrow> (u16 \<times> byte) set \<Rightarrow> (u16 \<times> byte) set" where
  "narrow e A =
     (case e of
        (SetModulePan pan ch, ok) \<Rightarrow>
          if \<not> adopts pan then A
          else if ok then {(ucast pan, ucast ch)} else insert (ucast pan, ucast ch) A
      | _ \<Rightarrow> A)"

definition possible :: "(pairing_op \<times> bool) list \<Rightarrow> (u16 \<times> byte) set \<Rightarrow> (u16 \<times> byte) set" where
  "possible t A = fold narrow t A"

lemma possible_simps [simp]: "possible [] A = A" "possible (e # t) A = possible t (narrow e A)"
  by (simp_all add: possible_def)

lemma narrow_set [simp]:
  "narrow (SetModulePan pan ch, ok) A =
     (if \<not> adopts pan then A else if ok then {(ucast pan, ucast ch)} else insert (ucast pan, ucast ch) A)"
  by (simp add: narrow_def)

lemma possible_append [simp]: "possible (xs @ ys) A = possible ys (possible xs A)"
  by (simp add: possible_def)

lemma narrow_mono: "A \<subseteq> B \<Longrightarrow> narrow e A \<subseteq> narrow e B"
  by (auto simp: narrow_def split: prod.splits pairing_op.splits)

lemma possible_mono: "A \<subseteq> B \<Longrightarrow> possible t A \<subseteq> possible t B"
  by (induction t arbitrary: A B) (simp_all add: narrow_mono)

lemma possible_quiet: "\<forall>e \<in> set t. quiet_cmd (fst e) \<Longrightarrow> possible t A = A"
proof (induction t)
  case (Cons e t)
  then have "narrow e A = A" by (auto simp: narrow_def quiet_cmd_def split: prod.splits pairing_op.splits)
  then show ?case using Cons by simp
qed simp

lemma possible_acked:
  "adopts pan \<Longrightarrow> possible (t @ [(SetModulePan pan ch, True)]) A = {(ucast pan, ucast ch)}"
  by simp

definition tracks :: "adapter world \<Rightarrow> adapter world \<Rightarrow> bool" where
  "tracks w w' \<longleftrightarrow> (\<exists>t. cmds (w_log w') = cmds (w_log w) @ t
     \<and> ad_operating (w_gw w') \<in> possible t {ad_operating (w_gw w)})"

lemma tracks_refl [simp]: "tracks w w"
  by (simp add: tracks_def)

lemma tracks_same: "cmds (w_log w') = cmds (w_log w) \<Longrightarrow> w_gw w' = w_gw w \<Longrightarrow> tracks w w'"
  by (simp add: tracks_def)

lemma tracks_trans: "tracks w w1 \<Longrightarrow> tracks w1 w2 \<Longrightarrow> tracks w w2"
proof -
  assume "tracks w w1" and "tracks w1 w2"
  then obtain t1 t2 where 1: "cmds (w_log w1) = cmds (w_log w) @ t1"
      "ad_operating (w_gw w1) \<in> possible t1 {ad_operating (w_gw w)}"
    and 2: "cmds (w_log w2) = cmds (w_log w1) @ t2" "ad_operating (w_gw w2) \<in> possible t2 {ad_operating (w_gw w1)}"
    unfolding tracks_def by blast
  have "possible t2 {ad_operating (w_gw w1)} \<subseteq> possible t2 (possible t1 {ad_operating (w_gw w)})"
    using 1(2) by (intro possible_mono) simp
  then show ?thesis using 1 2 unfolding tracks_def by (intro exI [of _ "t1 @ t2"]) auto
qed

definition on_gateway :: "(u64 \<Rightarrow> fate) \<Rightarrow> modem \<Rightarrow> adapter env \<Rightarrow> adapter env" where
  "on_gateway fate modem E = E\<lparr>e_link := gateway_link fate modem\<rparr>"

lemma run_pairing_op_possible:
  "ad_operating (fst (run_pairing_op modem n cmd a))
     \<in> possible [(cmd, pr_Ok (snd (run_pairing_op modem n cmd a)))] {ad_operating a}"
  "ad_operating (fst (run_pairing_op modem n cmd a)) \<in> possible [(cmd, False)] {ad_operating a}"
  by (auto simp: run_pairing_op_operating adopts_def narrow_def split: pairing_op.splits)

lemma possible_self: "a \<in> possible [(cmd, False)] {a}"
  by (auto simp: narrow_def split: pairing_op.splits)

lemma gateway_link_possible:
  assumes "gateway_link fate modem n cmd g = (g', r)"
  shows "ad_operating g' \<in> possible [(cmd, \<not> isl (read_reply r))] {ad_operating g}"
proof (cases "fate n")
  case NeverSent
  then show ?thesis using assms possible_self by (auto simp: gateway_link_def read_reply_def)
next
  case Answered
  then show ?thesis using assms run_pairing_op_possible [of modem n cmd g]
    by (auto simp: gateway_link_def read_reply_def simp del: possible_simps split: prod.splits if_splits)
qed (use assms run_pairing_op_possible(2) [of modem n cmd g] in \<open>auto simp: gateway_link_def read_reply_def\<close>)

lemma send_tracks:
  assumes "send (on_gateway fate modem E) cmd w = (r, w')"
  shows "tracks w w'"
proof -
  obtain g a where g: "gateway_link fate modem (w_reqSeq w + 1) cmd (w_gw w) = (g, a)" by fastforce
  have "cmds (w_log w') = cmds (w_log w) @ [(cmd, \<not> isl (read_reply a))]" "w_gw w' = g"
    using assms g by (auto simp: send_def on_gateway_def Let_def)
  then show ?thesis using gateway_link_possible [OF g] unfolding tracks_def by metis
qed

interpretation tracked: command_relation "on_gateway fate modem E" tracks
  by unfold_locales (auto intro: tracks_trans send_tracks simp: tracks_same)

text \<open>
  C12: whatever commands or replies are lost, the gateway's operating PAN and channel after a
  request are among those the driver can work out from its own log: an acknowledged set of a
  real PAN decides them, one without an acknowledgement may or may not have been carried out,
  and nothing else moves them.
\<close>

theorem driver_knows_pan:
  assumes "run_state (Handle (on_gateway fate modem E) fuel req) w = (r, w')"
  shows "\<exists>t. cmds (w_log w') = cmds (w_log w) @ t
    \<and> ad_operating (w_gw w') \<in> possible t {ad_operating (w_gw w)}"
  using upholdsD [OF tracked.every_request assms] by (simp add: tracks_def)

section \<open>What the quiet requests leave alone\<close>

definition quietly :: "'g world \<Rightarrow> 'g world \<Rightarrow> bool" where
  "quietly w w' \<longleftrightarrow> (\<exists>t. cmds (w_log w') = cmds (w_log w) @ t \<and> (\<forall>e \<in> set t. quiet_cmd (fst e)))"

lemma quietly_same: "cmds (w_log w') = cmds (w_log w) \<Longrightarrow> quietly w w'"
  by (simp add: quietly_def)

lemma quietly_trans: "quietly w w1 \<Longrightarrow> quietly w1 w2 \<Longrightarrow> quietly w w2"
  unfolding quietly_def by fastforce

lemma send_quietly: "quiet_cmd cmd \<Longrightarrow> send E cmd w = (r, w') \<Longrightarrow> quietly w w'"
  by (auto simp: send_def quietly_def Let_def split: prod.splits)

interpretation quieted: quiet_relation E quietly
  by unfold_locales (auto intro: quietly_trans send_quietly simp: quietly_same)

text \<open>
  Only a rekey or a change of channel can move the gateway off its operating PAN and channel:
  scanning, adding, replacing and removing leave them as they were, whatever is lost or fails and
  wherever an abort stops them.
\<close>

theorem only_moves_change_pan:
  assumes "run_state (Handle (on_gateway fate modem E) fuel req) w = (r, w')"
    and "\<forall>p ch. req \<noteq> ReqRekey p ch" and "\<forall>ch. req \<noteq> ReqChangeChannel ch"
  shows "ad_operating (w_gw w') = ad_operating (w_gw w)"
proof -
  obtain t where t: "cmds (w_log w') = cmds (w_log w) @ t" "ad_operating (w_gw w') \<in> possible t {ad_operating (w_gw w)}"
    using upholdsD [OF tracked.every_request assms(1)] by (auto simp: tracks_def)
  moreover have "\<forall>e \<in> set t. quiet_cmd (fst e)"
    using upholdsD [OF quieted.quiet_requests [OF assms(2,3)] assms(1)] t(1) by (auto simp: quietly_def)
  ultimately show ?thesis by (simp add: possible_quiet)
qed

section \<open>Where a rekey leaves the gateway\<close>

lemma queries_quiet:
  "\<forall>c ok. (c, ok) \<in> set t \<longrightarrow> (\<exists>s \<in> set serials. c = GetShortAddr s) \<Longrightarrow> \<forall>e \<in> set t. quiet_cmd (fst e)"
  by fastforce

lemma oks_quiet: "\<forall>c \<in> set cs. quiet_cmd c \<Longrightarrow> \<forall>e \<in> set (oks cs). quiet_cmd (fst e)"
  by (auto simp: oks_def)

lemma rekey_committed:
  assumes run: "run_state (runRekey (on_gateway fate modem E) serials oldPan newPan ch) w = ((), w')"
    and saved: "saves (w_log w') = saves (w_log w) @ [SavePAN newPan True]"
  shows "ad_operating (w_gw w') = (if adopts newPan then (ucast newPan, ucast ch) else ad_operating (w_gw w))"
proof -
  obtain t where t: "cmds (w_log w') = cmds (w_log w) @ t" "ad_operating (w_gw w') \<in> possible t {ad_operating (w_gw w)}"
    using upholdsD [OF tracked.run_moves(1) run] by (auto simp: tracks_def)
  have "completed (rekey_script serials newPan ch) serials (SavePAN newPan) w w'"
    using rekey_ends [OF run] saved by (auto simp: undone_def)
  then obtain q where q: "t = oks (rekey_script serials newPan ch) @ q" "\<forall>e \<in> set q. quiet_cmd (fst e)"
    using t(1) queries_quiet by (fastforce simp: completed_def)
  let ?pre = "[SetModulePan 0xFFFF ch] @ map (\<lambda>s. PrimeInv s newPan ch) serials
     @ replicate commitRounds (CommitPan newPan ch)"
  have "rekey_script serials newPan ch = ?pre @ [SetModulePan newPan ch]" by (simp add: rekey_script_def)
  moreover have "\<forall>c \<in> set ?pre. quiet_cmd c" by auto
  ultimately have "possible t A = (if adopts newPan then {(ucast newPan, ucast ch)} else A)" for A
    using q possible_quiet [OF oks_quiet] by (simp add: possible_quiet del: append.simps)
  then show ?thesis using t(2) by (auto split: if_splits)
qed

lemma rekey_rolled_back:
  assumes run: "run_state (runRekey (on_gateway fate modem E) serials oldPan newPan ch) w = ((), w')"
    and unsaved: "saves (w_log w') = saves (w_log w)"
    and ack: "last (cmds (w_log w')) = (SetModulePan oldPan ch, True)" and old: "adopts oldPan"
  shows "ad_operating (w_gw w') = (ucast oldPan, ucast ch)"
proof -
  obtain t where t: "cmds (w_log w') = cmds (w_log w) @ t" "ad_operating (w_gw w') \<in> possible t {ad_operating (w_gw w)}"
    using upholdsD [OF tracked.run_moves(1) run] by (auto simp: tracks_def)
  have "undone (rekey_script serials newPan ch) (SetModulePan oldPan ch) (SavePAN newPan) w w'"
    using rekey_ends [OF run] unsaved by (auto simp: completed_def)
  then obtain u ok where "t = u @ [(SetModulePan oldPan ch, ok)]" using t(1) by (auto simp: undone_def)
  moreover have ok using calculation ack t(1) by simp
  ultimately show ?thesis using t(2) old by simp
qed


section \<open>Sweeps end\<close>

lemma set_off_channel:
  assumes "checkChannel ch \<noteq> None"
  shows "wp (setModulePan (on_gateway fate modem E) pan ch) (\<lambda>r w'. r \<noteq> None) w"
proof -
  have "\<not> pr_Ok (snd (run_pairing_op modem n (SetModulePan pan ch) a))" for n a
    using assms by (auto simp: run_pairing_op_def checked_def)
  then show ?thesis
    by (auto simp: setModulePan_def cmd_err_def wp_simps send_def on_gateway_def gateway_link_def
        read_reply_def err_only_def Let_def split: prod.splits fate.splits) (metis snd_conv)
qed

lemma sweep_loop_ends:
  assumes "ch \<noteq> 0" and "0 < n" and "checkChannel ch = None \<Longrightarrow> 28 \<le> unat ch + n"
  shows "wp (sweep_loop (on_gateway fate modem E) lo hi dwell n ch acc) (\<lambda>r w'. r \<noteq> None) w"
  using assms
proof (induction n arbitrary: ch acc w)
  case (Suc n)
  let ?E = "on_gateway fate modem E"
  have go: "wp (sweep_loop ?E lo hi dwell n (ch + 1) acc') (\<lambda>r w'. r \<noteq> None) w'"
    if "checkChannel ch = None" for acc' w'
  proof -
    have le: "ch \<le> 26" using that Suc.prems(1)
      by (auto simp: checkChannel_def minChannel_def maxChannel_def not_less split: if_splits)
    then have u: "unat (ch + 1) = unat ch + 1" by (simp add: unat_word_ariths word_le_nat_alt)
    show ?thesis
    proof (rule Suc.IH)
      show "ch + 1 \<noteq> 0" using u by (metis add_is_0 one_neq_zero unsigned_0)
      show "0 < n" "28 \<le> unat (ch + 1) + n" using Suc.prems(3) [OF that] le u by (simp_all add: word_le_nat_alt)
    qed
  qed
  have set: "wp (setModulePan ?E 0xFFFF ch) (\<lambda>r w1. checkChannel ch = None \<or> r \<noteq> None) w1" for w1
    using set_off_channel [of ch fate modem E "0xFFFF" w1] by (cases "checkChannel ch") (auto intro: wp_triv)
  show ?case
    apply (simp add: wp_simps)
    apply (intro impI)
    apply (rule wp_mono [OF set])
    apply (auto simp: wp_simps reportScan_wp intro!: go [unfolded not_None_eq] split: option.splits prod.splits sum.splits)
    done
qed simp

lemma sweepScan_ends:
  assumes "lo \<noteq> 0" and "17 \<le> fuel"
  shows "wp (sweepScan (on_gateway fate modem E) fuel lo hi dwell) (\<lambda>r w'. r \<noteq> None) w"
proof -
  have "28 \<le> unat lo + fuel" if "checkChannel lo = None"
    using that assms by (auto simp: checkChannel_def minChannel_def maxChannel_def not_less word_le_nat_alt split: if_splits)
  then have "wp (sweep_loop (on_gateway fate modem E) lo hi dwell fuel lo []) (\<lambda>r w'. r \<noteq> None) w"
    using assms by (intro sweep_loop_ends) auto
  then show ?thesis unfolding sweepScan_def
    by (rule wp_bindI) (auto simp: wp_simps intro!: wp_triv)
qed

section \<open>Every operation comes to an end\<close>

definition ended :: "'g world \<Rightarrow> bool" where
  "ended w \<longleftrightarrow> ps_Stage (w_status w) \<in> {StageDone, StageAborted, StageError}"

lemma ended_simps [simp]:
  "ended (w\<lparr>w_status := finishDone m st\<rparr>)" "ended (w\<lparr>w_status := finishError m st\<rparr>)"
  "ended (w\<lparr>w_status := finishAborted st\<rparr>)" "ended (w\<lparr>w_log := l\<rparr>) = ended w"
  by (simp_all add: ended_def finishDone_def finishError_def finishAborted_def)

lemma fail_ends: "wp (fail e) (\<lambda>_. ended) w"
  by (simp add: fail_def wp_simps ended_def finishError_def finishAborted_def)

lemma startOp_ends:
  assumes "\<And>w. wp body (\<lambda>_. ended) w"
  shows "wp (startOp oper st n body) (\<lambda>r w'. r = Started \<longrightarrow> ended w') w"
proof -
  have "wp body (\<lambda>_ w'. ended (w'\<lparr>w_lock := l w', w_running := b\<rparr>)) w" for w b l
    by (rule wp_mono [OF assms]) (simp add: ended_def)
  then show ?thesis
    by (auto simp: startOp_def wp_simps set_lock_def release_bus_def split: prod.splits bool.splits)
qed

lemma runScan_ends:
  assumes "lo \<noteq> 0" and "17 \<le> fuel"
  shows "wp (runScan (on_gateway fate modem E) fuel slow ch lo hi dwell) (\<lambda>_. ended) w"
proof -
  let ?E = "on_gateway fate modem E"
  have found: "wp (case found of None \<Rightarrow> State_Monad.return ()
      | Some found \<Rightarrow> State_Monad.bind (abortedOr ?E) (\<lambda>a. if a then State_Monad.return () else case found of
           Inl err \<Rightarrow> fail (Wrap f args err)
         | Inr fis \<Rightarrow> State_Monad.bind (recordFound ?E fis) (\<lambda>_. status (finishDone (m fis))))) (\<lambda>_. ended) w1"
    if "found \<noteq> None" for found f args m w1
    using that by (auto simp: wp_simps abortedOr_def intro!: fail_ends wp_triv split: sum.splits option.splits)
  show ?thesis
    unfolding runScan_def
    apply (simp only: wp_bind [of "milestone _ _ _"] wp_milestone)
    apply (rule wp_bindI [where Q = "\<lambda>r w'. r \<noteq> None"])
     apply (cases slow; auto simp: wp_simps simp del: not_None_eq intro: sweepScan_ends [OF assms] wp_triv)
    apply (erule found)
    done
qed

lemma ends_intros:
  "(\<And>w. wp k (\<lambda>_. ended) w) \<Longrightarrow>
     wp (State_Monad.bind (abortedOr E) (\<lambda>a. if a then State_Monad.return () else k)) (\<lambda>_. ended) w"
  "(\<And>a w. wp (f a) (\<lambda>_. ended) w) \<Longrightarrow> wp (State_Monad.bind m f) (\<lambda>_. ended) w"
  "wp k (\<lambda>_. ended) w \<Longrightarrow> wp k' (\<lambda>_. ended) w \<Longrightarrow> wp (if b then k else k') (\<lambda>_. ended) w"
  "wp k (\<lambda>_. ended) w \<Longrightarrow> (\<And>y. wp (g y) (\<lambda>_. ended) w) \<Longrightarrow>
     wp (case v of None \<Rightarrow> k | Some y \<Rightarrow> g y) (\<lambda>_. ended) w"
  "(\<And>y z. wp (h y z) (\<lambda>_. ended) w) \<Longrightarrow> wp (case u of (y, z) \<Rightarrow> h y z) (\<lambda>_. ended) w"
  "wp (status (finishDone msg)) (\<lambda>_. ended) w"
  by (auto simp: wp_simps abortedOr_def intro: wp_triv split: option.splits prod.splits)

lemma bodies_end:
  "wp (runAdd E serial) (\<lambda>_. ended) w" "wp (runReplace E oldUID serial) (\<lambda>_. ended) w"
  "wp (runRemove E serial force) (\<lambda>_. ended) w"
  unfolding runAdd_def runReplace_def runRemove_def by (intro ends_intros fail_ends)+

lemma moves_end:
  "wp (runRekey E serials oldPan newPan ch) (\<lambda>_. ended) w"
  "wp (runChangeChannel E serials pan oldCh newCh) (\<lambda>_. ended) w"
  by (auto intro!: wpI dest!: rekey_ends channel_ends simp: ended_def undone_def completed_def)

text \<open>
  C13: every operation that starts comes to an end and says so: its status ends as done, aborted or
  failed, whatever the radio, the link, the store or the operator do.  For a sweep this needs the
  gateway: the driver's loop has no check of its own and counts in 32 bits, so an upper bound
  of 0xFFFFFFFF could never be passed, but the gateway refuses every channel outside 11 to 26 and
  the first refusal ends the sweep; seventeen rounds are enough for every pair of bounds.
\<close>

theorem operations_end:
  assumes "run_state (Handle (on_gateway fate modem E) fuel req) w = (Started, w')"
    and "17 \<le> fuel"
  shows "ps_Stage (w_status w') \<in> {StageDone, StageAborted, StageError}"
proof -
  let ?E = "on_gateway fate modem E" and ?Q = "\<lambda>r w'. r = Started \<longrightarrow> ended w'"
  note start = startOp_ends [OF runScan_ends] startOp_ends [OF bodies_end(1)] startOp_ends [OF bodies_end(2)]
    startOp_ends [OF bodies_end(3)] startOp_ends [OF moves_end(1)] startOp_ends [OF moves_end(2)]
  have "defaultChanLo \<noteq> 0" by (simp add: defaultChanLo_def)
  then have scan: "wp (startScan ?E fuel slow lo hi dwell) ?Q w" for slow lo hi dwell
    using assms(2) by (auto simp: startScan_def wp_simps Let_def intro!: start split: option.splits)
  have moves: "wp (startRekey ?E p ch) ?Q w" "wp (startChangeChannel ?E ch) ?Q w" for p ch
    by (auto simp: startRekey_def startChangeChannel_def wp_getModulePan wp_getModuleConfig wp_simps Let_def
        intro!: start split: option.splits sum.splits prod.splits)
  have "wp (Handle ?E fuel req) ?Q w"
    by (cases req) (auto simp: Handle_def scan moves startAdd_def startReplace_def startRemove_def wp_simps intro!: start)
  from wpD [OF this assms(1)] show ?thesis by (simp add: ended_def)
qed

end
