(* ===== verification/PairWitness.thy ===== *)
theory PairWitness
  imports PairSystem
begin

text \<open>
  The pairing properties on concrete worlds: a backend that agrees to everything, one that is never
  reached, and the gateway itself with a module that acknowledges or stays silent.
\<close>

section \<open>Running a flow\<close>

lemma run_simps:
  "run_state (State_Monad.return a) w = (a, w)"
  "run_state (State_Monad.bind m f) w = (case run_state m w of (a, w') \<Rightarrow> run_state (f a) w')"
  "run_state State_Monad.get w = (w, w)"
  "run_state (status g) w = ((), w\<lparr>w_status := g (w_status w)\<rparr>)"
  "run_state (emit e) w = ((), w\<lparr>w_log := w_log w @ [e]\<rparr>)"
  "run_state (milestone u k d) w = ((), w\<lparr>w_log := w_log w @ [Milestone u k d]\<rparr>)"
  "run_state (ctx_done E) w = (e_cancelled E (w_looks w), w\<lparr>w_looks := w_looks w + 1\<rparr>)"
  "run_state (persist E eff) w = (e_writes E (w_writes w),
     w\<lparr>w_writes := w_writes w + 1, w_log := w_log w @ [eff (e_writes E (w_writes w))]\<rparr>)"
  "run_state (transport_do E cmd) w = send E cmd w"
  by (simp_all add: status_def emit_def milestone_def ctx_done_def persist_def transport_do_def send_def Let_def
      State_Monad.update_def split: prod.splits)

definition sample_env :: "(pairing_op \<Rightarrow> reply) \<Rightarrow> 'g env" where
  "sample_env answer = \<lparr>e_link = (\<lambda>n cmd g. (g, answer cmd)), e_cancelled = (\<lambda>n. False),
     e_writes = (\<lambda>n. True), e_transport = True, e_settings = True, e_store = True,
     e_currentChannel = Some 16, e_list = Some [''806000042582''], e_profiles = None, e_names = None\<rparr>"

definition sample_world :: "'g \<Rightarrow> 'g world" where
  "sample_world g = \<lparr>w_gw = g, w_reqSeq = 0, w_looks = 0, w_writes = 0,
     w_status = begin_status OpNone StageNone 0, w_lock = zero_lock, w_running = False, w_log = []\<rparr>"

definition agreeable :: "pairing_op \<Rightarrow> reply" where
  "agreeable cmd = Replied ((ok_result 1)\<lparr>pr_ShortAddr := 0x1234, pr_Pan := 0x0DCE, pr_Channel := 16\<rparr>)"

definition deaf :: "pairing_op \<Rightarrow> reply" where "deaf cmd = NotSent"

lemma sample_simps [simp]:
  "read_reply (agreeable cmd) = Inr ((ok_result 1)\<lparr>pr_ShortAddr := 0x1234, pr_Pan := 0x0DCE, pr_Channel := 16\<rparr>)"
  "read_reply (deaf cmd) = Inl ErrNotSent"
  "send (sample_env a) cmd w =
     (read_reply (a cmd), w\<lparr>w_reqSeq := w_reqSeq w + 1, w_log := w_log w @ [Cmd cmd (\<not> isl (read_reply (a cmd)))]\<rparr>)"
  "e_cancelled (sample_env a) k = False" "e_writes (sample_env a) k = True" "e_store (sample_env a)"
  "e_currentChannel (sample_env a) = Some 16" "e_profiles (sample_env a) = None" "e_names (sample_env a) = None"
  "w_log (sample_world g) = []" "w_gw (sample_world g) = g" "w_looks (sample_world g) = 0" "\<not> w_running (sample_world g)"
  by (simp_all add: agreeable_def deaf_def read_reply_def send_def Let_def sample_env_def sample_world_def)

lemma rounds: "commitRounds = Suc (Suc (Suc 0))" "verifyRetries = Suc (Suc 0)"
  by (simp_all add: commitRounds_def verifyRetries_def)

lemma run_unit: "run_state m w = ((), snd (run_state m w))"
  by (simp add: prod_eq_iff)

lemma run_pair: "run_state m w = (fst (run_state m w), snd (run_state m w))"
  by simp

lemmas evaluate = run_simps cmd_defs cmd_err_def err_only_def rounds Let_def getShortAddr_def ok_result_def

section \<open>The witnesses\<close>

abbreviation sample_serial :: string where "sample_serial \<equiv> ''806000042582''"

lemma verify_outcomes_witness:
  "\<exists>verified. fst ` set verified = {sample_serial}
     \<and> addresses (w_log (snd (run_state (rebindVerify (sample_env agreeable) [sample_serial]
         \<lparr>rt_stage = StageRekey, rt_errKind = [], rt_partialErr = (\<lambda>n m. plain []), rt_partialMsg = (\<lambda>n m. plain []),
          rt_done = (\<lambda>n m. plain [])\<rparr>) (sample_world ())))) = verified"
proof -
  let ?t = "\<lparr>rt_stage = StageRekey, rt_errKind = [], rt_partialErr = (\<lambda>n m. plain []),
     rt_partialMsg = (\<lambda>n m. plain []), rt_done = (\<lambda>n m. plain [])\<rparr>"
  let ?r = "run_state (rebindVerify (sample_env agreeable) [sample_serial] ?t) (sample_world ())"
  have "ps_Stage (w_status (snd ?r)) = StageDone"
    by (simp add: rebindVerify_def evaluate finishDone_def)
  then show ?thesis
    using verify_outcomes [of "sample_env agreeable" "[sample_serial]" ?t "sample_world ()" "fst ?r" "snd ?r"] by auto
qed



lemma rekey_log:
  "\<exists>u. cmds (w_log (snd (run_state (runRekey (sample_env agreeable) [sample_serial] 0x0DCE 0x1234 16) (sample_world ()))))
     = [(SetModulePan 0xFFFF 16, True), (PrimeInv sample_serial 0x1234 16, True), (CommitPan 0x1234 16, True)] @ u"
  by (simp add: runRekey_def rekey_move_def rebindVerify_def evaluate)

lemma commit_needs_every_prime_witness:
  "\<exists>u. cmds (w_log (snd (run_state (runRekey (sample_env agreeable) [sample_serial] 0x0DCE 0x1234 16) (sample_world ()))))
     = (SetModulePan 0xFFFF 16, True) # (PrimeInv sample_serial 0x1234 16, True) # u"
proof -
  let ?w = "snd (run_state (runRekey (sample_env agreeable) [sample_serial] 0x0DCE 0x1234 16) (sample_world ()))"
  have "(CommitPan 0x1234 16, True) \<in> set (cmds (w_log ?w))" using rekey_log by auto
  from commit_needs_every_prime [OF run_unit [of "runRekey (sample_env agreeable) [sample_serial] 0x0DCE 0x1234 16" "sample_world ()"] _ this]
  show ?thesis by simp
qed

lemma migrate_restores_witness:
  "last (cmds (w_log (snd (run_state (migrateOne (sample_env deaf) sample_serial 0x1234 16) (sample_world ())))))
     = (SetModulePan 0 0, False)"
proof -
  let ?r = "run_state (migrateOne (sample_env deaf) sample_serial 0x1234 16) (sample_world ())"
  obtain t ok where "cmds (w_log (snd ?r)) = t @ [(SetModulePan 0 0, ok)]"
    using migrate_restores [OF run_pair [of "migrateOne (sample_env deaf) sample_serial 0x1234 16" "sample_world ()"]] by auto
  moreover have "\<forall>e \<in> set (cmds (w_log (snd ?r))). \<not> snd e"
    by (simp add: migrateOne_def migrate_body_def restoreModule_def evaluate)
  ultimately show ?thesis by simp
qed

lemma scan_restores_witness:
  "\<exists>ok. last (cmds (w_log (snd (run_state (sweepScan (sample_env deaf) 2 11 26 0) (sample_world ()))))) = (SetModulePan 0 0, ok)"
proof -
  let ?r = "run_state (sweepScan (sample_env deaf) 2 11 26 0) (sample_world ())"
  have "fst ?r \<noteq> None"
    by (simp add: sweepScan_def numeral_2_eq_2 restoreModule_def evaluate)
  then obtain x where "?r = (Some x, snd ?r)" by (metis option.exhaust prod.collapse)
  then show ?thesis using scan_restores by blast
qed

lemma operations_release_bus_witness:
  "\<not> w_running (snd (run_state (Handle (sample_env deaf) 17 (ReqRemove sample_serial True)) (sample_world ())))"
  using operations_release_bus [OF run_pair [of "Handle (sample_env deaf) 17 (ReqRemove sample_serial True)" "sample_world ()"]]
  by simp

lemma remove_always_deletes_witness:
  "\<exists>ok. deletes (w_log (snd (run_state (runRemove (sample_env deaf) sample_serial False) (sample_world ()))))
     = [DeleteRows sample_serial ok]"
  using remove_always_deletes [OF run_unit [of "runRemove (sample_env deaf) sample_serial False" "sample_world ()"]] by auto

lemma replace_keeps_old_witness:
  "deletes (w_log (snd (run_state (runReplace (sample_env deaf) ''A0B1C2D3E4F5'' sample_serial) (sample_world ())))) = []"
proof -
  let ?w = "snd (run_state (runReplace (sample_env deaf) ''A0B1C2D3E4F5'' sample_serial) (sample_world ()))"
  have "addresses (w_log ?w) = []"
    by (simp add: runReplace_def bindAndMigrate_def getModulePan_def getModuleConfig_def abortedOr_def fail_def evaluate)
  then show ?thesis
    using replace_keeps_old [OF run_unit [of "runReplace (sample_env deaf) ''A0B1C2D3E4F5'' sample_serial" "sample_world ()"]]
    by auto
qed

section \<open>On the gateway\<close>

text \<open>A module that acknowledges every frame.\<close>

definition acking :: modem where "acking n = Some [[[0xAB, 0xCD, 0xEF]]]"

lemma acked_set: "rn_SetModulePan acking pan ch r = (r\<lparr>rn_tried := rn_tried r + 1, rn_wire := rn_wire r @ [buildSetPanidChannel pan ch]\<rparr>, None)"
  by (simp add: rn_SetModulePan_def writeFrame_def acking_def findAck_def ackByte_def ackLen_def)

lemma driver_knows_pan_witness:
  "\<exists>t. cmds (w_log (snd (run_state (Handle (on_gateway (\<lambda>n. Answered) acking (sample_env deaf)) 17 (ReqRekey ''1234'' 16))
       (sample_world sample_adapter)))) = t
     \<and> ad_operating (w_gw (snd (run_state (Handle (on_gateway (\<lambda>n. Answered) acking (sample_env deaf)) 17 (ReqRekey ''1234'' 16))
         (sample_world sample_adapter)))) \<in> possible t {ad_operating sample_adapter}"
  using driver_knows_pan [OF run_pair [of "Handle (on_gateway (\<lambda>n. Answered) acking (sample_env deaf)) 17 (ReqRekey ''1234'' 16)"
      "sample_world sample_adapter"]] by simp

lemma only_moves_change_pan_witness:
  "ad_operating (w_gw (snd (run_state (Handle (on_gateway (\<lambda>n. Unanswered) acking (sample_env deaf)) 17 (ReqAdd sample_serial))
       (sample_world sample_adapter)))) = (0x0DCE, 16)"
  using only_moves_change_pan [OF run_pair [of "Handle (on_gateway (\<lambda>n. Unanswered) acking (sample_env deaf)) 17 (ReqAdd sample_serial)"
      "sample_world sample_adapter"]] by (simp add: sample_adapter_def ad_operating_def)

lemma operations_end_witness:
  "ps_Stage (w_status (snd (run_state (Handle (on_gateway (\<lambda>n. Answered) acking (sample_env deaf)) 17 (ReqScan True 11 0xFFFFFFFF 0))
       (sample_world sample_adapter)))) \<in> {StageDone, StageAborted, StageError}"
proof -
  let ?E = "on_gateway (\<lambda>n. Answered) acking (sample_env deaf)"
  let ?r = "run_state (Handle ?E 17 (ReqScan True 11 0xFFFFFFFF 0)) (sample_world sample_adapter)"
  have op: "Handle ?E 17 (ReqScan True 11 0xFFFFFFFF 0) = startOp OpScan StageScan 0 (runScan ?E 17 True 16 11 0xFFFFFFFF defaultDwellMs)"
    by (simp add: Handle_def startScan_def on_gateway_def sample_env_def channelOrCurrent_def clampScanWindow_def)
  obtain l b where l: "acquire_bus zero_lock = (l, True, b)"
    by (simp add: acquire_bus_def priority_attempt_def zero_lock_def)
  have "fst ?r = Started"
    unfolding op startOp_def by (simp add: run_simps l sample_world_def split: prod.splits)
  then have "?r = (Started, snd ?r)" by (metis prod.collapse)
  from operations_end [OF this] show ?thesis by simp
qed

lemma send_gateway:
  "send (on_gateway fate modem E) cmd w =
     (case gateway_link fate modem (w_reqSeq w + 1) cmd (w_gw w) of (g, r) \<Rightarrow>
        (read_reply r, w\<lparr>w_gw := g, w_reqSeq := w_reqSeq w + 1, w_log := w_log w @ [Cmd cmd (\<not> isl (read_reply r))]\<rparr>))"
  by (simp add: send_def on_gateway_def Let_def split: prod.splits)

lemma on_gateway_simps [simp]:
  "e_cancelled (on_gateway fate modem E) = e_cancelled E" "e_writes (on_gateway fate modem E) = e_writes E"
  "e_store (on_gateway fate modem E) = e_store E"
  by (simp_all add: on_gateway_def)

lemma rolled_back_channel:
  "ad_operating (w_gw (snd (run_state (runRekey (on_gateway (\<lambda>n. if n = 1 then NeverSent else Answered) acking (sample_env deaf))
       [sample_serial] 0x0DCE 0x1234 25) (sample_world sample_adapter)))) = (0x0DCE, 25)"
proof -
  let ?m = "runRekey (on_gateway (\<lambda>n. if n = 1 then NeverSent else Answered) acking (sample_env deaf))
       [sample_serial] 0x0DCE 0x1234 25"
  let ?w = "snd (run_state ?m (sample_world sample_adapter))"
  have "saves (w_log ?w) = [] \<and> cmds (w_log ?w) = [(SetModulePan 0xFFFF 25, False), (SetModulePan 0x0DCE 25, True)]"
    by (simp add: runRekey_def rekey_move_def rekeyRollback_def evaluate send_gateway gateway_link_def read_reply_def
        sample_world_def run_pairing_op_def checked_def checkChannel_def minChannel_def maxChannel_def
        ad_SetModulePan_def with_runner_def acked_set finishPairing_def)
  then have "saves (w_log ?w) = []" "last (cmds (w_log ?w)) = (SetModulePan 0x0DCE 25, True)" by simp_all
  then show ?thesis
    using rekey_rolled_back [OF run_unit [of ?m "sample_world sample_adapter"]] by (simp add: adopts_def)
qed

lemma acked_prime:
  "rn_PrimeInv acking sample_serial pan ch r = (r\<lparr>rn_tried := rn_tried r + 1,
     rn_wire := rn_wire r @ [buildPrimeInverterPan pan ch [0x80, 0x60, 0x00, 0x04, 0x25, 0x82]]\<rparr>, None)"
proof -
  have "serialToBCD6 sample_serial = Some [0x80, 0x60, 0x00, 0x04, 0x25, 0x82]" by code_simp
  then show ?thesis by (simp add: rn_PrimeInv_def rn_directed_def writeFrame_def acking_def)
qed

lemma acked_commit:
  "rn_CommitPan acking pan ch r = (let f = buildCommitPanNow pan ch in
     (r\<lparr>rn_tried := rn_tried r + 3, rn_wire := rn_wire r @ [f, f, f]\<rparr>, None))"
  by (simp add: rn_CommitPan_def numeral_3_eq_3 writeFrame_def acking_def Let_def)

lemma acked_query:
  "rn_GetShortAddr acking sample_serial r = (r\<lparr>rn_tried := rn_tried r + 1,
     rn_wire := rn_wire r @ [buildGetInverterShortAddr [0x80, 0x60, 0x00, 0x04, 0x25, 0x82]]\<rparr>, Inl ErrReply)"
proof -
  have "serialToBCD6 sample_serial = Some [0x80, 0x60, 0x00, 0x04, 0x25, 0x82]" by code_simp
  then show ?thesis by (simp add: rn_GetShortAddr_def writeFrame_def acking_def parseShortAddrReply_def Let_def)
qed


end
