(* ===== verification/GridProfile.thy ===== *)
theory GridProfile
  imports ProtectionRead "HOL-Library.List_Lexorder" "HOL-Library.Char_ord"
begin

text \<open>
  The grid profiles, first part: \<open>model.go\<close>, \<open>forwardmap.go\<close>, \<open>capability.go\<close>, \<open>encode.go\<close>,
  \<open>conflicts.go\<close>, the range check of \<open>schema.go\<close> and the tolerances of \<open>reconcile.go\<close> in
  \<open>internal/gridprofile\<close>.  A profile is a list of points, each a parameter under its two-letter
  APsystems code with a native value and an allowed range.  The lemmas: which codes a model
  family can write, that the range arithmetic behaves as an intersection as long as the ranges
  meet, and that what the codec puts on the wire for a point reads back inside the tolerance the
  reconciler compares with.
\<close>

section \<open>The data model\<close>

record Range = rMin :: f64  rMax :: f64

record NativeValue = nv_Value :: f64  nv_Unit :: string

record PointEntry =
  pe_Model :: int
  pe_Group :: string
  pe_Index :: int
  pe_Point :: string
  pe_SFRef :: "string option"
  pe_SF :: int
  pe_Native :: NativeValue
  pe_SunSpec :: "f64 option"
  pe_Range :: "Range option"
  pe_ApsCode :: string

record Source =
  src_System :: string
  src_Ref :: string
  src_Bundle :: string
  src_Version :: string
  src_Fetched :: string

record Profile =
  pf_Schema :: string
  pf_ID :: string
  pf_VNomV :: f64
  pf_Source :: Source
  pf_Points :: "PointEntry list"

record Overlay =
  ov_Schema :: string
  ov_ID :: string
  ov_VNomV :: f64
  ov_UIDs :: "string list"
  ov_Points :: "PointEntry list"

record EffectivePoint =
  ep_ApsCode :: string
  ep_NativeValue :: f64
  ep_Unit :: string
  ep_Range :: "Range option"
  ep_SF :: int

record EffectiveProfile =
  ef_InverterUID :: string
  ef_ModelCode :: byte
  ef_Points :: "EffectivePoint list"

section \<open>The forward map\<close>

record mapEntry =
  me_Model :: int
  me_Group :: string
  me_Index :: int
  me_Point :: string
  me_SFRef :: "string option"
  me_SF :: int
  me_Unit :: string
  me_IsVoltagePct :: bool
  me_LongName :: string

definition forwardMap :: "(string \<times> mapEntry) list" where
  "forwardMap =
    [(''AC'', mapEntry.make 707 ''MustTrip'' 0 ''V'' (Some ''V_SF'') (-2) ''%VNom'' True ''under_voltage_stage_2_90''),
     (''BB'', mapEntry.make 707 ''MustTrip'' 0 ''Tms'' (Some ''Tms_SF'') (-2) ''s'' False ''Under_Voltage1_clearance_time''),
     (''AQ'', mapEntry.make 707 ''MustTrip'' 1 ''V'' (Some ''V_SF'') (-2) ''%VNom'' True ''under_voltage_stage_2''),
     (''BD'', mapEntry.make 707 ''MustTrip'' 1 ''Tms'' (Some ''Tms_SF'') (-2) ''s'' False ''Under_Voltage2_clearance_time''),
     (''AD'', mapEntry.make 708 ''MustTrip'' 0 ''V'' (Some ''V_SF'') (-2) ''%VNom'' True ''over_voltage_slow''),
     (''BC'', mapEntry.make 708 ''MustTrip'' 0 ''Tms'' (Some ''Tms_SF'') (-2) ''s'' False ''Over_Voltage1_clearance_time''),
     (''AY'', mapEntry.make 708 ''MustTrip'' 1 ''V'' (Some ''V_SF'') (-2) ''%VNom'' True ''over_voltage_slow_90''),
     (''BE'', mapEntry.make 708 ''MustTrip'' 1 ''Tms'' (Some ''Tms_SF'') (-2) ''s'' False ''Over_Voltage2_clearance_time''),
     (''AB'', mapEntry.make 708 ''MustTrip'' 2 ''V'' (Some ''V_SF'') (-2) ''%VNom'' True ''min10_Over_average_voltage''),
     (''AE'', mapEntry.make 709 ''MustTrip'' 0 ''Hz'' (Some ''Hz_SF'') (-2) ''Hz'' False ''under_frequency_slow''),
     (''BJ'', mapEntry.make 709 ''MustTrip'' 0 ''Tms'' (Some ''Tms_SF'') (-2) ''s'' False ''Under_Frequency2_clearance_time''),
     (''AJ'', mapEntry.make 709 ''MustTrip'' 1 ''Hz'' (Some ''Hz_SF'') (-2) ''Hz'' False ''under_frequency_fast''),
     (''BH'', mapEntry.make 709 ''MustTrip'' 1 ''Tms'' (Some ''Tms_SF'') (-2) ''s'' False ''Under_Frequency1_clearance_time''),
     (''AF'', mapEntry.make 710 ''MustTrip'' 0 ''Hz'' (Some ''Hz_SF'') (-2) ''Hz'' False ''over_frequency_slow''),
     (''BK'', mapEntry.make 710 ''MustTrip'' 0 ''Tms'' (Some ''Tms_SF'') (-2) ''s'' False ''Over_Frequency2_clearance_time''),
     (''AK'', mapEntry.make 710 ''MustTrip'' 1 ''Hz'' (Some ''Hz_SF'') (-2) ''Hz'' False ''over_frequency_fast''),
     (''BI'', mapEntry.make 710 ''MustTrip'' 1 ''Tms'' (Some ''Tms_SF'') (-2) ''s'' False ''Over_Frequency1_clearance_time''),
     (''AH'', mapEntry.make 707 ''MustTrip'' 2 ''V'' (Some ''V_SF'') (-2) ''%VNom'' True ''under_voltage_fast''),
     (''AI'', mapEntry.make 708 ''MustTrip'' 3 ''V'' (Some ''V_SF'') (-2) ''%VNom'' True ''over_voltage_fast''),
     (''BN'', mapEntry.make 703 ''DEREnterService'' 0 ''ESVLo'' (Some ''V_SF'') (-2) ''%VNom'' True ''''),
     (''BO'', mapEntry.make 703 ''DEREnterService'' 0 ''ESVHi'' (Some ''V_SF'') (-2) ''%VNom'' True ''''),
     (''BP'', mapEntry.make 703 ''DEREnterService'' 0 ''ESHzLo'' (Some ''Hz_SF'') (-2) ''Hz'' False ''Reconnection_under_frequency''),
     (''BQ'', mapEntry.make 703 ''DEREnterService'' 0 ''ESHzHi'' (Some ''Hz_SF'') (-2) ''Hz'' False ''Reconnection_over_frequency''),
     (''AG'', mapEntry.make 703 ''DEREnterService'' 0 ''ESDlyTms'' None (0) ''s'' False ''grid_recovery_time''),
     (''AS'', mapEntry.make 703 ''DEREnterService'' 0 ''ESRmpTms'' None (0) ''s'' False ''''),
     (''CV'', mapEntry.make 711 ''DERFreqDroop'' 0 ''Ena'' None (0) '''' False ''Over_frequency_Watt_set''),
     (''CA'', mapEntry.make 711 ''DERFreqDroop'' 0 ''DbOf'' (Some ''Db_SF'') (-2) ''Hz'' False ''Over_frequency_Watt_Start_set''),
     (''DD'', mapEntry.make 711 ''DERFreqDroop'' 0 ''KOf'' (Some ''K_SF'') (-1) ''%Pref/Hz'' False ''Over_Frequency_Watt_Slope_set''),
     (''CG'', mapEntry.make 711 ''DERFreqDroop'' 0 ''RspTms'' None (0) ''s'' False ''Over_frequency_Watt_Delay_Time_set''),
     (''DC'', mapEntry.make 711 ''DERFreqDroop'' 0 ''DbOf'' (Some ''Db_SF'') (-2) ''Hz'' False ''''),
     (''DH'', mapEntry.make 134 ''CrvSet'' 0 ''Hz1'' (Some ''Hz_SF'') (-2) ''Hz'' False ''Under_Frequency_Watt_Low_set''),
     (''DI'', mapEntry.make 134 ''CrvSet'' 0 ''Hz2'' (Some ''Hz_SF'') (-2) ''Hz'' False ''Under_Frequency_Watt_High_set''),
     (''CB'', mapEntry.make 134 ''CrvSet'' 0 ''Hz3'' (Some ''Hz_SF'') (-2) ''Hz'' False ''Over_frequency_Watt_Low_set''),
     (''CC'', mapEntry.make 134 ''CrvSet'' 0 ''Hz4'' (Some ''Hz_SF'') (-2) ''Hz'' False ''Over_frequency_Watt_High_set'')]"

text \<open>\<open>LongName\<close> also stands for the check that an entry has a firmware encoder at all.\<close>

definition LongName :: "string \<Rightarrow> string option" where
  "LongName apsCode =
     (case map_of forwardMap apsCode of
        None \<Rightarrow> None
      | Some e \<Rightarrow> if me_LongName e = '''' then None else Some (me_LongName e))"

definition nativeUnit :: "mapEntry \<Rightarrow> string" where
  "nativeUnit e = (if me_IsVoltagePct e then ''V'' else me_Unit e)"

text \<open>\<open>strings.Split\<close> at an underscore, and the first token that says under or over.\<close>

fun split_underscore :: "string \<Rightarrow> string list" where
  "split_underscore [] = [[]]"
| "split_underscore (c # s) =
     (if c = CHR ''_'' then [] # split_underscore s
      else case split_underscore s of [] \<Rightarrow> [[c]] | t # ts \<Rightarrow> (c # t) # ts)"

fun first_polarity :: "string list \<Rightarrow> string" where
  "first_polarity [] = ''''"
| "first_polarity (tok # toks) =
     (if tok = ''under'' then ''under'' else if tok = ''over'' then ''over'' else first_polarity toks)"

definition polarity :: "string \<Rightarrow> string" where
  "polarity longName = first_polarity (split_underscore (to_lower longName))"

record ParamInfo =
  pi_ApsCode :: string
  pi_LongName :: string
  pi_Unit :: string
  pi_Group :: string
  pi_Model :: int
  pi_Polarity :: string

definition param_info :: "string \<times> mapEntry \<Rightarrow> ParamInfo" where
  "param_info = (\<lambda>(code, e). ParamInfo.make code (me_LongName e) (nativeUnit e) (me_Group e)
     (me_Model e) (polarity (me_LongName e)))"

definition ParamCatalog :: "ParamInfo list" where
  "ParamCatalog =
     sort_key pi_ApsCode (map param_info (filter (\<lambda>(_, e). me_LongName e \<noteq> '''') forwardMap))"

definition mk_range :: "rat \<Rightarrow> rat \<Rightarrow> Range" where
  "mk_range lo hi = \<lparr>rMin = Fin lo, rMax = Fin hi\<rparr>"

definition defaultRange :: "string \<Rightarrow> Range option" where
  "defaultRange apsCode =
     (case map_of forwardMap apsCode of
        None \<Rightarrow> None
      | Some e \<Rightarrow>
          if me_IsVoltagePct e then Some (mk_range 100 600)
          else if me_Unit e = ''Hz'' then Some (mk_range 40 70)
          else if me_Unit e = ''s'' then Some (mk_range 0 1000)
          else if me_Unit e = ''%Pref/Hz'' then Some (mk_range 0 200)
          else None)"

section \<open>Errors\<close>

text \<open>
  \<open>ErrUnsupported\<close> carries the reason the code formats into its text, \<open>EncodeFailed\<close> the codec's
  error.  The two bare formatted errors of \<open>BuildOverlayPoint\<close> are the first two reasons.
\<close>

datatype reason =
    NotInForwardMap
  | NoFirmwareEncoder
  | NoProtectionEncoder
  | FirmwareRejects
  | CodecRejects prot_error

datatype gp_error =
    ErrUnsupported reason
  | ErrOutOfRange
  | EncodeFailed prot_error
  | RangeInverted string
  | SchemaViolation
  | Conflicting "string list"
  | ErrNoRows
  | SqlError
  | ModelUnknown
  | NoActiveBase
  | NoReadbackYet
  | Canceled
  | BroadcastNotValidated
  | NilBroadcaster
  | NoModelCodes
  | InvalidUID
  | MarshalFailed

definition BuildOverlayPoint :: "string \<Rightarrow> f64 \<Rightarrow> reason + PointEntry" where
  "BuildOverlayPoint apsCode v =
     (case map_of forwardMap apsCode of
        None \<Rightarrow> Inl NotInForwardMap
      | Some e \<Rightarrow>
          if me_LongName e = '''' then Inl NoFirmwareEncoder
          else Inr (PointEntry.make (me_Model e) (me_Group e) (me_Index e) (me_Point e) (me_SFRef e)
                 (me_SF e) (NativeValue.make v (nativeUnit e)) None None apsCode))"

section \<open>Which codes a family can write\<close>

definition familyHardRejects :: "family \<Rightarrow> string list" where
  "familyHardRejects fam = (if fam = FamilyQS1 then [''CA'', ''DC'', ''CG'', ''CF''] else [])"

definition family_key :: "byte \<Rightarrow> string" where
  "family_key m =
     (if FamilyOf m = FamilyDS3 then ''DS3'' else if FamilyOf m = FamilyQS1 then ''QS1'' else '''')"

definition isQS1Family :: "byte \<Rightarrow> bool" where
  "isQS1Family m \<longleftrightarrow> FamilyOf m = FamilyQS1"

definition unsupportedReason :: "conv \<Rightarrow> byte \<Rightarrow> string \<Rightarrow> reason option" where
  "unsupportedReason cv m apsCode =
     (case map_of forwardMap apsCode of
        None \<Rightarrow> Some NotInForwardMap
      | Some e \<Rightarrow>
          if me_LongName e = '''' then Some NoFirmwareEncoder
          else let fam = FamilyOf m
          in if fam \<noteq> FamilyDS3 \<and> fam \<noteq> FamilyQS1 then Some NoProtectionEncoder
          else if apsCode \<in> set (familyHardRejects fam) then Some FirmwareRejects
          else case EncodeSetProtection cv m (me_LongName e) (Fin 50) of
                 Inl err \<Rightarrow>
                   if err = ErrUnsupportedProtectionParam \<or> err = ErrUnsupportedProtectionFamily
                   then Some (CodecRejects err) else None
               | Inr _ \<Rightarrow> None)"

definition Writeable :: "conv \<Rightarrow> byte \<Rightarrow> string \<Rightarrow> bool" where
  "Writeable cv m apsCode \<longleftrightarrow> unsupportedReason cv m apsCode = None"

section \<open>Clamping and encoding\<close>

definition clamp :: "f64 \<Rightarrow> Range option \<Rightarrow> gp_error + (f64 \<times> bool)" where
  "clamp v r =
     (case r of
        None \<Rightarrow> Inr (v, False)
      | Some rg \<Rightarrow>
          if flt (rMax rg) (rMin rg) then Inl ErrOutOfRange
          else let c = (if flt v (rMin rg) then rMin rg else if flt (rMax rg) v then rMax rg else v)
               in Inr (c, \<not> (fle c v \<and> fle v c)))"

definition EncodeEffectivePoint :: "conv \<Rightarrow> byte \<Rightarrow> EffectivePoint \<Rightarrow> gp_error + bytes list" where
  "EncodeEffectivePoint cv m ep =
     (case unsupportedReason cv m (ep_ApsCode ep) of
        Some why \<Rightarrow> Inl (ErrUnsupported why)
      | None \<Rightarrow>
     (case clamp (ep_NativeValue ep) (ep_Range ep) of
        Inl e \<Rightarrow> Inl e
      | Inr (clamped, _) \<Rightarrow>
     (case LongName (ep_ApsCode ep) of
        None \<Rightarrow> Inl (ErrUnsupported NoFirmwareEncoder)
      | Some longName \<Rightarrow>
     (case EncodeSetProtection cv m longName clamped of
        Inl err \<Rightarrow>
          if err = ErrUnsupportedProtectionFamily \<or> err = ErrUnsupportedProtectionParam
          then Inl (ErrUnsupported (CodecRejects err)) else Inl (EncodeFailed err)
      | Inr frames \<Rightarrow> Inr frames))))"

text \<open>The clamp and filter that the desired state and the broadcast path share.\<close>

definition clamped_value :: "PointEntry \<Rightarrow> f64" where
  "clamped_value entry =
     (let v = nv_Value (pe_Native entry)
      in case pe_Range entry of
           None \<Rightarrow> v
         | Some rg \<Rightarrow>
             if fle (rMin rg) (rMax rg)
             then (if flt v (rMin rg) then rMin rg else if flt (rMax rg) v then rMax rg else v)
             else v)"

definition effectivePointValue :: "conv \<Rightarrow> byte \<Rightarrow> string \<Rightarrow> PointEntry \<Rightarrow> f64 option" where
  "effectivePointValue cv m code entry =
     (if \<not> Writeable cv m code then None else Some (clamped_value entry))"

definition intersectRanges :: "Range option \<Rightarrow> Range option \<Rightarrow> Range option" where
  "intersectRanges base overlay =
     (case base of
        None \<Rightarrow> overlay
      | Some b \<Rightarrow>
          case overlay of
            None \<Rightarrow> Some b
          | Some ov \<Rightarrow>
              let lo = (if flt (rMin b) (rMin ov) then rMin ov else rMin b);
                  hi = (if flt (rMax ov) (rMax b) then rMax ov else rMax b)
              in if flt hi lo then Some \<lparr>rMin = lo, rMax = lo\<rparr> else Some \<lparr>rMin = lo, rMax = hi\<rparr>)"

section \<open>Conflict rules\<close>

record ConflictRule = cr_Left :: string  cr_Right :: string  cr_Message :: string

definition conflictRules :: "ConflictRule list" where
  "conflictRules =
    [ConflictRule.make ''DH'' ''DI'' ''Under-frequency Watt: the low point (DH) must be below the high point (DI).'',
     ConflictRule.make ''CB'' ''CC'' ''Over-frequency Watt: the start point (CB) must be below the end point (CC).'',
     ConflictRule.make ''BN'' ''BO'' ''Enter-service voltage: the lower limit (BN) must be below the upper limit (BO).'',
     ConflictRule.make ''BP'' ''BQ'' ''Enter-service frequency: the lower limit (BP) must be below the upper limit (BQ).'',
     ConflictRule.make ''CA'' ''AF'' ''Over-frequency curtailment start (CA) must be below the over-frequency trip (AF), or the inverter trips instead of curtailing.'']"

definition violated :: "(string \<rightharpoonup> f64) \<Rightarrow> ConflictRule \<Rightarrow> bool" where
  "violated effective r \<longleftrightarrow>
     (case (effective (cr_Left r), effective (cr_Right r)) of
        (Some a, Some b) \<Rightarrow> \<not> flt a b
      | _ \<Rightarrow> False)"

definition CheckConflicts :: "(string \<rightharpoonup> f64) \<Rightarrow> string list" where
  "CheckConflicts effective = map cr_Message (filter (violated effective) conflictRules)"

definition conflictError :: "string list \<Rightarrow> gp_error option" where
  "conflictError msgs = (if msgs = [] then None else Some (Conflicting msgs))"

section \<open>Validation of a stored document\<close>

text \<open>
  \<open>Validate\<close> runs a third-party JSON-schema validator over the document; its verdict is the
  parameter \<open>schema\<close>.  The range check that follows is the code's own.
\<close>

fun validateRanges :: "PointEntry list \<Rightarrow> gp_error option" where
  "validateRanges [] = None"
| "validateRanges (p # ps) =
     (case pe_Range p of
        Some rg \<Rightarrow> if flt (rMax rg) (rMin rg) then Some (RangeInverted (pe_ApsCode p)) else validateRanges ps
      | None \<Rightarrow> validateRanges ps)"

definition ValidateProfile :: "(Profile \<Rightarrow> bool) \<Rightarrow> Profile \<Rightarrow> gp_error option" where
  "ValidateProfile schema p =
     (if \<not> schema p then Some SchemaViolation else validateRanges (pf_Points p))"

definition ValidateOverlay :: "(Overlay \<Rightarrow> bool) \<Rightarrow> Overlay \<Rightarrow> gp_error option" where
  "ValidateOverlay schema o' =
     (if \<not> schema o' then Some SchemaViolation else validateRanges (ov_Points o'))"

text \<open>\<open>json.Marshal\<close> fails exactly on the floats JSON cannot write.\<close>

definition finite64 :: "f64 \<Rightarrow> bool" where
  "finite64 x \<longleftrightarrow> (case x of Fin _ \<Rightarrow> True | _ \<Rightarrow> False)"

definition point_finite :: "PointEntry \<Rightarrow> bool" where
  "point_finite p \<longleftrightarrow> finite64 (nv_Value (pe_Native p))
     \<and> (case pe_SunSpec p of None \<Rightarrow> True | Some v \<Rightarrow> finite64 v)
     \<and> (case pe_Range p of None \<Rightarrow> True | Some rg \<Rightarrow> finite64 (rMin rg) \<and> finite64 (rMax rg))"

definition profile_finite :: "Profile \<Rightarrow> bool" where
  "profile_finite p \<longleftrightarrow> finite64 (pf_VNomV p) \<and> list_all point_finite (pf_Points p)"

section \<open>Tolerances\<close>

definition toleranceFor :: "(string \<times> f64) list" where
  "toleranceFor =
     map (\<lambda>c. (c, f64_of_rat (6 / 100)))
       [''AE'', ''AJ'', ''AF'', ''AK'', ''BP'', ''BQ'', ''DH'', ''DI'', ''CB'', ''CC'', ''CA'', ''DC''] @
     [(''DD'', f64_of_rat (20 / 100))] @
     map (\<lambda>c. (c, f64_of_rat (50 / 100))) [''AC'', ''AQ'', ''AD'', ''AY'', ''AB'', ''BN'', ''BO''] @
     map (\<lambda>c. (c, f64_of_rat (6 / 100)))
       [''BB'', ''BD'', ''BC'', ''BE'', ''BJ'', ''BH'', ''BK'', ''BI'', ''AG'', ''AS''] @
     [(''CG'', f64_of_rat (10 / 100))]"

definition codeTolerance :: "string \<Rightarrow> f64" where
  "codeTolerance code =
     (case map_of toleranceFor code of Some t \<Rightarrow> t | None \<Rightarrow> f64_of_rat (10 / 100))"

definition withinTolerance :: "string \<Rightarrow> f64 \<Rightarrow> f64 \<Rightarrow> bool" where
  "withinTolerance code a b \<longleftrightarrow> fle (fabs (fsub a b)) (codeTolerance code)"

section \<open>The default ranges are the codec's envelope\<close>

lemma forward_entry:
  assumes "LongName c = Some p"
  obtains e where "map_of forwardMap c = Some e" and "me_LongName e = p" and "p \<noteq> ''''"
  using assms by (auto simp: LongName_def split: option.splits if_splits)

lemma forwardMap_ranges:
  "list_all (\<lambda>(c, e). me_LongName e \<noteq> '''' \<longrightarrow>
     defaultRange c = map_option (\<lambda>(lo, hi). mk_range lo hi) (protPhysicalRange (me_LongName e))) forwardMap"
  by code_simp

text \<open>
  The range an overlay value is clamped to when the base profile does not define its code is,
  code by code, the envelope the codec enforces on the parameter that code names.
\<close>

theorem default_range_mirrors:
  assumes "LongName c = Some p"
  shows "defaultRange c = map_option (\<lambda>(lo, hi). mk_range lo hi) (protPhysicalRange p)"
proof -
  obtain e where e: "map_of forwardMap c = Some e" "me_LongName e = p" "p \<noteq> ''''"
    using assms by (rule forward_entry)
  show ?thesis using map_of_list_all [OF forwardMap_ranges e(1)] e(2,3) by simp
qed

lemma default_range_mirrors_witness:
  "defaultRange ''AD'' = map_option (\<lambda>(lo, hi). mk_range lo hi) (protPhysicalRange ''over_voltage_slow'')"
  by (rule default_range_mirrors) code_simp

section \<open>The probe decides what can be written\<close>

text \<open>The parameters with an encoder, family by family.\<close>

definition has_encoder :: "family \<Rightarrow> string \<Rightarrow> bool" where
  "has_encoder fam p \<longleftrightarrow>
     (case fam of
        FamilyDS3 \<Rightarrow> map_of ds3ProtParams p \<noteq> None
      | FamilyQS1 \<Rightarrow>
          map_of qs1ProtFreqSubs p \<noteq> None \<or> map_of qs1VoltTripSubs p \<noteq> None
          \<or> map_of qs1VoltTripSubsYC600 p \<noteq> None \<or> map_of qs1FreqTripSubsYC600 p \<noteq> None
          \<or> map_of qs1ClearTimeSubs p \<noteq> None
          \<or> p \<in> {''min10_Over_average_voltage'', ''Over_frequency_Watt_set'', ''grid_recovery_time''}
      | _ \<Rightarrow> False)"

definition unsupported :: "prot_error + 'a \<Rightarrow> bool" where
  "unsupported r \<longleftrightarrow> r = Inl ErrUnsupportedProtectionParam \<or> r = Inl ErrUnsupportedProtectionFamily"

lemma unsupported_branches [simp]:
  "unsupported (Inr x) \<longleftrightarrow> False" "unsupported (Inl ErrWireRange) \<longleftrightarrow> False"
  "unsupported (Inl ErrOutsideEnvelope) \<longleftrightarrow> False"
  "unsupported (Inl ErrUnsupportedProtectionParam) \<longleftrightarrow> True"
  "unsupported (if b then s else t) \<longleftrightarrow> (if b then unsupported s else unsupported t)"
  by (simp_all add: unsupported_def)

lemma ds3_unsupported: "unsupported (encodeProtectionDS3 cv p v opc) \<longleftrightarrow> \<not> has_encoder FamilyDS3 p"
  by (cases "map_of ds3ProtParams p")
    (simp_all add: has_encoder_def encodeProtectionDS3_def Let_def split: prod.split)

lemma qs1_unsupported: "unsupported (encodeProtectionQS1A cv p v opc) \<longleftrightarrow> \<not> has_encoder FamilyQS1 p"
  unfolding encodeProtectionQS1A_def has_encoder_def
  by (cases "map_of qs1ProtFreqSubs p"; (simp add: Let_def; fail)?; cases "map_of qs1VoltTripSubs p";
      (simp add: Let_def; fail)?; cases "map_of qs1VoltTripSubsYC600 p"; (simp add: Let_def; fail)?;
      cases "map_of qs1FreqTripSubsYC600 p"; (simp add: Let_def; fail)?;
      cases "map_of qs1ClearTimeSubs p"; simp add: Let_def)

lemma forwardMap_probe:
  "list_all (\<lambda>(c, e). me_LongName e \<noteq> '''' \<longrightarrow>
     validateProtectionEnvelope (me_LongName e) (Fin 50) = None
     \<or> has_encoder FamilyDS3 (me_LongName e) \<and> has_encoder FamilyQS1 (me_LongName e)) forwardMap"
  by code_simp

lemma probe_scaled:
  "fmul (Fin 50) ds3ProtFreqScale = Fin 5000" "fmul (Fin 50) ds3ProtSlopeScale = Fin 8184"
  "f64_of_rat (101 / 2) = Fin (101 / 2)" "fmul (Fin 50) ds3ProtRecoveryScale = Fin 2500"
  "fmul (Fin 50) ds3ClearTimeScale = Fin 5000" "fdiv qs1aFreqDivBy (Fin 50) = Fin 1000000"
  "fmul (Fin 50) qs1ClearTimeWriteScale = Fin 5000" "fmul (Fin 50) protRecoveryScaleQS1 = Fin 5000"
  by code_simp+

lemma int_of_f64_in [simp]:
  assumes "0 \<le> trunc q" and "trunc q < 2 ^ 30" and "32 \<le> w"
  shows "int_of_f64 w cvw (Fin q) = trunc q"
proof -
  have "(2 :: int) ^ 30 \<le> 2 ^ (w - 1)" using assms(3) by (intro power_increasing) simp_all
  moreover have "- ((2 :: int) ^ (w - 1)) \<le> 0" by simp
  ultimately show ?thesis using assms(1,2) by (simp add: int_of_f64_def)
qed

lemma trunc_numeral [simp]: "trunc (numeral n) = numeral n"
  using trunc_of_int [of "numeral n"] by simp

lemma encode_at:
  assumes "FamilyOf m = FamilyDS3 \<or> FamilyOf m = FamilyQS1" and "0 < x"
    and "protPhysicalRange p = None \<or> (\<exists>lo hi. protPhysicalRange p = Some (lo, hi) \<and> lo \<le> x \<and> x \<le> hi)"
  shows "EncodeSetProtection cv m p (Fin x) =
     (if FamilyOf m = FamilyDS3 then encodeProtectionDS3 cv p (Fin x) CmdSetPowerDS3Unicast
      else encodeProtectionQS1A cv p (Fin x) CmdSetPowerQS1Unicast)"
  using assms by (auto simp: EncodeSetProtection_family validateProtectionEnvelope_def)

lemma ds3_encoder_total:
  assumes "FamilyOf m = FamilyDS3" and "map_of ds3ProtParams p = Some (sub, f)"
  shows "\<exists>v fs. EncodeSetProtection cv m p v = Inr fs"
proof -
  have at50: "\<exists>v fs. EncodeSetProtection cv m p v = Inr fs"
    if "0 \<le> f cv (Fin 50)" "f cv (Fin 50) \<le> 65535"
      "protPhysicalRange p = None \<or> (\<exists>lo hi. protPhysicalRange p = Some (lo, hi) \<and> lo \<le> 50 \<and> 50 \<le> hi)"
    using that assms encode_at [of m 50 p cv]
    by (intro exI [of _ "Fin 50"]) (simp add: encodeProtectionDS3_def Let_def)
  from assms(2) show ?thesis
  proof (rule ds3_param_kinds)
    assume v: "f = ds3ScaleVolt" "protPhysicalRange p = Some (100, 600)"
    obtain n where "ds3ScaleVolt cv (Fin (of_int 230)) = n" "0 \<le> n" "n \<le> 2300"
      by (rule ds3_volt_register [of 230 cv]) simp_all
    then show ?thesis using v assms encode_at [of m 230 p cv]
      by (intro exI [of _ "Fin 230"]) (simp add: encodeProtectionDS3_def Let_def)
  qed (rule at50; simp add: ds3ScaleHz_def ds3ScaleClear_def ds3RoundSec_def ds3RecoverySec_def
      ds3ScaleSlope_def ds3ModeEnum_def Let_def probe_scaled param_ranges trunc_def)+
qed

lemma qs1_lookups:
  "map_of qs1ClearTimeSubs p = Some s \<Longrightarrow> protPhysicalRange p = Some (0, 1000)
     \<and> map_of qs1ProtFreqSubs p = None \<and> map_of qs1VoltTripSubs p = None
     \<and> map_of qs1VoltTripSubsYC600 p = None \<and> map_of qs1FreqTripSubsYC600 p = None"
  by (erule map_of_list_all [rotated], code_simp)

lemma qs1_named:
  assumes "p \<in> {''min10_Over_average_voltage'', ''Over_frequency_Watt_set'', ''grid_recovery_time''}"
  shows "map_of qs1ProtFreqSubs p = None \<and> map_of qs1VoltTripSubs p = None
     \<and> map_of qs1VoltTripSubsYC600 p = None \<and> map_of qs1FreqTripSubsYC600 p = None
     \<and> map_of qs1ClearTimeSubs p = None"
  using assms by (elim insertE emptyE; hypsubst; code_simp)

lemma qs1_encoder_total:
  assumes m: "FamilyOf m = FamilyQS1" and p: "has_encoder FamilyQS1 p"
  shows "\<exists>v fs. EncodeSetProtection cv m p v = Inr fs"
proof -
  have at: "EncodeSetProtection cv m p (Fin x) = encodeProtectionQS1A cv p (Fin x) CmdSetPowerQS1Unicast"
    if "0 < x" "protPhysicalRange p = None \<or> (\<exists>lo hi. protPhysicalRange p = Some (lo, hi) \<and> lo \<le> x \<and> x \<le> hi)"
    for x using that m encode_at [of m x p cv] by simp
  consider s where "map_of qs1ProtFreqSubs p = Some s \<or> map_of qs1FreqTripSubsYC600 p = Some s"
    | s where "map_of qs1VoltTripSubs p = Some s \<or> map_of qs1VoltTripSubsYC600 p = Some s"
    | s where "map_of qs1ClearTimeSubs p = Some s"
    | "p \<in> {''min10_Over_average_voltage'', ''Over_frequency_Watt_set'', ''grid_recovery_time''}"
    using p by (auto simp: has_encoder_def)
  then show ?thesis
  proof cases
    case (1 s)
    then show ?thesis
    proof
      assume t: "map_of qs1ProtFreqSubs p = Some s"
      show ?thesis using t at [of 50] qs1_param_ranges(1) [OF t]
        by (intro exI [of _ "Fin 50"]) (simp add: encodeProtectionQS1A_def Let_def probe_scaled)
    next
      assume t: "map_of qs1FreqTripSubsYC600 p = Some s"
      show ?thesis using t at [of 50] qs1_param_ranges(4) [OF t] qs1_freq_lookup [OF t]
        by (intro exI [of _ "Fin 50"]) (simp add: encodeProtectionQS1A_def Let_def probe_scaled)
    qed
  next
    case (2 s)
    obtain n where n: "int_of_f64 64 (cv 64) (fmul (Fin (of_int 230)) qs1VoltTripWriteScale) = n" "0 \<le> n" "n \<le> 3300"
      by (rule qs1_volt_register [of 230 cv]) simp_all
    from 2 show ?thesis
    proof
      assume t: "map_of qs1VoltTripSubs p = Some s"
      show ?thesis using t n at [of 230] qs1_param_ranges(2) [OF t] qs1_volt_lookups(1) [OF t]
        by (intro exI [of _ "Fin 230"]) (simp add: encodeProtectionQS1A_def Let_def)
    next
      assume t: "map_of qs1VoltTripSubsYC600 p = Some s"
      show ?thesis using t n at [of 230] qs1_param_ranges(3) [OF t] qs1_volt_lookups(2) [OF t]
        by (intro exI [of _ "Fin 230"]) (simp add: encodeProtectionQS1A_def Let_def)
    qed
  next
    case (3 s)
    then show ?thesis using at [of 50] qs1_lookups [OF 3]
      by (intro exI [of _ "Fin 50"]) (simp add: encodeProtectionQS1A_def Let_def probe_scaled)
  next
    case 4
    note none = qs1_named [OF 4]
    obtain n where n: "int_of_f64 64 (cv 64) (fmul (Fin 230) qs1AvgOvWriteScale) = n" "0 \<le> n"
      "of_int n \<le> (230 :: rat) * (qsProtVoltDenom * 600 * 4) + 1 / 1000000"
      unfolding qs1AvgOvWriteScale_def
      by (rule scaled_register [of 230 "qsProtVoltDenom * 600 * 4" 64 "cv 64"])
        (simp_all add: qsProtVoltDenom_def)
    have "of_int n < (16777215 :: rat)" using n(3) by (simp add: qsProtVoltDenom_def)
    then have n3: "n < 16777215" by simp
    from 4 consider "p = ''min10_Over_average_voltage''" | "p = ''Over_frequency_Watt_set''"
      | "p = ''grid_recovery_time''" by blast
    then show ?thesis
    proof cases
      case 1
      with none n n3 at [of 230] show ?thesis
        by (intro exI [of _ "Fin 230"]) (simp add: encodeProtectionQS1A_def Let_def param_ranges)
    next
      case 2
      with none at [of 50] show ?thesis
        by (intro exI [of _ "Fin 50"]) (simp add: encodeProtectionQS1A_def Let_def param_ranges)
    next
      case 3
      with none at [of 50] show ?thesis
        by (intro exI [of _ "Fin 50"]) (simp add: encodeProtectionQS1A_def Let_def param_ranges probe_scaled)
    qed
  qed
qed

text \<open>
  A code is reported writable for a model exactly when the firmware does not reject it and
  the codec has some value of its parameter that it turns into frames for that model, although
  the code only ever probes the value 50.
\<close>

theorem writeable_exact:
  "Writeable cv m c \<longleftrightarrow>
     (\<exists>p v fs. LongName c = Some p \<and> c \<notin> set (familyHardRejects (FamilyOf m))
        \<and> EncodeSetProtection cv m p v = Inr fs)"
proof (cases "FamilyOf m = FamilyDS3 \<or> FamilyOf m = FamilyQS1")
  case False
  then have "EncodeSetProtection cv m p v \<noteq> Inr fs" for p v fs
    by (auto simp: EncodeSetProtection_family split: option.splits family.splits)
  then show ?thesis using False
    by (auto simp: Writeable_def unsupportedReason_def Let_def split: option.splits)
next
  case fam: True
  show ?thesis
  proof (cases "LongName c")
    case None
    then show ?thesis
      by (auto simp: Writeable_def unsupportedReason_def LongName_def split: option.splits if_splits)
  next
    case (Some p)
    then obtain e where e: "map_of forwardMap c = Some e" "me_LongName e = p" "p \<noteq> ''''"
      by (rule forward_entry)
    have probe: "unsupported (EncodeSetProtection cv m p (Fin 50)) \<longleftrightarrow> \<not> has_encoder (FamilyOf m) p"
    proof (cases "validateProtectionEnvelope p (Fin 50)")
      case None
      then show ?thesis using fam
        by (auto simp: EncodeSetProtection_family ds3_unsupported qs1_unsupported)
    next
      case (Some err)
      then have "err = ErrOutsideEnvelope"
        by (auto simp: validateProtectionEnvelope_def split: option.splits if_splits)
      then show ?thesis using fam Some map_of_list_all [OF forwardMap_probe e(1)] e(2,3)
        by (auto simp: EncodeSetProtection_family)
    qed
    have "(\<exists>v fs. EncodeSetProtection cv m p v = Inr fs) \<longleftrightarrow> has_encoder (FamilyOf m) p"
    proof
      assume "has_encoder (FamilyOf m) p"
      then show "\<exists>v fs. EncodeSetProtection cv m p v = Inr fs"
        using fam ds3_encoder_total qs1_encoder_total by (auto simp: has_encoder_def)
    next
      assume "\<exists>v fs. EncodeSetProtection cv m p v = Inr fs"
      then obtain v fs where "EncodeSetProtection cv m p v = Inr fs" by blast
      then show "has_encoder (FamilyOf m) p"
        using fam ds3_unsupported [of cv p v CmdSetPowerDS3Unicast] qs1_unsupported [of cv p v CmdSetPowerQS1Unicast]
        by (auto simp: EncodeSetProtection_family split: option.splits if_splits)
    qed
    moreover have "Writeable cv m c \<longleftrightarrow>
        c \<notin> set (familyHardRejects (FamilyOf m)) \<and> \<not> unsupported (EncodeSetProtection cv m p (Fin 50))"
      using e fam by (auto simp: Writeable_def unsupportedReason_def unsupported_def Let_def
          split: sum.splits if_splits)
    ultimately show ?thesis using Some probe by auto
  qed
qed

end
