(* ===== verification/GridConfirm.thy ===== *)
theory GridConfirm
  imports GridProfile
begin

text \<open>
  What a protection write leaves in the inverter's register and what the read-back makes of it,
  compared with the tolerance the reconciler uses (\<open>codec\<close> against
  \<open>internal/gridprofile/reconcile.go\<close>).  The lemmas bound the quantisation of every scale on both
  sides; the theorems say for which values a write is confirmed, and for which it never is.
\<close>

section \<open>A written value is confirmed when it is read back\<close>

text \<open>
  What the read tables of a family make of a register under a code, and the register a write
  frame carries: the two ends of the firmware's register, which writes and reads the same number.
\<close>

definition read_fields :: "conv \<Rightarrow> byte \<Rightarrow> protReadField list" where
  "read_fields cv m =
     (if FamilyOf m = FamilyDS3 then ds3ReadPageA cv @ ds3ReadPageB cv
      else if FamilyOf m = FamilyQS1 then qs1ReadPageA cv @ qs1ReadPageB cv @ qs1ReadPageC cv
      else [])"

definition reads_as :: "conv \<Rightarrow> byte \<Rightarrow> string \<Rightarrow> int \<Rightarrow> f64 option" where
  "reads_as cv m c raw =
     (case find (\<lambda>fld. fld_code fld = c) (read_fields cv m) of
        Some (PScale _ _ _ scale) \<Rightarrow> Some (scale raw)
      | _ \<Rightarrow> None)"

definition written_register :: "byte \<Rightarrow> string \<Rightarrow> bytes \<Rightarrow> int" where
  "written_register m p f =
     (if FamilyOf m = FamilyDS3 then readBE f 7 2
      else readBE f (if isQS1YC600BuilderParam p then 4 else 6)
             (if protPhysicalRange p = Some (40, 70) then 3 else 2))"

lemma within_tolerance:
  assumes "codeTolerance c = f64_of_rat t" and "\<bar>x - y\<bar> \<le> t - 1 / 1000000" and "0 \<le> t" and "t \<le> 1"
  shows "withinTolerance c (Fin x) (Fin y)"
proof -
  have t: "\<bar>t\<bar> \<le> 2 ^ 23" using assms(3,4) by simp
  have "\<bar>x - y\<bar> \<le> 1" using assms(2,4) by linarith
  then have d: "\<bar>x - y\<bar> \<le> 2 ^ 23" by simp
  have eps: "(1 :: rat) / 2 ^ 30 \<le> 1 / 2000000" by simp
  have "\<bar>rnd (x - y)\<bar> \<le> rnd t"
    using rnd_close [OF t] rnd_close [OF d] eps assms(2) by linarith
  then show ?thesis
    using f64_of_rat_small [OF t] f64_of_rat_small [OF d]
    by (simp add: withinTolerance_def assms(1) fsub_def)
qed

lemma scaled_register_int:
  assumes x: "0 \<le> x" "x \<le> 1000" and K: "0 \<le> K" "K \<le> 4000"
  obtains n where "int_of_f64 64 cvw (fmul (Fin x) (Fin (of_int K))) = n" and "0 \<le> n"
    and "of_int n \<le> x * of_int K + 1 / 1000000" and "x * of_int K < of_int n + 1 + 1 / 1000000"
proof -
  have "f64_of_rat (of_int K) = Fin (of_int K)" using K by (intro f64_of_rat_of_int) simp
  then show thesis
    using that scaled_register [of x "of_int K" 64 cvw] x K by auto
qed

lemma fdiv_small:
  assumes "0 \<le> a" and "a \<le> 65536" and "1 \<le> K"
  obtains y where "fdiv (Fin a) (Fin K) = Fin y" and "\<bar>y - a / K\<bar> \<le> 1 / 1000000"
proof -
  have "a / K \<le> 65536" using assms by (simp add: divide_le_eq mult_le_cancel_left1 order_trans)
  then have q: "\<bar>a / K\<bar> \<le> 2 ^ 23" using assms by simp
  have "(1 :: rat) / 2 ^ 30 \<le> 1 / 1000000" by simp
  then show thesis using that [of "rnd (a / K)"] rnd_close [OF q] f64_of_rat_small [OF q] assms(3) by simp
qed

text \<open>A register in units of \<open>1 / K\<close>, read back by dividing or by multiplying.\<close>

lemma unit_register:
  assumes x: "0 \<le> x" "x \<le> 300" and K: "K \<in> {50, 100 :: int}"
  obtains n y where "int_of_f64 64 cvw (fmul (Fin x) (Fin (of_int K))) = n" and "0 \<le> n" and "n < 0x8000"
    and "fdiv (f64_of_int n) (Fin (of_int K)) = Fin y" and "\<bar>x - y\<bar> \<le> 21 / 1000"
proof -
  obtain n where n: "int_of_f64 64 cvw (fmul (Fin x) (Fin (of_int K))) = n" "0 \<le> n"
    "of_int n \<le> x * of_int K + 1 / 1000000" "x * of_int K < of_int n + 1 + 1 / (1000000 :: rat)"
    by (rule scaled_register_int [of x K cvw]) (use x K in auto)
  have "of_int n < (32768 :: rat)" using n(3) x K by auto
  then have n2: "n < 32768" by simp
  obtain y where y: "fdiv (Fin (of_int n)) (Fin (of_int K)) = Fin y" "\<bar>y - of_int n / of_int K\<bar> \<le> 1 / (1000000 :: rat)"
    by (rule fdiv_small [of "of_int n" "of_int K"]) (use n(2) n2 K in auto)
  have "of_int K = (50 :: rat) \<or> of_int K = (100 :: rat)" using K by auto
  then have "\<bar>x - y\<bar> \<le> 21 / 1000"
    using y(2) n(3,4) by (elim disjE; simp only: abs_le_iff; linarith)
  then show thesis using that [OF n(1,2)] n2 y(1) f64_of_int_exact [of n] n(2) by simp
qed

lemma hundredth_register:
  assumes x: "0 \<le> x" "x \<le> 300"
  obtains n y where "int_of_f64 64 cvw (fmul (Fin x) (Fin 100)) = n" and "0 \<le> n" and "n < 0x8000"
    and "fmul (f64_of_int n) ds3FreqScale = Fin y" and "\<bar>x - y\<bar> \<le> 21 / 1000"
proof -
  obtain n where n: "int_of_f64 64 cvw (fmul (Fin x) (Fin (of_int 100))) = n" "0 \<le> n"
    "of_int n \<le> x * of_int 100 + 1 / 1000000" "x * of_int 100 < of_int n + 1 + 1 / (1000000 :: rat)"
    by (rule scaled_register_int [of x 100 cvw]) (use x in auto)
  have "of_int n < (32768 :: rat)" using n(3) x by simp
  then have n2: "n < 32768" by simp
  obtain y where y: "fmul (Fin (of_int n)) (f64_of_rat (1 / 100)) = Fin y"
    "\<bar>y - of_int n * (1 / 100)\<bar> \<le> 1 / (1000000 :: rat)"
    by (rule scaled_value [of "of_int n" "1 / 100"]) (use n(2) n2 in simp_all)
  have "(of_int 100 :: rat) = 100" by simp
  then have "\<bar>x - y\<bar> \<le> 21 / 1000" using y(2) n(3,4) unfolding abs_le_iff by linarith
  then show thesis using that [of n] n n2 y(1) f64_of_int_exact [of n] by (simp add: ds3FreqScale_def)
qed


text \<open>The scale under each code the two families can write, table by table.\<close>

lemmas one_code = list.set insert_iff empty_iff simp_thms

lemma ds3_reads:
  assumes m: "FamilyOf m = FamilyDS3"
  shows "c \<in> set [''AE'', ''AJ'', ''AF'', ''AK'', ''BP'', ''BQ'', ''DH'', ''DI'', ''CB'', ''CC''] \<Longrightarrow>
      reads_as cv m c raw = Some (dsFreq raw)"
    and "c \<in> set [''AC'', ''AQ'', ''AD'', ''AY'', ''AH'', ''AI''] \<Longrightarrow>
      reads_as cv m c raw = Some (dsVolt cv raw)"
    and "c \<in> set [''BB'', ''BD'', ''BC'', ''BE'', ''BJ'', ''BH'', ''BK'', ''BI''] \<Longrightarrow>
      reads_as cv m c raw = Some (dsSec raw)"
    and "c \<in> set [''AG''] \<Longrightarrow> reads_as cv m c raw = Some (dsAG raw)"
  using m unfolding reads_as_def read_fields_def
  by (simp only: one_code; (elim disjE)?; simp only:; simp add: ds3ReadPageA_def ds3ReadPageB_def)+

lemma qs1_reads:
  assumes m: "FamilyOf m = FamilyQS1"
  shows "c \<in> set [''AE'', ''AJ'', ''AF'', ''AK'', ''BP'', ''BQ'', ''DH'', ''DI'', ''CB'', ''CC''] \<Longrightarrow>
      reads_as cv m c raw = Some (qsFreq raw)"
    and "c \<in> set [''AC'', ''AQ'', ''AD'', ''AY'', ''AH'', ''AI''] \<Longrightarrow>
      reads_as cv m c raw = Some (qsVolt cv raw)"
    and "c \<in> set [''BB'', ''BD'', ''BC'', ''BE'', ''BJ'', ''BH'', ''BK'', ''BI''] \<Longrightarrow>
      reads_as cv m c raw = Some (qsSec raw)"
    and "c \<in> set [''AG''] \<Longrightarrow> reads_as cv m c raw = Some (qsRecovery raw)"
  using m unfolding reads_as_def read_fields_def 
  by (simp only: one_code; (elim disjE)?; simp only:; simp add: qs1ReadPageA_def qs1ReadPageB_def qs1ReadPageC_def)+

text \<open>Which codes a name of a given range can belong to, and the DS3 transform of each.\<close>

definition hz_codes :: "string list" where
  "hz_codes = [''AE'', ''AJ'', ''AF'', ''AK'', ''BP'', ''BQ'', ''DH'', ''DI'', ''CB'', ''CC'']"

definition volt_codes :: "string list" where
  "volt_codes = [''AC'', ''AQ'', ''AD'', ''AY'', ''AH'', ''AI'']"

definition clear_codes :: "string list" where
  "clear_codes = [''BB'', ''BD'', ''BC'', ''BE'', ''BJ'', ''BH'', ''BK'', ''BI'']"

lemma six_hundredths:
  "c \<in> set hz_codes \<union> set clear_codes \<Longrightarrow> codeTolerance c = f64_of_rat (6 / 100)"
  unfolding codeTolerance_def hz_codes_def clear_codes_def Un_iff
  by (simp only: one_code; elim disjE; simp only:; simp add: toleranceFor_def)

lemma LongNames [simp]:
  "LongName ''AE'' = Some ''under_frequency_slow''"
  "LongName ''AJ'' = Some ''under_frequency_fast''"
  "LongName ''AF'' = Some ''over_frequency_slow''"
  "LongName ''AK'' = Some ''over_frequency_fast''"
  "LongName ''BP'' = Some ''Reconnection_under_frequency''"
  "LongName ''BQ'' = Some ''Reconnection_over_frequency''"
  "LongName ''DH'' = Some ''Under_Frequency_Watt_Low_set''"
  "LongName ''DI'' = Some ''Under_Frequency_Watt_High_set''"
  "LongName ''CB'' = Some ''Over_frequency_Watt_Low_set''"
  "LongName ''CC'' = Some ''Over_frequency_Watt_High_set''"
  "LongName ''AC'' = Some ''under_voltage_stage_2_90''"
  "LongName ''AQ'' = Some ''under_voltage_stage_2''"
  "LongName ''AD'' = Some ''over_voltage_slow''"
  "LongName ''AY'' = Some ''over_voltage_slow_90''"
  "LongName ''AH'' = Some ''under_voltage_fast''"
  "LongName ''AI'' = Some ''over_voltage_fast''"
  "LongName ''BB'' = Some ''Under_Voltage1_clearance_time''"
  "LongName ''BD'' = Some ''Under_Voltage2_clearance_time''"
  "LongName ''BC'' = Some ''Over_Voltage1_clearance_time''"
  "LongName ''BE'' = Some ''Over_Voltage2_clearance_time''"
  "LongName ''BJ'' = Some ''Under_Frequency2_clearance_time''"
  "LongName ''BH'' = Some ''Under_Frequency1_clearance_time''"
  "LongName ''BK'' = Some ''Over_Frequency2_clearance_time''"
  "LongName ''BI'' = Some ''Over_Frequency1_clearance_time''"
  by code_simp+

lemma code_tables:
  "list_all (\<lambda>c. case LongName c of None \<Rightarrow> False | Some p \<Rightarrow> map_of ds3ProtParams p \<noteq> None
     \<and> (map_of qs1ProtFreqSubs p \<noteq> None \<or> map_of qs1FreqTripSubsYC600 p \<noteq> None)) hz_codes"
  "list_all (\<lambda>c. case LongName c of None \<Rightarrow> False | Some p \<Rightarrow> map_of ds3ProtParams p \<noteq> None
     \<and> (map_of qs1VoltTripSubs p \<noteq> None \<or> map_of qs1VoltTripSubsYC600 p \<noteq> None)) volt_codes"
  "list_all (\<lambda>c. case LongName c of None \<Rightarrow> False | Some p \<Rightarrow> map_of qs1ClearTimeSubs p \<noteq> None) clear_codes"
  by code_simp+

lemma code_ranges:
  "c \<in> set hz_codes \<Longrightarrow> LongName c = Some p \<Longrightarrow> protPhysicalRange p = Some (40, 70)"
  "c \<in> set volt_codes \<Longrightarrow> LongName c = Some p \<Longrightarrow> protPhysicalRange p = Some (100, 600)"
  "c \<in> set clear_codes \<Longrightarrow> LongName c = Some p \<Longrightarrow> protPhysicalRange p = Some (0, 1000)"
  unfolding hz_codes_def volt_codes_def clear_codes_def
  by (simp only: one_code; elim disjE; simp only: LongNames option.inject; hypsubst?;
      simp only: param_ranges)+

lemma clear_transform:
  "c \<in> set clear_codes \<Longrightarrow> LongName c = Some p \<Longrightarrow> \<exists>s. map_of ds3ProtParams p = Some (s, ds3ScaleClear)"
  unfolding clear_codes_def
  by (simp only: one_code; elim disjE; simp only: LongNames option.inject; hypsubst?;
      simp add: ds3ProtParams_def)

lemma code_entries:
  "c \<in> set hz_codes \<Longrightarrow> LongName c = Some p \<Longrightarrow> protPhysicalRange p = Some (40, 70)
     \<and> map_of ds3ProtParams p \<noteq> None
     \<and> (map_of qs1ProtFreqSubs p \<noteq> None \<or> map_of qs1FreqTripSubsYC600 p \<noteq> None)"
  "c \<in> set volt_codes \<Longrightarrow> LongName c = Some p \<Longrightarrow> protPhysicalRange p = Some (100, 600)
     \<and> map_of ds3ProtParams p \<noteq> None
     \<and> (map_of qs1VoltTripSubs p \<noteq> None \<or> map_of qs1VoltTripSubsYC600 p \<noteq> None)"
  "c \<in> set clear_codes \<Longrightarrow> LongName c = Some p \<Longrightarrow> protPhysicalRange p = Some (0, 1000)
     \<and> (\<exists>s. map_of ds3ProtParams p = Some (s, ds3ScaleClear)) \<and> map_of qs1ClearTimeSubs p \<noteq> None"
  using code_tables code_ranges clear_transform by (simp_all add: list_all_iff split: option.splits)

lemma ds3_transform:
  assumes "map_of ds3ProtParams p = Some (sub, f)"
  shows "protPhysicalRange p = Some (40, 70) \<Longrightarrow> f = ds3ScaleHz"
    and "protPhysicalRange p = Some (100, 600) \<Longrightarrow> f = ds3ScaleVolt"
  by (rule ds3_param_kinds [OF assms]; simp add: param_ranges)+

lemma ds3_sends:
  assumes "FamilyOf m = FamilyDS3" and "map_of ds3ProtParams p = Some (sub, f)"
    and "protPhysicalRange p = Some (lo, hi)" and "0 < x" and "lo \<le> x" and "x \<le> hi"
    and "f cv (Fin x) = n" and "0 \<le> n" and "n < 0x8000"
  shows "\<exists>g. EncodeSetProtection cv m p (Fin x) = Inr [g] \<and> written_register m p g = n"
proof -
  let ?g = "BuildL2Frame CmdSetPowerDS3Unicast [sub, 0, 0, of_int (n div 256), of_int n]"
  have "readBE ?g 7 2 = n" using assms(8,9) by (intro readBE_wire16) (simp_all add: frame_nths)
  then show ?thesis using assms
    by (simp add: encode_in_range encodeProtectionDS3_def Let_def written_register_def)
qed

lemma qs1_sends_freq:
  assumes m: "FamilyOf m = FamilyQS1"
    and t: "map_of qs1ProtFreqSubs p = Some s \<or> map_of qs1FreqTripSubsYC600 p = Some s"
    and r: "40 \<le> x" "x \<le> 70"
    and n: "int_of_f64 64 (cv 64) (fdiv qs1aFreqDivBy (Fin x)) = n" "0 \<le> n" "n < 2 ^ 24"
  shows "\<exists>g. EncodeSetProtection cv m p (Fin x) = Inr [g] \<and> written_register m p g = n"
  using t
proof
  assume t: "map_of qs1ProtFreqSubs p = Some s"
  let ?g = "BuildL2Frame CmdSetPowerQS1Unicast (qs1NewOneBody s n 3)"
  have "readBE ?g 6 3 = n" using n(2,3)
    by (intro readBE_wire24) (simp_all add: frame_nths qs1NewOneBody_def)
  then show ?thesis using m r n t qs1_param_ranges(1) [OF t] isQS1YC600BuilderParam_tables(1) [OF t]
    by (simp add: encode_in_range encodeProtectionQS1A_def Let_def written_register_def)
next
  assume t: "map_of qs1FreqTripSubsYC600 p = Some s"
  let ?g = "qs1YC600Frame s n 3"
  have "readBE ?g 4 3 = n" using n(2,3)
    by (intro readBE_wire24) (simp_all add: frame_nths qs1YC600Frame_def)
  moreover have "isQS1YC600BuilderParam p" using t by (simp add: isQS1YC600BuilderParam_def)
  ultimately show ?thesis using m r n t qs1_param_ranges(4) [OF t] qs1_freq_lookup [OF t]
    by (simp add: encode_in_range encodeProtectionQS1A_def Let_def written_register_def)
qed

lemma qs1_sends_volt:
  assumes m: "FamilyOf m = FamilyQS1"
    and t: "map_of qs1VoltTripSubs p = Some s \<or> map_of qs1VoltTripSubsYC600 p = Some s"
    and r: "100 \<le> x" "x \<le> 600"
    and n: "int_of_f64 64 (cv 64) (fmul (Fin x) qs1VoltTripWriteScale) = n" "0 \<le> n" "n < 0x8000"
  shows "\<exists>g. EncodeSetProtection cv m p (Fin x) = Inr [g] \<and> written_register m p g = n"
  using t
proof
  assume t: "map_of qs1VoltTripSubs p = Some s"
  let ?g = "BuildL2Frame CmdSetPowerQS1Unicast (qs1NewOneBody s n 2)"
  have "readBE ?g 6 2 = n" using n(2,3)
    by (intro readBE_wire16) (simp_all add: frame_nths qs1NewOneBody_def)
  then show ?thesis using m r n t qs1_param_ranges(2) [OF t] qs1_volt_lookups(1) [OF t]
      isQS1YC600BuilderParam_tables(2) [OF t]
    by (simp add: encode_in_range encodeProtectionQS1A_def Let_def written_register_def)
next
  assume t: "map_of qs1VoltTripSubsYC600 p = Some s"
  let ?g = "qs1YC600Frame s n 2"
  have "readBE ?g 4 2 = n" using n(2,3)
    by (intro readBE_wire16) (simp_all add: frame_nths qs1YC600Frame_def)
  moreover have "isQS1YC600BuilderParam p" using t by (simp add: isQS1YC600BuilderParam_def)
  ultimately show ?thesis using m r n t qs1_param_ranges(3) [OF t] qs1_volt_lookups(2) [OF t]
    by (simp add: encode_in_range encodeProtectionQS1A_def Let_def written_register_def)
qed

lemma qs1_sends_clear:
  assumes m: "FamilyOf m = FamilyQS1" and t: "map_of qs1ClearTimeSubs p = Some s"
    and r: "0 < x" "x \<le> 1000"
    and n: "int_of_f64 64 (cv 64) (fmul (Fin x) (Fin 100)) = n" "0 \<le> n" "n < 0x8000"
  shows "\<exists>g. EncodeSetProtection cv m p (Fin x) = Inr [g] \<and> written_register m p g = n"
proof -
  let ?g = "BuildL2Frame CmdSetPowerQS1Unicast (qs1NewOneBody s n 2)"
  have "readBE ?g 6 2 = n" using n(2,3)
    by (intro readBE_wire16) (simp_all add: frame_nths qs1NewOneBody_def)
  then show ?thesis
    using m r n t qs1_lookups [OF t] isQS1YC600BuilderParam_tables(3) [OF t]
    by (simp add: encode_in_range encodeProtectionQS1A_def Let_def written_register_def qs1ClearTimeWriteScale_def)
qed

lemma volt_tolerance: "c \<in> set volt_codes \<Longrightarrow> withinTolerance c (Fin x) (Fin x)"
proof -
  have "list_all (\<lambda>c. fle (Fin 0) (codeTolerance c)) volt_codes" by code_simp
  then show "c \<in> set volt_codes \<Longrightarrow> withinTolerance c (Fin x) (Fin x)"
    using f64_of_rat_of_int [of 0] by (auto simp: list_all_iff withinTolerance_def fsub_def)
qed

lemma near_confirms:
  assumes "c \<in> set hz_codes \<union> set clear_codes" and "\<bar>x - y\<bar> \<le> 21 / 1000"
  shows "withinTolerance c (Fin x) (Fin y)"
  using within_tolerance [OF six_hundredths [OF assms(1)]] assms(2) by simp

text \<open>The register a write leaves reads back, under the same code, as a value that counts as applied.\<close>

definition confirmed_write :: "conv \<Rightarrow> byte \<Rightarrow> string \<Rightarrow> rat \<Rightarrow> bool" where
  "confirmed_write cv m c x \<longleftrightarrow>
     (\<exists>p g y. LongName c = Some p \<and> EncodeSetProtection cv m p (Fin x) = Inr [g]
        \<and> reads_as cv m c (written_register m p g) = Some y \<and> withinTolerance c (Fin x) y)"

lemma confirmed_writeI:
  assumes "\<exists>g. EncodeSetProtection cv m p (Fin x) = Inr [g] \<and> written_register m p g = n"
    and "LongName c = Some p" and "reads_as cv m c n = Some y" and "withinTolerance c (Fin x) y"
  shows "confirmed_write cv m c x"
  using assms unfolding confirmed_write_def by blast

lemma code_names:
  assumes "c \<in> set hz_codes \<or> c \<in> set volt_codes \<or> c \<in> set clear_codes"
  obtains p where "LongName c = Some p"
  using assms that unfolding hz_codes_def volt_codes_def clear_codes_def
  by (simp only: one_code; elim disjE; simp)

lemma ds3_confirms:
  assumes m: "FamilyOf m = FamilyDS3"
  shows "c \<in> set hz_codes \<Longrightarrow> 40 \<le> x \<Longrightarrow> x \<le> 70 \<Longrightarrow> confirmed_write cv m c x"
    and "c \<in> set volt_codes \<Longrightarrow> 100 \<le> V \<Longrightarrow> V \<le> 600 \<Longrightarrow> confirmed_write cv m c (of_int V)"
    and "c \<in> set clear_codes \<Longrightarrow> 0 < x \<Longrightarrow> x \<le> 300 \<Longrightarrow> confirmed_write cv m c x"
proof -
  assume c: "c \<in> set hz_codes" and x: "40 \<le> x" "x \<le> 70"
  obtain p where p: "LongName c = Some p" using c code_names by blast
  obtain sub f where t: "map_of ds3ProtParams p = Some (sub, f)"
    using code_entries(1) [OF c p] by auto
  have f: "f = ds3ScaleHz" using ds3_transform(1) [OF t] code_entries(1) [OF c p] by simp
  obtain n y where n: "f cv (Fin x) = n" "0 \<le> n" "n < 0x8000" "dsFreq n = Fin y" "\<bar>x - y\<bar> \<le> 21 / 1000"
    using hundredth_register [of x "cv 64"] x
    by (auto simp: f ds3ScaleHz_def ds3ProtFreqScale_def dsFreq_def)
  show "confirmed_write cv m c x"
  proof (rule confirmed_writeI [OF ds3_sends [OF m t _ _ x n(1-3)] p])
    show "reads_as cv m c n = Some (Fin y)"
      using ds3_reads(1) [OF m] c n(4) unfolding hz_codes_def by simp
    show "withinTolerance c (Fin x) (Fin y)" using near_confirms c n(5) by blast
  qed (use x code_entries(1) [OF c p] in simp_all)
next
  assume c: "c \<in> set volt_codes" and V: "100 \<le> V" "V \<le> 600"
  obtain p where p: "LongName c = Some p" using c code_names by blast
  obtain sub f where t: "map_of ds3ProtParams p = Some (sub, f)"
    using code_entries(2) [OF c p] by auto
  have f: "f = ds3ScaleVolt" using ds3_transform(2) [OF t] code_entries(2) [OF c p] by simp
  obtain n where n: "f cv (Fin (of_int V)) = n" "0 \<le> n" "n \<le> 2300" "dsVolt cv n = Fin (of_int V)"
    unfolding f by (rule ds3_volt_register [OF V])
  have V': "(100 :: rat) \<le> of_int V" "(of_int V :: rat) \<le> 600" using V by simp_all
  show "confirmed_write cv m c (of_int V)"
  proof (rule confirmed_writeI [OF ds3_sends [OF m t _ _ V' n(1,2)] p])
    show "reads_as cv m c n = Some (Fin (of_int V))"
      using ds3_reads(2) [OF m] c n(4) unfolding volt_codes_def by simp
    show "withinTolerance c (Fin (of_int V)) (Fin (of_int V))" using volt_tolerance c by blast
  qed (use V' n(3) code_entries(2) [OF c p] in simp_all)
next
  assume c: "c \<in> set clear_codes" and x: "0 < x" "x \<le> 300"
  obtain p where p: "LongName c = Some p" using c code_names by blast
  obtain sub where t: "map_of ds3ProtParams p = Some (sub, ds3ScaleClear)"
    using code_entries(3) [OF c p] by auto
  obtain n y where n: "ds3ScaleClear cv (Fin x) = n" "0 \<le> n" "n < 0x8000" "dsSec n = Fin y" "\<bar>x - y\<bar> \<le> 21 / 1000"
    using hundredth_register [of x "cv 64"] x
    by (auto simp: ds3ScaleClear_def ds3ClearTimeScale_def dsSec_def)
  show "confirmed_write cv m c x"
  proof (rule confirmed_writeI [OF ds3_sends [OF m t _ x(1) _ _ n(1-3), of 0 1000] p])
    show "reads_as cv m c n = Some (Fin y)"
      using ds3_reads(3) [OF m] c n(4) unfolding clear_codes_def by simp
    show "withinTolerance c (Fin x) (Fin y)" using near_confirms c n(5) by blast
  qed (use x code_entries(3) [OF c p] in simp_all)
qed

lemma qs1_confirms:
  assumes m: "FamilyOf m = FamilyQS1"
  shows "c \<in> set hz_codes \<Longrightarrow> 40 \<le> x \<Longrightarrow> x \<le> 70 \<Longrightarrow> confirmed_write cv m c x"
    and "c \<in> set volt_codes \<Longrightarrow> 100 \<le> V \<Longrightarrow> V \<le> 600 \<Longrightarrow> confirmed_write cv m c (of_int V)"
    and "c \<in> set clear_codes \<Longrightarrow> 0 < x \<Longrightarrow> x \<le> 300 \<Longrightarrow> confirmed_write cv m c x"
proof -
  assume c: "c \<in> set hz_codes" and x: "40 \<le> x" "x \<le> 70"
  obtain p where p: "LongName c = Some p" using c code_names by blast
  obtain s where t: "map_of qs1ProtFreqSubs p = Some s \<or> map_of qs1FreqTripSubsYC600 p = Some s"
    using code_entries(1) [OF c p] by auto
  obtain n y where n: "int_of_f64 64 (cv 64) (fdiv qs1aFreqDivBy (Fin x)) = n" "0 \<le> n" "n < 2 ^ 24"
    "qsFreq n = Fin y" "\<bar>y - x\<bar> \<le> 1 / 10000"
    by (rule qs1_freq_register [OF x])
  show "confirmed_write cv m c x"
  proof (rule confirmed_writeI [OF qs1_sends_freq [of m p s x cv n, OF m t x n(1-3)] p])
    show "reads_as cv m c n = Some (Fin y)"
      using qs1_reads(1) [OF m] c n(4) unfolding hz_codes_def by simp
    show "withinTolerance c (Fin x) (Fin y)" using c n(5) by (intro near_confirms) (simp_all add: abs_minus_commute)
  qed
next
  assume c: "c \<in> set volt_codes" and V: "100 \<le> V" "V \<le> 600"
  obtain p where p: "LongName c = Some p" using c code_names by blast
  obtain s where t: "map_of qs1VoltTripSubs p = Some s \<or> map_of qs1VoltTripSubsYC600 p = Some s"
    using code_entries(2) [OF c p] by auto
  obtain n where n: "int_of_f64 64 (cv 64) (fmul (Fin (of_int V)) qs1VoltTripWriteScale) = n" "0 \<le> n" "n \<le> 3300"
    "qsVolt cv n = Fin (of_int V)"
    by (rule qs1_volt_register [OF V])
  have V': "(100 :: rat) \<le> of_int V" "(of_int V :: rat) \<le> 600" using V by simp_all
  show "confirmed_write cv m c (of_int V)"
  proof (rule confirmed_writeI [OF qs1_sends_volt [of m p s _ cv n, OF m t V' n(1,2)] p])
    show "reads_as cv m c n = Some (Fin (of_int V))"
      using qs1_reads(2) [OF m] c n(4) unfolding volt_codes_def by simp
    show "withinTolerance c (Fin (of_int V)) (Fin (of_int V))" using volt_tolerance c by blast
  qed (use n(3) in simp)
next
  assume c: "c \<in> set clear_codes" and x: "0 < x" "x \<le> 300"
  obtain p where p: "LongName c = Some p" using c code_names by blast
  obtain s where t: "map_of qs1ClearTimeSubs p = Some s" using code_entries(3) [OF c p] by auto
  obtain n y where n: "int_of_f64 64 (cv 64) (fmul (Fin x) (Fin 100)) = n" "0 \<le> n" "n < 0x8000"
    "qsSec n = Fin y" "\<bar>x - y\<bar> \<le> 21 / 1000"
    using unit_register [of x 100 "cv 64"] x by (auto simp: qsSec_def)
  show "confirmed_write cv m c x"
  proof (rule confirmed_writeI [OF qs1_sends_clear [of m p s x cv n, OF m t x(1) _ n(1-3)] p])
    show "reads_as cv m c n = Some (Fin y)"
      using qs1_reads(3) [OF m] c n(4) unfolding clear_codes_def by simp
    show "withinTolerance c (Fin x) (Fin y)" using near_confirms c n(5) by blast
  qed (use x in simp)
qed



text \<open>
  C26: the ten-minute average over-voltage limit of the DS3 family is written with the truncating
  scale of the other thresholds but read back truncated and not rounded: a whole voltage that is
  not a multiple of 67 always reads back one volt low, outside the tolerance, so the reconciler
  never sees it applied and sends it again at every pass.
\<close>

theorem ds3_average_never_confirmed:
  assumes "FamilyOf m = FamilyDS3" and "100 \<le> V" and "V \<le> 600" and "V mod 67 \<noteq> 0"
  shows "\<exists>p g. LongName ''AB'' = Some p \<and> EncodeSetProtection cv m p (Fin (of_int V)) = Inr [g]
    \<and> reads_as cv m ''AB'' (written_register m p g) = Some (Fin (of_int (V - 1)))
    \<and> \<not> withinTolerance ''AB'' (Fin (of_int V)) (Fin (of_int (V - 1)))"
proof -
  note m = assms(1)
  have p: "LongName ''AB'' = Some ''min10_Over_average_voltage''" by code_simp
  have t: "map_of ds3ProtParams ''min10_Over_average_voltage'' = Some (0x42, ds3ScaleVolt)"
    by (simp add: ds3ProtParams_def)
  have V: "(100 :: rat) \<le> of_int V" "(of_int V :: rat) \<le> 600" using assms(2,3) by simp_all
  obtain n where n: "ds3ScaleVolt cv (Fin (of_int V)) = n" "0 \<le> n" "n \<le> 2300"
    "dsVolt cv n = Fin (of_int V)"
    by (rule ds3_volt_register [OF assms(2,3)])
  obtain n' where n': "ds3ScaleVolt cv (Fin (of_int V)) = n'"
    "of_int n' \<le> of_int V * (1 / ds3GridVScale) + 1 / 1000000"
    "of_int V * (1 / ds3GridVScale) < of_int n' + 1 + 1 / (1000000 :: rat)"
    using scaled_register [of "of_int V" "1 / ds3GridVScale" 64 "cv 64"] V
    by (auto simp: ds3ScaleVolt_def ds3VoltWriteScale_def ds3GridVScale_def)
  have nb: "of_int n * 67 \<le> of_int V * 250 + (1 / 10000 :: rat)" "of_int V * 250 < of_int n * 67 + (67 + 1 / 10000 :: rat)"
    using n'(2,3) unfolding n'(1) [symmetric] n(1) by (simp_all add: ds3GridVScale_def)
  have "of_int (n * 67) < (of_int (V * 250 + 1) :: rat)" "of_int (V * 250) < (of_int (n * 67 + 68) :: rat)"
    using nb by simp_all
  then have ni: "n * 67 \<le> V * 250" "V * 250 \<le> n * 67 + 67" unfolding of_int_less_iff by simp_all
  have "\<not> 67 dvd V * 250"
  proof
    assume "67 dvd V * 250"
    moreover have "coprime 67 (250 :: int)" by code_simp
    ultimately have "67 dvd V" by (simp add: coprime_dvd_mult_left_iff)
    then show False using assms(4) by auto
  qed
  then have "V * 250 \<noteq> n * 67" "V * 250 \<noteq> n * 67 + 67" by (auto intro: dvdI [of _ _ "n + 1"] simp: algebra_simps)
  then have ni: "n * 67 + 1 \<le> V * 250" "V * 250 \<le> n * 67 + 66" using ni by simp_all
  have "of_int (n * 67 + 1) \<le> (of_int (V * 250) :: rat)" "of_int (V * 250) \<le> (of_int (n * 67 + 66) :: rat)"
    using ni unfolding of_int_le_iff .
  then have nr: "of_int n * 67 + 1 \<le> of_int V * (250 :: rat)" "of_int V * 250 \<le> of_int n * 67 + (66 :: rat)"
    by simp_all
  obtain y where y: "fmul (Fin (of_int n)) (f64_of_rat ds3GridVScale) = Fin y" "0 \<le> y"
    "\<bar>y - of_int n * ds3GridVScale\<bar> \<le> 1 / 1000000"
    using scaled_value [of "of_int n" ds3GridVScale] n(2,3) by (auto simp: ds3GridVScale_def)
  have yb: "y < of_int V" "of_int V - 1 < y"
    using y(3) nr unfolding ds3GridVScale_def abs_le_iff by linarith+
  have "trunc y = V - 1" using yb y(2) by (simp add: trunc_def floor_eq_iff)
  then have "int_of_f64 32 (cv 32) (Fin y) = V - 1"
    using int_of_f64_small [of y 32 "cv 32"] y(2) yb V by simp
  then have rd: "dsVoltAvg cv n = Fin (of_int (V - 1))"
    using f64_of_int_exact [of n] f64_of_int_exact [of "V - 1"] n(2,3) assms(2,3) y(1)
    by (simp add: dsVoltAvg_def ds3GridVScaleF_def)
  have reads: "reads_as cv m ''AB'' n = Some (dsVoltAvg cv n)"
    using m by (simp add: reads_as_def read_fields_def ds3ReadPageA_def ds3ReadPageB_def)
  have one: "f64_of_rat 1 = Fin 1" "codeTolerance ''AB'' = Fin (1 / 2)" by code_simp+
  have "\<not> withinTolerance ''AB'' (Fin (of_int V)) (Fin (of_int (V - 1)))"
    by (simp add: withinTolerance_def fsub_def one)
  moreover have "\<exists>g. EncodeSetProtection cv m ''min10_Over_average_voltage'' (Fin (of_int V)) = Inr [g]
      \<and> written_register m ''min10_Over_average_voltage'' g = n"
    by (rule ds3_sends [OF m t _ _ V n(1,2)]) (use n(3) V in \<open>simp_all add: param_ranges\<close>)
  ultimately show ?thesis using p reads rd by auto
qed

lemma ds3_average_never_confirmed_witness:
  "\<exists>p g. LongName ''AB'' = Some p \<and> EncodeSetProtection (\<lambda>_ _. 0) ModelDS3 p (Fin (of_int 253)) = Inr [g]
    \<and> reads_as (\<lambda>_ _. 0) ModelDS3 ''AB'' (written_register ModelDS3 p g) = Some (Fin (of_int (253 - 1)))
    \<and> \<not> withinTolerance ''AB'' (Fin (of_int 253)) (Fin (of_int (253 - 1)))"
  by (rule ds3_average_never_confirmed) (simp_all add: FamilyOf_def)

end
