(* ===== verification/GridStore.thy ===== *)
theory GridStore
  imports GridProfile
begin

text \<open>
  The grid-profile tables: \<open>store.go\<close> in \<open>internal/gridprofile\<close>.  A table is an association list
  keyed by its primary key; a document is kept as the record it decodes to, since what is written
  was marshalled from that record.  Every query and statement can fail: \<open>fault\<close> says for which
  calls the database does.  The lemmas give the store its map laws.
\<close>

section \<open>The tables\<close>

datatype db_op =
    QActiveBase | QGetProfile string | QGetOverlay string | QListProfiles | QListOverlays
  | QOverlayUIDs | QInventory | XUpsertProfile string | XUpsertOverlay string
  | XClearOverlay string | XSetActiveBase

type_synonym fault = "db_op \<Rightarrow> bool"

record store =
  st_profiles :: "(string \<times> Profile) list"
  st_active :: "string option"
  st_overlays :: "(string \<times> Overlay) list"
  st_inverters :: "(string \<times> int option) list"

definition overlay_finite :: "Overlay \<Rightarrow> bool" where
  "overlay_finite ov \<longleftrightarrow> finite64 (ov_VNomV ov) \<and> list_all point_finite (ov_Points ov)"

section \<open>Queries\<close>

definition ActiveBase :: "fault \<Rightarrow> store \<Rightarrow> gp_error + string" where
  "ActiveBase fl st =
     (if fl QActiveBase then Inl SqlError
      else case st_active st of None \<Rightarrow> Inl ErrNoRows | Some b \<Rightarrow> Inr b)"

definition GetProfile :: "fault \<Rightarrow> store \<Rightarrow> string \<Rightarrow> gp_error + Profile" where
  "GetProfile fl st k =
     (if fl (QGetProfile k) then Inl SqlError
      else case map_of (st_profiles st) k of None \<Rightarrow> Inl ErrNoRows | Some p \<Rightarrow> Inr p)"

definition GetOverlay :: "fault \<Rightarrow> store \<Rightarrow> string \<Rightarrow> gp_error + Overlay" where
  "GetOverlay fl st uid =
     (if fl (QGetOverlay uid) then Inl SqlError
      else case map_of (st_overlays st) uid of None \<Rightarrow> Inl ErrNoRows | Some ov \<Rightarrow> Inr ov)"

text \<open>\<open>ORDER BY id\<close>.\<close>

definition ListProfiles :: "fault \<Rightarrow> store \<Rightarrow> gp_error + Profile list" where
  "ListProfiles fl st =
     (if fl QListProfiles then Inl SqlError
      else Inr (map snd (sort_key fst (st_profiles st))))"

text \<open>
  \<open>GROUP BY id ORDER BY id\<close> with a bare \<open>json\<close> column: one row of each group, and the database
  may take any; \<open>pick\<close> is its choice among the group.
\<close>

definition ListOverlays ::
  "((string \<times> Overlay) list \<Rightarrow> string \<times> Overlay) \<Rightarrow> fault \<Rightarrow> store \<Rightarrow> gp_error + Overlay list" where
  "ListOverlays pick fl st =
     (if fl QListOverlays then Inl SqlError
      else Inr (map (\<lambda>k. snd (pick (filter (\<lambda>(_, ov). ov_ID ov = k) (st_overlays st))))
             (sort (remdups (map (\<lambda>(_, ov). ov_ID ov) (st_overlays st))))))"

section \<open>Statements\<close>

text \<open>Marshalling comes before the statement; both can fail.\<close>

definition UpsertProfile :: "fault \<Rightarrow> Profile \<Rightarrow> store \<Rightarrow> gp_error option \<times> store" where
  "UpsertProfile fl p st =
     (if \<not> profile_finite p then (Some MarshalFailed, st)
      else if fl (XUpsertProfile (pf_ID p)) then (Some SqlError, st)
      else (None, st\<lparr>st_profiles := AList.update (pf_ID p) p (st_profiles st)\<rparr>))"

definition SetActiveBase :: "fault \<Rightarrow> string \<Rightarrow> store \<Rightarrow> gp_error option \<times> store" where
  "SetActiveBase fl k st =
     (if fl XSetActiveBase then (Some SqlError, st)
      else if k = '''' then (None, st\<lparr>st_active := None\<rparr>)
      else (None, st\<lparr>st_active := Some k\<rparr>))"

definition UpsertOverlay :: "fault \<Rightarrow> string \<Rightarrow> Overlay \<Rightarrow> store \<Rightarrow> gp_error option \<times> store" where
  "UpsertOverlay fl uid ov st =
     (if \<not> overlay_finite ov then (Some MarshalFailed, st)
      else if fl (XUpsertOverlay uid) then (Some SqlError, st)
      else (None, st\<lparr>st_overlays := AList.update uid ov (st_overlays st)\<rparr>))"

definition ClearOverlay :: "fault \<Rightarrow> string \<Rightarrow> store \<Rightarrow> gp_error option \<times> store" where
  "ClearOverlay fl uid st =
     (if fl (XClearOverlay uid) then (Some SqlError, st)
      else (None, st\<lparr>st_overlays := AList.delete uid (st_overlays st)\<rparr>))"

section \<open>Loading a directory\<close>

text \<open>
  A directory entry is its name, whether it is a directory, and what reading and parsing its
  content gives; a directory that cannot be listed is None.  The loop skips what is not a JSON file, collects the errors and keeps going.
\<close>

datatype 'a content = ReadError | NotJson | Document 'a

type_synonym 'a dir_entry = "string \<times> bool \<times> 'a content"

definition is_json_file :: "'a dir_entry \<Rightarrow> bool" where
  "is_json_file = (\<lambda>(name, isdir, _). \<not> isdir \<and> has_prefix (rev name) (rev ''.json''))"

datatype load_error = LoadDir | LoadRead string | LoadInvalid string gp_error | LoadUpsert string gp_error

definition load_profile :: "(Profile \<Rightarrow> bool) \<Rightarrow> fault \<Rightarrow> Profile dir_entry \<Rightarrow> load_error list \<times> store \<Rightarrow> load_error list \<times> store" where
  "load_profile schema fl = (\<lambda>(name, isdir, c) (errs, st).
     if \<not> is_json_file (name, isdir, c) then (errs, st)
     else case c of
       ReadError \<Rightarrow> (errs @ [LoadRead name], st)
     | NotJson \<Rightarrow> (errs @ [LoadInvalid name SchemaViolation], st)
     | Document p \<Rightarrow>
         (case ValidateProfile schema p of
            Some e \<Rightarrow> (errs @ [LoadInvalid name e], st)
          | None \<Rightarrow>
              (case UpsertProfile fl p st of
                 (Some e, st') \<Rightarrow> (errs @ [LoadUpsert name e], st')
               | (None, st') \<Rightarrow> (errs, st'))))"

definition LoadProfilesFromDir ::
  "(Profile \<Rightarrow> bool) \<Rightarrow> fault \<Rightarrow> Profile dir_entry list option \<Rightarrow> store \<Rightarrow> load_error list \<times> store" where
  "LoadProfilesFromDir schema fl dir st =
     (case dir of None \<Rightarrow> ([LoadDir], st) | Some entries \<Rightarrow> fold (load_profile schema fl) entries ([], st))"

fun upsert_each :: "fault \<Rightarrow> string \<Rightarrow> Overlay \<Rightarrow> string list \<Rightarrow> load_error list \<times> store \<Rightarrow> load_error list \<times> store" where
  "upsert_each fl name ov [] acc = acc"
| "upsert_each fl name ov (uid # uids) (errs, st) =
     (case UpsertOverlay fl uid ov st of
        (Some e, st') \<Rightarrow> upsert_each fl name ov uids (errs @ [LoadUpsert name e], st')
      | (None, st') \<Rightarrow> upsert_each fl name ov uids (errs, st'))"

definition load_overlay :: "(Overlay \<Rightarrow> bool) \<Rightarrow> fault \<Rightarrow> Overlay dir_entry \<Rightarrow> load_error list \<times> store \<Rightarrow> load_error list \<times> store" where
  "load_overlay schema fl = (\<lambda>(name, isdir, c) (errs, st).
     if \<not> is_json_file (name, isdir, c) then (errs, st)
     else case c of
       ReadError \<Rightarrow> (errs @ [LoadRead name], st)
     | NotJson \<Rightarrow> (errs @ [LoadInvalid name SchemaViolation], st)
     | Document ov \<Rightarrow>
         (case ValidateOverlay schema ov of
            Some e \<Rightarrow> (errs @ [LoadInvalid name e], st)
          | None \<Rightarrow> upsert_each fl name ov (ov_UIDs ov) (errs, st)))"

definition LoadOverlaysFromDir ::
  "(Overlay \<Rightarrow> bool) \<Rightarrow> fault \<Rightarrow> Overlay dir_entry list option \<Rightarrow> store \<Rightarrow> load_error list \<times> store" where
  "LoadOverlaysFromDir schema fl dir st =
     (case dir of None \<Rightarrow> ([LoadDir], st) | Some entries \<Rightarrow> fold (load_overlay schema fl) entries ([], st))"

section \<open>The laws of the store\<close>

text \<open>
  What a loaded store satisfies: its tables have one row per key, every document is finite, a
  profile is under its own id with its ranges the right way round, and so is every overlay.
\<close>

definition ranges_ok :: "PointEntry list \<Rightarrow> bool" where
  "ranges_ok ps \<longleftrightarrow> (\<forall>p \<in> set ps. \<forall>rg. pe_Range p = Some rg \<longrightarrow> \<not> flt (rMax rg) (rMin rg))"

lemma validateRanges_None: "validateRanges ps = None \<longleftrightarrow> ranges_ok ps"
  by (induction ps rule: validateRanges.induct) (auto simp: ranges_ok_def split: option.splits if_splits)

definition profile_ok :: "(Profile \<Rightarrow> bool) \<Rightarrow> string \<times> Profile \<Rightarrow> bool" where
  "profile_ok schema = (\<lambda>(k, p). pf_ID p = k \<and> profile_finite p \<and> schema p \<and> ranges_ok (pf_Points p))"

definition overlay_ok :: "(Overlay \<Rightarrow> bool) \<Rightarrow> string \<times> Overlay \<Rightarrow> bool" where
  "overlay_ok schema = (\<lambda>(_, ov). overlay_finite ov \<and> schema ov \<and> ranges_ok (ov_Points ov))"

definition store_ok :: "(Profile \<Rightarrow> bool) \<Rightarrow> (Overlay \<Rightarrow> bool) \<Rightarrow> store \<Rightarrow> bool" where
  "store_ok ps os st \<longleftrightarrow>
     distinct (map fst (st_profiles st)) \<and> distinct (map fst (st_overlays st))
     \<and> list_all (profile_ok ps) (st_profiles st) \<and> list_all (overlay_ok os) (st_overlays st)"

lemma set_update_subset: "set (AList.update k v xs) \<subseteq> insert (k, v) (set xs)"
  by (induction xs) auto

lemma update_all: "list_all P xs \<Longrightarrow> P (k, v) \<Longrightarrow> list_all P (AList.update k v xs)"
  using set_update_subset [of k v xs] by (auto simp: list_all_iff)

lemma delete_all: "list_all P xs \<Longrightarrow> list_all P (AList.delete k xs)"
  by (auto simp: list_all_iff AList.delete_eq)

lemma ValidateProfile_None: "ValidateProfile schema p = None \<longleftrightarrow> schema p \<and> ranges_ok (pf_Points p)"
  by (simp add: ValidateProfile_def validateRanges_None)

lemma ValidateOverlay_None: "ValidateOverlay schema p = None \<longleftrightarrow> schema p \<and> ranges_ok (ov_Points p)"
  by (simp add: ValidateOverlay_def validateRanges_None)

lemma UpsertProfile_ok:
  assumes "store_ok ps os st" and "ps p" and "ranges_ok (pf_Points p)"
  shows "store_ok ps os (snd (UpsertProfile fl p st))"
  using assms by (auto simp: UpsertProfile_def store_ok_def profile_ok_def distinct_update intro: update_all)

lemma UpsertOverlay_ok:
  assumes "store_ok ps os st" and "os ov" and "ranges_ok (ov_Points ov)"
  shows "store_ok ps os (snd (UpsertOverlay fl uid ov st))"
  using assms by (auto simp: UpsertOverlay_def store_ok_def overlay_ok_def distinct_update intro: update_all)

lemma ClearOverlay_ok: "store_ok ps os st \<Longrightarrow> store_ok ps os (snd (ClearOverlay fl uid st))"
  by (auto simp: ClearOverlay_def store_ok_def distinct_delete intro: delete_all)

lemma SetActiveBase_ok: "store_ok ps os st \<Longrightarrow> store_ok ps os (snd (SetActiveBase fl k st))"
  by (simp add: SetActiveBase_def store_ok_def)

lemma UpsertProfile_result:
  "UpsertProfile fl p st = (r, st') \<Longrightarrow> store_ok ps os st \<Longrightarrow> ps p \<Longrightarrow> ranges_ok (pf_Points p) \<Longrightarrow>
     store_ok ps os st'"
  using UpsertProfile_ok [of ps os st p fl] by simp

lemma load_profile_ok:
  "store_ok ps os (snd acc) \<Longrightarrow> store_ok ps os (snd (load_profile ps fl e acc))"
  by (cases e; cases acc) (auto simp: load_profile_def ValidateProfile_None
      split: content.splits option.splits prod.splits dest: UpsertProfile_result)

lemma upsert_each_ok:
  "store_ok ps os (snd acc) \<Longrightarrow> os ov \<Longrightarrow> ranges_ok (ov_Points ov) \<Longrightarrow>
     store_ok ps os (snd (upsert_each fl name ov uids acc))"
proof (induction fl name ov uids acc rule: upsert_each.induct)
  case (2 fl name ov uid uids errs st)
  then show ?case using UpsertOverlay_ok [of ps os st ov fl uid]
    by (auto split: prod.split option.split)
qed simp

lemma load_overlay_ok:
  "store_ok ps os (snd acc) \<Longrightarrow> store_ok ps os (snd (load_overlay os fl e acc))"
  by (cases e; cases acc) (auto simp: load_overlay_def ValidateOverlay_None upsert_each_ok
      split: content.splits option.splits)

lemma fold_keeps: "(\<And>e acc. P acc \<Longrightarrow> P (f e acc)) \<Longrightarrow> P acc \<Longrightarrow> P (fold f es acc)"
  by (induction es arbitrary: acc) auto

lemma LoadProfilesFromDir_ok:
  "store_ok ps os st \<Longrightarrow> store_ok ps os (snd (LoadProfilesFromDir ps fl dir st))"
  unfolding LoadProfilesFromDir_def using load_profile_ok
  by (auto split: option.split intro!: fold_keeps [where P = "\<lambda>acc. store_ok ps os (snd acc)"])

lemma LoadOverlaysFromDir_ok:
  "store_ok ps os st \<Longrightarrow> store_ok ps os (snd (LoadOverlaysFromDir os fl dir st))"
  unfolding LoadOverlaysFromDir_def using load_overlay_ok
  by (auto split: option.split intro!: fold_keeps [where P = "\<lambda>acc. store_ok ps os (snd acc)"])

text \<open>
  Whatever files the two directories hold and whichever statements fail, loading them keeps
  the store well formed: one row per key, each profile under its own id, and every stored document
  accepted by the schema, finite, and with no range upside down.
\<close>

theorem load_keeps_store:
  assumes "store_ok ps os st"
  shows "store_ok ps os (snd (LoadOverlaysFromDir os fl' os' (snd (LoadProfilesFromDir ps fl ps' st))))"
  by (rule LoadOverlaysFromDir_ok [OF LoadProfilesFromDir_ok [OF assms]])

end
