(* ===== verification/GridDesired.thy ===== *)
theory GridDesired
  imports GridStore
begin

text \<open>
  The desired state of one inverter: \<open>buildDesired\<close> and \<open>FleetUIDs\<close> of \<open>reconcile.go\<close> and
  \<open>inventoryUIDs\<close> of \<open>broadcast.go\<close> in \<open>internal/gridprofile\<close>.  The active base profile and the
  overlay of the inverter are merged into a map from codes to points; Go iterates over that map in
  an order it does not fix, which is the parameter \<open>order\<close>.  The theorems: every desired value
  lies in the three ranges that bound it as long as these meet, what happens when they do not, no
  conflict rule is violated, and the order of iteration only permutes the points.
\<close>

section \<open>Merging\<close>

definition index_points :: "PointEntry list \<Rightarrow> (string \<times> PointEntry) list" where
  "index_points ps = fold (\<lambda>p m. AList.update (pe_ApsCode p) p m) ps []"

definition overlay_range :: "(string \<times> PointEntry) list \<Rightarrow> PointEntry \<Rightarrow> Range option" where
  "overlay_range basePoints ovPt =
     (let code = pe_ApsCode ovPt;
          rng = defaultRange code;
          rng = (case map_of basePoints code of
                   Some basePt \<Rightarrow> intersectRanges rng (pe_Range basePt)
                 | None \<Rightarrow> rng)
      in intersectRanges rng (pe_Range ovPt))"

definition merge_overlay ::
  "(string \<times> PointEntry) list \<Rightarrow> PointEntry list \<Rightarrow> (string \<times> PointEntry) list" where
  "merge_overlay basePoints ovPoints =
     fold (\<lambda>ovPt m. AList.update (pe_ApsCode ovPt) (ovPt\<lparr>pe_Range := overlay_range basePoints ovPt\<rparr>) m)
       ovPoints basePoints"

definition effVals :: "(string \<times> PointEntry) list \<Rightarrow> string \<rightharpoonup> f64" where
  "effVals merged = (\<lambda>c. map_option clamped_value (map_of merged c))"

definition effective_point :: "conv \<Rightarrow> byte \<Rightarrow> string \<times> PointEntry \<Rightarrow> EffectivePoint option" where
  "effective_point cv m = (\<lambda>(code, entry).
     case effectivePointValue cv m code entry of
       None \<Rightarrow> None
     | Some v \<Rightarrow> Some \<lparr>ep_ApsCode = code, ep_NativeValue = v, ep_Unit = nv_Unit (pe_Native entry),
                    ep_Range = pe_Range entry, ep_SF = pe_SF entry\<rparr>)"

section \<open>The desired profile\<close>

type_synonym order = "(string \<times> PointEntry) list \<Rightarrow> (string \<times> PointEntry) list"

record config =
  cf_conv :: conv
  cf_schema :: "Profile \<Rightarrow> bool"
  cf_order :: order

definition buildDesired :: "config \<Rightarrow> fault \<Rightarrow> store \<Rightarrow> string \<Rightarrow> byte \<Rightarrow> gp_error + EffectiveProfile option" where
  "buildDesired cf fl st uid m =
     (case ActiveBase fl st of
        Inl e \<Rightarrow> if e = ErrNoRows then Inr None else Inl e
      | Inr baseID \<Rightarrow>
     (case GetProfile fl st baseID of
        Inl e \<Rightarrow> Inl e
      | Inr base \<Rightarrow>
     (case (if profile_finite base then ValidateProfile (cf_schema cf) base else None) of
        Some e \<Rightarrow> Inl e
      | None \<Rightarrow>
     (let basePoints = index_points (pf_Points base);
          found = GetOverlay fl st uid
      in if (case found of Inl e \<Rightarrow> e \<noteq> ErrNoRows | Inr _ \<Rightarrow> False)
         then Inl (case found of Inl e \<Rightarrow> e | Inr _ \<Rightarrow> SqlError)
         else let merged = merge_overlay basePoints (case found of Inl _ \<Rightarrow> [] | Inr ov \<Rightarrow> ov_Points ov)
              in case conflictError (CheckConflicts (effVals merged)) of
                   Some e \<Rightarrow> Inl e
                 | None \<Rightarrow>
                     Inr (Some \<lparr>ef_InverterUID = uid, ef_ModelCode = m,
                       ef_Points = List.map_filter (effective_point (cf_conv cf) m) (cf_order cf merged)\<rparr>)))))"

section \<open>Enumerating the fleet\<close>

definition add_uid :: "string \<Rightarrow> string list \<Rightarrow> string list" where
  "add_uid uid uids = (if uid \<noteq> '''' \<and> uid \<notin> set uids then uids @ [uid] else uids)"

definition FleetUIDs :: "fault \<Rightarrow> store \<Rightarrow> string list option \<Rightarrow> gp_error + string list" where
  "FleetUIDs fl st known =
     (if fl QOverlayUIDs then Inl SqlError
      else let uids = fold add_uid (map fst (st_overlays st)) []
           in Inr (case known of None \<Rightarrow> uids | Some ks \<Rightarrow> fold add_uid ks uids))"

text \<open>\<open>uint8(mc)\<close> keeps the low byte of the stored integer.\<close>

definition inventoryUIDs :: "fault \<Rightarrow> store \<Rightarrow> byte list \<Rightarrow> gp_error + string list" where
  "inventoryUIDs fl st modelCodes =
     (if fl QInventory then Inl SqlError
      else Inr (map fst (filter (\<lambda>(_, mc). case mc of None \<Rightarrow> False | Some c \<Rightarrow> (of_int c :: byte) \<in> set modelCodes)
             (st_inverters st))))"

lemma fold_add_uid:
  "distinct uids \<Longrightarrow> '''' \<notin> set uids \<Longrightarrow>
     distinct (fold add_uid us uids) \<and> set (fold add_uid us uids) = set uids \<union> (set us - {''''})"
  by (induction us arbitrary: uids) (auto simp: add_uid_def)

text \<open>
  A fleet-wide pass visits every inverter that has an overlay or is known, each once, and
  never an empty identifier.
\<close>

theorem fleet_each_once:
  assumes "FleetUIDs fl st known = Inr uids"
  shows "distinct uids"
    and "set uids = (fst ` set (st_overlays st) \<union> (case known of None \<Rightarrow> {} | Some ks \<Rightarrow> set ks)) - {''''}"
proof -
  let ?u = "fold add_uid (map fst (st_overlays st)) []"
  have u: "distinct ?u" "set ?u = fst ` set (st_overlays st) - {''''}"
    using fold_add_uid [of "[]" "map fst (st_overlays st)"] by auto
  show "distinct uids"
    and "set uids = (fst ` set (st_overlays st) \<union> (case known of None \<Rightarrow> {} | Some ks \<Rightarrow> set ks)) - {''''}"
    using assms u fold_add_uid [of ?u]
    by (auto simp: FleetUIDs_def Let_def split: if_splits option.splits)
qed

section \<open>Ranges\<close>

definition in_range :: "f64 \<Rightarrow> Range option \<Rightarrow> bool" where
  "in_range v r \<longleftrightarrow> (case r of None \<Rightarrow> True | Some rg \<Rightarrow> fle (rMin rg) v \<and> fle v (rMax rg))"

definition finite_range :: "Range option \<Rightarrow> bool" where
  "finite_range r \<longleftrightarrow> (case r of None \<Rightarrow> True | Some rg \<Rightarrow> finite64 (rMin rg) \<and> finite64 (rMax rg))"

lemma finite64E: "finite64 x \<Longrightarrow> (\<And>q. x = Fin q \<Longrightarrow> P) \<Longrightarrow> P"
  by (auto simp: finite64_def split: f64.splits)

lemma mk_range_sel [simp]: "rMin (mk_range a b) = Fin a" "rMax (mk_range a b) = Fin b"
  by (simp_all add: mk_range_def)

lemma finite_rangeE:
  assumes "finite_range r"
  obtains "r = None" | a b where "r = Some (mk_range a b)"
proof (cases r)
  case (Some rg)
  then obtain a b where "rMin rg = Fin a" "rMax rg = Fin b"
    using assms by (auto simp: finite_range_def elim!: finite64E)
  then have "r = Some (mk_range a b)" by (simp add: Some mk_range_def)
  then show ?thesis by (rule that)
qed

lemma finite_range_simps [simp]: "finite_range None" "finite_range (Some (mk_range a b))"
  by (simp_all add: finite_range_def finite64_def)

lemma finite_defaultRange [simp]: "finite_range (defaultRange c)"
  by (simp add: defaultRange_def split: option.split)

lemma intersect_None [simp]: "intersectRanges None s = s" "intersectRanges r None = r"
  by (simp_all add: intersectRanges_def split: option.split)

lemma intersect_Fin [simp]:
  "intersectRanges (Some (mk_range a b)) (Some (mk_range c d)) =
     Some (mk_range (max a c) (if min b d < max a c then max a c else min b d))"
  by (simp add: intersectRanges_def Let_def mk_range_def max_def min_def)

lemma in_range_simps [simp]:
  "in_range v None" "in_range v (Some (mk_range a b)) \<longleftrightarrow> fle (Fin a) v \<and> fle v (Fin b)"
  by (simp_all add: in_range_def)

lemma finite_intersect [simp]:
  "finite_range r \<Longrightarrow> finite_range s \<Longrightarrow> finite_range (intersectRanges r s)"
  by (elim finite_rangeE) simp_all

text \<open>As long as two ranges meet, the code computes their intersection.\<close>

lemma fle_Fin_NaN [simp]: "\<not> fle (Fin a) NaN" "\<not> fle NaN x"
  by (cases x; simp)+

lemma intersect_exact:
  assumes "finite_range r" and "finite_range s" and "in_range (Fin v) r" and "in_range (Fin v) s"
  shows "in_range x (intersectRanges r s) \<longleftrightarrow> in_range x r \<and> in_range x s"
  using assms by (cases x; elim finite_rangeE) (auto simp: max_def min_def)

lemma clamped_in_range:
  assumes "finite_range (pe_Range e)" and "in_range (Fin v) (pe_Range e)" and "finite64 (nv_Value (pe_Native e))"
  shows "in_range (clamped_value e) (pe_Range e)"
  using assms by (elim finite_rangeE finite64E) (auto simp: clamped_value_def Let_def)

section \<open>What a merged point is\<close>

lemma map_of_update: "map_of (AList.update k v xs) = (map_of xs)(k \<mapsto> v)"
  by (rule AList.update_conv')

lemma index_points_code: "map_of (index_points ps) c = Some e \<Longrightarrow> pe_ApsCode e = c \<and> e \<in> set ps"
  unfolding index_points_def
  by (induction ps rule: rev_induct) (auto simp: map_of_update split: if_splits)

lemma fold_update_overlay:
  "map_of (fold (\<lambda>p m. AList.update (pe_ApsCode p) (g p) m) ps m) c =
     (case map_of (fold (\<lambda>p m. AList.update (pe_ApsCode p) p m) ps []) c of
        Some q \<Rightarrow> Some (g q) | None \<Rightarrow> map_of m c)"
proof (induction ps rule: rev_induct)
  case (snoc p ps)
  then show ?case by (simp add: map_of_update split: option.split)
qed simp

text \<open>An overlay point replaces the base point of its code, with its range cut down; other codes keep theirs.\<close>

lemma map_of_merge:
  "map_of (merge_overlay bp ops) c =
     (case map_of (index_points ops) c of
        Some q \<Rightarrow> Some (q\<lparr>pe_Range := overlay_range bp q\<rparr>)
      | None \<Rightarrow> map_of bp c)"
  unfolding merge_overlay_def index_points_def by (rule fold_update_overlay)

lemma distinct_merge: "distinct (map fst bp) \<Longrightarrow> distinct (map fst (merge_overlay bp ops))"
  unfolding merge_overlay_def
  by (induction ops arbitrary: bp rule: rev_induct) (simp_all add: distinct_update)

lemma distinct_index: "distinct (map fst (index_points ps))"
  unfolding index_points_def by (induction ps rule: rev_induct) (simp_all add: distinct_update)


section \<open>Reading the result back\<close>

definition order_ok :: "config \<Rightarrow> bool" where
  "order_ok cf \<longleftrightarrow> (\<forall>xs. mset (cf_order cf xs) = mset xs)"

definition overlay_points :: "store \<Rightarrow> string \<Rightarrow> PointEntry list" where
  "overlay_points st uid = (case map_of (st_overlays st) uid of None \<Rightarrow> [] | Some ov \<Rightarrow> ov_Points ov)"

lemma buildDesired_SomeE:
  assumes "buildDesired cf fl st uid m = Inr (Some ef)"
  obtains b base where "st_active st = Some b" and "map_of (st_profiles st) b = Some base"
    and "CheckConflicts (effVals (merge_overlay (index_points (pf_Points base)) (overlay_points st uid))) = []"
    and "ef = \<lparr>ef_InverterUID = uid, ef_ModelCode = m, ef_Points = List.map_filter (effective_point (cf_conv cf) m)
           (cf_order cf (merge_overlay (index_points (pf_Points base)) (overlay_points st uid)))\<rparr>"
  using assms
  by (auto simp: buildDesired_def ActiveBase_def GetProfile_def GetOverlay_def overlay_points_def
      conflictError_def Let_def split: sum.splits option.splits if_splits)

lemma set_order: "order_ok cf \<Longrightarrow> set (cf_order cf xs) = set xs"
  by (metis order_ok_def mset_eq_setD)

lemma effective_point_Some:
  "effective_point cv m (c, e) = Some ep \<longleftrightarrow>
     Writeable cv m c \<and> ep = \<lparr>ep_ApsCode = c, ep_NativeValue = clamped_value e,
       ep_Unit = nv_Unit (pe_Native e), ep_Range = pe_Range e, ep_SF = pe_SF e\<rparr>"
  by (auto simp: effective_point_def effectivePointValue_def)

text \<open>Where a desired point comes from: the merged map, its code, and the clamped value.\<close>

lemma desired_pointE:
  assumes "buildDesired cf fl st uid m = Inr (Some ef)" and "order_ok cf" and "ep \<in> set (ef_Points ef)"
  obtains b base e where "st_active st = Some b" and "map_of (st_profiles st) b = Some base"
    and "map_of (merge_overlay (index_points (pf_Points base)) (overlay_points st uid)) (ep_ApsCode ep) = Some e"
    and "Writeable (cf_conv cf) m (ep_ApsCode ep)" and "ep_NativeValue ep = clamped_value e"
    and "ep_Range ep = pe_Range e"
proof -
  obtain b base where B: "st_active st = Some b" "map_of (st_profiles st) b = Some base"
    "ef = \<lparr>ef_InverterUID = uid, ef_ModelCode = m, ef_Points = List.map_filter (effective_point (cf_conv cf) m)
       (cf_order cf (merge_overlay (index_points (pf_Points base)) (overlay_points st uid)))\<rparr>"
    using assms(1) by (rule buildDesired_SomeE)
  obtain c e where "(c, e) \<in> set (merge_overlay (index_points (pf_Points base)) (overlay_points st uid))"
    "effective_point (cf_conv cf) m (c, e) = Some ep"
    using assms(3) set_order [OF assms(2)] unfolding B(3) by (auto simp: map_filter_def)
  moreover from this(1) have "map_of (merge_overlay (index_points (pf_Points base)) (overlay_points st uid)) c = Some e"
    using distinct_merge [OF distinct_index] by (simp add: map_of_is_SomeI)
  ultimately show thesis using that [OF B(1,2)] by (auto simp: effective_point_Some)
qed

lemma point_finite_range: "point_finite p \<Longrightarrow> finite_range (pe_Range p)"
  by (auto simp: point_finite_def finite_range_def split: option.splits)

lemma stored_base:
  assumes "store_ok ps os st" and "map_of (st_profiles st) b = Some base"
    and "map_of (index_points (pf_Points base)) c = Some p"
  shows "pe_ApsCode p = c" and "point_finite p"
    and "pe_Range p = Some (mk_range b1 b2) \<Longrightarrow> b1 \<le> b2"
proof -
  have p: "pe_ApsCode p = c" "p \<in> set (pf_Points base)" using index_points_code [OF assms(3)] by simp_all
  have "profile_ok ps (b, base)"
    using assms(1) map_of_SomeD [OF assms(2)] by (auto simp: store_ok_def list_all_iff)
  then have ok: "profile_finite base" "ranges_ok (pf_Points base)" by (simp_all add: profile_ok_def)
  show "pe_ApsCode p = c" by (rule p(1))
  show "point_finite p" using ok(1) p(2) by (simp add: profile_finite_def list_all_iff)
  show "pe_Range p = Some (mk_range b1 b2) \<Longrightarrow> b1 \<le> b2" using ok(2) p(2) by (force simp: ranges_ok_def)
qed

lemma stored_overlay:
  assumes "store_ok ps os st" and "map_of (st_overlays st) uid = Some ov"
    and "map_of (index_points (ov_Points ov)) c = Some q"
  shows "pe_ApsCode q = c" and "point_finite q"
proof -
  have q: "pe_ApsCode q = c" "q \<in> set (ov_Points ov)" using index_points_code [OF assms(3)] by simp_all
  have "overlay_ok os (uid, ov)"
    using assms(1) map_of_SomeD [OF assms(2)] by (auto simp: store_ok_def list_all_iff)
  then have "overlay_finite ov" by (simp add: overlay_ok_def)
  then show "point_finite q" using q(2) by (simp add: overlay_finite_def list_all_iff)
  show "pe_ApsCode q = c" by (rule q(1))
qed

text \<open>The value of a point that both documents define: clamped to the triple intersection.\<close>

lemma desired_both:
  assumes "store_ok ps os st" and "order_ok cf" and "buildDesired cf fl st uid m = Inr (Some ef)"
    and "ep \<in> set (ef_Points ef)"
    and "st_active st = Some b" and "map_of (st_profiles st) b = Some base"
    and "map_of (index_points (pf_Points base)) (ep_ApsCode ep) = Some p"
    and "map_of (st_overlays st) uid = Some ov"
    and "map_of (index_points (ov_Points ov)) (ep_ApsCode ep) = Some q"
  shows "ep_NativeValue ep = clamped_value (q\<lparr>pe_Range :=
      intersectRanges (intersectRanges (defaultRange (ep_ApsCode ep)) (pe_Range p)) (pe_Range q)\<rparr>)"
proof -
  obtain b' base' e where e: "st_active st = Some b'" "map_of (st_profiles st) b' = Some base'"
    "map_of (merge_overlay (index_points (pf_Points base')) (overlay_points st uid)) (ep_ApsCode ep) = Some e"
    "ep_NativeValue ep = clamped_value e"
    using assms(3,2,4) by (rule desired_pointE)
  have same: "base' = base" using e(1,2) assms(5,6) by simp
  have "e = q\<lparr>pe_Range := overlay_range (index_points (pf_Points base)) q\<rparr>"
    using e(3) assms(8,9) by (simp add: same map_of_merge overlay_points_def)
  then show ?thesis
    using e(4) assms(7) stored_overlay(1) [OF assms(1,8,9)] by (simp add: overlay_range_def Let_def)
qed

text \<open>
  C18: a desired value of a code that both the active base profile and the overlay of the inverter
  define lies in the physical envelope of the code, in the range of the base profile and in the
  range of the overlay, whenever the three have a value in common.
\<close>

theorem desired_in_ranges:
  assumes "store_ok ps os st" and "order_ok cf" and "buildDesired cf fl st uid m = Inr (Some ef)"
    and "ep \<in> set (ef_Points ef)"
    and "st_active st = Some b" and "map_of (st_profiles st) b = Some base"
    and "map_of (index_points (pf_Points base)) (ep_ApsCode ep) = Some p"
    and "map_of (st_overlays st) uid = Some ov"
    and "map_of (index_points (ov_Points ov)) (ep_ApsCode ep) = Some q"
    and "in_range (Fin v) (defaultRange (ep_ApsCode ep))" and "in_range (Fin v) (pe_Range p)"
    and "in_range (Fin v) (pe_Range q)"
  shows "in_range (ep_NativeValue ep) (defaultRange (ep_ApsCode ep))
    \<and> in_range (ep_NativeValue ep) (pe_Range p) \<and> in_range (ep_NativeValue ep) (pe_Range q)"
proof -
  let ?d = "defaultRange (ep_ApsCode ep)"
  note p = point_finite_range [OF stored_base(2) [OF assms(1,6,7)]]
  note q = stored_overlay(2) [OF assms(1,8,9)]
  note qr = point_finite_range [OF q]
  let ?r = "intersectRanges (intersectRanges ?d (pe_Range p)) (pe_Range q)"
  have dp: "in_range x (intersectRanges ?d (pe_Range p)) \<longleftrightarrow> in_range x ?d \<and> in_range x (pe_Range p)" for x
    by (rule intersect_exact [OF _ p assms(10,11)]) simp
  have all: "in_range x ?r \<longleftrightarrow> in_range x ?d \<and> in_range x (pe_Range p) \<and> in_range x (pe_Range q)" for x
    using intersect_exact [OF _ qr _ assms(12), of "intersectRanges ?d (pe_Range p)" x] p dp assms(10,11) by simp
  have "finite64 (nv_Value (pe_Native q))" using q by (simp add: point_finite_def)
  then have "in_range (ep_NativeValue ep) ?r"
    unfolding desired_both [OF assms(1-9)]
    using clamped_in_range [of "q\<lparr>pe_Range := ?r\<rparr>" v] p qr all [of "Fin v"] assms(10-12) by simp
  then show ?thesis by (simp only: all)
qed


text \<open>
  C17: the desired state of an inverter never violates a conflict rule: of two desired points that a
  rule orders, the left is strictly below the right.
\<close>

theorem desired_no_conflict:
  assumes "buildDesired cf fl st uid m = Inr (Some ef)" and "order_ok cf"
    and "r \<in> set conflictRules" and "l \<in> set (ef_Points ef)" and "h \<in> set (ef_Points ef)"
    and "ep_ApsCode l = cr_Left r" and "ep_ApsCode h = cr_Right r"
  shows "flt (ep_NativeValue l) (ep_NativeValue h)"
proof -
  obtain b base where B: "st_active st = Some b" "map_of (st_profiles st) b = Some base"
    "CheckConflicts (effVals (merge_overlay (index_points (pf_Points base)) (overlay_points st uid))) = []"
    using assms(1) by (rule buildDesired_SomeE)
  have eff: "effVals (merge_overlay (index_points (pf_Points base)) (overlay_points st uid)) (ep_ApsCode ep)
      = Some (ep_NativeValue ep)" if ep: "ep \<in> set (ef_Points ef)" for ep
  proof -
    obtain b' base' e where "st_active st = Some b'" "map_of (st_profiles st) b' = Some base'"
      "map_of (merge_overlay (index_points (pf_Points base')) (overlay_points st uid)) (ep_ApsCode ep) = Some e"
      "ep_NativeValue ep = clamped_value e"
      using assms(1,2) ep by (rule desired_pointE)
    then show ?thesis using B(1,2) by (simp add: effVals_def)
  qed
  have "\<not> violated (effVals (merge_overlay (index_points (pf_Points base)) (overlay_points st uid))) r"
    using B(3) assms(3) by (simp add: CheckConflicts_def filter_empty_conv)
  then show ?thesis
    using eff [OF assms(4)] eff [OF assms(5)] by (simp add: violated_def assms(6,7))
qed

text \<open>
  The order in which Go iterates over the merged map only permutes the desired points: two
  orders give the same error, the same absence of a desired state, or the same points.
\<close>

theorem desired_order_irrelevant:
  assumes "order_ok cf" and "order_ok cf'" and "cf_conv cf = cf_conv cf'" and "cf_schema cf = cf_schema cf'"
  shows "case (buildDesired cf fl st uid m, buildDesired cf' fl st uid m) of
      (Inl e, Inl e') \<Rightarrow> e = e'
    | (Inr None, Inr None) \<Rightarrow> True
    | (Inr (Some ef), Inr (Some ef')) \<Rightarrow>
        ef_InverterUID ef = ef_InverterUID ef' \<and> ef_ModelCode ef = ef_ModelCode ef'
        \<and> mset (ef_Points ef) = mset (ef_Points ef')
    | _ \<Rightarrow> False"
proof -
  have "mset (List.map_filter f (cf_order cf xs)) = mset (List.map_filter f (cf_order cf' xs))" for f :: "_ \<Rightarrow> EffectivePoint option" and xs
    using assms(1,2) unfolding order_ok_def map_filter_def by (simp add: mset_filter)
  then show ?thesis
    using assms(3,4)
    by (auto simp: buildDesired_def Let_def split: sum.splits option.splits)
qed

section \<open>A concrete store\<close>

definition ex_pt :: "string \<Rightarrow> rat \<Rightarrow> rat \<Rightarrow> rat \<Rightarrow> PointEntry" where
  "ex_pt c v lo hi = PointEntry.make 134 ''CrvSet'' 0 ''Hz3'' (Some ''Hz_SF'') (-2)
     (NativeValue.make (Fin v) ''Hz'') None (Some (mk_range lo hi)) c"

definition ex_base :: Profile where
  "ex_base = Profile.make ''invdriver.gridprofile/v1'' ''B'' (Fin 230) (Source.make ''EMA'' ''1'' '''' '''' '''')
     [ex_pt ''CB'' 51 50 52, ex_pt ''CC'' 54 53 55]"

definition ex_ov :: "rat \<Rightarrow> rat \<Rightarrow> rat \<Rightarrow> Overlay" where
  "ex_ov v lo hi = Overlay.make ''invdriver.gridprofile/v1'' ''O'' (Fin 0) [''U''] [ex_pt ''CB'' v lo hi]"

definition ex_store :: "Overlay \<Rightarrow> store" where
  "ex_store ov = \<lparr>st_profiles = [(''B'', ex_base)], st_active = Some ''B'',
     st_overlays = [(''U'', ov)], st_inverters = [(''U'', Some 32)]\<rparr>"

definition ex_cf :: config where
  "ex_cf = \<lparr>cf_conv = (\<lambda>_ _. 0), cf_schema = (\<lambda>_. True), cf_order = (\<lambda>xs. xs)\<rparr>"

definition ex_ep :: "string \<Rightarrow> rat \<Rightarrow> rat \<Rightarrow> rat \<Rightarrow> EffectivePoint" where
  "ex_ep c v lo hi = \<lparr>ep_ApsCode = c, ep_NativeValue = Fin v, ep_Unit = ''Hz'',
     ep_Range = Some (mk_range lo hi), ep_SF = - 2\<rparr>"

lemma ex_store_ok: "store_ok (\<lambda>_. True) (\<lambda>_. True) (ex_store (ex_ov v lo hi)) \<longleftrightarrow> lo \<le> hi"
  by (auto simp: store_ok_def ex_store_def profile_ok_def overlay_ok_def ex_base_def ex_ov_def ex_pt_def
      profile_finite_def overlay_finite_def point_finite_def finite64_def ranges_ok_def
      Profile.defs PointEntry.defs Overlay.defs NativeValue.defs)

lemma ex_writeable: "Writeable (\<lambda>_ _. 0) ModelDS3 ''CB''" "Writeable (\<lambda>_ _. 0) ModelDS3 ''CC''"
  by code_simp+

lemma ex_order [simp]: "order_ok ex_cf"
  by (simp add: order_ok_def ex_cf_def)

lemma ex_desired:
  "buildDesired ex_cf (\<lambda>_. False) (ex_store (ex_ov 53 49 54)) ''U'' ModelDS3 =
     Inr (Some \<lparr>ef_InverterUID = ''U'', ef_ModelCode = ModelDS3,
       ef_Points = [ex_ep ''CB'' 52 50 52, ex_ep ''CC'' 54 53 55]\<rparr>)"
  "buildDesired ex_cf (\<lambda>_. False) (ex_store (ex_ov 53 53 54)) ''U'' ModelDS3 =
     Inr (Some \<lparr>ef_InverterUID = ''U'', ef_ModelCode = ModelDS3,
       ef_Points = [ex_ep ''CB'' 53 53 53, ex_ep ''CC'' 54 53 55]\<rparr>)"
  by code_simp+

lemma ex_lookups:
  "st_active (ex_store ov) = Some ''B''" "map_of (st_profiles (ex_store ov)) ''B'' = Some ex_base"
  "map_of (st_overlays (ex_store ov)) ''U'' = Some ov"
  "map_of (index_points (pf_Points ex_base)) ''CB'' = Some (ex_pt ''CB'' 51 50 52)"
  "map_of (index_points (ov_Points (ex_ov v lo hi))) ''CB'' = Some (ex_pt ''CB'' v lo hi)"
  by (simp_all add: ex_store_def ex_base_def ex_ov_def ex_pt_def index_points_def Profile.defs Overlay.defs
      PointEntry.defs)

lemma ex_ranges:
  "defaultRange ''CB'' = Some (mk_range 40 70)" "pe_Range (ex_pt c v lo hi) = Some (mk_range lo hi)"
  "ep_ApsCode (ex_ep c v lo hi) = c" "ep_NativeValue (ex_ep c v lo hi) = Fin v"
  by (simp_all add: ex_pt_def ex_ep_def PointEntry.defs defaultRange_def forwardMap_def mapEntry.defs)

lemma fleet_each_once_witness:
  "distinct [''U'', ''V''] \<and> set [''U'', ''V''] = {''U'', ''V''} - {''''}"
proof -
  have "FleetUIDs (\<lambda>_. False) (ex_store (ex_ov 53 49 54)) (Some [''V'', '''', ''U'']) = Inr [''U'', ''V'']"
    by (simp add: FleetUIDs_def ex_store_def add_uid_def)
  from fleet_each_once [OF this] show ?thesis by (simp add: ex_store_def insert_commute)
qed

lemma desired_in_ranges_witness:
  "in_range (Fin 52) (defaultRange ''CB'') \<and> in_range (Fin 52) (Some (mk_range 50 52))
    \<and> in_range (Fin 52) (Some (mk_range 49 54))"
  using desired_in_ranges [of "\<lambda>_. True" "\<lambda>_. True" "ex_store (ex_ov 53 49 54)" ex_cf "\<lambda>_. False" "''U''" ModelDS3,
      OF _ _ ex_desired(1), where ep = "ex_ep ''CB'' 52 50 52" and v = 51]
  by (simp add: ex_store_ok ex_lookups ex_ranges)


lemma desired_no_conflict_witness:
  "flt (ep_NativeValue (ex_ep ''CB'' 52 50 52)) (ep_NativeValue (ex_ep ''CC'' 54 53 55))"
  using desired_no_conflict [OF ex_desired(1), where r = "conflictRules ! 1"]
  by (simp add: conflictRules_def ConflictRule.defs ex_ranges)

lemma desired_order_irrelevant_witness:
  "case (buildDesired ex_cf (\<lambda>_. False) (ex_store (ex_ov 53 49 54)) ''U'' ModelDS3,
      buildDesired (ex_cf\<lparr>cf_order := rev\<rparr>) (\<lambda>_. False) (ex_store (ex_ov 53 49 54)) ''U'' ModelDS3) of
      (Inl e, Inl e') \<Rightarrow> e = e'
    | (Inr None, Inr None) \<Rightarrow> True
    | (Inr (Some ef), Inr (Some ef')) \<Rightarrow>
        ef_InverterUID ef = ef_InverterUID ef' \<and> ef_ModelCode ef = ef_ModelCode ef'
        \<and> mset (ef_Points ef) = mset (ef_Points ef')
    | _ \<Rightarrow> False"
  by (rule desired_order_irrelevant) (simp_all add: ex_cf_def order_ok_def)

end
