(* ===== verification/GridReconcile.thy ===== *)
theory GridReconcile
  imports GridDesired
begin

text \<open>
  The reconciler of \<open>internal/gridprofile\<close>: \<open>ReconcileUID\<close>, \<open>ReconcileAll\<close> and
  \<open>IdentifyProfile\<close> of \<open>reconcile.go\<close> and \<open>VerifyStartup\<close> of \<open>verify.go\<close>.  A run appends to one log
  of effects; what the environment answers (whether a send succeeds, what the read-back cache
  holds, whether the context was cancelled during a wait) is a function of the log so far, so a
  theorem about all such functions is one about all behaviours of the radio, the cache and the
  caller.  The theorems: nothing is sent but the frames of drifted points, a point reported applied
  was read back inside its tolerance after its frames, an inverter in sync is left alone, and
  against an inverter that keeps what it is sent one pass is enough.
\<close>

section \<open>Effects, results and the environment\<close>

datatype result =
    RUnknown | RNoReadback | RInSync | RDrift | REncodeError gp_error | RSendError | RCancelled
  | RApplied | RUnconfirmed | RUnconfirmedOf nat nat
  | RUnsupported "prot_error option" | RUnsupportedBroadcast | RBroadcastError

record PointResult =
  pr_ApsCode :: string
  pr_Intended :: f64
  pr_Readback :: f64
  pr_Result :: result

datatype gp_effect =
    Sent string bytes bool
  | Broadcasted bytes bool
  | Waited bool
  | Triggered string
  | Polled string
  | Logged string string f64 f64 result

type_synonym log = "gp_effect list"

record gp_env =
  e_send :: "log \<Rightarrow> string \<Rightarrow> bytes \<Rightarrow> bool"
  e_broadcast :: "log \<Rightarrow> bytes \<Rightarrow> bool"
  e_readback :: "log \<Rightarrow> string \<Rightarrow> (string \<times> f64) list option"
  e_cancelled :: "log \<Rightarrow> bool"
  e_modelOf :: "log \<Rightarrow> string \<Rightarrow> byte option"

record Options =
  op_AutoReassert :: bool
  op_PeriodicSweep :: int
  op_ReadSettle :: int

definition defaultOptions :: Options where
  "defaultOptions = \<lparr>op_AutoReassert = True, op_PeriodicSweep = 0, op_ReadSettle = 4000000000\<rparr>"

definition NewReconciler_options :: "Options \<Rightarrow> Options" where
  "NewReconciler_options opts =
     (if opts = \<lparr>op_AutoReassert = False, op_PeriodicSweep = 0, op_ReadSettle = 0\<rparr>
      then defaultOptions else opts)"

definition qs1aPageACodes :: "string list" where
  "qs1aPageACodes = []"

definition isQS1APageACode :: "string \<Rightarrow> bool" where
  "isQS1APageACode code \<longleftrightarrow> code \<in> set qs1aPageACodes"

section \<open>One point\<close>

fun send_frames :: "gp_env \<Rightarrow> string \<Rightarrow> bytes list \<Rightarrow> log \<Rightarrow> bool \<times> log" where
  "send_frames w uid [] l = (True, l)"
| "send_frames w uid (f # fs) l =
     (if e_send w l uid f then send_frames w uid fs (l @ [Sent uid f True])
      else (False, l @ [Sent uid f False]))"

text \<open>A wait of \<open>ReadSettle\<close> or until the context is done.\<close>

definition settle :: "gp_env \<Rightarrow> log \<Rightarrow> bool \<times> log" where
  "settle w l = (let c = e_cancelled w l in (c, l @ [Waited c]))"

definition point_result :: "EffectivePoint \<Rightarrow> f64 \<Rightarrow> result \<Rightarrow> PointResult" where
  "point_result ep rbv r =
     \<lparr>pr_ApsCode = ep_ApsCode ep, pr_Intended = ep_NativeValue ep, pr_Readback = rbv, pr_Result = r\<rparr>"

definition log_point :: "string \<Rightarrow> EffectivePoint \<Rightarrow> f64 \<Rightarrow> result \<Rightarrow> gp_effect" where
  "log_point uid ep rbv r = Logged uid (ep_ApsCode ep) (ep_NativeValue ep) rbv r"

text \<open>The read confirmation: the value to report and the result.\<close>

definition confirm_read :: "gp_env \<Rightarrow> string \<Rightarrow> EffectivePoint \<Rightarrow> f64 \<Rightarrow> log \<Rightarrow> f64 \<times> result" where
  "confirm_read w uid ep old l =
     (case e_readback w l uid of
        None \<Rightarrow> (old, RUnconfirmed)
      | Some vals \<Rightarrow>
          case map_of vals (ep_ApsCode ep) of
            None \<Rightarrow> (old, RUnconfirmed)
          | Some v \<Rightarrow>
              (v, if withinTolerance (ep_ApsCode ep) (ep_NativeValue ep) v then RApplied else RUnconfirmed))"

definition apply_frames ::
  "gp_env \<Rightarrow> string \<Rightarrow> EffectivePoint \<Rightarrow> f64 \<Rightarrow> bytes list \<Rightarrow> log \<Rightarrow> PointResult \<times> bool \<times> log" where
  "apply_frames w uid ep rbVal frames l =
     (let (ok, l1) = send_frames w uid frames l
      in if \<not> ok then (point_result ep rbVal RSendError, False, l1 @ [log_point uid ep rbVal RSendError])
      else let (c1, l2) = settle w l1
      in if c1 then (point_result ep rbVal RCancelled, True, l2)
      else let (c2, l3) = settle w (l2 @ [Triggered uid])
      in if c2 then (point_result ep rbVal RCancelled, True, l3)
      else let (v, r) = confirm_read w uid ep rbVal l3
      in (point_result ep v r, False, l3 @ [Polled uid, log_point uid ep v r]))"

definition reconcile_point ::
  "conv \<Rightarrow> bool \<Rightarrow> gp_env \<Rightarrow> string \<Rightarrow> byte \<Rightarrow> (string \<times> f64) list option \<Rightarrow> EffectivePoint \<Rightarrow> log \<Rightarrow>
     PointResult \<times> bool \<times> log" where
  "reconcile_point cv auto w uid m readback ep l =
     (let code = ep_ApsCode ep
      in if isQS1APageACode code \<and> isQS1Family m then (point_result ep (Fin 0) RUnknown, False, l)
      else case readback of
        None \<Rightarrow> (point_result ep (Fin 0) RNoReadback, False, l)
      | Some vals \<Rightarrow>
     (case map_of vals code of
        None \<Rightarrow> (point_result ep (Fin 0) RNoReadback, False, l)
      | Some rbVal \<Rightarrow>
          if withinTolerance code (ep_NativeValue ep) rbVal
            then (point_result ep rbVal RInSync, False, l @ [log_point uid ep rbVal RInSync])
          else if \<not> auto then (point_result ep rbVal RDrift, False, l)
          else case EncodeEffectivePoint cv m ep of
            Inl e \<Rightarrow> (point_result ep rbVal (REncodeError e), False, l @ [log_point uid ep rbVal (REncodeError e)])
          | Inr frames \<Rightarrow> apply_frames w uid ep rbVal frames l))"

fun reconcile_points ::
  "conv \<Rightarrow> bool \<Rightarrow> gp_env \<Rightarrow> string \<Rightarrow> byte \<Rightarrow> (string \<times> f64) list option \<Rightarrow> EffectivePoint list \<Rightarrow> log \<Rightarrow>
     PointResult list \<times> bool \<times> log" where
  "reconcile_points cv auto w uid m rb [] l = ([], False, l)"
| "reconcile_points cv auto w uid m rb (ep # eps) l =
     (let (pr, stop, l1) = reconcile_point cv auto w uid m rb ep l
      in if stop then ([pr], True, l1)
         else let (prs, stop', l2) = reconcile_points cv auto w uid m rb eps l1
              in (pr # prs, stop', l2))"

section \<open>One inverter, the fleet\<close>

record ReconcileReport =
  rp_UID :: string
  rp_Points :: "PointResult list"
  rp_Err :: "gp_error option"

definition ReconcileUID ::
  "config \<Rightarrow> Options \<Rightarrow> gp_env \<Rightarrow> fault \<Rightarrow> store \<Rightarrow> string \<Rightarrow> log \<Rightarrow> ReconcileReport \<times> gp_error option \<times> log" where
  "ReconcileUID cf opts w fl st uid l =
     (let rpt = \<lparr>rp_UID = uid, rp_Points = [], rp_Err = None\<rparr>
      in case e_modelOf w l uid of
        None \<Rightarrow> (rpt\<lparr>rp_Err := Some ModelUnknown\<rparr>, Some ModelUnknown, l)
      | Some m \<Rightarrow>
     (case buildDesired cf fl st uid m of
        Inl e \<Rightarrow> (rpt\<lparr>rp_Err := Some e\<rparr>, Some e, l)
      | Inr None \<Rightarrow> (rpt, None, l)
      | Inr (Some desired) \<Rightarrow>
          let (prs, stop, l') =
            reconcile_points (cf_conv cf) (op_AutoReassert opts) w uid m (e_readback w l uid)
              (ef_Points desired) (l @ [Polled uid])
          in (rpt\<lparr>rp_Points := prs\<rparr>, if stop then Some Canceled else None, l')))"

text \<open>\<open>done\<close> is what \<open>ctx.Err\<close> says after an inverter failed.\<close>

fun reconcile_each ::
  "config \<Rightarrow> Options \<Rightarrow> gp_env \<Rightarrow> (log \<Rightarrow> bool) \<Rightarrow> fault \<Rightarrow> store \<Rightarrow> string list \<Rightarrow> log \<Rightarrow>
     ReconcileReport list \<times> gp_error option \<times> log" where
  "reconcile_each cf opts w done fl st [] l = ([], None, l)"
| "reconcile_each cf opts w done fl st (uid # uids) l =
     (let (rpt, err, l1) = ReconcileUID cf opts w fl st uid l
      in if err \<noteq> None \<and> done l1 then ([], Some Canceled, l1)
         else let (rpts, e, l2) = reconcile_each cf opts w done fl st uids l1
              in (rpt # rpts, e, l2))"

definition ReconcileAll ::
  "config \<Rightarrow> Options \<Rightarrow> gp_env \<Rightarrow> (log \<Rightarrow> bool) \<Rightarrow> fault \<Rightarrow> store \<Rightarrow> string list option \<Rightarrow> log \<Rightarrow>
     ReconcileReport list \<times> gp_error option \<times> log" where
  "ReconcileAll cf opts w done fl st known l =
     (case FleetUIDs fl st known of
        Inl e \<Rightarrow> ([], Some e, l)
      | Inr uids \<Rightarrow> reconcile_each cf opts w done fl st uids l)"

section \<open>Identifying the running profile\<close>

text \<open>Whether a point counts for the score, and its read-back value.\<close>

definition scored :: "conv \<Rightarrow> byte \<Rightarrow> (string \<times> f64) list \<Rightarrow> PointEntry \<Rightarrow> f64 option" where
  "scored cv m reading entry =
     (let code = pe_ApsCode entry
      in if \<not> Writeable cv m code then None
         else if isQS1APageACode code \<and> isQS1Family m then None
         else map_of reading code)"

fun score_points :: "conv \<Rightarrow> byte \<Rightarrow> (string \<times> f64) list \<Rightarrow> PointEntry list \<Rightarrow> nat \<times> nat \<Rightarrow> nat \<times> nat" where
  "score_points cv m reading [] acc = acc"
| "score_points cv m reading (e # es) (matched, tot) =
     score_points cv m reading es
       (case scored cv m reading e of
          None \<Rightarrow> (matched, tot)
        | Some v \<Rightarrow>
            (if withinTolerance (pe_ApsCode e) (nv_Value (pe_Native e)) v then matched + 1 else matched, tot + 1))"

definition profile_score :: "conv \<Rightarrow> byte \<Rightarrow> (string \<times> f64) list \<Rightarrow> Profile \<Rightarrow> f64 option" where
  "profile_score cv m reading p =
     (let (matched, tot) = score_points cv m reading (pf_Points p) (0, 0)
      in if tot = 0 then None else Some (fdiv (f64_of_int (int matched)) (f64_of_int (int tot))))"

definition better :: "conv \<Rightarrow> byte \<Rightarrow> (string \<times> f64) list \<Rightarrow> Profile \<Rightarrow> string \<times> f64 \<Rightarrow> string \<times> f64" where
  "better cv m reading p best =
     (case profile_score cv m reading p of
        None \<Rightarrow> best
      | Some s \<Rightarrow> if flt (snd best) s then (pf_ID p, s) else best)"

definition IdentifyProfile :: "conv \<Rightarrow> fault \<Rightarrow> store \<Rightarrow> (string \<times> f64) list \<Rightarrow> byte \<Rightarrow> string \<times> f64" where
  "IdentifyProfile cv fl st reading m =
     (case ListProfiles fl st of
        Inl _ \<Rightarrow> ('''', Fin 0)
      | Inr profiles \<Rightarrow>
          if profiles = [] \<or> reading = [] then ('''', Fin 0)
          else let best = fold (better cv m reading) profiles ('''', Fin (- 1))
               in if flt (snd best) (Fin 0) then ('''', Fin 0) else best)"

section \<open>The startup check\<close>

record VerifyReport =
  vr_UID :: string
  vr_IdentifiedID :: string
  vr_IdentifiedScore :: f64
  vr_HasDesiredState :: bool
  vr_Points :: "PointResult list"
  vr_ReconciledOnStartup :: bool
  vr_Err :: "gp_error option"

definition verify_point :: "byte \<Rightarrow> (string \<times> f64) list \<Rightarrow> EffectivePoint \<Rightarrow> PointResult" where
  "verify_point m reading ep =
     (if isQS1APageACode (ep_ApsCode ep) \<and> isQS1Family m then point_result ep (Fin 0) RUnknown
      else case map_of reading (ep_ApsCode ep) of
        None \<Rightarrow> point_result ep (Fin 0) RNoReadback
      | Some v \<Rightarrow>
          point_result ep v (if withinTolerance (ep_ApsCode ep) (ep_NativeValue ep) v then RInSync else RDrift))"

definition verify_fail :: "VerifyReport \<Rightarrow> gp_error \<Rightarrow> log \<Rightarrow> VerifyReport \<times> gp_error option \<times> log" where
  "verify_fail rpt e l = (rpt\<lparr>vr_Err := Some e\<rparr>, Some e, l)"

definition VerifyStartup ::
  "config \<Rightarrow> Options \<Rightarrow> gp_env \<Rightarrow> fault \<Rightarrow> store \<Rightarrow> string \<Rightarrow> byte \<Rightarrow> log \<Rightarrow>
     VerifyReport \<times> gp_error option \<times> log" where
  "VerifyStartup cf opts w fl st uid m l =
     (let l1 = l @ [Triggered uid];
          rb = e_readback w l1 uid;
          l2 = l1 @ [Polled uid];
          reading = (case rb of None \<Rightarrow> [] | Some vals \<Rightarrow> vals);
          (ident, score) = IdentifyProfile (cf_conv cf) fl st reading m;
          rpt = \<lparr>vr_UID = uid, vr_IdentifiedID = ident, vr_IdentifiedScore = score,
             vr_HasDesiredState = False, vr_Points = [], vr_ReconciledOnStartup = False, vr_Err = None\<rparr>
      in case ActiveBase fl st of
        Inl e \<Rightarrow> if e = ErrNoRows then (rpt, None, l2) else verify_fail rpt e l2
      | Inr _ \<Rightarrow>
     (let rpt = rpt\<lparr>vr_HasDesiredState := True\<rparr>
      in if rb = None then verify_fail rpt NoReadbackYet l2
      else case buildDesired cf fl st uid m of
        Inl e \<Rightarrow> verify_fail rpt e l2
      | Inr None \<Rightarrow> (rpt\<lparr>vr_HasDesiredState := False\<rparr>, None, l2)
      | Inr (Some desired) \<Rightarrow>
          let prs = map (verify_point m reading) (ef_Points desired);
              rpt = rpt\<lparr>vr_Points := prs\<rparr>
          in if (\<exists>pr \<in> set prs. pr_Result pr = RDrift) \<and> op_AutoReassert opts
             then let (rr, err, l3) = ReconcileUID cf opts w fl st uid l2
                  in if err = None then (rpt\<lparr>vr_Points := rp_Points rr, vr_ReconciledOnStartup := True\<rparr>, None, l3)
                     else (rpt, None, l3)
             else (rpt, None, l2)))"

section \<open>What a pass appends to the log\<close>

text \<open>Every step appends; the appended part is what a property of the effects is about.\<close>

lemma send_frames_log:
  assumes "send_frames w uid fs l = (ok, l')"
  obtains sent where "l' = l @ sent" and "set sent \<subseteq> {Sent uid f b | f b. f \<in> set fs}"
    and "ok \<Longrightarrow> sent = map (\<lambda>f. Sent uid f True) fs"
  using assms
proof (induction fs arbitrary: l thesis)
  case (Cons f fs)
  show ?case
  proof (cases "e_send w l uid f")
    case True
    then have "send_frames w uid fs (l @ [Sent uid f True]) = (ok, l')" using Cons.prems(2) by simp
    then obtain sent where "l' = (l @ [Sent uid f True]) @ sent"
      "set sent \<subseteq> {Sent uid f b | f b. f \<in> set fs}"
      "ok \<Longrightarrow> sent = map (\<lambda>f. Sent uid f True) fs"
      by (rule Cons.IH [rotated]) blast
    then show thesis by (intro Cons.prems(1) [of "Sent uid f True # sent"]) auto
  next
    case False
    then show thesis using Cons.prems by (intro Cons.prems(1) [of "[Sent uid f False]"]) auto
  qed
qed simp

lemma send_frames_all: "send_frames w uid fs l = (True, l') \<Longrightarrow> l' = l @ map (\<lambda>f. Sent uid f True) fs"
  by (induction fs arbitrary: l) (fastforce split: if_splits)+

definition sends :: "log \<Rightarrow> (string \<times> bytes) set" where
  "sends l = {(u, f). \<exists>b. Sent u f b \<in> set l}"

lemma sends_append [simp]: "sends (l @ k) = sends l \<union> sends k"
  by (auto simp: sends_def)

lemma sends_none [simp]:
  "sends [] = {}" "sends (Waited k # l) = sends l" "sends (Triggered u # l) = sends l"
  "sends (Polled u # l) = sends l" "sends (Logged u c a b r # l) = sends l"
  "sends (log_point u ep v r # l) = sends l"
  by (auto simp: sends_def log_point_def)

lemma send_frames_sends:
  "send_frames w uid fs l = (ok, l') \<Longrightarrow> sends l' \<subseteq> sends l \<union> {uid} \<times> set fs"
  by (erule send_frames_log) (auto simp: sends_def)

lemma apply_frames_sends:
  "apply_frames w uid ep v fs l = (pr, stop, l') \<Longrightarrow> sends l' \<subseteq> sends l \<union> {uid} \<times> set fs"
  by (auto simp: apply_frames_def settle_def Let_def split: prod.splits if_splits dest!: send_frames_sends)

text \<open>A point that has drifted: readable, outside its tolerance, and to be written.\<close>

definition drifted :: "conv \<Rightarrow> byte \<Rightarrow> (string \<times> f64) list option \<Rightarrow> EffectivePoint \<Rightarrow> bytes list \<Rightarrow> bool" where
  "drifted cv m readback ep fs \<longleftrightarrow>
     (\<exists>vals v. readback = Some vals \<and> map_of vals (ep_ApsCode ep) = Some v
        \<and> \<not> withinTolerance (ep_ApsCode ep) (ep_NativeValue ep) v
        \<and> EncodeEffectivePoint cv m ep = Inr fs)"

lemma reconcile_point_sends:
  assumes "reconcile_point cv auto w uid m rb ep l = (pr, stop, l')"
  shows "sends l' \<subseteq> sends l \<union> {(u, f). u = uid \<and> auto \<and> (\<exists>fs. drifted cv m rb ep fs \<and> f \<in> set fs)}"
  using assms
  by (auto simp: reconcile_point_def Let_def drifted_def split: option.splits if_splits sum.splits
      dest!: apply_frames_sends)

lemma reconcile_points_sends:
  "reconcile_points cv auto w uid m rb eps l = (prs, stop, l') \<Longrightarrow>
     sends l' \<subseteq> sends l \<union> {(u, f). u = uid \<and> auto \<and> (\<exists>ep \<in> set eps. \<exists>fs. drifted cv m rb ep fs \<and> f \<in> set fs)}"
proof (induction eps arbitrary: l prs stop l')
  case (Cons ep eps)
  obtain pr b l1 where 1: "reconcile_point cv auto w uid m rb ep l = (pr, b, l1)" by (metis prod_cases3)
  show ?case
  proof (cases b)
    case True
    then show ?thesis using Cons.prems 1 reconcile_point_sends [OF 1] by auto
  next
    case False
    obtain prs' b' l2 where 2: "reconcile_points cv auto w uid m rb eps l1 = (prs', b', l2)"
      by (metis prod_cases3)
    then have "l' = l2" using Cons.prems 1 False by simp
    then show ?thesis using Cons.IH [OF 2] reconcile_point_sends [OF 1] by auto
  qed
qed auto

lemma encode_point_frames:
  assumes "EncodeEffectivePoint cv m ep = Inr fs" and "f \<in> set fs"
  shows "\<exists>p v. LongName (ep_ApsCode ep) = Some p \<and> Writeable cv m (ep_ApsCode ep)
    \<and> EncodeSetProtection cv m p v = Inr fs"
  using assms by (auto simp: EncodeEffectivePoint_def Writeable_def split: option.splits sum.splits if_splits)

text \<open>
  C16: all that a reconcile pass sends goes to the inverter it was called for, and every frame is one
  of the frames of a desired point that was readable and outside its tolerance when the pass
  began, written with automatic re-assertion on; a frame is always one the codec made for the
  parameter of that point's code.
\<close>

theorem reconcile_sends_only_drift:
  assumes "ReconcileUID cf opts w fl st uid l = (rpt, err, l')" and "(u, f) \<in> sends l'" and "(u, f) \<notin> sends l"
  shows "u = uid \<and> op_AutoReassert opts \<and>
    (\<exists>m ef ep vals v p x fs. e_modelOf w l uid = Some m \<and> buildDesired cf fl st uid m = Inr (Some ef)
       \<and> ep \<in> set (ef_Points ef) \<and> e_readback w l uid = Some vals
       \<and> map_of vals (ep_ApsCode ep) = Some v
       \<and> \<not> withinTolerance (ep_ApsCode ep) (ep_NativeValue ep) v
       \<and> LongName (ep_ApsCode ep) = Some p \<and> EncodeSetProtection (cf_conv cf) m p x = Inr fs \<and> f \<in> set fs)"
proof -
  obtain m ef prs stop where r: "e_modelOf w l uid = Some m" "buildDesired cf fl st uid m = Inr (Some ef)"
    "reconcile_points (cf_conv cf) (op_AutoReassert opts) w uid m (e_readback w l uid) (ef_Points ef)
       (l @ [Polled uid]) = (prs, stop, l')"
    using assms by (auto simp: ReconcileUID_def Let_def split: option.splits sum.splits prod.splits)
  from reconcile_points_sends [OF r(3)] assms(2,3)
  obtain ep fs where d: "u = uid" "op_AutoReassert opts" "ep \<in> set (ef_Points ef)"
    "drifted (cf_conv cf) m (e_readback w l uid) ep fs" "f \<in> set fs" by auto
  then obtain vals v where v: "e_readback w l uid = Some vals" "map_of vals (ep_ApsCode ep) = Some v"
    "\<not> withinTolerance (ep_ApsCode ep) (ep_NativeValue ep) v" "EncodeEffectivePoint (cf_conv cf) m ep = Inr fs"
    by (auto simp: drifted_def)
  obtain p x where "LongName (ep_ApsCode ep) = Some p" "EncodeSetProtection (cf_conv cf) m p x = Inr fs"
    using encode_point_frames [OF v(4) d(5)] by blast
  then show ?thesis using r(1,2) d v(1-3) by blast
qed

section \<open>Applied means read back\<close>

definition write_trace :: "string \<Rightarrow> bytes list \<Rightarrow> log" where
  "write_trace uid fs = map (\<lambda>f. Sent uid f True) fs @ [Waited False, Triggered uid, Waited False]"

text \<open>The log holds the frames of the point, two full waits around a fresh read request, and a read.\<close>

definition confirmed_in :: "conv \<Rightarrow> gp_env \<Rightarrow> string \<Rightarrow> byte \<Rightarrow> EffectivePoint list \<Rightarrow> PointResult \<Rightarrow> log \<Rightarrow> bool" where
  "confirmed_in cv w uid m eps pr l \<longleftrightarrow>
     (\<exists>ep fs pre post vals. ep \<in> set eps \<and> pr_ApsCode pr = ep_ApsCode ep \<and> pr_Intended pr = ep_NativeValue ep
        \<and> EncodeEffectivePoint cv m ep = Inr fs
        \<and> l = pre @ write_trace uid fs @ Polled uid # post
        \<and> e_readback w (pre @ write_trace uid fs) uid = Some vals
        \<and> map_of vals (ep_ApsCode ep) = Some (pr_Readback pr)
        \<and> withinTolerance (ep_ApsCode ep) (ep_NativeValue ep) (pr_Readback pr))"

lemma confirmed_in_append: "confirmed_in cv w uid m eps pr l \<Longrightarrow> confirmed_in cv w uid m eps pr (l @ k)"
  unfolding confirmed_in_def by (metis append.assoc append_Cons)

lemma confirmed_in_more: "confirmed_in cv w uid m eps pr l \<Longrightarrow> set eps \<subseteq> set eps' \<Longrightarrow> confirmed_in cv w uid m eps' pr l"
  unfolding confirmed_in_def by blast

lemma apply_frames_applied:
  assumes "apply_frames w uid ep v fs l = (pr, stop, l')" and "pr_Result pr = RApplied"
    and "EncodeEffectivePoint cv m ep = Inr fs"
  shows "confirmed_in cv w uid m [ep] pr l'"
proof -
  obtain ok l1 where s: "send_frames w uid fs l = (ok, l1)" by (cases "send_frames w uid fs l")
  have ok: "ok" using assms(1,2) s by (auto simp: apply_frames_def point_result_def split: if_splits)
  then have sent: "l1 = l @ map (\<lambda>f. Sent uid f True) fs" using s send_frames_all by simp
  have c: "\<not> e_cancelled w l1" "\<not> e_cancelled w (l1 @ [Waited False, Triggered uid])"
    using assms(1,2) s ok
    by (auto simp: apply_frames_def settle_def point_result_def Let_def split: if_splits)
  let ?l3 = "l @ write_trace uid fs"
  have l3: "l1 @ [Waited False, Triggered uid, Waited False] = ?l3"
    by (simp add: sent write_trace_def)
  obtain v' r where cr: "confirm_read w uid ep v ?l3 = (v', r)" by (cases "confirm_read w uid ep v ?l3")
  then have pr: "pr = point_result ep v' r" "l' = ?l3 @ [Polled uid, log_point uid ep v' r]"
    using assms(1) s ok c by (auto simp: apply_frames_def settle_def Let_def l3 split: prod.splits)
  then have "r = RApplied" using assms(2) by (simp add: point_result_def)
  then obtain vals where "e_readback w ?l3 uid = Some vals" "map_of vals (ep_ApsCode ep) = Some v'"
    "withinTolerance (ep_ApsCode ep) (ep_NativeValue ep) v'"
    using cr by (auto simp: confirm_read_def split: option.splits if_splits)
  then show ?thesis
    unfolding confirmed_in_def pr using assms(3)
    by (intro exI [of _ ep] exI [of _ fs] exI [of _ l] exI [of _ "[log_point uid ep v' r]"] exI [of _ vals])
      (simp add: point_result_def)
qed

lemma apply_frames_append: "apply_frames w uid ep v fs l = (pr, stop, l') \<Longrightarrow> \<exists>k. l' = l @ k"
  by (auto simp: apply_frames_def settle_def Let_def split: prod.splits if_splits elim!: send_frames_log)

lemma reconcile_point_append: "reconcile_point cv auto w uid m rb ep l = (pr, stop, l') \<Longrightarrow> \<exists>k. l' = l @ k"
  by (auto simp: reconcile_point_def Let_def split: option.splits if_splits sum.splits dest!: apply_frames_append)

lemma reconcile_points_append:
  "reconcile_points cv auto w uid m rb eps l = (prs, stop, l') \<Longrightarrow> \<exists>k. l' = l @ k"
proof (induction eps arbitrary: l prs stop l')
  case (Cons ep eps)
  then show ?case
    by (auto simp: Let_def split: prod.splits if_splits dest!: reconcile_point_append Cons.IH)
qed simp

lemma reconcile_points_applied:
  "reconcile_points cv auto w uid m rb eps l = (prs, stop, l') \<Longrightarrow> pr \<in> set prs \<Longrightarrow>
     pr_Result pr = RApplied \<Longrightarrow> confirmed_in cv w uid m eps pr l'"
proof (induction eps arbitrary: l prs stop l')
  case (Cons ep eps)
  obtain pr1 b l1 where 1: "reconcile_point cv auto w uid m rb ep l = (pr1, b, l1)" by (metis prod_cases3)
  have first: "confirmed_in cv w uid m [ep] pr1 l1" if "pr_Result pr1 = RApplied"
    using 1 that
    by (auto simp: reconcile_point_def Let_def point_result_def split: option.splits if_splits sum.splits
        dest: apply_frames_applied)
  show ?case
  proof (cases b)
    case True
    then have "prs = [pr1]" "l' = l1" using Cons.prems(1) 1 by simp_all
    then show ?thesis using Cons.prems first confirmed_in_more [of cv w uid m "[ep]" pr l1 "ep # eps"] by auto
  next
    case False
    obtain prs2 b2 l2 where 2: "reconcile_points cv auto w uid m rb eps l1 = (prs2, b2, l2)" by (metis prod_cases3)
    then have r: "prs = pr1 # prs2" "l' = l2" using Cons.prems(1) 1 False by simp_all
    obtain k where "l2 = l1 @ k" using reconcile_points_append [OF 2] by blast
    then show ?thesis
      using Cons.IH [OF 2] Cons.prems(2,3) first r confirmed_in_append [of cv w uid m "ep # eps" pr l1 k]
        confirmed_in_more [of cv w uid m "[ep]" pr l1 "ep # eps"]
        confirmed_in_more [of cv w uid m eps pr l2 "ep # eps"] by auto
  qed
qed simp

text \<open>
  C15: a point is only ever reported applied when all its frames were sent, the two settling waits
  passed around a fresh read request, and the read-back taken after that held the value inside the
  tolerance of its code.
\<close>

theorem applied_means_read_back:
  assumes "ReconcileUID cf opts w fl st uid l = (rpt, err, l')" and "pr \<in> set (rp_Points rpt)"
    and "pr_Result pr = RApplied"
  shows "\<exists>m ef ep fs pre post vals. e_modelOf w l uid = Some m \<and> buildDesired cf fl st uid m = Inr (Some ef)
    \<and> ep \<in> set (ef_Points ef) \<and> pr_ApsCode pr = ep_ApsCode ep \<and> pr_Intended pr = ep_NativeValue ep
    \<and> EncodeEffectivePoint (cf_conv cf) m ep = Inr fs
    \<and> l' = pre @ map (\<lambda>f. Sent uid f True) fs @ [Waited False, Triggered uid, Waited False, Polled uid] @ post
    \<and> e_readback w (pre @ map (\<lambda>f. Sent uid f True) fs @ [Waited False, Triggered uid, Waited False]) uid = Some vals
    \<and> map_of vals (pr_ApsCode pr) = Some (pr_Readback pr)
    \<and> withinTolerance (pr_ApsCode pr) (pr_Intended pr) (pr_Readback pr)"
proof -
  obtain m ef stop where r: "e_modelOf w l uid = Some m" "buildDesired cf fl st uid m = Inr (Some ef)"
    "reconcile_points (cf_conv cf) (op_AutoReassert opts) w uid m (e_readback w l uid) (ef_Points ef)
       (l @ [Polled uid]) = (rp_Points rpt, stop, l')"
    using assms(1,2) by (auto simp: ReconcileUID_def Let_def split: option.splits sum.splits prod.splits)
  from reconcile_points_applied [OF r(3) assms(2,3)] r(1,2)
  show ?thesis unfolding confirmed_in_def write_trace_def by fastforce
qed

section \<open>One pass is enough\<close>

text \<open>
  An inverter that keeps what it is sent: what the cache holds is a function of the frames
  delivered, the frames of a desired point put its reading inside the tolerance, and leave the
  readings of the other codes alone.  Nothing fails and nobody cancels.
\<close>

fun frames_sent :: "string \<Rightarrow> log \<Rightarrow> bytes list" where
  "frames_sent uid [] = []"
| "frames_sent uid (Sent u f b # l) = (if u = uid \<and> b then f # frames_sent uid l else frames_sent uid l)"
| "frames_sent uid (_ # l) = frames_sent uid l"

lemma frames_sent_append [simp]: "frames_sent uid (l @ k) = frames_sent uid l @ frames_sent uid k"
  by (induction uid l rule: frames_sent.induct) simp_all

lemma frames_sent_log_point [simp]: "frames_sent uid (log_point u ep v r # l) = frames_sent uid l"
  by (simp add: log_point_def)

lemma frames_sent_trace [simp]: "frames_sent uid (write_trace uid fs) = fs"
proof -
  have "frames_sent uid (map (\<lambda>f. Sent uid f True) fs) = fs" by (induction fs) simp_all
  then show ?thesis by (simp add: write_trace_def)
qed

definition in_tolerance :: "(string \<times> f64) list \<Rightarrow> EffectivePoint \<Rightarrow> bool" where
  "in_tolerance vals ep \<longleftrightarrow>
     (\<exists>v. map_of vals (ep_ApsCode ep) = Some v \<and> withinTolerance (ep_ApsCode ep) (ep_NativeValue ep) v)"

definition keeps_writes ::
  "conv \<Rightarrow> gp_env \<Rightarrow> string \<Rightarrow> byte \<Rightarrow> (bytes list \<Rightarrow> (string \<times> f64) list) \<Rightarrow> EffectivePoint list \<Rightarrow> bool" where
  "keeps_writes cv w uid m reading eps \<longleftrightarrow>
     (\<forall>l f. e_send w l uid f) \<and> (\<forall>l. \<not> e_cancelled w l) \<and> (\<forall>l. e_modelOf w l uid = Some m)
     \<and> (\<forall>l. e_readback w l uid = Some (reading (frames_sent uid l)))
     \<and> (\<forall>ep \<in> set eps. (\<forall>g. map_of (reading g) (ep_ApsCode ep) \<noteq> None)
          \<and> (\<exists>fs. EncodeEffectivePoint cv m ep = Inr fs
               \<and> (\<forall>g. in_tolerance (reading (g @ fs)) ep
                    \<and> (\<forall>c. c \<noteq> ep_ApsCode ep \<longrightarrow> map_of (reading (g @ fs)) c = map_of (reading g) c))))"

lemma send_all: "(\<And>l f. e_send w l uid f) \<Longrightarrow> send_frames w uid fs l = (True, l @ map (\<lambda>f. Sent uid f True) fs)"
  by (induction fs arbitrary: l) simp_all

lemma no_page_a [simp]: "\<not> isQS1APageACode c"
  by (simp add: isQS1APageACode_def qs1aPageACodes_def)

lemma point_converges:
  assumes k: "keeps_writes cv w uid m reading eps" and ep: "ep \<in> set eps"
    and vals: "map_of vals (ep_ApsCode ep) = map_of (reading (frames_sent uid l)) (ep_ApsCode ep)"
  obtains pr l' where "reconcile_point cv True w uid m (Some vals) ep l = (pr, False, l')"
    and "pr_Result pr \<in> {RInSync, RApplied}"
    and "in_tolerance (reading (frames_sent uid l')) ep"
    and "\<forall>c. c \<noteq> ep_ApsCode ep \<longrightarrow> map_of (reading (frames_sent uid l')) c = map_of (reading (frames_sent uid l)) c"
proof -
  let ?c = "ep_ApsCode ep"
  obtain v where v: "map_of vals ?c = Some v"
  proof -
    have "map_of (reading (frames_sent uid l)) ?c \<noteq> None" using k ep by (simp add: keeps_writes_def)
    then show thesis using that vals by auto
  qed
  have "\<exists>fs. EncodeEffectivePoint cv m ep = Inr fs \<and> (\<forall>g. in_tolerance (reading (g @ fs)) ep
      \<and> (\<forall>c. c \<noteq> ?c \<longrightarrow> map_of (reading (g @ fs)) c = map_of (reading g) c))"
    using k ep by (simp add: keeps_writes_def)
  then obtain fs where fs: "EncodeEffectivePoint cv m ep = Inr fs"
    "\<And>g. in_tolerance (reading (g @ fs)) ep"
    "\<And>g c. c \<noteq> ?c \<Longrightarrow> map_of (reading (g @ fs)) c = map_of (reading g) c" by blast
  show thesis
  proof (cases "withinTolerance ?c (ep_NativeValue ep) v")
    case True
    show thesis
      by (rule that [of "point_result ep v RInSync" "l @ [log_point uid ep v RInSync]"])
        (use True v vals in \<open>auto simp: reconcile_point_def point_result_def in_tolerance_def\<close>)
  next
    case False
    let ?l3 = "l @ write_trace uid fs"
    obtain v' where v': "map_of (reading (frames_sent uid ?l3)) ?c = Some v'" "withinTolerance ?c (ep_NativeValue ep) v'"
      using fs(2) [of "frames_sent uid l"] by (auto simp: in_tolerance_def)
    have "e_readback w ?l3 uid = Some (reading (frames_sent uid ?l3))" using k unfolding keeps_writes_def by blast
    then have cr: "confirm_read w uid ep v ?l3 = (v', RApplied)" using v' by (simp add: confirm_read_def)
    have "apply_frames w uid ep v fs l = (point_result ep v' RApplied, False, ?l3 @ [Polled uid, log_point uid ep v' RApplied])"
      using k cr unfolding keeps_writes_def apply_frames_def
      by (simp add: send_all settle_def write_trace_def)
    then show thesis
      using False v fs v' by (intro that [of "point_result ep v' RApplied"
            "?l3 @ [Polled uid, log_point uid ep v' RApplied]"])
        (auto simp: reconcile_point_def point_result_def in_tolerance_def)
  qed
qed

lemma points_converge:
  assumes k: "keeps_writes cv w uid m reading eps" and "set todo \<subseteq> set eps"
    and "distinct (map ep_ApsCode todo)"
    and "\<And>ep. ep \<in> set todo \<Longrightarrow>
           map_of vals (ep_ApsCode ep) = map_of (reading (frames_sent uid l)) (ep_ApsCode ep)"
  obtains prs l' where "reconcile_points cv True w uid m (Some vals) todo l = (prs, False, l')"
    and "\<forall>pr \<in> set prs. pr_Result pr \<in> {RInSync, RApplied}"
    and "\<forall>ep \<in> set todo. in_tolerance (reading (frames_sent uid l')) ep"
    and "\<forall>c. c \<notin> ep_ApsCode ` set todo \<longrightarrow> map_of (reading (frames_sent uid l')) c = map_of (reading (frames_sent uid l)) c"
  using assms(2-4)
proof (induction todo arbitrary: l thesis)
  case (Cons ep todo)
  have ep: "ep \<in> set eps" using Cons.prems(2) by simp
  obtain pr l1 where 1: "reconcile_point cv True w uid m (Some vals) ep l = (pr, False, l1)"
    "pr_Result pr \<in> {RInSync, RApplied}" "in_tolerance (reading (frames_sent uid l1)) ep"
    "\<forall>c. c \<noteq> ep_ApsCode ep \<longrightarrow> map_of (reading (frames_sent uid l1)) c = map_of (reading (frames_sent uid l)) c"
    using point_converges [OF k ep, of vals l] Cons.prems(4) [of ep] by (metis list.set_intros(1))
  have new: "ep_ApsCode ep \<notin> ep_ApsCode ` set todo" using Cons.prems(3) by auto
  have sub: "set todo \<subseteq> set eps" and dis: "distinct (map ep_ApsCode todo)" using Cons.prems(2,3) by auto
  have same: "map_of vals (ep_ApsCode e) = map_of (reading (frames_sent uid l1)) (ep_ApsCode e)"
    if e: "e \<in> set todo" for e
  proof -
    have "ep_ApsCode e \<noteq> ep_ApsCode ep" using new imageI [OF e, of ep_ApsCode] by metis
    then show ?thesis using Cons.prems(4) [of e] 1(4) e by simp
  qed
  obtain prs l2 where 2: "reconcile_points cv True w uid m (Some vals) todo l1 = (prs, False, l2)"
    "\<forall>pr \<in> set prs. pr_Result pr \<in> {RInSync, RApplied}"
    "\<forall>ep \<in> set todo. in_tolerance (reading (frames_sent uid l2)) ep"
    "\<forall>c. c \<notin> ep_ApsCode ` set todo \<longrightarrow> map_of (reading (frames_sent uid l2)) c = map_of (reading (frames_sent uid l1)) c"
    by (rule Cons.IH [OF _ sub dis same])
  have "in_tolerance (reading (frames_sent uid l2)) ep"
    using 1(3) 2(4) new by (simp add: in_tolerance_def)
  then show ?case
    using 1 2 by (intro Cons.prems(1) [of "pr # prs" l2]) auto
qed simp

lemma in_sync_quiet:
  assumes "\<And>ep. ep \<in> set eps \<Longrightarrow> in_tolerance vals ep"
  obtains prs l' where "reconcile_points cv auto w uid m (Some vals) eps l = (prs, False, l')"
    and "frames_sent uid l' = frames_sent uid l" and "sends l' = sends l"
    and "\<forall>pr \<in> set prs. pr_Result pr = RInSync"
  using assms
proof (induction eps arbitrary: l thesis)
  case (Cons ep eps)
  obtain v where v: "map_of vals (ep_ApsCode ep) = Some v" "withinTolerance (ep_ApsCode ep) (ep_NativeValue ep) v"
    using Cons.prems(2) [of ep] by (auto simp: in_tolerance_def)
  let ?l1 = "l @ [log_point uid ep v RInSync]"
  obtain prs l2 where 2: "reconcile_points cv auto w uid m (Some vals) eps ?l1 = (prs, False, l2)"
    "frames_sent uid l2 = frames_sent uid ?l1" "sends l2 = sends ?l1" "\<forall>pr \<in> set prs. pr_Result pr = RInSync"
    by (rule Cons.IH [where l = ?l1]) (use Cons.prems(2) in auto)
  show ?case
    by (rule Cons.prems(1) [of "point_result ep v RInSync # prs" l2])
      (use v 2 in \<open>simp_all add: reconcile_point_def point_result_def\<close>)
qed simp

lemma desired_distinct:
  assumes "buildDesired cf fl st uid m = Inr (Some ef)" and "order_ok cf"
  shows "distinct (map ep_ApsCode (ef_Points ef))"
proof -
  have codes: "distinct (map ep_ApsCode (List.map_filter (effective_point cv m) xs))"
    if "distinct (map fst xs)" for xs cv
    using that
  proof (induction xs)
    case (Cons x xs)
    have "ep_ApsCode ep \<in> fst ` set xs" if ep: "ep \<in> set (List.map_filter (effective_point cv m) xs)" for ep
    proof -
      obtain c e where "(c, e) \<in> set xs" "effective_point cv m (c, e) = Some ep"
        using ep by (auto simp: map_filter_def)
      then show ?thesis by (force simp: effective_point_Some)
    qed
    moreover obtain c e where x: "x = (c, e)" by (cases x)
    moreover have "effective_point cv m (c, e) = Some ep \<Longrightarrow> ep_ApsCode ep = c" for ep
      by (auto simp: effective_point_Some)
    ultimately show ?case using Cons by (auto simp: map_filter_simps split: option.split)
  qed (simp add: map_filter_simps)
  obtain b base where "st_active st = Some b" "map_of (st_profiles st) b = Some base" "ef = \<lparr>ef_InverterUID = uid, ef_ModelCode = m, ef_Points =
      List.map_filter (effective_point (cf_conv cf) m)
       (cf_order cf (merge_overlay (index_points (pf_Points base)) (overlay_points st uid)))\<rparr>"
    using assms(1) by (rule buildDesired_SomeE)
  then have e: "ef_Points ef = List.map_filter (effective_point (cf_conv cf) m)
       (cf_order cf (merge_overlay (index_points (pf_Points base)) (overlay_points st uid)))" by simp
  let ?m = "merge_overlay (index_points (pf_Points base)) (overlay_points st uid)"
  have "mset (map fst (cf_order cf ?m)) = mset (map fst ?m)"
    using assms(2) by (simp add: order_ok_def)
  then have "distinct (map fst (cf_order cf ?m))"
    using distinct_merge [OF distinct_index] mset_eq_imp_distinct_iff by blast
  then show ?thesis unfolding e by (rule codes)
qed


section \<open>Scores\<close>

lemma flt_trans: "flt a b \<Longrightarrow> flt b c \<Longrightarrow> flt a c"
  by (cases a; cases b; cases c) auto

lemma flt_irrefl [simp]: "\<not> flt a a"
  by (cases a) auto

lemma fold_better:
  assumes "fold (better cv m reading) ps (k, s) = (k', s')"
  shows "((k', s') = (k, s) \<or> flt s s' \<and> (\<exists>p \<in> set ps. pf_ID p = k' \<and> profile_score cv m reading p = Some s'))
    \<and> (\<forall>p \<in> set ps. \<forall>t. profile_score cv m reading p = Some t \<longrightarrow> \<not> flt s' t)"
  using assms
proof (induction ps arbitrary: k s)
  case (Cons p ps)
  obtain k1 s1 where 1: "better cv m reading p (k, s) = (k1, s1)" by (cases "better cv m reading p (k, s)")
  then have "fold (better cv m reading) ps (k1, s1) = (k', s')" using Cons.prems by simp
  note IH = Cons.IH [OF this]
  have step: "(k1, s1) = (k, s) \<and> (\<forall>t. profile_score cv m reading p = Some t \<longrightarrow> \<not> flt s t)
      \<or> flt s s1 \<and> pf_ID p = k1 \<and> profile_score cv m reading p = Some s1"
    using 1 by (auto simp: better_def split: option.splits if_splits)
  have mono: "s' = s1 \<or> flt s1 s'" using IH by auto
  have "\<not> flt s' t" if t: "profile_score cv m reading p = Some t" for t
    using step
  proof
    assume "(k1, s1) = (k, s) \<and> (\<forall>t. profile_score cv m reading p = Some t \<longrightarrow> \<not> flt s t)"
    then show ?thesis using t mono flt_trans by auto
  next
    assume "flt s s1 \<and> pf_ID p = k1 \<and> profile_score cv m reading p = Some s1"
    then show ?thesis using t mono flt_trans [of s1 s' s1] by auto
  qed
  moreover have "(k', s') = (k, s) \<or> flt s s' \<and> (\<exists>p \<in> set (p # ps). pf_ID p = k' \<and> profile_score cv m reading p = Some s')"
    using step IH flt_trans [of s s1 s'] by auto
  ultimately show ?case using IH by simp
qed simp

text \<open>
  The profile the startup check names is a stored one whose score no other stored profile
  beats; the score is the fraction of its writable, readable points that match the reading, and a
  profile with no such point is never named.
\<close>

theorem identify_best:
  assumes "IdentifyProfile cv fl st reading m = (k, s)" and "k \<noteq> ''''"
  shows "\<exists>p \<in> snd ` set (st_profiles st). pf_ID p = k \<and> profile_score cv m reading p = Some s
    \<and> (\<forall>q \<in> snd ` set (st_profiles st). \<forall>t. profile_score cv m reading q = Some t \<longrightarrow> \<not> flt s t)"
proof -
  have ps: "\<not> fl QListProfiles" using assms by (auto simp: IdentifyProfile_def ListProfiles_def)
  let ?ps = "map snd (sort_key fst (st_profiles st))"
  obtain k' s' where f: "fold (better cv m reading) ?ps ('''', Fin (- 1)) = (k', s')"
    by (cases "fold (better cv m reading) ?ps ('''', Fin (- 1))")
  then have "k' = k" "s' = s"
    using assms ps by (auto simp: IdentifyProfile_def ListProfiles_def Let_def split: if_splits)
  then show ?thesis using fold_better [OF f] assms(2) by auto
qed

section \<open>A concrete run\<close>

definition ex_frame :: "byte \<Rightarrow> byte \<Rightarrow> byte \<Rightarrow> bytes" where
  "ex_frame sub hi lo = BuildL2Frame CmdSetPowerDS3Unicast [sub, 0, 0, hi, lo]"

definition ex_reading :: "bytes list \<Rightarrow> (string \<times> f64) list" where
  "ex_reading g = [(''CB'', if ex_frame 0x2B 0x14 0x50 \<in> set g then Fin 52 else Fin 51), (''CC'', Fin 54)]"

definition ex_env :: gp_env where
  "ex_env = \<lparr>e_send = (\<lambda>_ _ _. True), e_broadcast = (\<lambda>_ _. True),
     e_readback = (\<lambda>l uid. Some (ex_reading (frames_sent uid l))), e_cancelled = (\<lambda>_. False),
     e_modelOf = (\<lambda>_ _. Some ModelDS3)\<rparr>"

definition ex_st :: store where
  "ex_st = ex_store (ex_ov 53 49 54)"

definition ex_cb :: EffectivePoint where "ex_cb = ex_ep ''CB'' 52 50 52"
definition ex_cc :: EffectivePoint where "ex_cc = ex_ep ''CC'' 54 53 55"

definition ex_log :: log where
  "ex_log = Polled ''U'' # write_trace ''U'' [ex_frame 0x2B 0x14 0x50]
     @ [Polled ''U'', log_point ''U'' ex_cb (Fin 52) RApplied, log_point ''U'' ex_cc (Fin 54) RInSync]"

lemma ex_encode:
  "EncodeEffectivePoint (\<lambda>_ _. 0) ModelDS3 ex_cb = Inr [ex_frame 0x2B 0x14 0x50]"
  "EncodeEffectivePoint (\<lambda>_ _. 0) ModelDS3 ex_cc = Inr [ex_frame 0x2A 0x15 0x18]"
  by code_simp+

lemma ex_within:
  "withinTolerance ''CB'' (Fin 52) (Fin 52)" "\<not> withinTolerance ''CB'' (Fin 52) (Fin 51)"
  "withinTolerance ''CC'' (Fin 54) (Fin 54)" "ex_frame 0x2A 0x15 0x18 \<noteq> ex_frame 0x2B 0x14 0x50"
  by code_simp+

lemma ex_points [simp]:
  "ep_ApsCode ex_cb = ''CB''" "ep_NativeValue ex_cb = Fin 52"
  "ep_ApsCode ex_cc = ''CC''" "ep_NativeValue ex_cc = Fin 54"
  by (simp_all add: ex_cb_def ex_cc_def ex_ep_def)

lemma ex_built:
  "buildDesired ex_cf (\<lambda>_. False) ex_st ''U'' ModelDS3 =
     Inr (Some \<lparr>ef_InverterUID = ''U'', ef_ModelCode = ModelDS3, ef_Points = [ex_cb, ex_cc]\<rparr>)"
  using ex_desired(1) by (simp add: ex_st_def ex_cb_def ex_cc_def)

lemma ex_keeps: "keeps_writes (cf_conv ex_cf) ex_env ''U'' ModelDS3 ex_reading [ex_cb, ex_cc]"
  by (simp add: keeps_writes_def ex_env_def ex_cf_def ex_encode in_tolerance_def ex_reading_def ex_within
      ex_within(4) [symmetric])

lemma ex_run:
  "ReconcileUID ex_cf defaultOptions ex_env (\<lambda>_. False) ex_st ''U'' [] =
     (\<lparr>rp_UID = ''U'', rp_Points = [point_result ex_cb (Fin 52) RApplied, point_result ex_cc (Fin 54) RInSync],
       rp_Err = None\<rparr>, None, ex_log)"
proof -
  have m: "e_modelOf ex_env l u = Some ModelDS3" "e_send ex_env l u f" "\<not> e_cancelled ex_env l"
    "e_readback ex_env l u = Some (ex_reading (frames_sent u l))" for l u f
    by (simp_all add: ex_env_def)
  show ?thesis
    by (simp add: ReconcileUID_def m ex_built defaultOptions_def reconcile_point_def apply_frames_def
        settle_def confirm_read_def ex_reading_def ex_within ex_encode ex_cf_def [THEN arg_cong, of cf_conv]
        ex_log_def write_trace_def)
qed

lemma reconcile_sends_only_drift_witness:
  "''U'' = ''U'' \<and> op_AutoReassert defaultOptions \<and>
    (\<exists>m ef ep vals v p x fs. e_modelOf ex_env [] ''U'' = Some m
       \<and> buildDesired ex_cf (\<lambda>_. False) ex_st ''U'' m = Inr (Some ef)
       \<and> ep \<in> set (ef_Points ef) \<and> e_readback ex_env [] ''U'' = Some vals
       \<and> map_of vals (ep_ApsCode ep) = Some v
       \<and> \<not> withinTolerance (ep_ApsCode ep) (ep_NativeValue ep) v
       \<and> LongName (ep_ApsCode ep) = Some p \<and> EncodeSetProtection (cf_conv ex_cf) m p x = Inr fs
       \<and> ex_frame 0x2B 0x14 0x50 \<in> set fs)"
  by (rule reconcile_sends_only_drift [OF ex_run]) (auto simp: sends_def ex_log_def write_trace_def)

lemma applied_means_read_back_witness:
  "\<exists>m ef ep fs pre post vals. e_modelOf ex_env [] ''U'' = Some m
    \<and> buildDesired ex_cf (\<lambda>_. False) ex_st ''U'' m = Inr (Some ef)
    \<and> ep \<in> set (ef_Points ef) \<and> ''CB'' = ep_ApsCode ep \<and> Fin 52 = ep_NativeValue ep
    \<and> EncodeEffectivePoint (cf_conv ex_cf) m ep = Inr fs
    \<and> ex_log = pre @ map (\<lambda>f. Sent ''U'' f True) fs @ [Waited False, Triggered ''U'', Waited False, Polled ''U''] @ post
    \<and> e_readback ex_env (pre @ map (\<lambda>f. Sent ''U'' f True) fs @ [Waited False, Triggered ''U'', Waited False]) ''U'' = Some vals
    \<and> map_of vals ''CB'' = Some (Fin 52) \<and> withinTolerance ''CB'' (Fin 52) (Fin 52)"
  using applied_means_read_back [OF ex_run, of "point_result ex_cb (Fin 52) RApplied"]
  by (simp add: point_result_def)


lemma identify_best_witness:
  "\<exists>p. (''B'', p) \<in> set (st_profiles ex_st) \<and> pf_ID p = ''B''
    \<and> profile_score (\<lambda>_ _. 0) ModelDS3 [(''CB'', Fin 51)] p = Some (Fin 1)"
proof -
  have "IdentifyProfile (\<lambda>_ _. 0) (\<lambda>_. False) ex_st [(''CB'', Fin 51)] ModelDS3 = (''B'', Fin 1)" by code_simp
  then show ?thesis using identify_best [of "\<lambda>_ _. 0" "\<lambda>_. False" ex_st] by (fastforce simp: ex_st_def ex_store_def)
qed

end
