(* ===== verification/GridBroadcast.thy ===== *)
theory GridBroadcast
  imports GridReconcile
begin

text \<open>
  Applying the active base profile by broadcast: \<open>broadcast.go\<close> in \<open>internal/gridprofile\<close>.  Effects
  go to the log of the reconciler.  The theorems: what a broadcast of one point reports is what the
  read-backs confirm, the frames of a point all come from one model code (the first that can
  encode it), and neither the conflict rules nor the overlays are consulted.
\<close>

section \<open>Confirming a broadcast\<close>

text \<open>The read-backs of the targeted inverters that answer for the code.\<close>

definition broadcast_reading :: "gp_env \<Rightarrow> log \<Rightarrow> byte list \<Rightarrow> string \<Rightarrow> string \<Rightarrow> f64 option" where
  "broadcast_reading w l modelCodes code uid =
     (case e_modelOf w l uid of
        None \<Rightarrow> None
      | Some mc \<Rightarrow>
          if mc \<notin> set modelCodes then None
          else case e_readback w l uid of None \<Rightarrow> None | Some vals \<Rightarrow> map_of vals code)"

definition confirmBroadcastPoint :: "gp_env \<Rightarrow> string list \<Rightarrow> byte list \<Rightarrow> string \<Rightarrow> f64 \<Rightarrow> log \<Rightarrow> result" where
  "confirmBroadcastPoint w uids modelCodes code v l =
     (let readings = List.map_filter (broadcast_reading w l modelCodes code) uids;
          tot = length readings;
          confirmed = length (filter (withinTolerance code v) readings)
      in if tot = 0 then RNoReadback
         else if confirmed = tot then RApplied
         else RUnconfirmedOf confirmed tot)"

definition waitAndConfirmBroadcast ::
  "gp_env \<Rightarrow> string list \<Rightarrow> byte list \<Rightarrow> string \<Rightarrow> f64 \<Rightarrow> log \<Rightarrow> result \<times> log" where
  "waitAndConfirmBroadcast w uids modelCodes code v l =
     (let (c1, l1) = settle w l
      in if c1 then (RCancelled, l1)
      else let (c2, l2) = settle w (l1 @ map Triggered uids)
      in if c2 then (RCancelled, l2)
         else (confirmBroadcastPoint w uids modelCodes code v l2, l2))"

section \<open>One point\<close>

fun broadcast_frames :: "gp_env \<Rightarrow> bytes list \<Rightarrow> log \<Rightarrow> bool \<times> log" where
  "broadcast_frames w [] l = (True, l)"
| "broadcast_frames w (f # fs) l =
     (if e_broadcast w l f then broadcast_frames w fs (l @ [Broadcasted f True])
      else (False, l @ [Broadcasted f False]))"

definition broadcast_unsupported :: "prot_error \<Rightarrow> bool" where
  "broadcast_unsupported e \<longleftrightarrow>
     e \<in> {ErrUnsupportedBroadcastParam, ErrUnsupportedProtectionParam, ErrUnsupportedProtectionFamily}"

text \<open>The loop over the model codes; \<open>lastErr\<close> is the last encode error.\<close>

fun broadcast_models ::
  "conv \<Rightarrow> gp_env \<Rightarrow> string list \<Rightarrow> byte list \<Rightarrow> string \<Rightarrow> f64 \<Rightarrow> byte list \<Rightarrow> prot_error option \<Rightarrow> log \<Rightarrow>
     result \<times> gp_error option \<times> log" where
  "broadcast_models cv w uids all code v [] lastErr l =
     (case lastErr of
        Some ErrUnsupportedBroadcastParam \<Rightarrow> (RUnsupportedBroadcast, None, l)
      | Some e \<Rightarrow> (RUnsupported (Some e), None, l)
      | None \<Rightarrow> (RUnsupported None, None, l))"
| "broadcast_models cv w uids all code v (mc # mcs) lastErr l =
     (if \<not> Writeable cv mc code then broadcast_models cv w uids all code v mcs lastErr l
      else case LongName code of
        None \<Rightarrow> broadcast_models cv w uids all code v mcs lastErr l
      | Some longName \<Rightarrow>
          (case EncodeSetProtectionBroadcast cv mc longName v of
             Inl e \<Rightarrow>
               if broadcast_unsupported e then broadcast_models cv w uids all code v mcs (Some e) l
               else (REncodeError (EncodeFailed e), Some (EncodeFailed e), l)
           | Inr frames \<Rightarrow>
               let (ok, l1) = broadcast_frames w frames l
               in if \<not> ok then (RBroadcastError, None, l1)
                  else let (r, l2) = waitAndConfirmBroadcast w uids all code v l1
                       in (r, None, l2)))"

definition broadcastPoint ::
  "conv \<Rightarrow> gp_env \<Rightarrow> string list \<Rightarrow> byte list \<Rightarrow> string \<Rightarrow> f64 \<Rightarrow> log \<Rightarrow> result \<times> gp_error option \<times> log" where
  "broadcastPoint cv w uids modelCodes code v l = broadcast_models cv w uids modelCodes code v modelCodes None l"

section \<open>The whole profile\<close>

fun first_value :: "conv \<Rightarrow> byte list \<Rightarrow> string \<Rightarrow> PointEntry \<Rightarrow> f64 option" where
  "first_value cv [] code entry = None"
| "first_value cv (mc # mcs) code entry =
     (case effectivePointValue cv mc code entry of Some v \<Rightarrow> Some v | None \<Rightarrow> first_value cv mcs code entry)"

text \<open>The loop over the points: the results, the error, and the log.\<close>

fun broadcast_points ::
  "conv \<Rightarrow> gp_env \<Rightarrow> string list \<Rightarrow> byte list \<Rightarrow> PointEntry list \<Rightarrow> log \<Rightarrow> PointResult list \<times> gp_error option \<times> log" where
  "broadcast_points cv w uids mcs [] l = ([], None, l)"
| "broadcast_points cv w uids mcs (entry # es) l =
     (let code = pe_ApsCode entry
      in if code = '''' then broadcast_points cv w uids mcs es l
      else case first_value cv mcs code entry of
        None \<Rightarrow>
          let v = nv_Value (pe_Native entry);
              (prs, e, l') = broadcast_points cv w uids mcs es (l @ [Logged '''' code v (Fin 0) (RUnsupported None)])
          in (\<lparr>pr_ApsCode = code, pr_Intended = v, pr_Readback = Fin 0, pr_Result = RUnsupported None\<rparr> # prs, e, l')
      | Some v \<Rightarrow>
          let (r, fatal, l1) = broadcastPoint cv w uids mcs code v l;
              pr = \<lparr>pr_ApsCode = code, pr_Intended = v, pr_Readback = Fin 0, pr_Result = r\<rparr>;
              l2 = l1 @ [Logged '''' code v (Fin 0) r]
          in if fatal \<noteq> None then ([pr], fatal, l2)
             else if r = RCancelled then ([pr], Some Canceled, l2)
             else let (prs, e, l3) = broadcast_points cv w uids mcs es l2
                  in (pr # prs, e, l3))"

definition gp_broadcastProtoValidated :: bool where
  "gp_broadcastProtoValidated = True"

record BroadcastReport =
  br_ProfileID :: string
  br_Points :: "PointResult list"
  br_Err :: "gp_error option"

definition ApplyBaseBroadcast ::
  "config \<Rightarrow> gp_env \<Rightarrow> fault \<Rightarrow> store \<Rightarrow> bool \<Rightarrow> byte list \<Rightarrow> log \<Rightarrow> BroadcastReport \<times> gp_error option \<times> log" where
  "ApplyBaseBroadcast cf w fl st has_broadcaster modelCodes l =
     (let rpt = \<lparr>br_ProfileID = '''', br_Points = [], br_Err = None\<rparr>
      in if \<not> gp_broadcastProtoValidated then (rpt\<lparr>br_Err := Some BroadcastNotValidated\<rparr>, Some BroadcastNotValidated, l)
      else if \<not> has_broadcaster then (rpt, Some NilBroadcaster, l)
      else if modelCodes = [] then (rpt, Some NoModelCodes, l)
      else case ActiveBase fl st of
        Inl e \<Rightarrow> (rpt, Some (if e = ErrNoRows then NoActiveBase else e), l)
      | Inr baseID \<Rightarrow>
     (let rpt = rpt\<lparr>br_ProfileID := baseID\<rparr>
      in case GetProfile fl st baseID of
        Inl e \<Rightarrow> (rpt, Some e, l)
      | Inr base \<Rightarrow>
     (case (if profile_finite base then ValidateProfile (cf_schema cf) base else None) of
        Some e \<Rightarrow> (rpt, Some e, l)
      | None \<Rightarrow>
     (case inventoryUIDs fl st modelCodes of
        Inl e \<Rightarrow> (rpt, Some e, l)
      | Inr uids \<Rightarrow>
          let (prs, e, l') = broadcast_points (cf_conv cf) w uids modelCodes (pf_Points base) l
          in (rpt\<lparr>br_Points := prs, br_Err := (if e = Some Canceled then None else e)\<rparr>, e, l')))))"

section \<open>What a broadcast reports\<close>

lemma broadcast_frames_log:
  "broadcast_frames w fs l = (ok, l') \<Longrightarrow>
     \<exists>k. l' = l @ k \<and> set k \<subseteq> {Broadcasted f b | f b. f \<in> set fs}"
proof (induction fs arbitrary: l)
  case (Cons f fs)
  show ?case
  proof (cases "e_broadcast w l f")
    case True
    then obtain k where "l' = (l @ [Broadcasted f True]) @ k" "set k \<subseteq> {Broadcasted f b | f b. f \<in> set fs}"
      using Cons by fastforce
    then show ?thesis by (intro exI [of _ "Broadcasted f True # k"]) auto
  next
    case False
    then show ?thesis using Cons.prems by auto
  qed
qed simp

lemma broadcast_frames_all:
  "broadcast_frames w fs l = (True, l') \<Longrightarrow> l' = l @ map (\<lambda>f. Broadcasted f True) fs"
  by (induction fs arbitrary: l) (fastforce split: if_splits)+

lemma confirm_applied:
  "confirmBroadcastPoint w uids mcs code v l = RApplied \<longleftrightarrow>
     (\<exists>uid \<in> set uids. broadcast_reading w l mcs code uid \<noteq> None)
     \<and> (\<forall>uid \<in> set uids. \<forall>y. broadcast_reading w l mcs code uid = Some y \<longrightarrow> withinTolerance code v y)"
proof -
  let ?r = "List.map_filter (broadcast_reading w l mcs code) uids"
  have set: "set ?r = {y. \<exists>uid \<in> set uids. broadcast_reading w l mcs code uid = Some y}"
    by (force simp: map_filter_def)
  have "length (filter (withinTolerance code v) ?r) = length ?r \<longleftrightarrow> (\<forall>y \<in> set ?r. withinTolerance code v y)"
    by (metis filter_id_conv filter_True length_filter_less less_irrefl)
  moreover have "?r = [] \<longleftrightarrow> set ?r = {}" by simp
  ultimately show ?thesis
    unfolding confirmBroadcastPoint_def Let_def length_0_conv set by auto
qed

text \<open>
  C27: a broadcast point is reported applied exactly when the frames of one model code all went out,
  both waits passed, at least one targeted inverter answered for the code in the read-backs taken
  then, and every one that answered holds the value inside the tolerance.
\<close>

theorem broadcast_applied:
  assumes "broadcastPoint cv w uids mcs code v l = (RApplied, fatal, l')"
  shows "fatal = None \<and> (\<exists>mc p fs. mc \<in> set mcs \<and> Writeable cv mc code \<and> LongName code = Some p
    \<and> EncodeSetProtectionBroadcast cv mc p v = Inr fs
    \<and> l' = l @ map (\<lambda>f. Broadcasted f True) fs @ Waited False # map Triggered uids @ [Waited False])
    \<and> (\<exists>uid \<in> set uids. broadcast_reading w l' mcs code uid \<noteq> None)
    \<and> (\<forall>uid \<in> set uids. \<forall>y. broadcast_reading w l' mcs code uid = Some y \<longrightarrow> withinTolerance code v y)"
proof -
  have "broadcast_models cv w uids mcs code v todo e l = (RApplied, fatal, l') \<Longrightarrow> set todo \<subseteq> set mcs \<Longrightarrow>
      fatal = None \<and> (\<exists>mc p fs. mc \<in> set mcs \<and> Writeable cv mc code \<and> LongName code = Some p
        \<and> EncodeSetProtectionBroadcast cv mc p v = Inr fs
        \<and> l' = l @ map (\<lambda>f. Broadcasted f True) fs @ Waited False # map Triggered uids @ [Waited False])
      \<and> confirmBroadcastPoint w uids mcs code v l' = RApplied" for todo e
  proof (induction todo arbitrary: e)
    case Nil
    then show ?case by (auto split: option.splits prot_error.splits)
  next
    case (Cons mc todo)
    show ?case
    proof (cases "Writeable cv mc code \<and> (\<exists>p fs. LongName code = Some p
        \<and> EncodeSetProtectionBroadcast cv mc p v = Inr fs)")
      case True
      then obtain p fs where p: "Writeable cv mc code" "LongName code = Some p"
        "EncodeSetProtectionBroadcast cv mc p v = Inr fs" by blast
      obtain ok l1 where s: "broadcast_frames w fs l = (ok, l1)" by (cases "broadcast_frames w fs l")
      have ok: "ok" using Cons.prems(1) p s by (cases ok) simp_all
      then have l1: "l1 = l @ map (\<lambda>f. Broadcasted f True) fs" using s broadcast_frames_all by simp
      have "waitAndConfirmBroadcast w uids mcs code v l1 = (RApplied, l')" "fatal = None"
        using Cons.prems(1) p s ok by (auto split: prod.splits)
      then have "l' = l1 @ Waited False # map Triggered uids @ [Waited False]"
        "confirmBroadcastPoint w uids mcs code v l' = RApplied" "fatal = None"
        by (auto simp: waitAndConfirmBroadcast_def settle_def Let_def split: if_splits)
      then show ?thesis using Cons.prems(2) p l1 by auto
    next
      case False
      then show ?thesis
        using Cons.prems Cons.IH by (auto split: option.splits sum.splits if_splits)
    qed
  qed
  from this [of mcs None] assms show ?thesis
    unfolding confirm_applied [symmetric] broadcastPoint_def by simp
qed

text \<open>
  The frames a point broadcasts are those of the first model code that can write and encode it;
  the list the daemon passes starts with the QS1 family, so a code the QS1 family can broadcast goes
  out under the QS1 opcode only and never reaches an inverter of the DS3 family.
\<close>

theorem broadcast_first_family:
  assumes "broadcastPoint cv w uids BroadcastModelCodes code v l = (r, fatal, l')"
    and "Writeable cv ModelQS1 code" and "LongName code = Some p"
    and "EncodeSetProtectionBroadcast cv ModelQS1 p v = Inr fs"
    and "Broadcasted f b \<in> set l'" and "Broadcasted f b \<notin> set l"
  shows "f \<in> set fs \<and> f ! 3 = CmdSetPowerQS1Broadcast"
proof -
  have first: "BroadcastModelCodes = ModelQS1 # tl BroadcastModelCodes" by (simp add: BroadcastModelCodes_eq)
  obtain ok l1 where s: "broadcast_frames w fs l = (ok, l1)" by (cases "broadcast_frames w fs l")
  obtain k where k: "l1 = l @ k" "set k \<subseteq> {Broadcasted f b | f b. f \<in> set fs}"
    using broadcast_frames_log [OF s] by blast
  have "\<exists>j. l' = l1 @ j \<and> (\<forall>g c. Broadcasted g c \<notin> set j)"
    using assms(1) s assms(2-4) unfolding broadcastPoint_def
    by (subst (asm) (2) first)
      (auto simp: waitAndConfirmBroadcast_def settle_def Let_def split: prod.splits if_splits)
  then have f: "f \<in> set fs" using k assms(5,6) by auto
  have "encodeProtectionQS1A cv p v CmdSetPowerQS1Broadcast = Inr fs"
    "\<not> isQS1YC600BuilderParam p" "p \<noteq> ''Over_frequency_Watt_set''"
    using assms(4) by (auto simp: EncodeSetProtectionBroadcast_family FamilyOf_def codec_consts
        split: option.splits if_splits)
  then have "\<exists>us. same_bodies CmdSetPowerQS1Unicast CmdSetPowerQS1Broadcast us fs"
    using encodeProtectionQS1A_bodies [of p CmdSetPowerQS1Unicast CmdSetPowerQS1Broadcast cv v]
    by (cases "encodeProtectionQS1A cv p v CmdSetPowerQS1Unicast") auto
  then have "f ! 3 = CmdSetPowerQS1Broadcast"
    using f by (auto simp: same_bodies_def BuildL2Frame_def Let_def)
  then show ?thesis using f by blast
qed

text \<open>
  The broadcast path never evaluates the conflict rules: when the active base profile violates
  one, the desired state of an inverter without an overlay is refused, yet all points of the base
  profile are broadcast.
\<close>

theorem broadcast_ignores_conflicts:
  assumes "st_active st = Some b" and "map_of (st_profiles st) b = Some base"
    and "map_of (st_overlays st) uid = None" and "store_ok (cf_schema cf) os st"
    and "r \<in> set conflictRules" and "violated (effVals (index_points (pf_Points base))) r"
    and "mcs \<noteq> []"
  shows "(\<exists>msgs. buildDesired cf (\<lambda>_. False) st uid m = Inl (Conflicting msgs))
    \<and> (\<exists>uids. \<forall>w l. snd (snd (ApplyBaseBroadcast cf w (\<lambda>_. False) st True mcs l)) =
         snd (snd (broadcast_points (cf_conv cf) w uids mcs (pf_Points base) l)))"
proof -
  have base: "profile_finite base" "cf_schema cf base" "ranges_ok (pf_Points base)"
    using assms(4) map_of_SomeD [OF assms(2)] by (auto simp: store_ok_def list_all_iff profile_ok_def)
  have "CheckConflicts (effVals (index_points (pf_Points base))) \<noteq> []"
    using assms(5,6) by (auto simp: CheckConflicts_def filter_empty_conv)
  then have "buildDesired cf (\<lambda>_. False) st uid m =
      Inl (Conflicting (CheckConflicts (effVals (index_points (pf_Points base)))))"
    using assms(1-3) base
    by (simp add: buildDesired_def ActiveBase_def GetProfile_def GetOverlay_def Let_def
        ValidateProfile_def validateRanges_None [THEN iffD2] merge_overlay_def conflictError_def)
  moreover have "\<forall>w l. snd (snd (ApplyBaseBroadcast cf w (\<lambda>_. False) st True mcs l)) =
      snd (snd (broadcast_points (cf_conv cf) w
        (map fst (filter (\<lambda>(_, mc). case mc of None \<Rightarrow> False | Some c \<Rightarrow> (of_int c :: byte) \<in> set mcs)
           (st_inverters st))) mcs (pf_Points base) l))"
    using assms(1,2,7) base
    by (simp add: ApplyBaseBroadcast_def gp_broadcastProtoValidated_def ActiveBase_def GetProfile_def Let_def
        ValidateProfile_def validateRanges_None [THEN iffD2] inventoryUIDs_def split: prod.split)
  ultimately show ?thesis by blast
qed

section \<open>A concrete broadcast\<close>

definition ex_bc :: gp_env where
  "ex_bc = \<lparr>e_send = (\<lambda>_ _ _. True), e_broadcast = (\<lambda>_ _. True),
     e_readback = (\<lambda>_ _. Some [(''CB'', Fin 51)]), e_cancelled = (\<lambda>_. False),
     e_modelOf = (\<lambda>_ uid. Some (if uid = ''V'' then ModelQS1 else ModelDS3))\<rparr>"

definition ex_bc_frame :: bytes where
  "ex_bc_frame = BuildL2Frame CmdSetPowerQS1Broadcast [0x68, 3, 14, 245, 168]"

definition ex_bc_log :: log where
  "ex_bc_log = [Broadcasted ex_bc_frame True, Waited False, Triggered ''V'', Waited False]"

lemma ex_bc_encode:
  "Writeable (\<lambda>_ _. 0) ModelQS1 ''CB''" "LongName ''CB'' = Some ''Over_frequency_Watt_Low_set''"
  "EncodeSetProtectionBroadcast (\<lambda>_ _. 0) ModelQS1 ''Over_frequency_Watt_Low_set'' (Fin 51) = Inr [ex_bc_frame]"
  "withinTolerance ''CB'' (Fin 51) (Fin 51)"
  by code_simp+

lemma ex_bc_run:
  "broadcastPoint (\<lambda>_ _. 0) ex_bc [''V''] BroadcastModelCodes ''CB'' (Fin 51) [] = (RApplied, None, ex_bc_log)"
proof -
  have e: "e_broadcast ex_bc l f" "\<not> e_cancelled ex_bc l" "e_modelOf ex_bc l ''V'' = Some ModelQS1"
    "e_readback ex_bc l u = Some [(''CB'', Fin 51)]" for l f u
    by (simp_all add: ex_bc_def)
  have "ModelQS1 \<in> set BroadcastModelCodes" by (simp add: BroadcastModelCodes_eq)
  then have "broadcast_models (\<lambda>_ _. 0) ex_bc [''V''] BroadcastModelCodes ''CB'' (Fin 51) (ModelQS1 # mcs) None [] =
      (RApplied, None, ex_bc_log)" for mcs
    by (simp add: e ex_bc_encode waitAndConfirmBroadcast_def settle_def confirmBroadcastPoint_def
        broadcast_reading_def map_filter_def ex_bc_log_def)
  then show ?thesis
    unfolding broadcastPoint_def by (simp add: BroadcastModelCodes_eq)
qed

lemma broadcast_applied_witness:
  "(\<exists>mc p fs. mc \<in> set BroadcastModelCodes \<and> Writeable (\<lambda>_ _. 0) mc ''CB''
      \<and> LongName ''CB'' = Some p \<and> EncodeSetProtectionBroadcast (\<lambda>_ _. 0) mc p (Fin 51) = Inr fs
      \<and> ex_bc_log = map (\<lambda>f. Broadcasted f True) fs @ [Waited False, Triggered ''V'', Waited False])
    \<and> broadcast_reading ex_bc ex_bc_log BroadcastModelCodes ''CB'' ''V'' \<noteq> None"
  using broadcast_applied [OF ex_bc_run] by simp

lemma broadcast_first_family_witness:
  "ex_bc_frame \<in> set [ex_bc_frame] \<and> ex_bc_frame ! 3 = CmdSetPowerQS1Broadcast"
  by (rule broadcast_first_family [OF ex_bc_run ex_bc_encode(1-3)]) (simp_all add: ex_bc_log_def)

definition ex_clash :: store where
  "ex_clash = (ex_store (ex_ov 53 49 54))\<lparr>st_profiles :=
     [(''B'', ex_base\<lparr>pf_Points := [ex_pt ''CB'' 54 50 55, ex_pt ''CC'' 53 50 55]\<rparr>)], st_overlays := []\<rparr>"

lemma broadcast_ignores_conflicts_witness:
  "(\<exists>msgs. buildDesired ex_cf (\<lambda>_. False) ex_clash ''U'' ModelDS3 = Inl (Conflicting msgs))
    \<and> (\<exists>uids. \<forall>w l. snd (snd (ApplyBaseBroadcast ex_cf w (\<lambda>_. False) ex_clash True [ModelDS3] l)) =
         snd (snd (broadcast_points (cf_conv ex_cf) w uids [ModelDS3]
           (pf_Points (ex_base\<lparr>pf_Points := [ex_pt ''CB'' 54 50 55, ex_pt ''CC'' 53 50 55]\<rparr>)) l)))"
proof (rule broadcast_ignores_conflicts [where os = "\<lambda>_. True" and b = "''B''" and r = "conflictRules ! 1"])
  show "store_ok (cf_schema ex_cf) (\<lambda>_. True) ex_clash"
    by (auto simp: store_ok_def ex_clash_def profile_ok_def ex_base_def ex_pt_def ex_cf_def ex_store_def
        Profile.defs PointEntry.defs ranges_ok_def mk_range_def profile_finite_def point_finite_def
        finite64_def NativeValue.defs)
  show "violated (effVals (index_points (pf_Points
      (ex_base\<lparr>pf_Points := [ex_pt ''CB'' 54 50 55, ex_pt ''CC'' 53 50 55]\<rparr>)))) (conflictRules ! 1)"
    by code_simp
  show "conflictRules ! 1 \<in> set conflictRules" by (simp add: conflictRules_def)
qed (simp_all add: ex_clash_def ex_store_def)
end
