(* ===== verification/GridManager.thy ===== *)
theory GridManager
  imports GridBroadcast BusClient
begin

text \<open>
  The grid-profile manager (\<open>internal/gridprofile/manager.go\<close>) and the adapters that join the
  reconciler to the socket server and the ingest cache (\<open>adapters.go\<close>).  A request is answered at
  once: its effects are the new store and the background jobs it queues, which theory GridApply
  runs.  The theorems: exactly when an overlay is stored, that no request breaks the well-formed
  store, that an overlay the manager accepts can still be one the reconciler refuses, and what a
  replacement inherits.
\<close>

section \<open>Identifiers, requests, responses\<close>

definition gp_uidRe :: "string \<Rightarrow> bool" where
  "gp_uidRe s \<longleftrightarrow> length s = 12 \<and> list_all (\<lambda>c. hex_digit_value c \<noteq> None) s"

text \<open>The document of a \<open>SetOverlay\<close>: no bytes, bytes that are not a document, or what they decode to.\<close>

datatype overlay_json = NoBytes | BadBytes | OverlayDoc Overlay

datatype gp_request =
    ReqListProfiles
  | ReqRefreshProfiles
  | ReqSelectBase string
  | ReqSetOverlay string overlay_json
  | ReqClearOverlay string
  | ReqGetEffective string
  | ReqGetStatus
  | ReqListOverlays
  | ReqGetBase
  | ReqUnknown

record profileSummary =
  ps_ID :: string
  ps_VNomV :: f64
  ps_Source :: Source
  ps_PointCount :: nat

record baseDefault =
  bd_Value :: f64
  bd_Unit :: string
  bd_Min :: "f64 option"
  bd_Max :: "f64 option"

datatype payload =
    NoPayload
  | Summaries "profileSummary list"
  | Queued string string "string list"
  | Effective string string byte "EffectivePoint list"
  | StatusOf string "string list" bool
  | OverlayList "Overlay list"
  | BaseDefaults "(string \<times> baseDefault) list"

datatype mg_error =
    NilRequest
  | UnknownOp
  | NoProfilesDir
  | LoadFailed "load_error list"
  | IdEmpty
  | ProfileNotFound string gp_error
  | StoreFailed gp_error
  | NoReconciler
  | UidEmpty
  | UidInvalid string
  | OverlayEmpty
  | OverlayRejected gp_error
  | NotListed string
  | NotInFleet string
  | ConflictsFound "string list"
  | ModelNotKnown string
  | NoActive gp_error
  | DesiredFailed gp_error
  | NoDesired
  | MarshalError

type_synonym gp_response = "mg_error + payload"

text \<open>The work left to the applier, with its label or the overlay it applies.\<close>

datatype job =
    OverlayJob string string "string list"
  | RevertJob string string
  | FleetJob string
  | BroadcastJob "byte list" string

record manager =
  mg_config :: config
  mg_overlaySchema :: "Overlay \<Rightarrow> bool"
  mg_pick :: "(string \<times> Overlay) list \<Rightarrow> string \<times> Overlay"
  mg_reconciler :: bool
  mg_profilesDir :: "Profile dir_entry list option option"
  mg_overlaysDir :: "Overlay dir_entry list option option"
  mg_BroadcastEnabled :: bool
  mg_broadcaster :: bool
  mg_BroadcastModelCodes :: "byte list"

type_synonym answer = "gp_response \<times> store \<times> job list"

section \<open>The operations\<close>

definition listProfiles :: "fault \<Rightarrow> store \<Rightarrow> gp_response" where
  "listProfiles fl st =
     (case ListProfiles fl st of
        Inl e \<Rightarrow> Inl (StoreFailed e)
      | Inr profiles \<Rightarrow>
          if list_all (\<lambda>p. finite64 (pf_VNomV p)) profiles
          then Inr (Summaries (map (\<lambda>p. \<lparr>ps_ID = pf_ID p, ps_VNomV = pf_VNomV p, ps_Source = pf_Source p,
                 ps_PointCount = length (pf_Points p)\<rparr>) profiles))
          else Inl MarshalError)"

definition refreshProfiles :: "manager \<Rightarrow> fault \<Rightarrow> store \<Rightarrow> gp_response \<times> store" where
  "refreshProfiles mg fl st =
     (case mg_profilesDir mg of
        None \<Rightarrow> (Inl NoProfilesDir, st)
      | Some dir \<Rightarrow>
          let (errs, st1) = LoadProfilesFromDir (cf_schema (mg_config mg)) fl dir st
          in if errs \<noteq> [] then (Inl (LoadFailed errs), st1)
          else case mg_overlaysDir mg of
            None \<Rightarrow> (listProfiles fl st1, st1)
          | Some odir \<Rightarrow>
              let (oerrs, st2) = LoadOverlaysFromDir (mg_overlaySchema mg) fl odir st1
              in if oerrs \<noteq> [] then (Inl (LoadFailed oerrs), st2) else (listProfiles fl st2, st2))"

definition reconcilingResp :: "string \<Rightarrow> string list \<Rightarrow> gp_response" where
  "reconcilingResp k uids = Inr (Queued ''reconciling'' k uids)"

definition selectBase :: "manager \<Rightarrow> fault \<Rightarrow> string \<Rightarrow> store \<Rightarrow> answer" where
  "selectBase mg fl k st =
     (if k = '''' then (Inl IdEmpty, st, [])
      else case GetProfile fl st k of
        Inl e \<Rightarrow> (Inl (ProfileNotFound k e), st, [])
      | Inr _ \<Rightarrow>
     (case SetActiveBase fl k st of
        (Some e, st1) \<Rightarrow> (Inl (StoreFailed e), st1, [])
      | (None, st1) \<Rightarrow>
          if \<not> mg_reconciler mg then (Inl NoReconciler, st1, [])
          else if mg_BroadcastEnabled mg \<and> mg_broadcaster mg \<and> mg_BroadcastModelCodes mg \<noteq> []
          then (reconcilingResp k [], st1,
                [BroadcastJob (mg_BroadcastModelCodes mg) (''base select (broadcast): '' @ k)])
          else (reconcilingResp k [], st1, [FleetJob (''base select: '' @ k)])))"

definition overlayContainsUID :: "Overlay \<Rightarrow> string \<Rightarrow> bool" where
  "overlayContainsUID ov uid \<longleftrightarrow> uid \<in> set (ov_UIDs ov)"

definition overlayCodes :: "PointEntry list \<Rightarrow> string list" where
  "overlayCodes points = map pe_ApsCode points"

text \<open>The values a candidate overlay would give, not clamped to any range.\<close>

definition point_values :: "PointEntry list \<Rightarrow> (string \<rightharpoonup> f64) \<Rightarrow> (string \<rightharpoonup> f64)" where
  "point_values ps eff = fold (\<lambda>p m. m(pe_ApsCode p \<mapsto> nv_Value (pe_Native p))) ps eff"

definition candidateConflicts :: "fault \<Rightarrow> store \<Rightarrow> Overlay \<Rightarrow> string list" where
  "candidateConflicts fl st ov =
     (let eff = (case ActiveBase fl st of
                   Inl _ \<Rightarrow> Map.empty
                 | Inr k \<Rightarrow>
                     if k = '''' then Map.empty
                     else case GetProfile fl st k of
                       Inl _ \<Rightarrow> Map.empty
                     | Inr base \<Rightarrow> point_values (pf_Points base) Map.empty)
      in CheckConflicts (point_values (ov_Points ov) eff))"

definition setOverlay ::
  "manager \<Rightarrow> fault \<Rightarrow> (string \<Rightarrow> byte option) \<Rightarrow> string \<Rightarrow> overlay_json \<Rightarrow> store \<Rightarrow> answer" where
  "setOverlay mg fl modelOf uid json st =
     (if uid = '''' then (Inl UidEmpty, st, [])
      else if \<not> gp_uidRe uid then (Inl (UidInvalid uid), st, [])
      else case json of
        NoBytes \<Rightarrow> (Inl OverlayEmpty, st, [])
      | BadBytes \<Rightarrow> (Inl (OverlayRejected SchemaViolation), st, [])
      | OverlayDoc ov \<Rightarrow>
     (case ValidateOverlay (mg_overlaySchema mg) ov of
        Some e \<Rightarrow> (Inl (OverlayRejected e), st, [])
      | None \<Rightarrow>
          if \<not> overlayContainsUID ov uid then (Inl (NotListed uid), st, [])
          else case (if mg_reconciler mg then find (\<lambda>u. modelOf u = None) (uid # ov_UIDs ov) else None) of
            Some u \<Rightarrow> (Inl (NotInFleet u), st, [])
          | None \<Rightarrow>
         (let msgs = candidateConflicts fl st ov
          in if msgs \<noteq> [] then (Inl (ConflictsFound msgs), st, [])
          else case UpsertOverlay fl uid ov st of
            (Some e, st1) \<Rightarrow> (Inl (StoreFailed e), st1, [])
          | (None, st1) \<Rightarrow>
              if \<not> mg_reconciler mg then (Inl NoReconciler, st1, [])
              else (Inr (Queued ''queued'' (ov_ID ov) [uid]), st1,
                    [OverlayJob uid (ov_ID ov) (overlayCodes (ov_Points ov))]))))"

definition clearOverlay :: "manager \<Rightarrow> fault \<Rightarrow> string \<Rightarrow> store \<Rightarrow> answer" where
  "clearOverlay mg fl uid st =
     (if uid = '''' then (Inl UidEmpty, st, [])
      else if \<not> gp_uidRe uid then (Inl (UidInvalid uid), st, [])
      else case ClearOverlay fl uid st of
        (Some e, st1) \<Rightarrow> (Inl (StoreFailed e), st1, [])
      | (None, st1) \<Rightarrow>
          if \<not> mg_reconciler mg then (Inr NoPayload, st1, [])
          else (reconcilingResp '''' [uid], st1, [RevertJob uid (''overlay clear: '' @ uid)]))"

definition effective_finite :: "EffectivePoint \<Rightarrow> bool" where
  "effective_finite ep \<longleftrightarrow> finite64 (ep_NativeValue ep)
     \<and> (case ep_Range ep of None \<Rightarrow> True | Some rg \<Rightarrow> finite64 (rMin rg) \<and> finite64 (rMax rg))"

definition getEffective ::
  "manager \<Rightarrow> fault \<Rightarrow> (string \<Rightarrow> byte option) \<Rightarrow> string \<Rightarrow> store \<Rightarrow> gp_response" where
  "getEffective mg fl modelOf uid st =
     (if uid = '''' then Inl UidEmpty
      else if \<not> mg_reconciler mg then Inl NoReconciler
      else case modelOf uid of
        None \<Rightarrow> Inl (ModelNotKnown uid)
      | Some m \<Rightarrow>
     (case ActiveBase fl st of
        Inl e \<Rightarrow> Inl (NoActive e)
      | Inr baseID \<Rightarrow>
     (case buildDesired (mg_config mg) fl st uid m of
        Inl e \<Rightarrow> Inl (DesiredFailed e)
      | Inr None \<Rightarrow> Inl NoDesired
      | Inr (Some eff) \<Rightarrow>
          if list_all effective_finite (ef_Points eff) then Inr (Effective uid baseID m (ef_Points eff))
          else Inl MarshalError)))"

text \<open>A failed query leaves the empty value in the status.\<close>

definition getStatus :: "manager \<Rightarrow> fault \<Rightarrow> store \<Rightarrow> gp_response" where
  "getStatus mg fl st =
     Inr (StatusOf (case ActiveBase fl st of Inl _ \<Rightarrow> '''' | Inr k \<Rightarrow> k)
       (case ListProfiles fl st of Inl _ \<Rightarrow> [] | Inr ps \<Rightarrow> map pf_ID ps) (mg_reconciler mg))"

definition listOverlays :: "manager \<Rightarrow> fault \<Rightarrow> store \<Rightarrow> gp_response" where
  "listOverlays mg fl st =
     (case ListOverlays (mg_pick mg) fl st of
        Inl e \<Rightarrow> Inl (StoreFailed e)
      | Inr ovs \<Rightarrow> if list_all overlay_finite ovs then Inr (OverlayList ovs) else Inl MarshalError)"

definition base_default :: "PointEntry \<Rightarrow> baseDefault" where
  "base_default pt =
     \<lparr>bd_Value = nv_Value (pe_Native pt), bd_Unit = nv_Unit (pe_Native pt),
      bd_Min = map_option rMin (pe_Range pt), bd_Max = map_option rMax (pe_Range pt)\<rparr>"

definition default_finite :: "baseDefault \<Rightarrow> bool" where
  "default_finite bd \<longleftrightarrow> finite64 (bd_Value bd) \<and> pred_option finite64 (bd_Min bd) \<and> pred_option finite64 (bd_Max bd)"

definition getBase :: "fault \<Rightarrow> store \<Rightarrow> gp_response" where
  "getBase fl st =
     (let k = (case ActiveBase fl st of Inl _ \<Rightarrow> '''' | Inr k \<Rightarrow> k)
      in if k = '''' then Inr (BaseDefaults [])
         else case GetProfile fl st k of
           Inl e \<Rightarrow> Inl (StoreFailed e)
         | Inr p \<Rightarrow>
             let ds = fold (\<lambda>pt ds. AList.update (pe_ApsCode pt) (base_default pt) ds) (pf_Points p) []
             in if list_all (default_finite \<circ> snd) ds then Inr (BaseDefaults ds) else Inl MarshalError)"

definition gp_Handle ::
  "manager \<Rightarrow> fault \<Rightarrow> (string \<Rightarrow> byte option) \<Rightarrow> gp_request option \<Rightarrow> store \<Rightarrow> answer" where
  "gp_Handle mg fl modelOf req st =
     (case req of
        None \<Rightarrow> (Inl NilRequest, st, [])
      | Some ReqListProfiles \<Rightarrow> (listProfiles fl st, st, [])
      | Some ReqRefreshProfiles \<Rightarrow> (let (r, st1) = refreshProfiles mg fl st in (r, st1, []))
      | Some (ReqSelectBase k) \<Rightarrow> selectBase mg fl k st
      | Some (ReqSetOverlay uid json) \<Rightarrow> setOverlay mg fl modelOf uid json st
      | Some (ReqClearOverlay uid) \<Rightarrow> clearOverlay mg fl uid st
      | Some (ReqGetEffective uid) \<Rightarrow> (getEffective mg fl modelOf uid st, st, [])
      | Some ReqGetStatus \<Rightarrow> (getStatus mg fl st, st, [])
      | Some ReqListOverlays \<Rightarrow> (listOverlays mg fl st, st, [])
      | Some ReqGetBase \<Rightarrow> (getBase fl st, st, [])
      | Some ReqUnknown \<Rightarrow> (Inl UnknownOp, st, []))"

section \<open>Reconciling what is persisted\<close>

text \<open>
  The hook that runs when an inverter is first seen, and the sweep over all overlays; both only
  queue work.  The store is present in every configuration of the daemon.
\<close>

definition ReconcileOverlaysForUID ::
  "manager \<Rightarrow> fault \<Rightarrow> (string \<Rightarrow> byte option) \<Rightarrow> string \<Rightarrow> store \<Rightarrow> gp_error option \<times> job list" where
  "ReconcileOverlaysForUID mg fl modelOf uid st =
     (if \<not> mg_reconciler mg then (None, [])
      else if uid = '''' \<or> \<not> gp_uidRe uid then (None, [])
      else if modelOf uid = None then (None, [])
      else case GetOverlay fl st uid of
        Inl e \<Rightarrow> (if e = ErrNoRows then None else Some e, [])
      | Inr ov \<Rightarrow> (None, [OverlayJob uid (ov_ID ov) (overlayCodes (ov_Points ov))]))"

definition ReconcileAllOverlays ::
  "manager \<Rightarrow> fault \<Rightarrow> (string \<Rightarrow> byte option) \<Rightarrow> store \<Rightarrow> gp_error option \<times> job list" where
  "ReconcileAllOverlays mg fl modelOf st =
     (case ListOverlays (mg_pick mg) fl st of
        Inl e \<Rightarrow> (Some e, [])
      | Inr ovs \<Rightarrow>
          if \<not> mg_reconciler mg then (None, [])
          else (None, concat (map (\<lambda>ov. map (\<lambda>uid. OverlayJob uid (ov_ID ov) (overlayCodes (ov_Points ov)))
                 (filter (\<lambda>uid. modelOf uid \<noteq> None) (ov_UIDs ov))) ovs)))"

section \<open>What a replacement inherits\<close>

datatype inherited = NothingInherited | InheritedOverlay string nat

datatype inherit_error = NewUIDInvalid string | InheritStore gp_error | InheritReconcile gp_error

definition remap_uids :: "string \<Rightarrow> string \<Rightarrow> string list \<Rightarrow> string list" where
  "remap_uids old new uids =
     (let us = map (\<lambda>u. if u = old then new else u) uids
      in if new \<in> set us then us else us @ [new])"

text \<open>The reconcile of the new unit that ends both branches.\<close>

definition inherit_reconcile ::
  "manager \<Rightarrow> Options \<Rightarrow> gp_env \<Rightarrow> fault \<Rightarrow> string \<Rightarrow> inherited \<Rightarrow> store \<Rightarrow> log \<Rightarrow>
     (inherit_error + inherited) \<times> store \<times> log" where
  "inherit_reconcile mg opts w fl new r st l =
     (if \<not> mg_reconciler mg then (Inr r, st, l)
      else let (rpt, err, l1) = ReconcileUID (mg_config mg) opts w fl st new l
      in case err of Some e \<Rightarrow> (Inl (InheritReconcile e), st, l1) | None \<Rightarrow> (Inr r, st, l1))"

definition InheritProfile ::
  "manager \<Rightarrow> Options \<Rightarrow> gp_env \<Rightarrow> fault \<Rightarrow> string \<Rightarrow> string \<Rightarrow> store \<Rightarrow> log \<Rightarrow>
     (inherit_error + inherited) \<times> store \<times> log" where
  "InheritProfile mg opts w fl old new st l =
     (if \<not> gp_uidRe new then (Inl (NewUIDInvalid new), st, l)
      else case GetOverlay fl st old of
        Inl e \<Rightarrow>
          if e = ErrNoRows then inherit_reconcile mg opts w fl new NothingInherited st l
          else (Inl (InheritStore e), st, l)
      | Inr ov \<Rightarrow>
     (case UpsertOverlay fl new (ov\<lparr>ov_UIDs := remap_uids old new (ov_UIDs ov)\<rparr>) st of
        (Some e, st1) \<Rightarrow> (Inl (InheritStore e), st1, l)
      | (None, st1) \<Rightarrow>
          inherit_reconcile mg opts w fl new (InheritedOverlay (ov_ID ov) (length (ov_Points ov)))
            (snd (ClearOverlay fl old st1)) l))"

section \<open>The adapters\<close>

text \<open>
  The router is the socket server, a parameter: it says whether the named backend took the
  envelope.  A unicast carries the identifier and leaves the short address to the gateway.
\<close>

record router =
  rt_SendToBackend :: "(string \<Rightarrow> downstream \<Rightarrow> bool) option"
  rt_Backend :: string

definition to_backend :: "router \<Rightarrow> downstream \<Rightarrow> bool" where
  "to_backend rt body =
     (case rt_SendToBackend rt of
        None \<Rightarrow> False
      | Some f \<Rightarrow> rt_Backend rt \<noteq> '''' \<and> f (rt_Backend rt) body)"

definition IPCSender_Send :: "router \<Rightarrow> string \<Rightarrow> bytes \<Rightarrow> bool" where
  "IPCSender_Send rt uid frame = to_backend rt (Send uid 0 frame)"

definition IPCBroadcaster_Broadcast :: "router \<Rightarrow> bytes \<Rightarrow> bool" where
  "IPCBroadcaster_Broadcast rt frame = to_backend rt (Broadcast frame)"

definition IngestReadback_ReadbackNative ::
  "(string \<Rightarrow> (string \<times> f64) list option) option \<Rightarrow> string \<Rightarrow> (string \<times> f64) list option" where
  "IngestReadback_ReadbackNative ingestor uid = (case ingestor of None \<Rightarrow> None | Some f \<Rightarrow> f uid)"

section \<open>When an overlay is stored\<close>

text \<open>All that the manager checks before it stores an overlay.\<close>

definition overlay_acceptable ::
  "manager \<Rightarrow> fault \<Rightarrow> (string \<Rightarrow> byte option) \<Rightarrow> string \<Rightarrow> Overlay \<Rightarrow> store \<Rightarrow> bool" where
  "overlay_acceptable mg fl modelOf uid ov st \<longleftrightarrow>
     gp_uidRe uid \<and> mg_overlaySchema mg ov \<and> ranges_ok (ov_Points ov) \<and> uid \<in> set (ov_UIDs ov)
     \<and> (mg_reconciler mg \<longrightarrow> (\<forall>u \<in> set (ov_UIDs ov). modelOf u \<noteq> None))
     \<and> candidateConflicts fl st ov = [] \<and> overlay_finite ov \<and> \<not> fl (XUpsertOverlay uid)"

lemma uidRe_nonempty [simp]: "\<not> gp_uidRe []"
  by (simp add: gp_uidRe_def)

text \<open>
  The manager stores an overlay exactly when the identifier is well formed, the document
  valid and addressed to that inverter, every inverter it names is in the fleet, the values
  together with the active base violate no rule, and the statement succeeds.  It then changes the
  row of that inverter alone, and queues its apply if there is a reconciler.
\<close>

theorem set_overlay_exact:
  "case setOverlay mg fl modelOf uid (OverlayDoc ov) st of (r, st', jobs) \<Rightarrow>
     if overlay_acceptable mg fl modelOf uid ov st
     then st' = st\<lparr>st_overlays := AList.update uid ov (st_overlays st)\<rparr>
       \<and> (if mg_reconciler mg
          then r = Inr (Queued ''queued'' (ov_ID ov) [uid])
            \<and> jobs = [OverlayJob uid (ov_ID ov) (map pe_ApsCode (ov_Points ov))]
          else r = Inl NoReconciler \<and> jobs = [])
     else isl r \<and> st' = st \<and> jobs = []"
proof (cases "overlay_acceptable mg fl modelOf uid ov st")
  case True
  then have "mg_reconciler mg \<Longrightarrow> find (\<lambda>u. modelOf u = None) (uid # ov_UIDs ov) = None"
    unfolding find_None_iff by (auto simp: overlay_acceptable_def)
  then have "(if mg_reconciler mg then find (\<lambda>u. modelOf u = None) (uid # ov_UIDs ov) else None) = None"
    by (cases "mg_reconciler mg") auto
  then show ?thesis using True
    by (cases "uid = []")
      (auto simp: overlay_acceptable_def setOverlay_def ValidateOverlay_None [THEN iffD2] overlayContainsUID_def
        UpsertOverlay_def overlayCodes_def Let_def simp del: find.simps)
next
  case False
  then show ?thesis
    by (auto simp: overlay_acceptable_def setOverlay_def ValidateOverlay_None overlayContainsUID_def
        UpsertOverlay_def Let_def find_None_iff split: option.split)
qed

section \<open>Every request keeps the store well formed\<close>

lemma setOverlay_ok:
  assumes "store_ok ps (mg_overlaySchema mg) st"
  shows "store_ok ps (mg_overlaySchema mg) (fst (snd (setOverlay mg fl modelOf uid json st)))"
proof (cases json)
  case (OverlayDoc ov)
  have "store_ok ps (mg_overlaySchema mg) (st\<lparr>st_overlays := AList.update uid ov (st_overlays st)\<rparr>)"
    if "overlay_acceptable mg fl modelOf uid ov st"
    using UpsertOverlay_ok [OF assms, of ov "\<lambda>_. False" uid] that
    by (simp add: overlay_acceptable_def UpsertOverlay_def)
  then show ?thesis using set_overlay_exact [of mg fl modelOf uid ov st] assms OverlayDoc
    by (cases "overlay_acceptable mg fl modelOf uid ov st") (auto split: prod.splits)
qed (simp_all add: setOverlay_def assms)

lemma refreshProfiles_ok:
  assumes "store_ok (cf_schema (mg_config mg)) (mg_overlaySchema mg) st"
  shows "store_ok (cf_schema (mg_config mg)) (mg_overlaySchema mg) (snd (refreshProfiles mg fl st))"
  using assms LoadProfilesFromDir_ok LoadOverlaysFromDir_ok
  by (fastforce simp: refreshProfiles_def split: option.split prod.split dest: arg_cong [of _ _ snd])

lemma selectBase_ok:
  assumes "store_ok ps os st"
  shows "store_ok ps os (fst (snd (selectBase mg fl k st)))"
  using SetActiveBase_ok [OF assms, of fl k] assms
  by (auto simp: selectBase_def split: sum.split option.split prod.split)

lemma clearOverlay_ok:
  assumes "store_ok ps os st"
  shows "store_ok ps os (fst (snd (clearOverlay mg fl uid st)))"
  using ClearOverlay_ok [OF assms, of fl uid] assms
  by (auto simp: clearOverlay_def split: option.split prod.split)


section \<open>An accepted overlay the reconciler refuses\<close>

text \<open>
  The base profile and the overlay of the example: the end point of the curve is clamped to the
  base range, the start point is not, and they cross.
\<close>

definition crossing_base :: Profile where
  "crossing_base = ex_base\<lparr>pf_Points := [ex_pt ''CB'' 51 50 58, ex_pt ''CC'' 54 53 55]\<rparr>"

definition crossing_overlay :: Overlay where
  "crossing_overlay = Overlay.make ''invdriver.gridprofile/v1'' ''O'' (Fin 0) [''0123456789AB'']
     [(ex_pt ''CB'' 57 0 0)\<lparr>pe_Range := None\<rparr>, (ex_pt ''CC'' 60 0 0)\<lparr>pe_Range := None\<rparr>]"

definition crossing_store :: store where
  "crossing_store = \<lparr>st_profiles = [(''B'', crossing_base)], st_active = Some ''B'', st_overlays = [],
     st_inverters = []\<rparr>"

definition ex_mg :: manager where
  "ex_mg = \<lparr>mg_config = ex_cf, mg_overlaySchema = (\<lambda>_. True), mg_pick = hd, mg_reconciler = True,
     mg_profilesDir = None, mg_overlaysDir = None, mg_BroadcastEnabled = False, mg_broadcaster = False,
     mg_BroadcastModelCodes = []\<rparr>"

text \<open>
  The manager compares the values of a candidate overlay as they are written, the reconciler as
  they are after clamping: a store and an overlay exist for which the manager stores the overlay
  and queues its apply, and the reconciler refuses the inverter with a conflict from then on.
\<close>

theorem accepted_yet_refused:
  "\<exists>st'. setOverlay ex_mg (\<lambda>_. False) (\<lambda>_. Some ModelDS3) ''0123456789AB'' (OverlayDoc crossing_overlay) crossing_store
      = (Inr (Queued ''queued'' ''O'' [''0123456789AB'']), st', [OverlayJob ''0123456789AB'' ''O'' [''CB'', ''CC'']])
    \<and> store_ok (cf_schema ex_cf) (mg_overlaySchema ex_mg) st'
    \<and> (\<exists>msg. buildDesired ex_cf (\<lambda>_. False) st' ''0123456789AB'' ModelDS3 = Inl (Conflicting [msg]))"
proof -
  let ?st = "crossing_store\<lparr>st_overlays := [(''0123456789AB'', crossing_overlay)]\<rparr>"
  have "setOverlay ex_mg (\<lambda>_. False) (\<lambda>_. Some ModelDS3) ''0123456789AB'' (OverlayDoc crossing_overlay) crossing_store
      = (Inr (Queued ''queued'' ''O'' [''0123456789AB'']), ?st, [OverlayJob ''0123456789AB'' ''O'' [''CB'', ''CC'']])"
    by code_simp
  moreover have "store_ok (cf_schema ex_cf) (mg_overlaySchema ex_mg) ?st"
    by (auto simp: store_ok_def crossing_store_def crossing_base_def crossing_overlay_def profile_ok_def overlay_ok_def
        ex_base_def ex_pt_def ex_cf_def ex_mg_def Profile.defs PointEntry.defs Overlay.defs NativeValue.defs
        ranges_ok_def mk_range_def profile_finite_def overlay_finite_def point_finite_def finite64_def)
  moreover have "buildDesired ex_cf (\<lambda>_. False) ?st ''0123456789AB'' ModelDS3 = Inl (Conflicting [cr_Message (conflictRules ! 1)])"
    by code_simp
  ultimately show ?thesis by blast
qed

section \<open>Inheriting\<close>

lemma inherit_reconcile_store:
  "inherit_reconcile mg opts w fl new r st l = (res, st', l') \<Longrightarrow>
     st' = st \<and> (res = Inr r \<or> (\<exists>e. res = Inl (InheritReconcile e)))"
  by (auto simp: inherit_reconcile_def split: if_splits prod.splits option.splits)

text \<open>
  When the old unit has an overlay, a replacement takes it over: afterwards the new unit has it,
  addressed to itself in place of the old one, the old unit has none, and nothing else in the store
  changed, whether or not the reconcile that follows succeeds.  A unit replaced by itself loses
  its overlay.
\<close>

theorem inherit_moves_overlay:
  assumes "InheritProfile mg opts w fl old new st l = (res, st', l')"
    and "gp_uidRe new" and "map_of (st_overlays st) old = Some ov"
    and "store_ok ps os st" and "\<not> fl (QGetOverlay old)" and "\<not> fl (XUpsertOverlay new)" and "\<not> fl (XClearOverlay old)"
  shows "map_of (st_overlays st') = ((map_of (st_overlays st))
      (new \<mapsto> ov\<lparr>ov_UIDs := remap_uids old new (ov_UIDs ov)\<rparr>))(old := None)
    \<and> new \<in> set (remap_uids old new (ov_UIDs ov)) \<and> (old = new \<or> old \<notin> set (remap_uids old new (ov_UIDs ov)))
    \<and> st' = st\<lparr>st_overlays := st_overlays st'\<rparr>
    \<and> (res = Inr (InheritedOverlay (ov_ID ov) (length (ov_Points ov))) \<or> (\<exists>e. res = Inl (InheritReconcile e)))"
proof -
  let ?ov = "ov\<lparr>ov_UIDs := remap_uids old new (ov_UIDs ov)\<rparr>"
  let ?st = "st\<lparr>st_overlays := AList.delete old (AList.update new ?ov (st_overlays st))\<rparr>"
  have fin: "overlay_finite ?ov"
    using assms(3,4) map_of_SomeD [OF assms(3)] by (auto simp: store_ok_def list_all_iff overlay_ok_def overlay_finite_def)
  have "inherit_reconcile mg opts w fl new (InheritedOverlay (ov_ID ov) (length (ov_Points ov))) ?st l = (res, st', l')"
    using assms fin by (simp add: InheritProfile_def GetOverlay_def UpsertOverlay_def ClearOverlay_def)
  then have "st' = ?st" "res = Inr (InheritedOverlay (ov_ID ov) (length (ov_Points ov))) \<or> (\<exists>e. res = Inl (InheritReconcile e))"
    using inherit_reconcile_store by blast+
  then show ?thesis
    by (auto simp: remap_uids_def Let_def delete_conv' map_of_update)
qed

lemma inherit_reconcile_fails:
  assumes "InheritProfile mg opts w fl old new st l = (res, st', l')"
    and "mg_reconciler mg" and "e_modelOf w l new = None"
  shows "isl res"
  using assms
  by (auto simp: InheritProfile_def inherit_reconcile_def ReconcileUID_def split: if_splits sum.splits option.splits prod.splits)

text \<open>
  A replacement whose model the daemon does not know yet always fails to inherit, although the
  overlay has moved by then; binding a unit stores its address and not its model.
\<close>

theorem inherit_needs_model:
  assumes "InheritProfile mg opts w fl old new st l = (res, st', l')"
    and "mg_reconciler mg" and "e_modelOf w l new = None"
  shows "isl res"
  by (rule inherit_reconcile_fails [OF assms])

section \<open>What the reconciler sends reaches the radio\<close>

lemma reconcile_sent_encoded:
  assumes "ReconcileUID cf opts w fl st uid l = (rpt, err, l')" and "(u, f) \<in> sends l'" and "(u, f) \<notin> sends l"
  shows "u = uid \<and> (\<exists>m p v fs. EncodeSetProtection (cf_conv cf) m p v = Inr fs \<and> f \<in> set fs)"
proof -
  obtain m and ef :: EffectiveProfile and prs stop where "reconcile_points (cf_conv cf) (op_AutoReassert opts) w uid m (e_readback w l uid)
      (ef_Points ef) (l @ [Polled uid]) = (prs, stop, l')"
    using assms by (auto simp: ReconcileUID_def Let_def split: option.splits sum.splits prod.splits)
  from reconcile_points_sends [OF this] assms(2,3)
  obtain ep fs where d: "u = uid" "drifted (cf_conv cf) m (e_readback w l uid) ep fs" "f \<in> set fs" by auto
  then have "EncodeEffectivePoint (cf_conv cf) m ep = Inr fs" by (auto simp: drifted_def)
  from encode_point_frames [OF this d(3)] show ?thesis using d(1,3) by blast
qed

text \<open>
  C32: every frame a reconcile pass hands to its sender passes the gate of the gateway; once the
  gateway has learned the inverter's address, the envelope the adapter makes of it is injected to
  that address.
\<close>

theorem frames_reach_radio:
  assumes "ReconcileUID cf opts w fl st uid l = (rpt, err, l')" and "(u, f) \<in> sends l'" and "(u, f) \<notin> sends l"
    and "uid \<noteq> ''''" and "cl_OnSend c = Some cb" and "LookupSA uid (cl_Inventory c) = Some sa"
  shows "cl_injected (handleInbound modem (Send u 0 f) c) = cl_injected c @ [BuildL1Frame sa f]"
proof -
  obtain m p v fs where e: "u = uid" "EncodeSetProtection (cf_conv cf) m p v = Inr fs" "f \<in> set fs"
    using reconcile_sent_encoded [OF assms(1-3)] by blast
  then show ?thesis
    using assms(4-6) protection_accepted [OF e(2,3)]
    by (simp add: handleInbound_def dispatchSend_def injectL1_injected)
qed

section \<open>Concrete runs\<close>

definition ex_uid :: string where "ex_uid = ''0123456789AB''"


definition ex_inherited :: store where
  "ex_inherited = (ex_store (ex_ov 53 49 54))\<lparr>st_overlays := [(ex_uid, (ex_ov 53 49 54)\<lparr>ov_UIDs := [ex_uid]\<rparr>)]\<rparr>"

lemma ex_inherit:
  "InheritProfile (ex_mg\<lparr>mg_reconciler := False\<rparr>) defaultOptions ex_env (\<lambda>_. False) ''U'' ex_uid
     (ex_store (ex_ov 53 49 54)) [] = (Inr (InheritedOverlay ''O'' 1), ex_inherited, [])"
  by code_simp

lemma inherit_moves_overlay_witness:
  "map_of (st_overlays ex_inherited) ''U'' = None
    \<and> map_of (st_overlays ex_inherited) ex_uid = Some ((ex_ov 53 49 54)\<lparr>ov_UIDs := remap_uids ''U'' ex_uid [''U'']\<rparr>)"
proof -
  have "gp_uidRe ex_uid" by code_simp
  then show ?thesis
    using inherit_moves_overlay [OF ex_inherit, of "ex_ov 53 49 54" "\<lambda>_. True" "\<lambda>_. True"]
    by (simp add: ex_lookups ex_store_ok) (simp add: ex_uid_def ex_ov_def Overlay.defs)
qed

lemma inherit_needs_model_witness:
  "isl (fst (InheritProfile ex_mg defaultOptions (ex_env\<lparr>e_modelOf := \<lambda>_ _. None\<rparr>) (\<lambda>_. False) ''U'' ex_uid
     (ex_store (ex_ov 53 49 54)) []))"
proof -
  obtain res st' l' where r: "InheritProfile ex_mg defaultOptions (ex_env\<lparr>e_modelOf := \<lambda>_ _. None\<rparr>) (\<lambda>_. False) ''U'' ex_uid
     (ex_store (ex_ov 53 49 54)) [] = (res, st', l')" by (metis prod_cases3)
  show ?thesis using inherit_needs_model [OF r] r by (simp add: ex_mg_def)
qed

definition ex_client :: client where
  "ex_client = sample_client\<lparr>cl_Inventory := Some [''u'' \<mapsto> 0x1234]\<rparr>"

lemma frames_reach_radio_witness:
  "cl_injected (handleInbound (\<lambda>_. None) (Send ''U'' 0 (ex_frame 0x2B 0x14 0x50)) ex_client)
     = cl_injected ex_client @ [BuildL1Frame 0x1234 (ex_frame 0x2B 0x14 0x50)]"
proof (rule frames_reach_radio [OF ex_run])
  show "cl_OnSend ex_client = Some (\<lambda>_. True)" by (simp add: ex_client_def sample_client_def)
  show "LookupSA ''U'' (cl_Inventory ex_client) = Some 0x1234" by code_simp
qed (auto simp: sends_def ex_log_def write_trace_def)

end
