(* ===== verification/GridReplace.thy ===== *)
theory GridReplace
  imports GridManager PairWitness
begin

text \<open>
  The pairing operation that replaces an inverter, with the profile manager of the grid as its
  inheriter (\<open>internal/pairing/statemachine.go\<close> and \<open>internal/gridprofile/manager.go\<close>).
\<close>

text \<open>
  What the daemon hands to the pairing manager: the summary of the manager's \<open>InheritProfile\<close>, or
  nothing when it failed.  \<open>sm\<close> is the text of a summary.
\<close>

definition inheriting ::
  "(inherited \<Rightarrow> string) \<Rightarrow> manager \<Rightarrow> Options \<Rightarrow> gp_env \<Rightarrow> fault \<Rightarrow> store \<Rightarrow> log \<Rightarrow> string \<Rightarrow> string \<Rightarrow> string option" where
  "inheriting sm mg opts w fl st l old new =
     (case GridManager.InheritProfile mg opts w fl old new st l of
        (Inl _, _) \<Rightarrow> None
      | (Inr r, _) \<Rightarrow> Some (sm r))"

text \<open>
  A replacement by a unit whose model the daemon does not know, which is every unit that never
  sent telemetry, since binding stores no model and the operation keeps the poller off the bus,
  never completes: the old unit is not retired and the operation ends in an error or aborted.
\<close>

theorem replace_unknown_fails:
  assumes "run_state (runReplace E oldUID newSerial) w = ((), w')" and "e_store E"
    and "e_profiles E = Some (inheriting sm mg opts gw fl st l)"
    and "mg_reconciler mg" and "e_modelOf gw l newSerial = None"
  shows "deletes (w_log w') = deletes (w_log w) \<and> ps_Stage (w_status w') \<in> {StageError, StageAborted}"
proof -
  obtain res st' l' where r: "GridManager.InheritProfile mg opts gw fl oldUID newSerial st l = (res, st', l')"
    by (metis prod_cases3)
  from inherit_reconcile_fails [OF r assms(4,5)] obtain e where "res = Inl e" by (cases res) auto
  then have "inheriting sm mg opts gw fl st l oldUID newSerial = None"
    using r by (simp add: inheriting_def)
  then show ?thesis using replace_outcome [OF assms(1,2)] assms(3) by auto
qed

lemma replace_unknown_fails_witness:
  "ps_Stage (w_status (snd (run_state (runReplace ((sample_env agreeable)\<lparr>e_profiles :=
       Some (inheriting (\<lambda>_. []) ex_mg defaultOptions (ex_env\<lparr>e_modelOf := \<lambda>_ _. None\<rparr>) (\<lambda>_. False)
         (ex_store (ex_ov 53 49 54)) [])\<rparr>) ''A0B1C2D3E4F5'' sample_serial) (sample_world ()))))
     \<in> {StageError, StageAborted}"
proof -
  let ?E = "(sample_env agreeable)\<lparr>e_profiles :=
       Some (inheriting (\<lambda>_. []) ex_mg defaultOptions (ex_env\<lparr>e_modelOf := \<lambda>_ _. None\<rparr>) (\<lambda>_. False)
         (ex_store (ex_ov 53 49 54)) [])\<rparr>"
  show ?thesis
    using replace_unknown_fails [OF run_unit, of ?E "\<lambda>_. []" ex_mg defaultOptions
        "ex_env\<lparr>e_modelOf := \<lambda>_ _. None\<rparr>" "\<lambda>_. False" "ex_store (ex_ov 53 49 54)" "[]"
        sample_serial "''A0B1C2D3E4F5''" "sample_world ()"]
    by (simp add: ex_mg_def sample_env_def)
qed

end
