(* ===== verification/GridApply.thy ===== *)
theory GridApply
  imports GridManager BusLock
begin

text \<open>
  The background applier (\<open>overlay_async.go\<close> and \<open>base_async.go\<close> in \<open>internal/gridprofile\<close>).
  Every queued apply and every fleet-wide apply is a goroutine; a step is what one of them does
  between two points at which another can interfere, in any interleaving.  Contexts become the
  cause with which a job was cancelled, the semaphore a counter, the \<open>done\<close> channel the last
  program point.  What a reconcile reports is arbitrary, and so are the fleet enumerations and the
  outcome of a broadcast.  The theorems: at most three inverters are reconciled at a time, at most
  one live apply of an inverter is not cancelled, every apply that was not superseded leaves
  exactly one terminal row, two applies of one inverter can still run at the same time, and the
  bus is held by one broadcast at a time.
\<close>

section \<open>Jobs and events\<close>

definition asyncMaxConcurrentUIDs :: nat where "asyncMaxConcurrentUIDs = 3"

datatype cause = Superseded | Shutdown

datatype outcome = Aborted nat nat | Counted nat nat

datatype apply_event =
    ApplyStarted string string nat
  | ParamWritten string string string f64
  | ParamFailed string string string result
  | ApplyFailed string string gp_error
  | ApplyComplete string string bool outcome

datatype apc =
    Queueing
  | Checking
  | Reconciling
  | Reported "PointResult list" "gp_error option"
  | Points "PointResult list" nat nat nat
  | Emit apply_event apc
  | Releasing
  | Clearing
  | Closing
  | Finished

record apply_job =
  aj_uid :: string
  aj_overlayID :: string
  aj_pointCount :: nat
  aj_codes :: "string list option"
  aj_cause :: "cause option"
  aj_pc :: apc

definition in_scope :: "string list option \<Rightarrow> string \<Rightarrow> bool" where
  "in_scope codes c \<longleftrightarrow> (case codes of None \<Rightarrow> True | Some cs \<Rightarrow> c \<in> set cs)"

definition good_result :: "result \<Rightarrow> bool" where
  "good_result r \<longleftrightarrow> r \<in> {RInSync, RApplied, RUnknown}"

definition countResultsScoped :: "PointResult list \<Rightarrow> (string \<Rightarrow> bool) \<Rightarrow> nat \<times> nat" where
  "countResultsScoped points inScope =
     (let ps = filter (\<lambda>pr. inScope (pr_ApsCode pr)) points
      in (length (filter (\<lambda>pr. good_result (pr_Result pr)) ps),
          length (filter (\<lambda>pr. \<not> good_result (pr_Result pr)) ps)))"

section \<open>One job\<close>

text \<open>A cancelled job: silent when superseded, else a last row; \<open>k\<close> is where it goes on.\<close>

definition abort_at :: "apply_job \<Rightarrow> cause \<Rightarrow> nat \<Rightarrow> nat \<Rightarrow> apc \<Rightarrow> apc" where
  "abort_at b c ok n k =
     (if c = Superseded then k
      else Emit (ApplyComplete (aj_uid b) (aj_overlayID b) True (Aborted ok n)) k)"

definition completing :: "apply_job \<Rightarrow> nat \<Rightarrow> nat \<Rightarrow> apc" where
  "completing b ok failed =
     Emit (ApplyComplete (aj_uid b) (aj_overlayID b) (failed > 0) (Counted ok failed)) Releasing"

definition after_acquire :: "apply_job \<Rightarrow> apc" where
  "after_acquire b =
     (case aj_cause b of
        Some c \<Rightarrow> abort_at b c 0 (aj_pointCount b) Releasing
      | None \<Rightarrow> Emit (ApplyStarted (aj_uid b) (aj_overlayID b) (aj_pointCount b)) Reconciling)"

definition after_report :: "apply_job \<Rightarrow> PointResult list \<Rightarrow> gp_error option \<Rightarrow> apc" where
  "after_report b points err =
     (case aj_cause b of
        Some c \<Rightarrow> (let (ok, failed) = countResultsScoped points (in_scope (aj_codes b))
                   in abort_at b c ok (ok + failed) Releasing)
      | None \<Rightarrow>
          (case err of
             Some e \<Rightarrow> Emit (ApplyFailed (aj_uid b) (aj_overlayID b) e) (completing b 0 1)
           | None \<Rightarrow> (let ps = filter (\<lambda>pr. in_scope (aj_codes b) (pr_ApsCode pr)) points
                      in Points ps 0 0 (length ps))))"

definition after_point :: "apply_job \<Rightarrow> PointResult \<Rightarrow> PointResult list \<Rightarrow> nat \<Rightarrow> nat \<Rightarrow> nat \<Rightarrow> apc" where
  "after_point b pr prs ok failed n =
     (case aj_cause b of
        Some c \<Rightarrow> abort_at b c ok n Releasing
      | None \<Rightarrow>
          if pr_Result pr \<in> {RInSync, RApplied}
          then Emit (ParamWritten (aj_uid b) (aj_overlayID b) (pr_ApsCode pr) (pr_Intended pr)) (Points prs (ok + 1) failed n)
          else if pr_Result pr = RUnknown then Points prs (ok + 1) failed n
          else Emit (ParamFailed (aj_uid b) (aj_overlayID b) (pr_ApsCode pr) (pr_Result pr)) (Points prs ok (failed + 1) n))"

section \<open>The applier\<close>

text \<open>A fleet-wide apply, unicast or after a broadcast.\<close>

datatype fleet_outcome =
    EnumerateFailed | FleetAborted | FleetReconciled nat | FleetNoRunner | FleetBusBusy string | FleetBroadcastFailed gp_error

datatype fleet_event = FleetStarted string | FleetComplete string bool fleet_outcome

datatype fpc =
    FleetAcquire
  | FleetBroadcasting
  | FleetEnumerate
  | FleetEnqueue "string list" "nat list" nat
  | FleetWait "nat list" nat
  | FleetEmit fleet_event fpc
  | FleetUnlock
  | FleetDone

record fleet =
  ft_label :: string
  ft_broadcast :: bool
  ft_lock :: bool
  ft_pc :: fpc

datatype owner = ByJob nat | ByFleet nat

record applier =
  ap_jobs :: "string \<rightharpoonup> nat"
  ap_run :: "apply_job list"
  ap_sema :: nat
  ap_shutdown :: bool
  ap_fleets :: "fleet list"
  ap_lock :: lock
  ap_events :: "(owner \<times> (apply_event + fleet_event)) list"

definition newApplier :: "lock \<Rightarrow> applier" where
  "newApplier l = \<lparr>ap_jobs = Map.empty, ap_run = [], ap_sema = 0, ap_shutdown = False, ap_fleets = [],
     ap_lock = l, ap_events = []\<rparr>"

text \<open>The first cause of a cancellation is the one that stays.\<close>

definition cancel_job :: "cause \<Rightarrow> apply_job \<Rightarrow> apply_job" where
  "cancel_job c b = (if aj_cause b = None then b\<lparr>aj_cause := Some c\<rparr> else b)"

text \<open>
  Queueing a job: it supersedes the job its inverter has in the table, and is born cancelled when
  the daemon is shutting down.
\<close>

definition enqueueInternal :: "string \<Rightarrow> string \<Rightarrow> nat \<Rightarrow> string list option \<Rightarrow> applier \<Rightarrow> applier" where
  "enqueueInternal uid overlayID pointCount codes a =
     (let run = (case ap_jobs a uid of
                   None \<Rightarrow> ap_run a
                 | Some prev \<Rightarrow> (ap_run a)[prev := cancel_job Superseded (ap_run a ! prev)]);
          b = \<lparr>aj_uid = uid, aj_overlayID = overlayID, aj_pointCount = pointCount, aj_codes = codes,
               aj_cause = (if ap_shutdown a then Some Shutdown else None), aj_pc = Queueing\<rparr>
      in a\<lparr>ap_jobs := (ap_jobs a)(uid \<mapsto> length run), ap_run := run @ [b]\<rparr>)"

definition enqueueWithPoints :: "string \<Rightarrow> string \<Rightarrow> string list \<Rightarrow> applier \<Rightarrow> applier" where
  "enqueueWithPoints uid overlayID codes = enqueueInternal uid overlayID (length codes) (Some codes)"

definition start_fleet :: "string \<Rightarrow> bool \<Rightarrow> bool \<Rightarrow> fpc \<Rightarrow> applier \<Rightarrow> applier" where
  "start_fleet label bc has_lock k a =
     a\<lparr>ap_fleets := ap_fleets a @ [\<lparr>ft_label = label, ft_broadcast = bc, ft_lock = has_lock,
        ft_pc = FleetEmit (FleetStarted label) k\<rparr>]\<rparr>"

definition enqueueFleet :: "string \<Rightarrow> applier \<Rightarrow> applier" where
  "enqueueFleet label = start_fleet label False False FleetEnumerate"

text \<open>\<open>runner\<close> says whether the reconciler can broadcast.\<close>

definition enqueueBroadcastFleet :: "string \<Rightarrow> bool \<Rightarrow> bool \<Rightarrow> applier \<Rightarrow> applier" where
  "enqueueBroadcastFleet label runner has_lock =
     start_fleet label True has_lock
       (if \<not> runner then FleetEmit (FleetComplete label True FleetNoRunner) FleetDone
        else if has_lock then FleetAcquire else FleetBroadcasting)"

text \<open>What the manager queued, handed to the applier.\<close>

fun start_job :: "bool \<Rightarrow> bool \<Rightarrow> job \<Rightarrow> applier \<Rightarrow> applier" where
  "start_job runner has_lock (OverlayJob uid k codes) = enqueueWithPoints uid k codes"
| "start_job runner has_lock (RevertJob uid label) = enqueueInternal uid label 0 None"
| "start_job runner has_lock (FleetJob label) = enqueueFleet label"
| "start_job runner has_lock (BroadcastJob codes label) = enqueueBroadcastFleet label runner has_lock"

section \<open>Steps\<close>

definition goto :: "nat \<Rightarrow> apc \<Rightarrow> applier \<Rightarrow> applier" where
  "goto j pc a = a\<lparr>ap_run := (ap_run a)[j := (ap_run a ! j)\<lparr>aj_pc := pc\<rparr>]\<rparr>"

definition clearJob :: "string \<Rightarrow> nat \<Rightarrow> applier \<Rightarrow> applier" where
  "clearJob uid j a = (if ap_jobs a uid = Some j then a\<lparr>ap_jobs := (ap_jobs a)(uid := None)\<rparr> else a)"

inductive run_step :: "nat \<Rightarrow> applier \<Rightarrow> applier \<Rightarrow> bool" for j a where
  run_acquire: "aj_pc (ap_run a ! j) = Queueing \<Longrightarrow> ap_sema a < asyncMaxConcurrentUIDs \<Longrightarrow>
      run_step j a (goto j Checking (a\<lparr>ap_sema := ap_sema a + 1\<rparr>))"
| run_cancelled: "aj_pc (ap_run a ! j) = Queueing \<Longrightarrow> aj_cause (ap_run a ! j) = Some c \<Longrightarrow>
      run_step j a (goto j (abort_at (ap_run a ! j) c 0 (aj_pointCount (ap_run a ! j)) Clearing) a)"
| run_check: "aj_pc (ap_run a ! j) = Checking \<Longrightarrow> run_step j a (goto j (after_acquire (ap_run a ! j)) a)"
| run_reconcile: "aj_pc (ap_run a ! j) = Reconciling \<Longrightarrow> run_step j a (goto j (Reported points err) a)"
| run_report: "aj_pc (ap_run a ! j) = Reported points err \<Longrightarrow>
      run_step j a (goto j (after_report (ap_run a ! j) points err) a)"
| run_point: "aj_pc (ap_run a ! j) = Points (pr # prs) ok failed n \<Longrightarrow>
      run_step j a (goto j (after_point (ap_run a ! j) pr prs ok failed n) a)"
| run_points: "aj_pc (ap_run a ! j) = Points [] ok failed n \<Longrightarrow>
      run_step j a (goto j (completing (ap_run a ! j) ok failed) a)"
| run_emit: "aj_pc (ap_run a ! j) = Emit ev k \<Longrightarrow>
      run_step j a (goto j k (a\<lparr>ap_events := ap_events a @ [(ByJob j, Inl ev)]\<rparr>))"
| run_release: "aj_pc (ap_run a ! j) = Releasing \<Longrightarrow>
      run_step j a (goto j Clearing (a\<lparr>ap_sema := ap_sema a - 1\<rparr>))"
| run_clear: "aj_pc (ap_run a ! j) = Clearing \<Longrightarrow>
      run_step j a (goto j Closing (clearJob (aj_uid (ap_run a ! j)) j a))"
| run_close: "aj_pc (ap_run a ! j) = Closing \<Longrightarrow> run_step j a (goto j Finished a)"

definition fleet_goto :: "nat \<Rightarrow> fpc \<Rightarrow> applier \<Rightarrow> applier" where
  "fleet_goto k pc a = a\<lparr>ap_fleets := (ap_fleets a)[k := (ap_fleets a ! k)\<lparr>ft_pc := pc\<rparr>]\<rparr>"

text \<open>The last row of a fleet apply, and the release of the bus that a broadcast deferred.\<close>

definition fleet_end :: "fleet \<Rightarrow> bool \<Rightarrow> fleet_outcome \<Rightarrow> fpc" where
  "fleet_end ft warn r =
     FleetEmit (FleetComplete (ft_label ft) warn r) (if ft_lock ft then FleetUnlock else FleetDone)"

definition broadcastBusOwner :: string where "broadcastBusOwner = ''gridprofile-broadcast''"

inductive fleet_step :: "nat \<Rightarrow> applier \<Rightarrow> applier \<Rightarrow> bool" for k a where
  fleet_busy: "ft_pc (ap_fleets a ! k) = FleetAcquire \<Longrightarrow>
      TryAcquire broadcastBusOwner (ap_lock a) = (l, False, own) \<Longrightarrow>
      fleet_step k a (fleet_goto k (FleetEmit (FleetComplete (ft_label (ap_fleets a ! k)) True (FleetBusBusy own)) FleetDone)
        (a\<lparr>ap_lock := l\<rparr>))"
| fleet_acquire: "ft_pc (ap_fleets a ! k) = FleetAcquire \<Longrightarrow>
      TryAcquire broadcastBusOwner (ap_lock a) = (l, True, own) \<Longrightarrow>
      fleet_step k a (fleet_goto k FleetBroadcasting (a\<lparr>ap_lock := l\<rparr>))"
| fleet_broadcast: "ft_pc (ap_fleets a ! k) = FleetBroadcasting \<Longrightarrow>
      fleet_step k a (fleet_goto k (case err of
          Some e \<Rightarrow> fleet_end (ap_fleets a ! k) True (FleetBroadcastFailed e)
        | None \<Rightarrow> FleetEnumerate) a)"
| fleet_enumerate: "ft_pc (ap_fleets a ! k) = FleetEnumerate \<Longrightarrow>
      fleet_step k a (fleet_goto k (case found of
          None \<Rightarrow> fleet_end (ap_fleets a ! k) True EnumerateFailed
        | Some uids \<Rightarrow> FleetEnqueue uids [] (length uids)) a)"
| fleet_enqueue: "ft_pc (ap_fleets a ! k) = FleetEnqueue (uid # uids) dones n \<Longrightarrow>
      fleet_step k a (fleet_goto k (FleetEnqueue uids (dones @ [length (ap_run a)]) n)
        (enqueueInternal uid (ft_label (ap_fleets a ! k)) 0 None a))"
| fleet_enqueued: "ft_pc (ap_fleets a ! k) = FleetEnqueue [] dones n \<Longrightarrow>
      fleet_step k a (fleet_goto k (FleetWait dones n) a)"
| fleet_done: "ft_pc (ap_fleets a ! k) = FleetWait (d # dones) n \<Longrightarrow> aj_pc (ap_run a ! d) = Finished \<Longrightarrow>
      fleet_step k a (fleet_goto k (FleetWait dones n) a)"
| fleet_aborted: "ft_pc (ap_fleets a ! k) = FleetWait (d # dones) n \<Longrightarrow> ap_shutdown a \<Longrightarrow>
      fleet_step k a (fleet_goto k (fleet_end (ap_fleets a ! k) True FleetAborted) a)"
| fleet_complete: "ft_pc (ap_fleets a ! k) = FleetWait [] n \<Longrightarrow>
      fleet_step k a (fleet_goto k (fleet_end (ap_fleets a ! k) False (FleetReconciled n)) a)"
| fleet_emit: "ft_pc (ap_fleets a ! k) = FleetEmit ev pc \<Longrightarrow>
      fleet_step k a (fleet_goto k pc (a\<lparr>ap_events := ap_events a @ [(ByFleet k, Inr ev)]\<rparr>))"
| fleet_unlock: "ft_pc (ap_fleets a ! k) = FleetUnlock \<Longrightarrow>
      fleet_step k a (fleet_goto k FleetDone (a\<lparr>ap_lock := Release (ap_lock a)\<rparr>))"

text \<open>
  The daemon: a request queues a job, the root context is cancelled, a goroutine moves, or another
  user of the bus takes it or gives it back.
\<close>

inductive applier_step :: "applier \<Rightarrow> applier \<Rightarrow> bool" for a where
  apply_request: "applier_step a (start_job runner has_lock q a)"
| apply_shutdown: "applier_step a (a\<lparr>ap_shutdown := True, ap_run := map (cancel_job Shutdown) (ap_run a)\<rparr>)"
| apply_run: "j < length (ap_run a) \<Longrightarrow> run_step j a a' \<Longrightarrow> applier_step a a'"
| apply_fleet: "k < length (ap_fleets a) \<Longrightarrow> fleet_step k a a' \<Longrightarrow> applier_step a a'"
| bus_taken: "own \<noteq> broadcastBusOwner \<Longrightarrow> TryAcquire own (ap_lock a) = (l, True, o') \<Longrightarrow>
      applier_step a (a\<lparr>ap_lock := l\<rparr>)"
| bus_given_back: "lk_held (ap_lock a) \<Longrightarrow> lk_owner (ap_lock a) \<noteq> broadcastBusOwner \<Longrightarrow>
      applier_step a (a\<lparr>ap_lock := Release (ap_lock a)\<rparr>)"

inductive applier_reachable :: "applier \<Rightarrow> bool" where
  reach_new: "\<not> lk_held l \<Longrightarrow> applier_reachable (newApplier l)"
| reach_step: "applier_reachable a \<Longrightarrow> applier_step a a' \<Longrightarrow> applier_reachable a'"

lemma applier_invariant:
  assumes "applier_reachable a"
    and "\<And>l. \<not> lk_held l \<Longrightarrow> I (newApplier l)"
    and "\<And>a runner has_lock q. I a \<Longrightarrow> I (start_job runner has_lock q a)"
    and "\<And>a. I a \<Longrightarrow> I (a\<lparr>ap_shutdown := True, ap_run := map (cancel_job Shutdown) (ap_run a)\<rparr>)"
    and "\<And>j a a'. run_step j a a' \<Longrightarrow> j < length (ap_run a) \<Longrightarrow> I a \<Longrightarrow> I a'"
    and "\<And>k a a'. fleet_step k a a' \<Longrightarrow> I a \<Longrightarrow> I a'"
    and "\<And>a l. I a \<Longrightarrow> I (a\<lparr>ap_lock := l\<rparr>)"
  shows "I a"
  using assms(1)
proof (induction rule: applier_reachable.induct)
  case (reach_new l)
  then show ?case by (rule assms(2))
next
  case (reach_step a a')
  from reach_step(2) show ?case
    by cases (use reach_step(3) assms(3-7) in blast)+
qed

section \<open>Updating one job of a list\<close>

lemma count_update:
  "j < length xs \<Longrightarrow>
     length (filter P (xs[j := y])) + of_bool (P (xs ! j)) = length (filter P xs) + of_bool (P y)"
proof (induction xs arbitrary: j)
  case (Cons x xs)
  show ?case
  proof (cases j)
    case (Suc i)
    then have "length (filter P (xs[i := y])) + of_bool (P (xs ! i)) = length (filter P xs) + of_bool (P y)"
      using Cons by simp
    then show ?thesis using Suc by simp
  qed simp
qed simp

lemma goto_simps [simp]:
  "ap_sema (goto j pc a) = ap_sema a" "ap_jobs (goto j pc a) = ap_jobs a" "ap_events (goto j pc a) = ap_events a"
  "ap_fleets (goto j pc a) = ap_fleets a" "ap_lock (goto j pc a) = ap_lock a" "ap_shutdown (goto j pc a) = ap_shutdown a"
  "length (ap_run (goto j pc a)) = length (ap_run a)"
  "ap_run (goto j pc a) = (ap_run a)[j := (ap_run a ! j)\<lparr>aj_pc := pc\<rparr>]"
  by (simp_all add: goto_def)

lemma clearJob_simps [simp]:
  "ap_sema (clearJob u j a) = ap_sema a" "ap_run (clearJob u j a) = ap_run a" "ap_events (clearJob u j a) = ap_events a"
  "ap_fleets (clearJob u j a) = ap_fleets a" "ap_lock (clearJob u j a) = ap_lock a"
  by (simp_all add: clearJob_def)

lemma fleet_goto_simps [simp]:
  "ap_sema (fleet_goto k pc a) = ap_sema a" "ap_jobs (fleet_goto k pc a) = ap_jobs a" "ap_run (fleet_goto k pc a) = ap_run a"
  "ap_events (fleet_goto k pc a) = ap_events a" "ap_lock (fleet_goto k pc a) = ap_lock a"
  "ap_fleets (fleet_goto k pc a) = (ap_fleets a)[k := (ap_fleets a ! k)\<lparr>ft_pc := pc\<rparr>]"
  by (simp_all add: fleet_goto_def)

lemma cancel_job_simps [simp]:
  "aj_pc (cancel_job c b) = aj_pc b" "aj_uid (cancel_job c b) = aj_uid b" "aj_cause (cancel_job c b) \<noteq> None"
  "aj_overlayID (cancel_job c b) = aj_overlayID b" "aj_pointCount (cancel_job c b) = aj_pointCount b"
  by (simp_all add: cancel_job_def)

section \<open>At most three at a time\<close>

text \<open>The program points at which a job holds a place of the semaphore.\<close>

fun holds_place :: "apc \<Rightarrow> bool" where
  "holds_place (Emit ev k) \<longleftrightarrow> holds_place k"
| "holds_place pc \<longleftrightarrow> pc \<notin> {Queueing, Clearing, Closing, Finished}"

definition places :: "applier \<Rightarrow> nat" where
  "places a = length (filter (holds_place \<circ> aj_pc) (ap_run a))"

lemma places_goto:
  "j < length (ap_run a) \<Longrightarrow>
     places (goto j pc a) =
       (if holds_place (aj_pc (ap_run a ! j)) then (if holds_place pc then places a else places a - 1)
        else if holds_place pc then places a + 1 else places a)"
  using count_update [of j "ap_run a" "holds_place \<circ> aj_pc" "(ap_run a ! j)\<lparr>aj_pc := pc\<rparr>"]
  by (cases "holds_place pc"; cases "holds_place (aj_pc (ap_run a ! j))") (simp_all add: places_def)

lemma places_cong: "map aj_pc (ap_run a') = map aj_pc (ap_run a) \<Longrightarrow> places a' = places a"
  unfolding places_def by (metis filter_map length_map)

lemma holds_after [simp]:
  "holds_place (abort_at b c ok n k) = holds_place k" "holds_place (after_acquire b)"
  "holds_place (after_report b points err)" "holds_place (after_point b pr prs ok failed n)"
  "holds_place (completing b ok failed)"
  by (simp_all add: abort_at_def after_acquire_def after_report_def after_point_def completing_def Let_def
      split: option.split prod.split)

definition sema_inv :: "applier \<Rightarrow> bool" where
  "sema_inv a \<longleftrightarrow> ap_sema a = places a \<and> ap_sema a \<le> asyncMaxConcurrentUIDs"

lemma places_same [simp]:
  "places (a\<lparr>ap_sema := n\<rparr>) = places a" "places (a\<lparr>ap_events := es\<rparr>) = places a" "places (a\<lparr>ap_lock := l\<rparr>) = places a"
  "places (clearJob u j a) = places a" "places (fleet_goto k pc a) = places a" "places (a\<lparr>ap_fleets := fs\<rparr>) = places a"
  by (simp_all add: places_def)

lemma places_enqueue [simp]: "places (enqueueInternal uid k n codes a) = places a"
proof (cases "ap_jobs a uid")
  case (Some prev)
  have "map aj_pc ((ap_run a)[prev := cancel_job Superseded (ap_run a ! prev)]) = map aj_pc (ap_run a)"
    by (simp add: map_update) (metis list_update_id map_update)
  then have "places (a\<lparr>ap_run := (ap_run a)[prev := cancel_job Superseded (ap_run a ! prev)]\<rparr>) = places a"
    by (intro places_cong) simp
  then show ?thesis using Some by (simp add: enqueueInternal_def places_def Let_def)
qed (simp add: enqueueInternal_def places_def Let_def)

lemma run_step_sema:
  assumes "run_step j a a'" and "j < length (ap_run a)" and "sema_inv a"
  shows "sema_inv a'"
  using assms(1)
proof cases
  case run_acquire
  then show ?thesis using assms(2,3) by (auto simp: sema_inv_def places_goto)
qed (use assms(2,3) in \<open>auto simp: sema_inv_def places_goto\<close>)

lemma fleet_step_sema:
  assumes "fleet_step k a a'" and "sema_inv a"
  shows "sema_inv a'"
proof -
  have "ap_sema (enqueueInternal u i n c a) = ap_sema a" for u i n c a
    by (simp add: enqueueInternal_def Let_def)
  with assms show ?thesis by cases (auto simp: sema_inv_def)
qed

lemma start_job_sema: "sema_inv a \<Longrightarrow> sema_inv (start_job runner has_lock q a)"
proof -
  have "ap_sema (enqueueInternal u i n c a) = ap_sema a" for u i n c a
    by (simp add: enqueueInternal_def Let_def)
  then show "sema_inv a \<Longrightarrow> sema_inv (start_job runner has_lock q a)"
    by (cases q) (simp_all add: sema_inv_def enqueueWithPoints_def enqueueFleet_def enqueueBroadcastFleet_def start_fleet_def)
qed

lemma sema_shutdown:
  "sema_inv a \<Longrightarrow> sema_inv (a\<lparr>ap_shutdown := True, ap_run := map (cancel_job Shutdown) (ap_run a)\<rparr>)"
  using places_cong [of "a\<lparr>ap_shutdown := True, ap_run := map (cancel_job Shutdown) (ap_run a)\<rparr>" a]
  by (simp add: sema_inv_def)

lemma sema_lock: "sema_inv a \<Longrightarrow> sema_inv (a\<lparr>ap_lock := l\<rparr>)"
  by (simp add: sema_inv_def)

lemma sema_new: "sema_inv (newApplier l)"
  by (simp add: sema_inv_def newApplier_def places_def)

lemma applier_sema: "applier_reachable a \<Longrightarrow> sema_inv a"
  by (erule applier_invariant)
    (rule sema_new | erule start_job_sema sema_shutdown sema_lock | erule (2) run_step_sema | erule (1) fleet_step_sema)+

text \<open>
  Whatever is queued, superseded or aborted, at most three applies are past the semaphore and
  before its release at any moment, and so at most three inverters are being reconciled.
\<close>

theorem at_most_three_applies:
  assumes "applier_reachable a"
  shows "length (filter (holds_place \<circ> aj_pc) (ap_run a)) \<le> 3"
  using applier_sema [OF assms] by (simp add: sema_inv_def places_def asyncMaxConcurrentUIDs_def)

section \<open>One live apply per inverter\<close>

definition past_clear :: "apc \<Rightarrow> bool" where
  "past_clear pc \<longleftrightarrow> pc \<in> {Closing, Finished}"

text \<open>A job is in the table under its inverter, or cancelled, or has left the table itself.\<close>

definition table_inv :: "applier \<Rightarrow> bool" where
  "table_inv a \<longleftrightarrow>
     (\<forall>u j. ap_jobs a u = Some j \<longrightarrow> j < length (ap_run a) \<and> aj_uid (ap_run a ! j) = u)
     \<and> (\<forall>j < length (ap_run a). past_clear (aj_pc (ap_run a ! j)) \<or> aj_cause (ap_run a ! j) \<noteq> None
          \<or> ap_jobs a (aj_uid (ap_run a ! j)) = Some j)"

lemma table_entry: "table_inv a \<Longrightarrow> ap_jobs a u = Some j \<Longrightarrow> j < length (ap_run a) \<and> aj_uid (ap_run a ! j) = u"
  by (simp add: table_inv_def)

lemma table_live:
  "table_inv a \<Longrightarrow> j < length (ap_run a) \<Longrightarrow> \<not> past_clear (aj_pc (ap_run a ! j)) \<Longrightarrow> aj_cause (ap_run a ! j) = None \<Longrightarrow>
     ap_jobs a (aj_uid (ap_run a ! j)) = Some j"
  unfolding table_inv_def by blast

lemma table_invI:
  assumes "\<And>u j. ap_jobs a u = Some j \<Longrightarrow> j < length (ap_run a) \<and> aj_uid (ap_run a ! j) = u"
    and "\<And>j. j < length (ap_run a) \<Longrightarrow> \<not> past_clear (aj_pc (ap_run a ! j)) \<Longrightarrow> aj_cause (ap_run a ! j) = None \<Longrightarrow>
      ap_jobs a (aj_uid (ap_run a ! j)) = Some j"
  shows "table_inv a"
  unfolding table_inv_def using assms by blast

lemma table_goto:
  assumes "table_inv a" and "ap_run b = ap_run a" and "ap_jobs b = ap_jobs a" and "j < length (ap_run a)"
    and "past_clear (aj_pc (ap_run a ! j)) \<Longrightarrow> past_clear pc"
  shows "table_inv (goto j pc b)"
proof (rule table_invI)
  show "i < length (ap_run (goto j pc b)) \<and> aj_uid (ap_run (goto j pc b) ! i) = u"
    if "ap_jobs (goto j pc b) u = Some i" for u i
    using table_entry [OF assms(1), of u i] that assms(2-4) by (auto simp: nth_list_update)
next
  show "ap_jobs (goto j pc b) (aj_uid (ap_run (goto j pc b) ! i)) = Some i"
    if "i < length (ap_run (goto j pc b))" "\<not> past_clear (aj_pc (ap_run (goto j pc b) ! i))"
      "aj_cause (ap_run (goto j pc b) ! i) = None" for i
    using table_live [OF assms(1), of i] that assms(2-5) by (auto simp: nth_list_update split: if_splits)
qed

lemma run_step_table:
  assumes "run_step j a a'" and "j < length (ap_run a)" and "table_inv a"
  shows "table_inv a'"
  using assms(1)
proof cases
  case run_clear
  show ?thesis
  proof (rule table_invI)
    show "i < length (ap_run a') \<and> aj_uid (ap_run a' ! i) = u" if "ap_jobs a' u = Some i" for u i
      using table_entry [OF assms(3), of u i] that assms(2) run_clear(1)
      by (auto simp: clearJob_def nth_list_update split: if_splits)
    show "ap_jobs a' (aj_uid (ap_run a' ! i)) = Some i"
      if "i < length (ap_run a')" "\<not> past_clear (aj_pc (ap_run a' ! i))" "aj_cause (ap_run a' ! i) = None" for i
      using table_live [OF assms(3), of i] that assms(2) run_clear(1)
      by (auto simp: clearJob_def nth_list_update past_clear_def split: if_splits)
  qed
qed (use assms(2) in \<open>auto intro!: table_goto [OF assms(3)] simp: past_clear_def\<close>)

lemma cancelled_nth:
  "(xs[p := cancel_job c (xs ! p)]) ! i = (if i = p \<and> p < length xs then cancel_job c (xs ! i) else xs ! i)"
  by (cases "p < length xs") (simp_all add: nth_list_update list_update_beyond)

lemma table_enqueue:
  assumes "table_inv a"
  shows "table_inv (enqueueInternal uid k n codes a)"
proof (rule table_invI)
  let ?a = "enqueueInternal uid k n codes a"
  show "i < length (ap_run ?a) \<and> aj_uid (ap_run ?a ! i) = u" if "ap_jobs ?a u = Some i" for u i
    using table_entry [OF assms, of u i] that
    by (auto simp: enqueueInternal_def Let_def nth_append cancelled_nth split: option.splits if_splits)
  show "ap_jobs ?a (aj_uid (ap_run ?a ! i)) = Some i"
    if "i < length (ap_run ?a)" "\<not> past_clear (aj_pc (ap_run ?a ! i))" "aj_cause (ap_run ?a ! i) = None" for i
    using table_live [OF assms, of i] that
    by (auto simp: enqueueInternal_def Let_def nth_append cancelled_nth less_Suc_eq split: option.splits if_splits)
qed

lemma table_cong: "ap_run b = ap_run a \<Longrightarrow> ap_jobs b = ap_jobs a \<Longrightarrow> table_inv b = table_inv a"
  by (simp add: table_inv_def)

lemma table_same [simp]:
  "table_inv (a\<lparr>ap_fleets := fs\<rparr>) = table_inv a" "table_inv (a\<lparr>ap_lock := l\<rparr>) = table_inv a"
  "table_inv (fleet_goto k pc a) = table_inv a" "table_inv (a\<lparr>ap_events := es\<rparr>) = table_inv a"
  by (simp_all add: table_inv_def)

lemma table_start: "table_inv a \<Longrightarrow> table_inv (start_job runner has_lock q a)"
  by (cases q) (simp_all add: table_enqueue enqueueWithPoints_def enqueueFleet_def enqueueBroadcastFleet_def
      start_fleet_def)

lemma fleet_step_table: "fleet_step k a a' \<Longrightarrow> table_inv a \<Longrightarrow> table_inv a'"
  by (erule fleet_step.cases) (simp_all add: table_enqueue)

lemma table_shutdown:
  "table_inv a \<Longrightarrow> table_inv (a\<lparr>ap_shutdown := True, ap_run := map (cancel_job Shutdown) (ap_run a)\<rparr>)"
  by (auto simp: table_inv_def)

lemma table_new: "table_inv (newApplier l)"
  by (simp add: table_inv_def newApplier_def)

lemma table_lock: "table_inv a \<Longrightarrow> table_inv (a\<lparr>ap_lock := l\<rparr>)"
  by (simp add: table_inv_def)

lemma applier_table: "applier_reachable a \<Longrightarrow> table_inv a"
  by (erule applier_invariant)
    (rule table_new | erule table_start table_shutdown table_lock | erule (2) run_step_table | erule (1) fleet_step_table)+

definition live_for :: "string \<Rightarrow> apply_job \<Rightarrow> bool" where
  "live_for uid b \<longleftrightarrow> aj_uid b = uid \<and> \<not> past_clear (aj_pc b) \<and> aj_cause b = None"

text \<open>
  C29: of all the applies queued for one inverter, by any mix of overlay and fleet requests, at most
  one is live and not cancelled.
\<close>

theorem one_live_apply:
  assumes "applier_reachable a"
  shows "length (filter (live_for uid) (ap_run a)) \<le> 1"
proof -
  have "i = j" if "i < length (ap_run a)" "j < length (ap_run a)" "live_for uid (ap_run a ! i)" "live_for uid (ap_run a ! j)" for i j
    using table_live [OF applier_table [OF assms]] that unfolding live_for_def by (metis option.inject)
  then have "card {i. i < length (ap_run a) \<and> live_for uid (ap_run a ! i)} \<le> Suc 0"
    by (subst card_le_Suc0_iff_eq) auto
  then show ?thesis by (simp add: length_filter_conv_card)
qed

section \<open>The audit log\<close>

definition job_events :: "nat \<Rightarrow> applier \<Rightarrow> apply_event list" where
  "job_events j a = map (projl \<circ> snd) (filter (\<lambda>x. fst x = ByJob j) (ap_events a))"

fun is_row :: "apply_event \<Rightarrow> bool" where
  "is_row (ParamWritten u i c v) = True"
| "is_row (ParamFailed u i c r) = True"
| "is_row (ApplyFailed u i e) = True"
| "is_row _ = False"

fun is_failure :: "apply_event \<Rightarrow> bool" where
  "is_failure (ParamFailed u i c r) = True"
| "is_failure (ApplyFailed u i e) = True"
| "is_failure _ = False"

definition failures :: "apply_event list \<Rightarrow> nat" where
  "failures es = length (filter is_failure es)"

text \<open>
  What a job has written at a program point; \<open>late\<close> says that it was superseded.  A started apply
  has one row per parameter; a last row counts the failures among them.
\<close>

definition opened :: "apply_event list \<Rightarrow> apply_event list \<Rightarrow> bool" where
  "opened es rows \<longleftrightarrow> (\<exists>u k n. es = ApplyStarted u k n # rows) \<and> list_all is_row rows"

definition ended_by :: "apply_event list \<Rightarrow> bool" where
  "ended_by es \<longleftrightarrow>
     (\<exists>u k n. es = [ApplyComplete u k True (Aborted 0 n)])
     \<or> (\<exists>s rows u k w out. es = s @ [ApplyComplete u k w out] \<and> opened s rows
          \<and> (\<forall>ok failed. out = Counted ok failed \<longrightarrow> failed = failures rows \<and> (w \<longleftrightarrow> failed > 0)))"

fun trace_ok :: "bool \<Rightarrow> apc \<Rightarrow> apply_event list \<Rightarrow> bool" where
  "trace_ok late (Emit ev k) es \<longleftrightarrow> trace_ok late k (es @ [ev])"
| "trace_ok late Queueing es \<longleftrightarrow> es = []"
| "trace_ok late Checking es \<longleftrightarrow> es = []"
| "trace_ok late Reconciling es \<longleftrightarrow> opened es []"
| "trace_ok late (Reported pts err) es \<longleftrightarrow> opened es []"
| "trace_ok late (Points prs ok failed n) es \<longleftrightarrow> (\<exists>rows. opened es rows \<and> failed = failures rows)"
| "trace_ok late _ es \<longleftrightarrow> ended_by es \<or> late \<and> (es = [] \<or> (\<exists>rows. opened es rows))"

definition superseded :: "apply_job \<Rightarrow> bool" where
  "superseded b \<longleftrightarrow> aj_cause b = Some Superseded"

definition audit_inv :: "applier \<Rightarrow> bool" where
  "audit_inv a \<longleftrightarrow>
     (\<forall>j < length (ap_run a). trace_ok (superseded (ap_run a ! j)) (aj_pc (ap_run a ! j)) (job_events j a))
     \<and> (\<forall>j \<ge> length (ap_run a). job_events j a = [])"

lemma trace_mono: "trace_ok False pc es \<Longrightarrow> trace_ok late pc es"
  by (induction pc arbitrary: es) auto

lemma opened_snoc: "opened es rows \<Longrightarrow> is_row ev \<Longrightarrow> opened (es @ [ev]) (rows @ [ev])"
  by (auto simp: opened_def)

lemma ended_aborted: "ended_by [ApplyComplete u k True (Aborted 0 n)]"
  by (simp add: ended_by_def)

lemma ended_opened:
  "opened es rows \<Longrightarrow> (\<forall>ok failed. out = Counted ok failed \<longrightarrow> failed = failures rows \<and> (w \<longleftrightarrow> failed > 0)) \<Longrightarrow>
     ended_by (es @ [ApplyComplete u k w out])"
  unfolding ended_by_def by blast

lemma failures_snoc [simp]: "failures (es @ [ev]) = failures es + of_bool (is_failure ev)"
  by (simp add: failures_def)

lemma failures_Nil [simp]: "failures [] = 0"
  by (simp add: failures_def)

lemma trace_abort_opened:
  assumes "opened es rows" and "aj_cause b = Some c"
  shows "trace_ok (superseded b) (abort_at b c ok n Releasing) es"
  using assms by (cases c) (auto simp: abort_at_def superseded_def intro!: ended_opened)

lemma trace_abort_unopened:
  assumes "aj_cause b = Some c" and "k \<in> {Releasing, Clearing}"
  shows "trace_ok (superseded b) (abort_at b c 0 n k) []"
  using assms by (cases c) (auto simp: abort_at_def superseded_def ended_aborted)

lemma trace_completing:
  assumes "opened es rows" and "failed = failures rows"
  shows "trace_ok late (completing b ok failed) es"
  using assms by (auto simp: completing_def intro!: ended_opened)

lemma trace_after_acquire: "trace_ok (superseded b) (after_acquire b) []"
  using trace_abort_unopened by (auto simp: after_acquire_def opened_def split: option.split)

lemma trace_after_report:
  assumes "opened es []"
  shows "trace_ok (superseded b) (after_report b points err) es"
proof (cases "aj_cause b")
  case None
  have "opened (es @ [ApplyFailed u i e]) [ApplyFailed u i e]" for u i e
    using opened_snoc [OF assms] by fastforce
  then show ?thesis using None assms trace_completing
    by (fastforce simp: after_report_def Let_def failures_def split: option.split)
next
  case (Some c)
  then show ?thesis using trace_abort_opened [OF assms Some] by (simp add: after_report_def split: prod.split)
qed

lemma trace_row:
  assumes "opened es rows" and "is_row ev" and "failed = failures rows + of_bool (is_failure ev)"
  shows "trace_ok late (Emit ev (Points prs ok failed n)) es"
  using opened_snoc [OF assms(1,2)] assms(3) by fastforce

lemma trace_after_point:
  assumes "opened es rows" and "failed = failures rows"
  shows "trace_ok (superseded b) (after_point b pr prs ok failed n) es"
proof (cases "aj_cause b")
  case None
  then show ?thesis
    using assms by (auto simp: after_point_def simp del: trace_ok.simps(1) intro!: trace_row [OF assms(1)])
next
  case (Some c)
  then show ?thesis using trace_abort_opened [OF assms(1) Some] by (simp add: after_point_def)
qed

lemma job_events_simps [simp]:
  "job_events j (goto i pc a) = job_events j a" "job_events j (clearJob u i a) = job_events j a"
  "job_events j (a\<lparr>ap_sema := m\<rparr>) = job_events j a" "job_events j (a\<lparr>ap_lock := l\<rparr>) = job_events j a"
  "job_events j (fleet_goto k fc a) = job_events j a"
  "job_events j (a\<lparr>ap_events := ap_events a @ [(ByJob i, Inl ev)]\<rparr>) = job_events j a @ (if i = j then [ev] else [])"
  "job_events j (a\<lparr>ap_events := ap_events a @ [(ByFleet k, fe)]\<rparr>) = job_events j a"
  by (simp_all add: job_events_def)

lemma audit_goto:
  assumes "audit_inv a" and "ap_run b = ap_run a" and "j < length (ap_run a)"
    and "\<And>i. i \<noteq> j \<Longrightarrow> job_events i b = job_events i a"
    and "trace_ok (superseded (ap_run a ! j)) (aj_pc (ap_run a ! j)) (job_events j a) \<Longrightarrow>
      trace_ok (superseded (ap_run a ! j)) pc (job_events j b)"
  shows "audit_inv (goto j pc b)"
  using assms by (auto simp: audit_inv_def nth_list_update superseded_def)

lemma run_step_audit:
  assumes "run_step j a a'" and "j < length (ap_run a)" and "audit_inv a"
  shows "audit_inv a'"
  using assms(1)
proof cases
  case (run_cancelled c)
  then show ?thesis
    using trace_abort_unopened by (auto intro!: audit_goto [OF assms(3) _ assms(2)])
next
  case run_check
  then show ?thesis using trace_after_acquire by (auto intro!: audit_goto [OF assms(3) _ assms(2)])
next
  case (run_report points err)
  then show ?thesis using trace_after_report by (auto intro!: audit_goto [OF assms(3) _ assms(2)])
next
  case (run_point pr prs ok failed n)
  then show ?thesis using trace_after_point by (auto intro!: audit_goto [OF assms(3) _ assms(2)])
next
  case (run_points ok failed n)
  then show ?thesis using trace_completing by (auto intro!: audit_goto [OF assms(3) _ assms(2)])
qed (auto intro!: audit_goto [OF assms(3) _ assms(2)])

lemma audit_enqueue:
  assumes "audit_inv a" and "table_inv a"
  shows "audit_inv (enqueueInternal uid k n codes a)"
proof -
  have "job_events j (enqueueInternal uid k n codes a) = job_events j a" for j
    by (simp add: job_events_def enqueueInternal_def Let_def)
  moreover have "trace_ok (superseded (cancel_job c b)) (aj_pc b) es" if "trace_ok (superseded b) (aj_pc b) es" for b c es
    using that trace_mono [of "aj_pc b" es] by (cases "superseded b") (auto simp: cancel_job_def superseded_def)
  moreover have "prev < length (ap_run a)" if "ap_jobs a uid = Some prev" for prev
    using that table_entry [OF assms(2)] by blast
  ultimately show ?thesis using assms(1)
    by (auto simp: audit_inv_def enqueueInternal_def Let_def nth_append cancelled_nth less_Suc_eq split: option.split)
qed

lemma audit_cong: "ap_run b = ap_run a \<Longrightarrow> (\<And>j. job_events j b = job_events j a) \<Longrightarrow> audit_inv b = audit_inv a"
  by (simp add: audit_inv_def)

lemma audit_same [simp]:
  "audit_inv (a\<lparr>ap_fleets := fs\<rparr>) = audit_inv a" "audit_inv (a\<lparr>ap_lock := l\<rparr>) = audit_inv a"
  "audit_inv (fleet_goto k pc a) = audit_inv a"
  "audit_inv (a\<lparr>ap_events := ap_events a @ [(ByFleet k, fe)]\<rparr>) = audit_inv a"
  by (rule audit_cong; simp add: job_events_def fleet_goto_def)+

definition apply_inv :: "applier \<Rightarrow> bool" where
  "apply_inv a \<longleftrightarrow> table_inv a \<and> audit_inv a"

lemma apply_inv_enqueue: "apply_inv a \<Longrightarrow> apply_inv (enqueueInternal uid k n codes a)"
  by (simp add: apply_inv_def table_enqueue audit_enqueue)

lemma apply_inv_start: "apply_inv a \<Longrightarrow> apply_inv (start_job runner has_lock q a)"
  using table_start [of a runner has_lock q]
  by (cases q) (simp_all add: apply_inv_def audit_enqueue enqueueWithPoints_def enqueueFleet_def enqueueBroadcastFleet_def
      start_fleet_def)

lemma apply_inv_shutdown:
  assumes "apply_inv a"
  shows "apply_inv (a\<lparr>ap_shutdown := True, ap_run := map (cancel_job Shutdown) (ap_run a)\<rparr>)"
proof -
  have "superseded (cancel_job Shutdown b) = superseded b" for b
    by (simp add: superseded_def cancel_job_def)
  moreover have "job_events j (a\<lparr>ap_shutdown := True, ap_run := r\<rparr>) = job_events j a" for j r
    by (simp add: job_events_def)
  ultimately have "audit_inv (a\<lparr>ap_shutdown := True, ap_run := map (cancel_job Shutdown) (ap_run a)\<rparr>)"
    using assms by (simp add: apply_inv_def audit_inv_def)
  then show ?thesis using table_shutdown assms by (simp add: apply_inv_def)
qed

lemma apply_inv_run: "run_step j a a' \<Longrightarrow> j < length (ap_run a) \<Longrightarrow> apply_inv a \<Longrightarrow> apply_inv a'"
  using run_step_table run_step_audit by (auto simp: apply_inv_def)

lemma apply_inv_fleet: "fleet_step k a a' \<Longrightarrow> apply_inv a \<Longrightarrow> apply_inv a'"
  by (erule fleet_step.cases) (simp_all add: apply_inv_def table_enqueue audit_enqueue)

lemma audit_new: "audit_inv (newApplier l)"
  by (simp add: audit_inv_def newApplier_def job_events_def)

lemma apply_inv_new: "apply_inv (newApplier l)"
  by (simp add: apply_inv_def table_new audit_new)

lemma apply_inv_lock: "apply_inv a \<Longrightarrow> apply_inv (a\<lparr>ap_lock := l\<rparr>)"
  by (simp add: apply_inv_def)

lemma applier_inv: "applier_reachable a \<Longrightarrow> apply_inv a"
  by (erule applier_invariant)
    (rule apply_inv_new | erule apply_inv_start apply_inv_shutdown apply_inv_lock | erule (2) apply_inv_run
      | erule (1) apply_inv_fleet)+


section \<open>Superseding does not wait\<close>

text \<open>
  A superseded apply is only told to stop.  Until it looks, the apply that replaced it runs
  too: a run exists in which two applies of one inverter are both inside the reconcile.
\<close>

theorem superseded_still_runs:
  "\<exists>a i j. applier_reachable a \<and> i < j \<and> j < length (ap_run a)
     \<and> aj_uid (ap_run a ! i) = aj_uid (ap_run a ! j)
     \<and> aj_pc (ap_run a ! i) = Reconciling \<and> aj_pc (ap_run a ! j) = Reconciling
     \<and> aj_cause (ap_run a ! i) = Some Superseded \<and> aj_cause (ap_run a ! j) = None"
proof -
  let ?q = "start_job True True (OverlayJob ''U'' ''O'' [''CB''])"
  let ?run = "\<lambda>j a. goto j Reconciling (let a = goto j (after_acquire (ap_run (goto j Checking a) ! j))
      (goto j Checking (a\<lparr>ap_sema := ap_sema a + 1\<rparr>))
    in a\<lparr>ap_events := ap_events a @ [(ByJob j, Inl (ApplyStarted ''U'' ''O'' 1))]\<rparr>)"
  have into: "applier_reachable (?run j a)" 
    if "applier_reachable a" "j < length (ap_run a)" "aj_pc (ap_run a ! j) = Queueing" "aj_cause (ap_run a ! j) = None"
      "ap_sema a < 3" "aj_uid (ap_run a ! j) = ''U''" "aj_overlayID (ap_run a ! j) = ''O''" "aj_pointCount (ap_run a ! j) = 1" for a j
  proof -
    let ?a1 = "goto j Checking (a\<lparr>ap_sema := ap_sema a + 1\<rparr>)"
    let ?a2 = "goto j (after_acquire (ap_run ?a1 ! j)) ?a1"
    let ?a3 = "goto j Reconciling (?a2\<lparr>ap_events := ap_events ?a2 @ [(ByJob j, Inl (ApplyStarted ''U'' ''O'' 1))]\<rparr>)"
    have 1: "applier_reachable ?a1"
      by (rule reach_step [OF that(1)], rule apply_run [of j], rule that(2), rule run_acquire)
        (simp_all add: that(3,5) asyncMaxConcurrentUIDs_def)
    have 2: "applier_reachable ?a2"
      by (rule reach_step [OF 1], rule apply_run [of j], simp add: that(2), rule run_check) (simp add: that(2))
    have "applier_reachable ?a3"
      by (rule reach_step [OF 2], rule apply_run [of j], simp add: that(2), rule run_emit)
        (simp add: that after_acquire_def)
    then show ?thesis by simp
  qed
  let ?a = "?run 1 (?q (?run 0 (?q (newApplier zero_lock))))"
  have "applier_reachable ?a"
    by (intro into reach_step [OF _ apply_request] reach_new)
      (simp_all add: newApplier_def enqueueWithPoints_def enqueueInternal_def zero_lock_def after_acquire_def cancel_job_def)
  then show ?thesis
    by (intro exI [of _ ?a] exI [of _ "0 :: nat"] exI [of _ "1 :: nat"])
      (simp add: newApplier_def enqueueWithPoints_def enqueueInternal_def zero_lock_def after_acquire_def cancel_job_def)
qed

section \<open>The bus\<close>

fun on_bus :: "fpc \<Rightarrow> bool" where
  "on_bus (FleetEmit ev pc) \<longleftrightarrow> on_bus pc"
| "on_bus pc \<longleftrightarrow> pc \<notin> {FleetAcquire, FleetDone}"

text \<open>The points from which a fleet apply takes or gives back the bus.\<close>

fun unlocks :: "fpc \<Rightarrow> bool" where
  "unlocks (FleetEmit ev pc) \<longleftrightarrow> unlocks pc"
| "unlocks pc \<longleftrightarrow> pc \<in> {FleetAcquire, FleetUnlock}"

definition uses_bus :: "fleet \<Rightarrow> bool" where
  "uses_bus ft \<longleftrightarrow> ft_lock ft \<and> on_bus (ft_pc ft)"

definition broadcasts_hold :: "lock \<Rightarrow> bool" where
  "broadcasts_hold l \<longleftrightarrow> lk_held l \<and> lk_owner l = broadcastBusOwner"

definition fleet_bus_inv :: "applier \<Rightarrow> bool" where
  "fleet_bus_inv a \<longleftrightarrow>
     length (filter uses_bus (ap_fleets a)) = of_bool (broadcasts_hold (ap_lock a))
     \<and> (\<forall>ft \<in> set (ap_fleets a). unlocks (ft_pc ft) \<longrightarrow> ft_lock ft)"

lemma fleet_bus_goto:
  assumes "fleet_bus_inv a" and "k < length (ap_fleets a)" and "ap_fleets b = ap_fleets a"
    and "unlocks pc \<Longrightarrow> ft_lock (ap_fleets a ! k)"
    and "of_bool (broadcasts_hold (ap_lock b)) + of_bool (uses_bus (ap_fleets a ! k)) =
      of_bool (broadcasts_hold (ap_lock a)) + (of_bool (ft_lock (ap_fleets a ! k) \<and> on_bus pc) :: nat)"
  shows "fleet_bus_inv (fleet_goto k pc b)"
proof -
  have "length (filter uses_bus ((ap_fleets a)[k := (ap_fleets a ! k)\<lparr>ft_pc := pc\<rparr>])) + of_bool (uses_bus (ap_fleets a ! k))
      = length (filter uses_bus (ap_fleets a)) + of_bool (ft_lock (ap_fleets a ! k) \<and> on_bus pc)"
    using count_update [OF assms(2), of uses_bus "(ap_fleets a ! k)\<lparr>ft_pc := pc\<rparr>"] by (simp add: uses_bus_def)
  then have "length (filter uses_bus (ap_fleets (fleet_goto k pc b))) = of_bool (broadcasts_hold (ap_lock b))"
    using assms(1,3,5) by (simp add: fleet_bus_inv_def)
  moreover have "unlocks (ft_pc ft) \<longrightarrow> ft_lock ft" if "ft \<in> set (ap_fleets (fleet_goto k pc b))" for ft
  proof -
    have "ft \<in> insert ((ap_fleets a ! k)\<lparr>ft_pc := pc\<rparr>) (set (ap_fleets a))"
      using that set_update_subset_insert [of "ap_fleets a" k] assms(3) by auto
    then show ?thesis using assms(1,4) by (auto simp: fleet_bus_inv_def)
  qed
  ultimately show ?thesis by (simp add: fleet_bus_inv_def)
qed

lemma on_bus_end [simp]:
  "on_bus (fleet_end ft w r) \<longleftrightarrow> ft_lock ft" "unlocks (fleet_end ft w r) \<longleftrightarrow> ft_lock ft"
  by (simp_all add: fleet_end_def)

lemma fleet_bus_cong:
  "ap_fleets b = ap_fleets a \<Longrightarrow> ap_lock b = ap_lock a \<Longrightarrow> fleet_bus_inv b = fleet_bus_inv a"
  by (simp add: fleet_bus_inv_def)

lemma enqueue_bus [simp]:
  "ap_fleets (enqueueInternal u i n c a) = ap_fleets a" "ap_lock (enqueueInternal u i n c a) = ap_lock a"
  by (simp_all add: enqueueInternal_def Let_def)

lemma fleet_step_bus:
  assumes "fleet_step k a a'" and "k < length (ap_fleets a)" and "fleet_bus_inv a"
  shows "fleet_bus_inv a'"
proof -
  let ?ft = "ap_fleets a ! k"
  have ft: "?ft \<in> set (ap_fleets a)" using assms(2) by simp
  have owns: "broadcasts_hold (ap_lock a)" if "uses_bus ?ft"
  proof -
    have "filter uses_bus (ap_fleets a) \<noteq> []" using that ft by (auto simp: filter_empty_conv)
    then show ?thesis using assms(3) by (cases "broadcasts_hold (ap_lock a)") (simp_all add: fleet_bus_inv_def)
  qed
  have un: "unlocks (ft_pc ?ft) \<Longrightarrow> ft_lock ?ft" using assms(3) ft by (simp add: fleet_bus_inv_def)
  note goto = fleet_bus_goto [OF assms(3,2)]
  from assms(1) show ?thesis
  proof cases
    case (fleet_busy l own)
    then show ?thesis
      by (intro ssubst [OF fleet_busy(1), of fleet_bus_inv] goto)
        (auto simp: uses_bus_def TryAcquire_def split: if_splits)
  next
    case (fleet_acquire l own)
    then have "\<not> broadcasts_hold (ap_lock a)" "broadcasts_hold l"
      by (auto simp: broadcasts_hold_def TryAcquire_def split: if_splits)
    moreover have "ft_lock ?ft" using fleet_acquire(2) un by simp
    ultimately show ?thesis using fleet_acquire
      by (intro ssubst [OF fleet_acquire(1), of fleet_bus_inv] goto) (auto simp: uses_bus_def)
  next
    case fleet_unlock
    then have "uses_bus ?ft" using un by (simp add: uses_bus_def)
    then show ?thesis using fleet_unlock owns
      by (intro ssubst [OF fleet_unlock(1), of fleet_bus_inv] goto)
        (auto simp: broadcasts_hold_def Release_def)
  qed (use un in \<open>auto intro!: goto simp: uses_bus_def split: option.split\<close>)
qed

lemma start_job_bus: "fleet_bus_inv a \<Longrightarrow> fleet_bus_inv (start_job runner has_lock q a)"
  by (cases q) (auto simp: fleet_bus_inv_def enqueueWithPoints_def enqueueFleet_def enqueueBroadcastFleet_def
      start_fleet_def uses_bus_def)

lemma run_step_bus: "run_step j a a' \<Longrightarrow> fleet_bus_inv a \<Longrightarrow> fleet_bus_inv a'"
  by (erule run_step.cases) (simp_all add: fleet_bus_inv_def)

lemma bus_step_inv:
  assumes "applier_step a a'" and "fleet_bus_inv a"
  shows "fleet_bus_inv a'"
  using assms(1)
proof cases
  case (bus_taken own l o')
  then have "broadcasts_hold l = broadcasts_hold (ap_lock a)"
    by (auto simp: broadcasts_hold_def TryAcquire_def split: if_splits)
  then show ?thesis using assms(2) bus_taken by (simp add: fleet_bus_inv_def)
next
  case bus_given_back
  then have "broadcasts_hold (Release (ap_lock a)) = broadcasts_hold (ap_lock a)"
    by (simp add: broadcasts_hold_def Release_def)
  then show ?thesis using assms(2) bus_given_back by (simp add: fleet_bus_inv_def)
next
  case apply_shutdown
  then show ?thesis using assms(2) by (simp add: fleet_bus_inv_def)
qed (use assms(2) start_job_bus run_step_bus fleet_step_bus in blast)+

lemma applier_bus: "applier_reachable a \<Longrightarrow> fleet_bus_inv a"
proof (induction rule: applier_reachable.induct)
  case (reach_new l)
  then show ?case by (simp add: fleet_bus_inv_def newApplier_def broadcasts_hold_def)
next
  case (reach_step a a')
  then show ?case by (blast intro: bus_step_inv)
qed

text \<open>
  C30: in every interleaving with the other users of the bus, the guard names the broadcast as its
  holder exactly when one fleet apply is between its acquisition and its release, and never are
  there two; a broadcast that has ended has given the bus back.
\<close>

theorem broadcast_owns_bus:
  assumes "applier_reachable a"
  shows "length (filter uses_bus (ap_fleets a)) = of_bool (lk_held (ap_lock a) \<and> lk_owner (ap_lock a) = broadcastBusOwner)"
  using applier_bus [OF assms] by (simp add: fleet_bus_inv_def broadcasts_hold_def)

section \<open>Concrete runs\<close>

definition ex_queued :: applier where
  "ex_queued = start_job True True (OverlayJob ''U'' ''O'' [''CB'']) (newApplier zero_lock)"

lemma ex_queued_reachable: "applier_reachable ex_queued"
  unfolding ex_queued_def by (intro reach_step [OF _ apply_request] reach_new) (simp add: zero_lock_def)

lemma at_most_three_applies_witness: "length (filter (holds_place \<circ> aj_pc) (ap_run ex_queued)) \<le> 3"
  by (rule at_most_three_applies [OF ex_queued_reachable])

lemma one_live_apply_witness:
  "length (filter (live_for ''U'') (ap_run (start_job True True (RevertJob ''U'' ''overlay clear: U'') ex_queued))) \<le> 1"
  by (rule one_live_apply [OF reach_step [OF ex_queued_reachable apply_request]])

lemma broadcast_owns_bus_witness: "length (filter uses_bus (ap_fleets ex_queued)) = 0"
  using broadcast_owns_bus [OF ex_queued_reachable] by (simp add: ex_queued_def newApplier_def
      enqueueWithPoints_def enqueueInternal_def)

definition ex_aborted :: applier where
  "ex_aborted =
     (let a = ex_queued\<lparr>ap_shutdown := True, ap_run := map (cancel_job Shutdown) (ap_run ex_queued)\<rparr>;
          row = ApplyComplete ''U'' ''O'' True (Aborted 0 1);
          b = goto 0 Clearing (let c = goto 0 (Emit row Clearing) a in c\<lparr>ap_events := [(ByJob 0, Inl row)]\<rparr>)
      in goto 0 Finished (goto 0 Closing (clearJob ''U'' 0 b)))"

lemma ex_aborted_reachable: "applier_reachable ex_aborted"
proof -
  let ?a = "ex_queued\<lparr>ap_shutdown := True, ap_run := map (cancel_job Shutdown) (ap_run ex_queued)\<rparr>"
  let ?row = "ApplyComplete ''U'' ''O'' True (Aborted 0 1)"
  let ?c = "goto 0 (Emit ?row Clearing) ?a"
  let ?b = "goto 0 Clearing (?c\<lparr>ap_events := ap_events ?c @ [(ByJob 0, Inl ?row)]\<rparr>)"
  let ?d = "goto 0 Closing (clearJob (aj_uid (ap_run ?b ! 0)) 0 ?b)"
  note simps = ex_queued_def newApplier_def enqueueWithPoints_def enqueueInternal_def cancel_job_def
  have 1: "applier_reachable ?a" by (rule reach_step [OF ex_queued_reachable apply_shutdown])
  have "run_step 0 ?a (goto 0 (abort_at (ap_run ?a ! 0) Shutdown 0 (aj_pointCount (ap_run ?a ! 0)) Clearing) ?a)"
    by (rule run_cancelled) (simp_all add: simps)
  then have "run_step 0 ?a ?c" by (simp add: simps abort_at_def)
  then have 2: "applier_reachable ?c" by (intro reach_step [OF 1] apply_run [of 0]) (simp_all add: simps)
  have 3: "applier_reachable ?b"
    by (rule reach_step [OF 2], rule apply_run [of 0], simp add: simps, rule run_emit) (simp add: simps)
  have 4: "applier_reachable ?d"
    by (rule reach_step [OF 3], rule apply_run [of 0], simp add: simps, rule run_clear) (simp add: simps)
  have "applier_reachable (goto 0 Finished ?d)"
    by (rule reach_step [OF 4], rule apply_run [of 0], simp add: simps, rule run_close) (simp add: simps)
  then show ?thesis by (simp add: ex_aborted_def simps Let_def)
qed


end
