(* ===== verification/GoFloat32.thy ===== *)
theory GoFloat32
  imports GoFloat
begin

text \<open>
  Go's \<open>float32\<close>: the finite values are the rationals with 24 significant bits, represented in the
  type of \<open>GoFloat\<close>; a conversion or a quotient is the exact result followed by one rounding to
  nearest even.  \<open>math.Float32bits\<close> packs sign, biased exponent and fraction into 32 bits, and
  \<open>f32_val\<close> reads such a word the way a client of the registers does.  The theorem of this theory:
  reading the packed bits of any \<open>float32\<close> gives the number back.
\<close>

section \<open>Rounding to 24 bits\<close>

definition ulp_exp32 :: "rat \<Rightarrow> int" where
  "ulp_exp32 x = max (rat_log2 \<bar>x\<bar> - 23) (- 149)"

definition rnd32 :: "rat \<Rightarrow> rat" where
  "rnd32 x = (if x = 0 then 0
              else let u = p2 (ulp_exp32 x) in of_int (round_even (x / u)) * u)"

definition f32_of_rat :: "rat \<Rightarrow> f64" where
  "f32_of_rat x =
     (let r = rnd32 x
      in if r \<noteq> 0 \<and> 128 \<le> rat_log2 \<bar>r\<bar> then (if 0 < r then PInf else NInf) else Fin r)"

text \<open>\<open>float32(i)\<close> of an integer and of a \<open>float64\<close>, and the quotient of two \<open>float32\<close>.\<close>

definition f32_of_int :: "int \<Rightarrow> f64" where
  "f32_of_int n = f32_of_rat (of_int n)"

fun f32_of_f64 :: "f64 \<Rightarrow> f64" where
  "f32_of_f64 (Fin q) = f32_of_rat q"
| "f32_of_f64 x = x"

fun fdiv32 :: "f64 \<Rightarrow> f64 \<Rightarrow> f64" where
  "fdiv32 (Fin a) (Fin b) =
     (if b = 0 then inf_of_sign (fsign (Fin a)) else f32_of_rat (a / b))"
| "fdiv32 x y = fdiv x y"

section \<open>The bit pattern\<close>

definition f32_word :: "rat \<Rightarrow> int" where
  "f32_word a =
     (if a = 0 then 0
      else let e = max (rat_log2 a) (- 126) in (e + 126) * 2 ^ 23 + \<lfloor>a / p2 (e - 23)\<rfloor>)"

fun Float32bits :: "f64 \<Rightarrow> u32" where
  "Float32bits NaN = 0x7FC00000"
| "Float32bits PInf = 0x7F800000"
| "Float32bits NInf = 0xFF800000"
| "Float32bits (Fin q) = word_of_int ((if q < 0 then 2 ^ 31 else 0) + f32_word \<bar>q\<bar>)"

definition f32_val :: "u32 \<Rightarrow> f64" where
  "f32_val w =
     (let n = uint w; e = n div 2 ^ 23 mod 256; m = n mod 2 ^ 23
      in if e = 255 then (if m \<noteq> 0 then NaN else if 2 ^ 31 \<le> n then NInf else PInf)
         else let a = (if e = 0 then of_int m * p2 (- 149) else of_int (m + 2 ^ 23) * p2 (e - 150))
              in Fin (if 2 ^ 31 \<le> n then - a else a))"

section \<open>What a \<open>float32\<close> looks like\<close>

definition f32_form :: "rat \<Rightarrow> int \<Rightarrow> int \<Rightarrow> bool" where
  "f32_form a k u \<longleftrightarrow> a = of_int k * p2 u \<and> 0 < k \<and> k < 2 ^ 24 \<and> - 149 \<le> u \<and>
     (u = - 149 \<or> 2 ^ 23 \<le> k)"

lemma p2_mult: "p2 a * p2 b = p2 (a + b)"
proof -
  have nn: "p2 (c + int n) = p2 c * 2 ^ n" for c n
    using p2_add_nat [of c n] by (simp add: mult.commute)
  show ?thesis
  proof (cases "0 \<le> b")
    case True
    then have "p2 b = 2 ^ nat b" by (simp add: p2_def)
    then show ?thesis using nn [of a "nat b"] True by simp
  next
    case False
    then have "p2 b = 1 / 2 ^ nat (- b)" by (simp add: p2_def)
    moreover have "p2 a = p2 (a + b) * 2 ^ nat (- b)"
      using nn [of "a + b" "nat (- b)"] False by simp
    ultimately show ?thesis by simp
  qed
qed

lemma rat_log2_mult_p2:
  assumes "0 < k"
  shows "rat_log2 (of_int k * p2 u) = rat_log2 (of_int k) + u"
proof (rule rat_log2_unique)
  have k: "p2 (rat_log2 (of_int k)) \<le> of_int k" "of_int k < p2 (rat_log2 (of_int k) + 1)"
    using assms by (intro rat_log2_bounds; simp)+
  show "p2 (rat_log2 (of_int k) + u) \<le> of_int k * p2 u"
    using k(1) by (simp add: mult_right_mono less_imp_le flip: p2_mult)
  have "of_int k * p2 u < p2 (rat_log2 (of_int k) + 1) * p2 u"
    using k(2) by (intro mult_strict_right_mono) simp_all
  then show "of_int k * p2 u < p2 (rat_log2 (of_int k) + u + 1)"
    by (simp add: p2_mult algebra_simps)
qed

lemma rat_log2_int_lt:
  assumes "0 < k" and "k < 2 ^ n"
  shows "rat_log2 (of_int k) < int n"
proof -
  have "p2 (rat_log2 (of_int k)) \<le> of_int k" using assms(1) by (intro rat_log2_bounds) simp
  also have "\<dots> < 2 ^ n" using assms(2) by simp
  finally have "p2 (rat_log2 (of_int k)) < p2 (int n)" by (simp only: p2_of_nat)
  then show ?thesis by (simp add: p2_less_iff)
qed

lemma rat_log2_int_ge:
  assumes "2 ^ n \<le> k"
  shows "int n \<le> rat_log2 (of_int k)"
proof -
  have k: "0 < k" using assms by (rule order_less_le_trans [rotated]) simp
  have "(2 :: rat) ^ n \<le> of_int k" using assms by simp
  also have "\<dots> < p2 (rat_log2 (of_int k) + 1)" using k by (intro rat_log2_bounds) simp
  finally have "p2 (int n) < p2 (rat_log2 (of_int k) + 1)" by (simp only: p2_of_nat)
  then show ?thesis by (simp add: p2_less_iff)
qed

lemma f32_form_log:
  assumes "f32_form a k u"
  shows "max (rat_log2 a) (- 126) = u + 23"
proof -
  have a: "a = of_int k * p2 u" and k: "0 < k" "k < 2 ^ 24" and u: "- 149 \<le> u"
    and c: "u = - 149 \<or> 2 ^ 23 \<le> k" using assms by (simp_all add: f32_form_def)
  have l: "rat_log2 a = rat_log2 (of_int k) + u" using rat_log2_mult_p2 [OF k(1)] a by simp
  have lt: "rat_log2 (of_int k) < 24" using rat_log2_int_lt [OF k] by simp
  show ?thesis
  proof (cases "2 ^ 23 \<le> k")
    case True
    then show ?thesis using rat_log2_int_ge [of 23 k] lt l u by simp
  next
    case False
    then have "rat_log2 (of_int k) < 23" using rat_log2_int_lt [of k 23] k by simp
    then show ?thesis using c False l by simp
  qed
qed

lemma f32_word_form:
  assumes "f32_form a k u"
  shows "f32_word a = (u + 149) * 2 ^ 23 + k"
proof -
  have a: "a = of_int k * p2 u" "0 < k" using assms by (simp_all add: f32_form_def)
  then have "a \<noteq> 0" by simp
  then show ?thesis
    using f32_form_log [OF assms] a by (simp add: f32_word_def Let_def)
qed

lemma f32_val_word:
  assumes f: "f32_form a k u" and u: "u \<le> 104" and s: "s = 0 \<or> s = 2 ^ 31"
  shows "f32_val (word_of_int (s + f32_word a)) = Fin (if s = 0 then a else - a)"
proof -
  have a: "a = of_int k * p2 u" and k: "0 < k" "k < 16777216" and u1: "- 149 \<le> u"
    and c: "u = - 149 \<or> 8388608 \<le> k" using f by (simp_all add: f32_form_def)
  define t where "t = (if s = 0 then 0 else 256 :: int)"
  define e where "e = (if 8388608 \<le> k then u + 150 else 0)"
  define m where "m = (if 8388608 \<le> k then k - 8388608 else k)"
  define N where "N = s + f32_word a"
  have e: "0 \<le> e" "e < 255" and m: "0 \<le> m" "m < 8388608"
    using u u1 k by (auto simp: e_def m_def)
  have N: "N = (t + e) * 8388608 + m"
    using s c by (auto simp: N_def f32_word_form [OF f] t_def e_def m_def algebra_simps)
  have t: "t = 0 \<or> t = 256" by (simp add: t_def)
  have n0: "0 \<le> N" and n32: "N < 4294967296" using N e m t by auto
  have un: "uint (word_of_int N :: u32) = N"
    using n0 n32 by (simp add: uint_word_of_int)
  have dm: "N mod 8388608 = m"
    unfolding N by (simp only: mod_mult_self3 mod_pos_pos_trivial [OF m])
  have "N div 8388608 * 8388608 + N mod 8388608 = N" by (rule div_mult_mod_eq)
  then have "N div 8388608 * 8388608 = (t + e) * 8388608" unfolding dm using N by linarith
  then have dd: "N div 8388608 = t + e" by (simp only: mult_cancel_right) simp
  have em: "(t + e) mod 256 = e" using t e by auto
  have big: "2147483648 \<le> N \<longleftrightarrow> s \<noteq> 0"
    using s N e m by (auto simp: t_def)
  have val: "(if e = 0 then of_int m * p2 (- 149) else of_int (m + 8388608) * p2 (e - 150)) = a"
    using c u1 by (auto simp: e_def m_def a)
  show ?thesis
    unfolding f32_val_def N_def [symmetric] un Let_def
    using e val by (simp add: dd dm em big split: if_splits)
qed

lemma rnd32_form:
  assumes "rnd32 x \<noteq> 0"
  obtains k u where "f32_form \<bar>rnd32 x\<bar> k u"
proof -
  have x: "x \<noteq> 0" using assms by (auto simp: rnd32_def)
  define U where "U = ulp_exp32 x"
  define j where "j = round_even (x / p2 U)"
  have r: "rnd32 x = of_int j * p2 U" using x by (simp add: rnd32_def Let_def U_def j_def)
  have U: "- 149 \<le> U" by (simp add: U_def ulp_exp32_def)
  have ax: "0 < \<bar>x\<bar>" using x by simp
  have "rat_log2 \<bar>x\<bar> + 1 \<le> U + 24" by (simp add: U_def ulp_exp32_def)
  then have "p2 (rat_log2 \<bar>x\<bar> + 1) \<le> p2 (U + 24)" by (rule p2_mono)
  moreover have "p2 (U + 24) = 16777216 * p2 U" using p2_add_nat [of U 24] by simp
  ultimately have "\<bar>x\<bar> \<le> 16777216 * p2 U" using rat_log2_bounds(2) [OF ax] by linarith
  then have "\<bar>x / p2 U\<bar> \<le> of_int 16777216" by (simp add: abs_divide pos_divide_le_eq)
  then have hi: "x / p2 U \<le> of_int 16777216" "of_int (- 16777216) \<le> x / p2 U" by linarith+
  have "j \<le> 16777216" "- 16777216 \<le> j"
    using round_even_mono [OF hi(1)] round_even_mono [OF hi(2)] by (simp_all only: j_def round_even_int)
  then have j24: "\<bar>j\<bar> \<le> 16777216" by linarith
  have j0: "j \<noteq> 0" using assms r by auto
  have ar: "\<bar>rnd32 x\<bar> = of_int \<bar>j\<bar> * p2 U" using p2_pos [of U] by (simp add: r abs_mult abs_of_pos)
  have low: "8388608 \<le> \<bar>j\<bar>" if ne: "U \<noteq> - 149"
  proof -
    have "U = rat_log2 \<bar>x\<bar> - 23" using ne by (auto simp: U_def ulp_exp32_def)
    then have "p2 (U + 23) \<le> \<bar>x\<bar>" using rat_log2_bounds(1) [OF ax] by simp
    moreover have "p2 (U + 23) = 8388608 * p2 U" using p2_add_nat [of U 23] by simp
    ultimately have "of_int 8388608 \<le> \<bar>x\<bar> / p2 U" by (simp add: pos_le_divide_eq)
    then have "of_int 8388608 \<le> x / p2 U \<or> x / p2 U \<le> of_int (- 8388608)"
      using abs_divide [of x "p2 U"] abs_of_pos [OF p2_pos [of U]] by (simp; linarith)
    then have "8388608 \<le> j \<or> j \<le> - 8388608"
      unfolding j_def by (metis round_even_int round_even_mono)
    then show ?thesis by linarith
  qed
  show thesis
  proof (cases "\<bar>j\<bar> = 16777216")
    case True
    have "p2 (U + 1) = 2 * p2 U" by (rule p2_succ)
    then have "f32_form \<bar>rnd32 x\<bar> 8388608 (U + 1)"
      using True U by (simp add: f32_form_def ar)
    then show thesis by (rule that)
  next
    case False
    then have "f32_form \<bar>rnd32 x\<bar> \<bar>j\<bar> U"
      using j24 j0 U low by (auto simp: f32_form_def ar)
    then show thesis by (rule that)
  qed
qed

theorem f32_val_bits: "f32_val (Float32bits (f32_of_rat x)) = f32_of_rat x"
proof -
  define r where "r = rnd32 x"
  consider "r = 0" | "r \<noteq> 0" "128 \<le> rat_log2 \<bar>r\<bar>" | "r \<noteq> 0" "rat_log2 \<bar>r\<bar> < 128" by linarith
  then show ?thesis
  proof cases
    case 1
    then show ?thesis
      by (simp add: f32_of_rat_def r_def [symmetric] f32_word_def f32_val_def)
  next
    case 2
    then show ?thesis by (auto simp: f32_of_rat_def r_def [symmetric] f32_val_def)
  next
    case 3
    then obtain k u where f: "f32_form \<bar>r\<bar> k u" using rnd32_form [of x] by (auto simp: r_def)
    have "max (rat_log2 \<bar>r\<bar>) (- 126) = u + 23" by (rule f32_form_log [OF f])
    then have u: "u \<le> 104" using 3(2) by linarith
    have v: "f32_of_rat x = Fin r" using 3 by (simp add: f32_of_rat_def r_def [symmetric])
    show ?thesis
      using f32_val_word [OF f u, of "if r < 0 then 2 ^ 31 else 0"] by (cases "r < 0") (simp_all add: v)
  qed
qed

text \<open>Integers of 24 bits are exact.\<close>

lemma f32_of_int_exact:
  assumes "\<bar>n\<bar> < 2 ^ 24"
  shows "f32_of_int n = Fin (of_int n)"
proof (cases "n = 0")
  case True
  then show ?thesis by (simp add: f32_of_int_def f32_of_rat_def rnd32_def)
next
  case False
  then have n: "0 < \<bar>n\<bar>" by simp
  have lt: "rat_log2 \<bar>of_int n\<bar> < 24"
    using rat_log2_int_lt [OF n assms] by simp
  define U where "U = ulp_exp32 (of_int n)"
  define d where "d = nat (- U)"
  have U: "U \<le> 0" using lt by (simp add: U_def ulp_exp32_def)
  then have "p2 U = 1 / 2 ^ d" by (auto simp: p2_def d_def)
  then have q: "(of_int n :: rat) / p2 U = of_int (n * 2 ^ d)" and p: "2 ^ d * p2 U = 1" by simp_all
  have "rnd32 (of_int n) = of_int (n * 2 ^ d) * p2 U"
    using False by (simp only: rnd32_def Let_def U_def [symmetric] q round_even_int) simp
  then have "rnd32 (of_int n) = of_int n" using p by (simp add: mult.assoc)
  then show ?thesis
    using lt by (simp add: f32_of_int_def f32_of_rat_def)
qed

end
