(* ===== verification/SunBank.thy ===== *)
theory SunBank
  imports GoFloat32
begin

text \<open>
  The register bank (\<open>Bank\<close> of \<open>sunspec/encoder.go\<close>) and the walk over it
  (\<open>findModelInBank\<close> of \<open>server/server.go\<close>).  A bank under construction is only ever appended to, so
  the model of an emitter is the list of registers it appends, and a sequence of emitters is the
  concatenation.  \<open>blocks ms ws\<close> says that \<open>ws\<close> is a sequence of models with the ids and body
  lengths \<open>ms\<close>: the length register of each model is the length of its body.  The walk of a client,
  which sees only the registers, then finds exactly those models.
\<close>

section \<open>Registers\<close>

type_synonym regs = "u16 list"

definition notImplU16 :: u16 where "notImplU16 = 0xFFFF"
definition notImplS16 :: u16 where "notImplS16 = 0x8000"
definition notImplU32 :: u32 where "notImplU32 = 0xFFFFFFFF"
definition notImplFloat32 :: u32 where "notImplFloat32 = 0x7FC00000"
definition EndModelID :: u16 where "EndModelID = 0xFFFF"
definition BaseRegister :: u16 where "BaseRegister = 40000"

text \<open>\<open>uint16(int16(sf))\<close>; \<open>int32(i)\<close> keeps 32 bits of a Go \<open>int\<close>.\<close>

definition scaleFactor :: "int \<Rightarrow> u16" where
  "scaleFactor sf = word_of_int sf"

definition int32 :: "int \<Rightarrow> int" where
  "int32 i = signed_take_bit 31 i"

definition clampInt32 :: "int \<Rightarrow> int \<Rightarrow> int \<Rightarrow> int" where
  "clampInt32 v lo hi = (if v < lo then lo else if hi < v then hi else v)"

definition putAcc32 :: "u64 \<Rightarrow> regs" where
  "putAcc32 v = [ucast (drop_bit 16 v), ucast v]"

definition putU32 :: "u32 \<Rightarrow> regs" where
  "putU32 v = putAcc32 (ucast v)"

text \<open>\<open>copy\<close> into a zeroed buffer truncates and pads; then two bytes make a register.\<close>

definition putString :: "string \<Rightarrow> nat \<Rightarrow> regs" where
  "putString s n =
     (let buf = take (2 * n) (map of_char s @ replicate (2 * n) 0)
      in map (\<lambda>i. u16_of (buf ! (2 * i)) (buf ! (2 * i + 1))) [0..<n])"

definition putFloat32 :: "f64 \<Rightarrow> regs" where
  "putFloat32 v = (let bits = Float32bits v in [ucast (drop_bit 16 bits), ucast bits])"

definition putFloat32NotImpl :: regs where
  "putFloat32NotImpl = [ucast (drop_bit 16 notImplFloat32), ucast (notImplFloat32 AND 0xFFFF)]"

definition putFloat32Phase :: "f64 \<Rightarrow> nat \<Rightarrow> nat \<Rightarrow> regs" where
  "putFloat32Phase v idx phasesUsed = (if idx < phasesUsed then putFloat32 v else putFloat32NotImpl)"

definition phaseValueU16 :: "u16 \<Rightarrow> nat \<Rightarrow> nat \<Rightarrow> u16" where
  "phaseValueU16 v idx phasesUsed = (if idx < phasesUsed then v else notImplU16)"

definition strOr :: "string \<Rightarrow> string \<Rightarrow> string" where
  "strOr a b = (if a \<noteq> '''' then a else b)"

section \<open>The bank\<close>

record Bank =
  Regs :: regs
  Base :: u16

definition Bytes :: "Bank \<Rightarrow> bytes" where
  "Bytes b = concat (map (\<lambda>r. [hi8 r, lo8 r]) (Regs b))"

definition At :: "Bank \<Rightarrow> u16 \<Rightarrow> u16" where
  "At b addr =
     (if addr < Base b then 0
      else let idx = unat (addr - Base b) in if length (Regs b) \<le> idx then 0 else Regs b ! idx)"

definition Slice :: "Bank \<Rightarrow> u16 \<Rightarrow> u16 \<Rightarrow> regs" where
  "Slice b addr count = map (\<lambda>i. At b (addr + of_nat i)) [0..<unat count]"

definition Contains :: "Bank \<Rightarrow> u16 \<Rightarrow> u16 \<Rightarrow> bool" where
  "Contains b addr count =
     (if count = 0 then False else if addr < Base b then False
      else let fin = unat addr + unat count in fin \<le> unat (Base b) + length (Regs b))"

function find_loop :: "Bank \<Rightarrow> u16 \<Rightarrow> u16 \<Rightarrow> u16 \<Rightarrow> u16 option" where
  "find_loop b mid fin cur =
     (if cur + 1 < fin then
        let modID = At b cur
        in if modID = EndModelID then None
           else if modID = mid then Some cur
           else let modL = At b (cur + 1); nxt = cur + 2 + modL
                in if nxt \<le> cur \<or> fin < nxt then None else find_loop b mid fin nxt
      else None)"
  by pat_completeness auto

termination
proof (relation "measure (\<lambda>(b, mid, fin, cur). 65536 - unat (cur :: u16))")
  fix b :: Bank and mid fin cur modID modL nxt :: u16
  assume "\<not> (nxt \<le> cur \<or> fin < nxt)"
  then have "cur < nxt" by (simp add: not_le)
  then have "unat cur < unat nxt" by (simp only: word_less_nat_alt)
  moreover have "unat nxt < 65536" using unsigned_less [of nxt] by simp
  ultimately show "((b, mid, fin, nxt), (b, mid, fin, cur)) \<in> measure (\<lambda>(b, mid, fin, cur). 65536 - unat (cur :: u16))"
    by simp
qed simp

declare find_loop.simps [simp del]

definition findModelInBank :: "Bank \<Rightarrow> u16 \<Rightarrow> u16 option" where
  "findModelInBank b mid = find_loop b mid (Base b + of_nat (length (Regs b))) (Base b + 2)"

section \<open>Sizes\<close>

named_theorems emit_size \<open>the number of registers an emitter appends\<close>

lemma length_putAcc32 [simp, emit_size]: "length (putAcc32 v) = 2"
  by (simp add: putAcc32_def)

lemma length_putU32 [simp, emit_size]: "length (putU32 v) = 2"
  by (simp add: putU32_def)

lemma length_putString [simp, emit_size]: "length (putString s n) = n"
  by (simp add: putString_def Let_def)

lemma length_putFloat32 [simp, emit_size]: "length (putFloat32 v) = 2"
  by (simp add: putFloat32_def Let_def)

lemma length_putFloat32NotImpl [simp, emit_size]: "length putFloat32NotImpl = 2"
  by (simp add: putFloat32NotImpl_def)

lemma length_putFloat32Phase [simp, emit_size]: "length (putFloat32Phase v i n) = 2"
  by (simp add: putFloat32Phase_def)

lemma length_Slice [simp]: "length (Slice b addr count) = unat count"
  by (simp add: Slice_def)

section \<open>Models one after another\<close>

type_synonym layout = "(u16 \<times> nat) list"

fun blocks :: "layout \<Rightarrow> regs \<Rightarrow> bool" where
  "blocks [] ws = (ws = [])"
| "blocks ((i, n) # ms) ws =
     (n + 2 \<le> length ws \<and> ws ! 0 = i \<and> ws ! 1 = of_nat n \<and> blocks ms (drop (n + 2) ws))"

definition block :: "u16 \<Rightarrow> nat \<Rightarrow> regs \<Rightarrow> bool" where
  "block i n ws \<longleftrightarrow> length ws = n + 2 \<and> take 2 ws = [i, of_nat n]"

lemma blocks_single:
  assumes "block i n ws"
  shows "blocks [(i, n)] ws"
proof -
  have l: "length ws = n + 2" and t: "take 2 ws = [i, of_nat n]"
    using assms by (simp_all add: block_def)
  have "ws ! 0 = take 2 ws ! 0" "ws ! 1 = take 2 ws ! 1" by simp_all
  then show ?thesis using l t by simp
qed

lemma blocks_append:
  "blocks ms ws \<Longrightarrow> blocks ns vs \<Longrightarrow> blocks (ms @ ns) (ws @ vs)"
proof (induction ms arbitrary: ws)
  case (Cons p ms)
  obtain i n where p: "p = (i, n)" by fastforce
  have len: "n + 2 \<le> length ws" using Cons.prems(1) by (simp add: p)
  have "0 < length ws" "1 < length ws" using len by linarith+
  then have "(ws @ vs) ! 0 = ws ! 0" "(ws @ vs) ! 1 = ws ! 1" by (simp_all only: nth_append if_True)
  moreover have "drop (n + 2) (ws @ vs) = drop (n + 2) ws @ vs" using len by simp
  ultimately show ?case using Cons len by (simp add: p)
qed simp

lemma blocks_cons:
  assumes "block i n ws" and "blocks ms vs"
  shows "blocks ((i, n) # ms) (ws @ vs)"
  using blocks_append [OF blocks_single [OF assms(1)] assms(2)] by simp

lemma blocks_length: "blocks ms ws \<Longrightarrow> length ws = (\<Sum>(i, n)\<leftarrow>ms. n + 2)"
proof (induction ms arbitrary: ws)
  case (Cons p ms)
  obtain i n where p: "p = (i, n)" by fastforce
  have "n + 2 \<le> length ws" using Cons.prems by (simp add: p)
  moreover have "length (drop (n + 2) ws) = (\<Sum>(i, n)\<leftarrow>ms. n + 2)"
    by (rule Cons.IH) (use Cons.prems in \<open>simp add: p\<close>)
  ultimately show ?case by (simp add: p)
qed simp

text \<open>The offset of the first model with a given id.\<close>

fun model_offset :: "u16 \<Rightarrow> layout \<Rightarrow> nat option" where
  "model_offset mid [] = None"
| "model_offset mid ((i, n) # ms) =
     (if i = mid then Some 0 else map_option (\<lambda>k. k + (n + 2)) (model_offset mid ms))"

text \<open>A finished bank: the magic, the models, the end marker, all within the address space.\<close>

definition finished :: "layout \<Rightarrow> Bank \<Rightarrow> bool" where
  "finished ms b \<longleftrightarrow>
     (\<exists>ws. Regs b = [0x5375, 0x6E53] @ ws @ [EndModelID, 0] \<and> blocks ms ws) \<and>
     EndModelID \<notin> fst ` set ms \<and> unat (Base b) + length (Regs b) < 65536"

lemma unat_offset:
  fixes c :: u16
  assumes "unat c + k < 65536"
  shows "unat (c + of_nat k) = unat c + k"
  using assms by (simp add: unat_word_ariths unat_of_nat)

lemma At_offset:
  assumes "unat (Base b) + k < 65536" and "k < length (Regs b)"
  shows "At b (Base b + of_nat k) = Regs b ! k"
proof -
  have u: "unat (Base b + of_nat k) = unat (Base b) + k" by (rule unat_offset [OF assms(1)])
  then have "\<not> Base b + of_nat k < Base b" by (simp add: word_less_nat_alt)
  moreover have "unat (of_nat k :: u16) = k" using assms(1) by (simp add: unat_of_nat)
  ultimately show ?thesis using assms(2) by (simp add: At_def Let_def)
qed

lemma walk_from:
  assumes "blocks ms ws" and "Regs b = pre @ ws @ [EndModelID, 0]"
    and "EndModelID \<notin> fst ` set ms" and "unat (Base b) + length (Regs b) < 65536"
    and "mid \<noteq> EndModelID"
  shows "find_loop b mid (Base b + of_nat (length (Regs b))) (Base b + of_nat (length pre))
         = map_option (\<lambda>k. Base b + of_nat (length pre + k)) (model_offset mid ms)"
  using assms(1-3)
proof (induction ms arbitrary: ws pre)
  case Nil
  have sz: "length pre + 2 = length (Regs b)" using Nil by simp
  have "At b (Base b + of_nat (length pre)) = EndModelID"
    using Nil assms(4) by (subst At_offset) (simp_all add: nth_append)
  then show ?case by (simp add: find_loop.simps Let_def)
next
  case (Cons p ms)
  obtain i n where p: "p = (i, n)" by fastforce
  let ?fin = "Base b + of_nat (length (Regs b))"
  let ?cur = "Base b + of_nat (length pre)"
  have len: "n + 2 \<le> length ws" and w0: "ws ! 0 = i" and w1: "ws ! 1 = of_nat n"
    and rest: "blocks ms (drop (n + 2) ws)" using Cons.prems(1) by (simp_all add: p)
  have tot: "length (Regs b) = length pre + length ws + 2" using Cons.prems(2) by simp
  have uc: "unat (?cur) = unat (Base b) + length pre" "unat ?fin = unat (Base b) + length (Regs b)"
    using tot by (intro unat_offset; use assms(4) in linarith)+
  have c1: "?cur + 1 = Base b + of_nat (length pre + 1)" by simp
  have uc1: "unat (?cur + 1) = unat (Base b) + length pre + 1"
    unfolding c1 by (subst unat_offset; use assms(4) tot in linarith)
  have go: "?cur + 1 < ?fin" using uc(2) uc1 tot by (simp add: word_less_nat_alt)
  have w: "0 < length ws" "1 < length ws" using len by linarith+
  have r: "Regs b ! (length pre + k) = ws ! k" if "k < length ws" for k
    using that unfolding Cons.prems(2) nth_append_length_plus by (simp add: nth_append)
  have m0: "At b ?cur = i"
    by (subst At_offset; use assms(4) tot r [OF w(1)] w0 in simp)
  have m1: "At b (?cur + 1) = of_nat n"
    unfolding c1 by (subst At_offset; use assms(4) tot w r [OF w(2)] w1 in simp)
  have nxt: "?cur + 2 + of_nat n = Base b + of_nat (length (pre @ take (n + 2) ws))"
    using len by simp
  have un: "unat (?cur + 2 + of_nat n) = unat (Base b) + length pre + n + 2"
    unfolding nxt by (subst unat_offset; use assms(4) tot len in simp)
  have ok: "\<not> (?cur + 2 + of_nat n \<le> ?cur \<or> ?fin < ?cur + 2 + of_nat n)"
    using un uc tot len by (simp add: word_less_nat_alt word_le_nat_alt)
  have inE: "i \<noteq> EndModelID" "EndModelID \<notin> fst ` set ms" using Cons.prems(3) by (auto simp: p)
  have regs: "Regs b = (pre @ take (n + 2) ws) @ drop (n + 2) ws @ [EndModelID, 0]"
    using Cons.prems(2) by simp
  have IH: "find_loop b mid ?fin (?cur + 2 + of_nat n)
      = map_option (\<lambda>k. Base b + of_nat (length pre + k + (n + 2))) (model_offset mid ms)"
    unfolding nxt using Cons.IH [OF rest regs inE(2)] len by (simp add: algebra_simps)
  show ?case
  proof (cases "i = mid")
    case True
    then show ?thesis using go m0 inE(1) by (subst find_loop.simps) (simp add: p Let_def)
  next
    case False
    have "find_loop b mid ?fin ?cur = find_loop b mid ?fin (?cur + 2 + of_nat n)"
      using go m0 m1 ok inE(1) False by (subst find_loop.simps) (simp only: Let_def if_True if_False)
    then show ?thesis using IH False by (simp add: p option.map_comp comp_def algebra_simps)
  qed
qed

text \<open>The walk sees what was laid out.\<close>

theorem walk_finished:
  assumes "finished ms b" and "mid \<noteq> EndModelID"
  shows "findModelInBank b mid = map_option (\<lambda>k. Base b + of_nat (2 + k)) (model_offset mid ms)"
proof -
  obtain ws where ws: "Regs b = [0x5375, 0x6E53] @ ws @ [EndModelID, 0]" "blocks ms ws"
    using assms(1) by (auto simp: finished_def)
  show ?thesis
    using walk_from [OF ws(2) ws(1) _ _ assms(2)] assms(1)
    by (simp add: finished_def findModelInBank_def)
qed


end
