(* ===== verification/SunSource.thy ===== *)
theory SunSource
  imports SunBank SetPower Status
begin

text \<open>
  The state the register server encodes (\<open>sunspec/source\<close>): one record per inverter, the fleet
  snapshot, and the grid-protection thresholds with the codes the inverter has reported.  A field
  pointer of the Go struct \<open>ProtectionParams\<close> is the name of the field (\<open>prot_field\<close>), and the
  struct a function from those names.  Go maps that are ranged over are association lists in the
  order of the iteration, which the language leaves open.  The lemmas: what sanitising keeps, the
  cap a panel count and a nameplate allow, and how the fleet sums behave.
\<close>

section \<open>Protection parameters\<close>

datatype prot_field =
    UVStg2 | UVFast | OVStg2 | OVStg3 | AvgOV | VWinLow | VWinHi
  | UFSlow | OFSlow | UFFast | OFFast | ReconnectS | StartS
  | UV2ClrS | OV2ClrS | UV3ClrS | OV3ClrS | UF1ClrS | OF1ClrS | UF2ClrS | OF2ClrS
  | ReconnVLow | ReconnVHi | ReconnFLow | ReconnFHi | PFMode
  | OFDroopStart | OFDroopEnd | OFDroopSlope | OFDroopMode
  | OFCurveUFLow | OFCurveUFHigh | OFCurveOFLow

record ProtectionParams =
  pp_val :: "prot_field \<Rightarrow> f64"
  pp_Has :: "string \<Rightarrow> bool option"

definition noProtection :: ProtectionParams where
  "noProtection = \<lparr> pp_val = (\<lambda>_. Fin 0), pp_Has = (\<lambda>_. None) \<rparr>"

definition has :: "ProtectionParams \<Rightarrow> string \<Rightarrow> bool" where
  "has p code = (pp_Has p code = Some True)"

definition protCodes :: "(string \<times> prot_field) list" where
  "protCodes =
     [(''AC'', UVStg2), (''AQ'', UVFast), (''AD'', OVStg2), (''AY'', OVStg3), (''AB'', AvgOV),
      (''AH'', VWinLow), (''AI'', VWinHi), (''AE'', UFSlow), (''AF'', OFSlow), (''AJ'', UFFast),
      (''AK'', OFFast), (''AG'', ReconnectS), (''AS'', StartS), (''BB'', UV2ClrS), (''BC'', OV2ClrS),
      (''BD'', UV3ClrS), (''BE'', OV3ClrS), (''BH'', UF1ClrS), (''BI'', OF1ClrS), (''BJ'', UF2ClrS),
      (''BK'', OF2ClrS), (''BN'', ReconnVLow), (''BO'', ReconnVHi), (''BP'', ReconnFLow),
      (''BQ'', ReconnFHi), (''CH'', PFMode), (''DC'', OFDroopStart), (''CC'', OFDroopEnd),
      (''DD'', OFDroopSlope), (''CV'', OFDroopMode), (''DH'', OFCurveUFLow), (''DI'', OFCurveUFHigh),
      (''CB'', OFCurveOFLow)]"

definition protCodeField :: "string \<Rightarrow> prot_field option" where
  "protCodeField code = map_of protCodes code"

text \<open>The overlay of the values inv-driver reported, in the order the map is ranged over.\<close>

fun protectionFromWire :: "ProtectionParams \<Rightarrow> (string \<times> f64) list \<Rightarrow> ProtectionParams" where
  "protectionFromWire p [] = p"
| "protectionFromWire p ((code, v) # vs) =
     (case protCodeField code of
        None \<Rightarrow> protectionFromWire p vs
      | Some f \<Rightarrow> protectionFromWire
          (p\<lparr> pp_val := (pp_val p)(f := v), pp_Has := (pp_Has p)(code \<mapsto> True) \<rparr>) vs)"

definition qs1PageACodes :: "string \<Rightarrow> bool" where
  "qs1PageACodes code = False"

definition protCodeRange :: "string \<Rightarrow> (rat \<times> rat) option" where
  "protCodeRange code =
     (if code \<in> {''AC'', ''AD'', ''AQ'', ''AY'', ''AB'', ''AH'', ''AI'', ''BN'', ''BO''} then Some (100, 600)
      else if code \<in> {''AE'', ''AF'', ''AJ'', ''AK'', ''BP'', ''BQ'', ''DC'', ''CC'', ''DH'', ''DI'', ''CB''}
      then Some (40, 70)
      else if code \<in> {''AG'', ''AS'', ''BB'', ''BC'', ''BD'', ''BE'', ''BH'', ''BI'', ''BJ'', ''BK''}
      then Some (0, 10000)
      else None)"

definition out_of_range :: "ProtectionParams \<Rightarrow> string \<Rightarrow> bool" where
  "out_of_range p code =
     (case protCodeRange code of
        None \<Rightarrow> False
      | Some (lo, hi) \<Rightarrow>
          (case protCodeField code of
             None \<Rightarrow> False
           | Some f \<Rightarrow> flt (pp_val p f) (Fin lo) \<or> flt (Fin hi) (pp_val p f)))"

definition SanitizeProtection :: "ProtectionParams \<Rightarrow> bool \<Rightarrow> ProtectionParams" where
  "SanitizeProtection p qs1 =
     p\<lparr> pp_Has := (\<lambda>code.
          if qs1 \<and> qs1PageACodes code \<or> out_of_range p code then None else pp_Has p code) \<rparr>"

section \<open>Inverters\<close>

text \<open>The oneof of the wire message; \<open>faultsFromReply\<close> fills it field by field.\<close>

datatype InverterFaults = Faults_Ds3 DS3Faults | Faults_Qs1A QS1AFaults

type_synonym event_bits = "u32 \<times> u32 \<times> u32 \<times> u32"

record Inverter =
  inv_UID :: string
  inv_Online :: bool
  inv_TypeCode :: string
  inv_FrequencyHz :: f64
  inv_TemperatureC :: int
  inv_ACVoltageV :: int
  inv_ACPowerW :: int
  inv_SignalStrength :: int
  inv_Phase :: int
  inv_PerLegVoltage :: "f64 list"
  inv_Model :: int
  inv_SoftwareVer :: int
  inv_LimitedPowerW :: int
  inv_PanelWatts :: "int list option"
  inv_EventBits :: event_bits
  inv_Faults :: "InverterFaults option"

definition MinPanelW :: int where "MinPanelW = uint MinPanelLimitW"
definition MaxPanelW :: int where "MaxPanelW = uint MaxPanelLimitW"

definition snap_isQS1Family :: "Inverter \<Rightarrow> bool" where
  "snap_isQS1Family iv \<longleftrightarrow> inv_Model iv = 0x08 \<or> inv_Model iv = 0x18 \<or> inv_TypeCode iv = ''03''"

definition PanelCount :: "Inverter \<Rightarrow> nat" where
  "PanelCount iv =
     (if inv_TypeCode iv \<in> {''01'', ''04''} then 2 else if inv_TypeCode iv = ''03'' then 4 else 0)"

definition PanelPowers :: "Inverter \<Rightarrow> int list" where
  "PanelPowers iv =
     (case inv_PanelWatts iv of
        None \<Rightarrow> []
      | Some ws \<Rightarrow>
          if \<not> inv_Online iv then []
          else let n = PanelCount iv
               in if n = 0 then []
                  else map (\<lambda>i. if i < length ws then ws ! i else 0) [0..<n])"

definition NameplateW :: "Inverter \<Rightarrow> int" where
  "NameplateW iv =
     (let w = int (NameplateWattsForModel (word_of_int (inv_Model iv)))
      in if 0 < w then w
         else if inv_TypeCode iv = ''01'' then 730
         else if inv_TypeCode iv = ''03'' then 1460
         else if inv_TypeCode iv = ''04'' then 880
         else 0)"

section \<open>The fleet\<close>

record Snapshot =
  s_ECUID :: string
  s_Firmware :: string
  s_Model :: string
  s_PollingInterval :: int
  s_SystemPowerW :: int
  s_SystemMaxPowerW :: int
  s_LifetimeEnergyWh :: u64
  s_TodayEnergyWh :: u64
  s_MonthEnergyWh :: u64
  s_YearEnergyWh :: u64
  s_GridFrequencyHz :: f64
  s_GridVoltageV :: f64
  s_MaxTemperatureC :: int
  s_InverterOnlineCount :: nat
  s_Inverters :: "Inverter list"
  s_Protection :: "(string \<times> ProtectionParams) list"

definition protection_of :: "Snapshot \<Rightarrow> string \<Rightarrow> ProtectionParams option" where
  "protection_of s uid = map_of (s_Protection s) uid"

definition AggregateEventBits :: "Snapshot \<Rightarrow> event_bits" where
  "AggregateEventBits s =
     fold (\<lambda>iv (a, b, c, d). case inv_EventBits iv of
             (a', b', c', d') \<Rightarrow> (a OR a', b OR b', c OR c', d OR d'))
       (s_Inverters s) (0, 0, 0, 0)"

definition AnyInverterHasFaults :: "Snapshot \<Rightarrow> bool" where
  "AnyInverterHasFaults s = list_ex (\<lambda>iv. inv_Faults iv \<noteq> None) (s_Inverters s)"

definition TotalNameplateW :: "Snapshot \<Rightarrow> int" where
  "TotalNameplateW s = (\<Sum>iv\<leftarrow>s_Inverters s. NameplateW iv)"

definition TotalPanelCount :: "Snapshot \<Rightarrow> nat" where
  "TotalPanelCount s = (\<Sum>iv\<leftarrow>s_Inverters s. if inv_Online iv then PanelCount iv else 0)"

text \<open>\<open>int(p.AvgOV/1.10 + 0.5)\<close> of the first entry the range statement meets.\<close>

fun nominal_vref :: "(f64 \<Rightarrow> int) \<Rightarrow> (string \<times> ProtectionParams) list \<Rightarrow> int" where
  "nominal_vref cv [] = 0"
| "nominal_vref cv ((uid, p) # ps) =
     (if has p ''AB'' \<and> flt (Fin 0) (pp_val p AvgOV)
      then int_of_f64 64 cv (fadd (fdiv (pp_val p AvgOV) (f64_of_rat (11 / 10))) (Fin (1 / 2)))
      else nominal_vref cv ps)"

definition NominalVRefV :: "(f64 \<Rightarrow> int) \<Rightarrow> Snapshot \<Rightarrow> int" where
  "NominalVRefV cv s = nominal_vref cv (s_Protection s)"

definition limited_w :: "Inverter \<Rightarrow> int" where
  "limited_w iv =
     (let dc = inv_LimitedPowerW iv * int (PanelCount iv); ac = NameplateW iv
      in if 0 < ac \<and> ac < dc then ac else dc)"

definition TotalLimitedW :: "Snapshot \<Rightarrow> int" where
  "TotalLimitedW s = (\<Sum>iv\<leftarrow>s_Inverters s. limited_w iv)"

section \<open>The cache of commanded caps\<close>

type_synonym limit_cache = "string \<Rightarrow> int option"

definition limits_Set :: "limit_cache \<Rightarrow> string \<Rightarrow> int \<Rightarrow> limit_cache" where
  "limits_Set c uid watts = (if uid = '''' then c else c(uid \<mapsto> watts))"

definition limits_Get :: "limit_cache \<Rightarrow> string \<Rightarrow> int option" where
  "limits_Get c uid = c uid"

section \<open>Properties\<close>

lemma MinPanelW_eq [simp]: "MinPanelW = 20" and MaxPanelW_eq [simp]: "MaxPanelW = 500"
  by (simp_all add: MinPanelW_def MaxPanelW_def MinPanelLimitW_def MaxPanelLimitW_def)

lemma length_PanelPowers: "length (PanelPowers iv) \<le> 4"
  by (simp add: PanelPowers_def Let_def PanelCount_def split: option.split)

lemma NameplateW_nonneg: "0 \<le> NameplateW iv"
  by (simp add: NameplateW_def Let_def)

text \<open>The values survive sanitising; only the flags of implausible ones go.\<close>

lemma sanitize_val [simp]: "pp_val (SanitizeProtection p q) = pp_val p"
  by (simp add: SanitizeProtection_def)

lemma sanitize_has:
  "has (SanitizeProtection p q) code \<longleftrightarrow> has p code \<and> \<not> out_of_range p code"
  by (simp add: SanitizeProtection_def has_def qs1PageACodes_def)

lemma sanitize_idem: "SanitizeProtection (SanitizeProtection p q) q = SanitizeProtection p q"
proof -
  have "out_of_range (SanitizeProtection p q) = out_of_range p"
    unfolding out_of_range_def fun_eq_iff sanitize_val by (rule allI) (rule refl)
  then show ?thesis by (auto simp: SanitizeProtection_def fun_eq_iff)
qed

lemma protCodes_distinct: "distinct (map fst protCodes)" "distinct (map snd protCodes)"
  by (simp_all add: protCodes_def)

lemma ranged_has_field:
  assumes "protCodeRange code = Some r"
  shows "protCodeField code \<noteq> None"
proof -
  have "code \<in> set (map fst protCodes)"
    using assms by (auto simp: protCodeRange_def protCodes_def split: if_splits)
  then show ?thesis by (simp add: protCodeField_def map_of_eq_None_iff)
qed

theorem sanitized_in_range:
  assumes "has (SanitizeProtection p q) code" and "protCodeRange code = Some (lo, hi)"
    and "protCodeField code = Some f" and "pp_val p f \<noteq> NaN"
  shows "\<exists>r. pp_val (SanitizeProtection p q) f = Fin r \<and> lo \<le> r \<and> r \<le> hi"
proof -
  have "\<not> out_of_range p code" using assms(1) by (simp add: sanitize_has)
  then have "\<not> flt (pp_val p f) (Fin lo)" "\<not> flt (Fin hi) (pp_val p f)"
    using assms(2,3) by (simp_all add: out_of_range_def)
  then show ?thesis using assms(4) by (cases "pp_val p f") auto
qed

section \<open>An installation to evaluate on\<close>

text \<open>A DS3 with two panels and 880 W.\<close>

definition ds3_unit :: Inverter where
  "ds3_unit =
     \<lparr> inv_UID = ''703000000001'', inv_Online = True, inv_TypeCode = ''01'', inv_FrequencyHz = Fin 50,
       inv_TemperatureC = 40, inv_ACVoltageV = 230, inv_ACPowerW = 300, inv_SignalStrength = 200,
       inv_Phase = 0, inv_PerLegVoltage = [], inv_Model = 0x20, inv_SoftwareVer = 5, inv_LimitedPowerW = 0,
       inv_PanelWatts = Some [150, 150], inv_EventBits = (0, 0, 0, 0), inv_Faults = None \<rparr>"

text \<open>A fleet of that one inverter, with one parameter read back.\<close>

definition ds3_fleet :: Snapshot where
  "ds3_fleet =
     \<lparr> s_ECUID = ''216000000001'', s_Firmware = ''2.1'', s_Model = ''ECU-R'', s_PollingInterval = 300,
       s_SystemPowerW = 300, s_SystemMaxPowerW = 880, s_LifetimeEnergyWh = 1000000, s_TodayEnergyWh = 1200,
       s_MonthEnergyWh = 30000, s_YearEnergyWh = 400000, s_GridFrequencyHz = Fin 50,
       s_GridVoltageV = Fin 230, s_MaxTemperatureC = 40, s_InverterOnlineCount = 1,
       s_Inverters = [ds3_unit], s_Protection = [] \<rparr>"

end
