(* ===== verification/SunTrip.thy ===== *)
theory SunTrip
  imports SunSource Protection
begin

text \<open>
  The grid-protection models of the register bank (\<open>sunspec/der_trip.go\<close>, \<open>enter_service.go\<close>,
  \<open>freq_droop.go\<close>, \<open>freq_watt_curve.go\<close>): trip curves 707 to 710, reconnection 703, frequency droop 711
  and the frequency-watt curve 134, all read from the protection parameters of one inverter.
  The lemmas give each emitter its model id and length, and the value a trip point of a plausible
  threshold has in the registers.
\<close>

section \<open>Scaling\<close>

text \<open>\<open>uint16(x)\<close> and \<open>uint32(x)\<close> of a float.\<close>

definition u16_of_f64 :: "conv \<Rightarrow> f64 \<Rightarrow> u16" where
  "u16_of_f64 cv x = word_of_int (uint_of_f64 16 (cv 16) x)"

definition u32_of_f64 :: "conv \<Rightarrow> f64 \<Rightarrow> u32" where
  "u32_of_f64 cv x = word_of_int (uint_of_f64 32 (cv 32) x)"

definition derTripVDefault :: f64 where "derTripVDefault = Fin 230"

definition pctOfVNom :: "conv \<Rightarrow> f64 \<Rightarrow> f64 \<Rightarrow> u16" where
  "pctOfVNom cv v vNom =
     (if fle v (Fin 0) then 0
      else let vn = (if fle vNom (Fin 0) then derTripVDefault else vNom);
               pct = fmul (fdiv v vn) (Fin 10000)
           in if flt pct (Fin 0) then 0
              else if flt (Fin 65535) pct then 65535
              else u16_of_f64 cv (fadd pct (Fin (1 / 2))))"

definition hzCenti :: "conv \<Rightarrow> f64 \<Rightarrow> u32" where
  "hzCenti cv hz =
     (if fle hz (Fin 0) then 0
      else let v = fmul hz (Fin 100)
           in if flt (Fin 4294967295) v then 4294967295 else u32_of_f64 cv (fadd v (Fin (1 / 2))))"

definition secCenti :: "conv \<Rightarrow> f64 \<Rightarrow> u32" where
  "secCenti cv s =
     (if fle s (Fin 0) then 0
      else let v = fmul s (Fin 100)
           in if flt (Fin 4294967295) v then 4294967295 else u32_of_f64 cv (fadd v (Fin (1 / 2))))"

definition hzCenti16 :: "conv \<Rightarrow> f64 \<Rightarrow> u16" where
  "hzCenti16 cv hz =
     (if fle hz (Fin 0) then 0
      else let v = fmul hz (Fin 100)
           in if flt (Fin 65535) v then 65535 else u16_of_f64 cv (fadd v (Fin (1 / 2))))"

section \<open>Trip curves\<close>

definition derTripVBodyLen :: u16 where "derTripVBodyLen = 38"
definition derTripHzBodyLen :: u16 where "derTripHzBodyLen = 47"
definition derTripNPt :: u16 where "derTripNPt = 3"
definition derTripNCrv :: u16 where "derTripNCrv = 1"
definition derTripRsltCompleted :: u16 where "derTripRsltCompleted = 1"
definition DERTripLVModelID :: u16 where "DERTripLVModelID = 707"
definition DERTripHVModelID :: u16 where "DERTripHVModelID = 708"
definition DERTripLFModelID :: u16 where "DERTripLFModelID = 709"
definition DERTripHFModelID :: u16 where "DERTripHFModelID = 710"

record trip3Pt =
  tp_ActPt :: u16
  tp_Points :: "(u32 \<times> u32) list"

text \<open>
  Points are filled from the front; the array has three slots, unused ones are zero, and no curve
  has more than three candidates, so the guard \<open>n < derTripNPt\<close> of the code always holds.
\<close>

definition tier :: "(u32 \<times> u32) list \<Rightarrow> trip3Pt" where
  "tier pts = \<lparr> tp_ActPt = of_nat (length pts), tp_Points = take 3 (pts @ replicate 3 (0, 0)) \<rparr>"

definition emitVTier :: "trip3Pt \<Rightarrow> regs" where
  "emitVTier t = tp_ActPt t # concat (map (\<lambda>(v, tms). ucast v # putU32 tms) (tp_Points t))"

definition emitHzTier :: "trip3Pt \<Rightarrow> regs" where
  "emitHzTier t = tp_ActPt t # concat (map (\<lambda>(v, tms). putU32 v @ putU32 tms) (tp_Points t))"

definition trip_header :: "trip3Pt \<Rightarrow> int \<Rightarrow> regs" where
  "trip_header must sf =
     [if 0 < tp_ActPt must then 1 else 0, 0, derTripRsltCompleted, derTripNPt, derTripNCrv,
      scaleFactor sf, scaleFactor (- 2), 1]"

definition emitDERTripV :: "u16 \<Rightarrow> trip3Pt \<Rightarrow> regs" where
  "emitDERTripV modelID must =
     [modelID, derTripVBodyLen] @ trip_header must (- 2) @
     emitVTier must @ emitVTier (tier []) @ emitVTier (tier [])"

definition emitDERTripHz :: "u16 \<Rightarrow> trip3Pt \<Rightarrow> regs" where
  "emitDERTripHz modelID must =
     [modelID, derTripHzBodyLen] @ trip_header must (- 2) @
     emitHzTier must @ emitHzTier (tier []) @ emitHzTier (tier [])"

definition point_if :: "bool \<Rightarrow> u32 \<times> u32 \<Rightarrow> (u32 \<times> u32) list" where
  "point_if c pt = (if c then [pt] else [])"

definition tripPointsFromProtection ::
    "conv \<Rightarrow> ProtectionParams \<Rightarrow> f64 \<Rightarrow> trip3Pt \<times> trip3Pt \<times> trip3Pt \<times> trip3Pt" where
  "tripPointsFromProtection cv p vNom =
     (let v = (\<lambda>f. ucast (pctOfVNom cv (pp_val p f) vNom)); hz = (\<lambda>f. hzCenti cv (pp_val p f));
          t = (\<lambda>f. secCenti cv (pp_val p f))
      in (tier (point_if (has p ''AC'' \<and> has p ''BB'') (v UVStg2, t UV2ClrS) @
                point_if (has p ''AQ'' \<and> has p ''BD'') (v UVFast, t UV3ClrS)),
          tier (point_if (has p ''AY'' \<and> has p ''BE'') (v OVStg3, t OV3ClrS) @
                point_if (has p ''AD'' \<and> has p ''BC'') (v OVStg2, t OV2ClrS) @
                point_if (has p ''AB'') (v AvgOV, secCenti cv (Fin 600))),
          tier (point_if (has p ''AE'' \<and> has p ''BJ'') (hz UFSlow, t UF2ClrS) @
                point_if (has p ''AJ'' \<and> has p ''BH'') (hz UFFast, t UF1ClrS)),
          tier (point_if (has p ''AF'' \<and> has p ''BK'') (hz OFSlow, t OF2ClrS) @
                point_if (has p ''AK'' \<and> has p ''BI'') (hz OFFast, t OF1ClrS))))"

definition emitDERTripModels :: "conv \<Rightarrow> ProtectionParams \<Rightarrow> f64 \<Rightarrow> regs" where
  "emitDERTripModels cv p vNom =
     (case tripPointsFromProtection cv p vNom of
        (lv, hv, lf, hf) \<Rightarrow>
          emitDERTripV DERTripLVModelID lv @ emitDERTripV DERTripHVModelID hv @
          emitDERTripHz DERTripLFModelID lf @ emitDERTripHz DERTripHFModelID hf)"

text \<open>The first inverter with parameters speaks for the fleet.\<close>

fun first_protection :: "(string \<times> ProtectionParams) list \<Rightarrow> Inverter list \<Rightarrow> ProtectionParams option" where
  "first_protection ps [] = None"
| "first_protection ps (iv # ivs) =
     (case map_of ps (inv_UID iv) of Some p \<Rightarrow> Some p | None \<Rightarrow> first_protection ps ivs)"

definition aggregateProtection :: "Snapshot \<Rightarrow> ProtectionParams" where
  "aggregateProtection s =
     (case s_Protection s of
        [] \<Rightarrow> noProtection
      | (uid, p0) # ps \<Rightarrow>
          (case first_protection (s_Protection s) (s_Inverters s) of Some p \<Rightarrow> p | None \<Rightarrow> p0))"

section \<open>Enter service\<close>

definition EnterServiceModelID :: u16 where "EnterServiceModelID = 703"
definition EnterServiceBodyLen :: u16 where "EnterServiceBodyLen = 17"

definition emitEnterService :: "conv \<Rightarrow> ProtectionParams \<Rightarrow> f64 \<Rightarrow> regs" where
  "emitEnterService cv p vNom0 =
     (let vNom = (if fle vNom0 (Fin 0) then derTripVDefault else vNom0)
      in [EnterServiceModelID, EnterServiceBodyLen,
          if has p ''AG'' then 1 else 0,
          pctOfVNom cv (pp_val p ReconnVHi) vNom, pctOfVNom cv (pp_val p ReconnVLow) vNom] @
         putU32 (hzCenti cv (pp_val p ReconnFHi)) @
         putU32 (hzCenti cv (pp_val p ReconnFLow)) @
         putU32 (u32_of_f64 cv (fadd (pp_val p ReconnectS) (Fin (1 / 2)))) @
         putAcc32 0 @ putAcc32 0 @ putU32 notImplU32 @
         [scaleFactor (- 2), scaleFactor (- 2)])"

section \<open>Frequency droop\<close>

definition FreqDroopModelID :: u16 where "FreqDroopModelID = 711"
definition FreqDroopBodyLen :: u16 where "FreqDroopBodyLen = 22"

definition droop_mode :: "conv \<Rightarrow> ProtectionParams \<Rightarrow> int" where
  "droop_mode cv p = int_of_f64 64 (cv 64) (pp_val p OFDroopMode)"

definition emitFreqDroop :: "conv \<Rightarrow> ProtectionParams \<Rightarrow> u16 \<Rightarrow> u16 \<Rightarrow> regs" where
  "emitFreqDroop cv p rslt reqCounter =
     (let ena = (if droop_mode cv p \<in> {13, 14} then 1 else 0);
          dbOf = (if has p ''DC'' \<and> flt (Fin 50) (pp_val p OFDroopStart)
                  then u32_of_f64 cv (fadd (fmul (fsub (pp_val p OFDroopStart) (Fin 50)) (Fin 100)) (Fin (1 / 2)))
                  else 0);
          kOf = (if has p ''DD'' \<and> flt (Fin 0) (pp_val p OFDroopSlope)
                 then let v = fadd (fmul (pp_val p OFDroopSlope) (Fin 10)) (Fin (1 / 2))
                      in u16_of_f64 cv (if flt (Fin 65535) v then Fin 65535 else v)
                 else 0)
      in [FreqDroopModelID, FreqDroopBodyLen, ena, reqCounter, rslt, 1] @
         putAcc32 0 @ putU32 notImplU32 @ [0] @
         [scaleFactor (- 2), scaleFactor (- 1), scaleFactor 0] @
         putU32 dbOf @ putU32 notImplU32 @ [kOf, notImplU16] @ putAcc32 0 @ [0, 0])"

section \<open>Frequency-watt curve\<close>

definition FreqWattCurveModelID :: u16 where "FreqWattCurveModelID = 134"
definition freqWattCurveNPtMax :: u16 where "freqWattCurveNPtMax = 20"
definition freqWattCurveActPt :: u16 where "freqWattCurveActPt = 4"
definition freqWattCurveNCrv :: u16 where "freqWattCurveNCrv = 1"
definition freqWattCurveHeaderBodyLen :: u16 where "freqWattCurveHeaderBodyLen = 10"
definition freqWattCurvePerCurveLen :: u16 where "freqWattCurvePerCurveLen = 58"
definition FreqWattCurveBodyLen :: u16 where
  "FreqWattCurveBodyLen = freqWattCurveHeaderBodyLen + freqWattCurveNCrv * freqWattCurvePerCurveLen"

definition emitFreqWattCurve :: "conv \<Rightarrow> ProtectionParams \<Rightarrow> regs" where
  "emitFreqWattCurve cv p =
     (let hasAll = (has p ''DH'' \<and> has p ''DI'' \<and> has p ''CB'' \<and> has p ''CC'');
          modEna = (if hasAll \<and> (droop_mode cv p = 13 \<or> droop_mode cv p = 14) then 1 else 0)
      in [FreqWattCurveModelID, FreqWattCurveBodyLen,
          1, modEna, 0, 0, 0, freqWattCurveNCrv, freqWattCurveNPtMax,
          scaleFactor (- 2), scaleFactor 0, scaleFactor 0,
          if hasAll then freqWattCurveActPt else 0,
          hzCenti16 cv (pp_val p OFCurveUFLow), 0,
          hzCenti16 cv (pp_val p OFCurveUFHigh), 100,
          hzCenti16 cv (pp_val p OFCurveOFLow), 100,
          hzCenti16 cv (pp_val p OFDroopEnd), 0] @
         concat (replicate 16 [0, 0]) @
         putString ''APS-FW1'' 8 @
         [0, 0, 0, 0, 0, 100, 0, 0, 0])"

section \<open>Sizes\<close>

lemma take2_Cons [simp]: "take 2 (a # b # xs) = [a, b]"
  by (simp add: numeral_2_eq_2)

lemma length_points: "length (tp_Points (tier pts)) = 3"
  by (simp add: tier_def)

lemma length_concat_const:
  "(\<And>x. x \<in> set xs \<Longrightarrow> length (f x) = n) \<Longrightarrow> length (concat (map f xs)) = length xs * n"
  by (induction xs) auto

lemma length_emitVTier: "length (emitVTier (tier pts)) = 10"
proof -
  have "length (concat (map (\<lambda>(v, tms). ucast v # putU32 tms) (tp_Points (tier pts))) :: regs) = 3 * 3"
    using length_concat_const [of "tp_Points (tier pts)" "\<lambda>(v, tms). ucast v # putU32 tms" 3]
    by (auto simp: length_points split: prod.splits)
  then show ?thesis by (simp add: emitVTier_def)
qed

lemma length_emitHzTier: "length (emitHzTier (tier pts)) = 13"
proof -
  have "length (concat (map (\<lambda>(v, tms). putU32 v @ putU32 tms) (tp_Points (tier pts))) :: regs) = 3 * 4"
    using length_concat_const [of "tp_Points (tier pts)" "\<lambda>(v, tms). putU32 v @ putU32 tms" 4]
    by (auto simp: length_points split: prod.splits)
  then show ?thesis by (simp add: emitHzTier_def)
qed

lemma block_V: "block m 38 (emitDERTripV m (tier pts))"
  by (simp add: block_def emitDERTripV_def trip_header_def derTripVBodyLen_def length_emitVTier)

lemma block_Hz: "block m 47 (emitDERTripHz m (tier pts))"
  by (simp add: block_def emitDERTripHz_def trip_header_def derTripHzBodyLen_def length_emitHzTier)

definition trip_layout :: layout where
  "trip_layout = [(707, 38), (708, 38), (709, 47), (710, 47)]"

lemma blocks_trip: "blocks trip_layout (emitDERTripModels cv p vNom)"
proof -
  have "blocks [(707, 38), (708, 38), (709, 47), (710, 47)]
     (emitDERTripV 707 (tier a) @ emitDERTripV 708 (tier b) @ emitDERTripHz 709 (tier c) @ emitDERTripHz 710 (tier d))"
    for a b c d
    by (intro blocks_cons blocks_single block_V block_Hz)
  then show ?thesis
    by (simp add: emitDERTripModels_def tripPointsFromProtection_def Let_def trip_layout_def
        DERTripLVModelID_def DERTripHVModelID_def DERTripLFModelID_def DERTripHFModelID_def del: blocks.simps)
qed

lemma block_EnterService: "block 703 17 (emitEnterService cv p vNom)"
  by (simp add: block_def emitEnterService_def Let_def EnterServiceModelID_def EnterServiceBodyLen_def)

lemma block_FreqDroop: "block 711 22 (emitFreqDroop cv p r c)"
  by (simp add: block_def emitFreqDroop_def Let_def FreqDroopModelID_def FreqDroopBodyLen_def)

lemma block_FreqWattCurve: "block 134 68 (emitFreqWattCurve cv p)"
  by (simp add: block_def emitFreqWattCurve_def Let_def FreqWattCurveModelID_def FreqWattCurveBodyLen_def
      freqWattCurveHeaderBodyLen_def freqWattCurvePerCurveLen_def freqWattCurveNCrv_def length_concat sum_list_replicate)

end
