(* ===== verification/SunEvents.thy ===== *)
theory SunEvents
  imports SunSource
begin

text \<open>
  Alarm bits (\<open>sunspec/events.go\<close>, \<open>faults.go\<close> and \<open>faultsFromReply\<close> of \<open>ingest.go\<close>): the standard
  SunSpec event word and the vendor word, from the fault flags the codec decodes or, for inverters
  without them, from the vendor's own event string.  The lemmas read a word bit by bit; from them:
  the fleet word is the union of the inverters' words, the vendor word keeps every fault flag
  apart, and the standard word agrees with the flags the codec itself aggregates.
\<close>

section \<open>The event words\<close>

text \<open>\<open>1 << k\<close>.\<close>

definition flag :: "nat \<Rightarrow> u32" where
  "flag k = push_bit k 1"

named_theorems evt_bits \<open>the positions of the event flags\<close>

definition Evt1GroundFault :: u32 where [evt_bits]: "Evt1GroundFault = flag 0"
definition Evt1DCOverVolt :: u32 where [evt_bits]: "Evt1DCOverVolt = flag 1"
definition Evt1ACDisconnect :: u32 where [evt_bits]: "Evt1ACDisconnect = flag 2"
definition Evt1DCDisconnect :: u32 where [evt_bits]: "Evt1DCDisconnect = flag 3"
definition Evt1GridDisconnect :: u32 where [evt_bits]: "Evt1GridDisconnect = flag 4"
definition Evt1CabinetOpen :: u32 where [evt_bits]: "Evt1CabinetOpen = flag 5"
definition Evt1ManualShutdown :: u32 where [evt_bits]: "Evt1ManualShutdown = flag 6"
definition Evt1OverTemp :: u32 where [evt_bits]: "Evt1OverTemp = flag 7"
definition Evt1OverFrequency :: u32 where [evt_bits]: "Evt1OverFrequency = flag 8"
definition Evt1UnderFrequency :: u32 where [evt_bits]: "Evt1UnderFrequency = flag 9"
definition Evt1ACOverVolt :: u32 where [evt_bits]: "Evt1ACOverVolt = flag 10"
definition Evt1ACUnderVolt :: u32 where [evt_bits]: "Evt1ACUnderVolt = flag 11"
definition Evt1BlownStringFuse :: u32 where [evt_bits]: "Evt1BlownStringFuse = flag 12"
definition Evt1UnderTemp :: u32 where [evt_bits]: "Evt1UnderTemp = flag 13"
definition Evt1MemoryLoss :: u32 where [evt_bits]: "Evt1MemoryLoss = flag 14"
definition Evt1HWTestFailure :: u32 where [evt_bits]: "Evt1HWTestFailure = flag 15"

definition EvtVnd1GridRelayFault :: u32 where [evt_bits]: "EvtVnd1GridRelayFault = flag 0"
definition EvtVnd1DCContactorFault :: u32 where [evt_bits]: "EvtVnd1DCContactorFault = flag 1"
definition EvtVnd1DCBusFault :: u32 where [evt_bits]: "EvtVnd1DCBusFault = flag 2"
definition EvtVnd1DCGroundFault :: u32 where [evt_bits]: "EvtVnd1DCGroundFault = flag 3"
definition EvtVnd1CommFault :: u32 where [evt_bits]: "EvtVnd1CommFault = flag 4"
definition EvtVnd1OverTemperature :: u32 where [evt_bits]: "EvtVnd1OverTemperature = flag 5"
definition EvtVnd1IsoFaultA :: u32 where [evt_bits]: "EvtVnd1IsoFaultA = flag 6"
definition EvtVnd1IsoFaultB :: u32 where [evt_bits]: "EvtVnd1IsoFaultB = flag 7"
definition EvtVnd1IsoFaultC :: u32 where [evt_bits]: "EvtVnd1IsoFaultC = flag 8"
definition EvtVnd1IsoFaultD :: u32 where [evt_bits]: "EvtVnd1IsoFaultD = flag 9"
definition EvtVnd1ACOverVoltPrimary :: u32 where [evt_bits]: "EvtVnd1ACOverVoltPrimary = flag 10"
definition EvtVnd1ACOverVoltSecondary :: u32 where [evt_bits]: "EvtVnd1ACOverVoltSecondary = flag 11"
definition EvtVnd1ACUnderVoltPrimary :: u32 where [evt_bits]: "EvtVnd1ACUnderVoltPrimary = flag 12"
definition EvtVnd1ACUnderVoltSecondary :: u32 where [evt_bits]: "EvtVnd1ACUnderVoltSecondary = flag 13"
definition EvtVnd1OverFreqPrimary :: u32 where [evt_bits]: "EvtVnd1OverFreqPrimary = flag 14"
definition EvtVnd1OverFreqSecondary :: u32 where [evt_bits]: "EvtVnd1OverFreqSecondary = flag 15"
definition EvtVnd1OverFreqTertiary :: u32 where [evt_bits]: "EvtVnd1OverFreqTertiary = flag 16"
definition EvtVnd1OverFreqExtra :: u32 where [evt_bits]: "EvtVnd1OverFreqExtra = flag 17"
definition EvtVnd1OverFreqRMS :: u32 where [evt_bits]: "EvtVnd1OverFreqRMS = flag 18"
definition EvtVnd1UnderFreqPrimary :: u32 where [evt_bits]: "EvtVnd1UnderFreqPrimary = flag 19"
definition EvtVnd1UnderFreqSecondary :: u32 where [evt_bits]: "EvtVnd1UnderFreqSecondary = flag 20"
definition EvtVnd1UnderFreqTertiary :: u32 where [evt_bits]: "EvtVnd1UnderFreqTertiary = flag 21"
definition EvtVnd1UnderFreqExtra :: u32 where [evt_bits]: "EvtVnd1UnderFreqExtra = flag 22"
definition EvtVnd1UnderFreqRMS :: u32 where [evt_bits]: "EvtVnd1UnderFreqRMS = flag 23"
definition EvtVnd1ZBLinkA :: u32 where [evt_bits]: "EvtVnd1ZBLinkA = flag 24"
definition EvtVnd1ZBLinkB :: u32 where [evt_bits]: "EvtVnd1ZBLinkB = flag 25"

text \<open>A run of \<open>if c { w |= m }\<close>.\<close>

fun or_flags :: "(bool \<times> u32) list \<Rightarrow> u32" where
  "or_flags [] = 0"
| "or_flags ((c, m) # xs) = (if c then m OR or_flags xs else or_flags xs)"

section \<open>From the vendor's event string\<close>

fun ev_word :: "event_bits \<Rightarrow> nat \<Rightarrow> u32" where
  "ev_word (a, b, c, d) n = (if n = 0 then a else if n = 1 then b else if n = 2 then c else d)"

definition aps :: "event_bits \<Rightarrow> nat \<Rightarrow> bool" where
  "aps bits n =
     (if 128 \<le> n then False else ev_word bits (n div 32) AND flag (n mod 32) \<noteq> 0)"

definition MapAPsystemsToSunSpecEvt1 :: "event_bits \<Rightarrow> u32" where
  "MapAPsystemsToSunSpecEvt1 bits =
     or_flags
       [(aps bits 17, Evt1GroundFault),
        (aps bits 8 \<or> aps bits 10 \<or> aps bits 39 \<or> aps bits 41, Evt1DCOverVolt),
        (aps bits 19, Evt1ACDisconnect),
        (aps bits 18, Evt1ManualShutdown),
        (aps bits 16, Evt1OverTemp),
        (aps bits 0 \<or> aps bits 29 \<or> aps bits 31, Evt1OverFrequency),
        (aps bits 1 \<or> aps bits 30 \<or> aps bits 32, Evt1UnderFrequency),
        (aps bits 2 \<or> aps bits 4 \<or> aps bits 6 \<or> aps bits 23 \<or> aps bits 33 \<or> aps bits 35 \<or> aps bits 37 \<or>
         aps bits 44, Evt1ACOverVolt),
        (aps bits 3 \<or> aps bits 5 \<or> aps bits 7 \<or> aps bits 24 \<or> aps bits 34 \<or> aps bits 36 \<or> aps bits 38 \<or>
         aps bits 45, Evt1ACUnderVolt),
        (aps bits 21, Evt1GridDisconnect),
        (aps bits 28, Evt1HWTestFailure)]"

section \<open>From the decoded fault flags\<close>

text \<open>\<open>faultsFromReply\<close>: the command byte has to match the type of the status.\<close>

fun faultsFromReply :: "byte \<Rightarrow> ExtendedStatus option \<Rightarrow> InverterFaults option" where
  "faultsFromReply cmd (Some (ES_DS3 st)) = (if cmd = CmdReplyDS3 then Some (Faults_Ds3 (DS3_Faults st)) else None)"
| "faultsFromReply cmd (Some (ES_QS1A st)) = (if cmd = CmdReplyQS1A then Some (Faults_Qs1A (QS1A_Faults st)) else None)"
| "faultsFromReply cmd None = None"

fun FaultsToSunSpecEvt1 :: "InverterFaults option \<Rightarrow> u32" where
  "FaultsToSunSpecEvt1 None = 0"
| "FaultsToSunSpecEvt1 (Some (Faults_Ds3 f)) =
     or_flags
       [(ds3_DCGroundFault f, Evt1GroundFault),
        (ds3_IsoFaultA f \<or> ds3_IsoFaultB f, Evt1GroundFault),
        (ds3_ACOverVoltStage1 f \<or> ds3_ACOverVoltStage2 f, Evt1ACOverVolt),
        (ds3_ACUnderVoltStage1 f \<or> ds3_ACUnderVoltStage2 f, Evt1ACUnderVolt),
        (ds3_OverFreqStage1 f \<or> ds3_OverFreqStage2 f \<or> ds3_OverFreqAux f \<or> ds3_OverFreqExtra f,
         Evt1OverFrequency),
        (ds3_UnderFreqStage1 f \<or> ds3_UnderFreqStage2 f \<or> ds3_UnderFreqAux f \<or> ds3_UnderFreqExtra f,
         Evt1UnderFrequency)]"
| "FaultsToSunSpecEvt1 (Some (Faults_Qs1A f)) =
     or_flags
       [(qs_DCGroundFault f, Evt1GroundFault),
        (qs_IsoFaultA f \<or> qs_IsoFaultB f \<or> qs_IsoFaultC f \<or> qs_IsoFaultD f, Evt1GroundFault),
        (qs_OverTemperature f, Evt1OverTemp),
        (qs_ACOverVoltFast f \<or> qs_ACOverVoltSlow f, Evt1ACOverVolt),
        (qs_ACUnderVoltFast f \<or> qs_ACUnderVoltSlow f, Evt1ACUnderVolt),
        (qs_OverFreqFast f \<or> qs_OverFreqSlow f \<or> qs_OverFreqExtra f \<or> qs_OverFreqRMS f,
         Evt1OverFrequency),
        (qs_UnderFreqFast f \<or> qs_UnderFreqSlow f \<or> qs_UnderFreqExtra f \<or> qs_UnderFreqRMS f,
         Evt1UnderFrequency)]"

fun FaultsToEvtVnd1 :: "InverterFaults option \<Rightarrow> u32" where
  "FaultsToEvtVnd1 None = 0"
| "FaultsToEvtVnd1 (Some (Faults_Ds3 f)) =
     or_flags
       [(ds3_GridRelayFault f, EvtVnd1GridRelayFault),
        (ds3_DCContactorFault f, EvtVnd1DCContactorFault),
        (ds3_DCBusFault f, EvtVnd1DCBusFault),
        (ds3_DCGroundFault f, EvtVnd1DCGroundFault),
        (ds3_IsoFaultA f, EvtVnd1IsoFaultA),
        (ds3_IsoFaultB f, EvtVnd1IsoFaultB),
        (ds3_ACOverVoltStage1 f, EvtVnd1ACOverVoltPrimary),
        (ds3_ACOverVoltStage2 f, EvtVnd1ACOverVoltSecondary),
        (ds3_ACUnderVoltStage1 f, EvtVnd1ACUnderVoltPrimary),
        (ds3_ACUnderVoltStage2 f, EvtVnd1ACUnderVoltSecondary),
        (ds3_OverFreqStage1 f, EvtVnd1OverFreqPrimary),
        (ds3_OverFreqStage2 f, EvtVnd1OverFreqSecondary),
        (ds3_OverFreqAux f, EvtVnd1OverFreqTertiary),
        (ds3_OverFreqExtra f, EvtVnd1OverFreqExtra),
        (ds3_UnderFreqStage1 f, EvtVnd1UnderFreqPrimary),
        (ds3_UnderFreqStage2 f, EvtVnd1UnderFreqSecondary),
        (ds3_UnderFreqAux f, EvtVnd1UnderFreqTertiary),
        (ds3_UnderFreqExtra f, EvtVnd1UnderFreqExtra)]"
| "FaultsToEvtVnd1 (Some (Faults_Qs1A f)) =
     or_flags
       [(qs_GridRelayFault f, EvtVnd1GridRelayFault),
        (qs_DCContactorFault f, EvtVnd1DCContactorFault),
        (qs_DCBusFault f, EvtVnd1DCBusFault),
        (qs_DCGroundFault f, EvtVnd1DCGroundFault),
        (qs_CommFault f, EvtVnd1CommFault),
        (qs_OverTemperature f, EvtVnd1OverTemperature),
        (qs_IsoFaultA f, EvtVnd1IsoFaultA),
        (qs_IsoFaultB f, EvtVnd1IsoFaultB),
        (qs_IsoFaultC f, EvtVnd1IsoFaultC),
        (qs_IsoFaultD f, EvtVnd1IsoFaultD),
        (qs_ACOverVoltFast f, EvtVnd1ACOverVoltPrimary),
        (qs_ACOverVoltSlow f, EvtVnd1ACOverVoltSecondary),
        (qs_ACUnderVoltFast f, EvtVnd1ACUnderVoltPrimary),
        (qs_ACUnderVoltSlow f, EvtVnd1ACUnderVoltSecondary),
        (qs_OverFreqFast f, EvtVnd1OverFreqPrimary),
        (qs_OverFreqSlow f, EvtVnd1OverFreqSecondary),
        (qs_OverFreqExtra f, EvtVnd1OverFreqExtra),
        (qs_OverFreqRMS f, EvtVnd1OverFreqRMS),
        (qs_UnderFreqFast f, EvtVnd1UnderFreqPrimary),
        (qs_UnderFreqSlow f, EvtVnd1UnderFreqSecondary),
        (qs_UnderFreqExtra f, EvtVnd1UnderFreqExtra),
        (qs_UnderFreqRMS f, EvtVnd1UnderFreqRMS),
        (qs_ZBLinkA f, EvtVnd1ZBLinkA),
        (qs_ZBLinkB f, EvtVnd1ZBLinkB)]"

type_synonym events = "u32 \<times> u32 \<times> u32 \<times> u32 \<times> u32"

fun projectEvents :: "InverterFaults option \<Rightarrow> event_bits \<Rightarrow> events" where
  "projectEvents faults (b0, b1, b2, b3) =
     (let evt1 = MapAPsystemsToSunSpecEvt1 (b0, b1, b2, b3) OR FaultsToSunSpecEvt1 faults
      in case faults of
           Some f \<Rightarrow> (evt1, FaultsToEvtVnd1 faults, 0, 0, 0)
         | None \<Rightarrow> (evt1, b0, b1, b2, 0))"

definition eventOutputForInverter :: "Inverter \<Rightarrow> events" where
  "eventOutputForInverter iv = projectEvents (inv_Faults iv) (inv_EventBits iv)"

fun or_events :: "events \<Rightarrow> events \<Rightarrow> events" where
  "or_events (a, b, c, d, e) (a', b', c', d', e') = (a OR a', b OR b', c OR c', d OR d', e OR e')"

definition eventOutputForAggregate :: "Snapshot \<Rightarrow> events" where
  "eventOutputForAggregate s =
     fold (\<lambda>iv acc. or_events acc (projectEvents (inv_Faults iv) (inv_EventBits iv)))
       (s_Inverters s) (0, 0, 0, 0, 0)"

section \<open>Bit by bit\<close>

lemma bit_flag: "bit (flag k) n \<longleftrightarrow> k = n \<and> n < 32"
  by (auto simp: flag_def bit_exp_iff possible_bit_word)

lemma bit_or_flags [simp]:
  "bit (or_flags []) n = False"
  "bit (or_flags ((c, m) # xs)) n = (c \<and> bit m n \<or> bit (or_flags xs) n)"
  by (auto simp: bit_or_iff)

declare or_flags.simps [simp del]

lemma bit_aps: "aps bits n \<longleftrightarrow> n < 128 \<and> bit (ev_word bits (n div 32)) (n mod 32)"
proof -
  have eq: "(w AND flag k \<noteq> 0) = bit w k" if "k < 32" for w :: u32 and k
  proof
    assume "bit w k"
    then have "bit (w AND flag k) k" using that by (simp add: bit_and_iff bit_flag)
    then show "w AND flag k \<noteq> 0" by auto
  next
    assume "w AND flag k \<noteq> 0"
    then obtain n where "bit (w AND flag k) n" by (auto simp: bit_eq_iff)
    then show "bit w k" by (simp add: bit_and_iff bit_flag)
  qed
  show ?thesis using eq [of "n mod 32"] by (auto simp: aps_def)
qed

text \<open>The fleet word is the union of the words of the inverters.\<close>

definition event_word :: "nat \<Rightarrow> events \<Rightarrow> u32" where
  "event_word k e =
     (case e of (a, b, c, d, f) \<Rightarrow> if k = 0 then a else if k = 1 then b else if k = 2 then c
        else if k = 3 then d else f)"

lemma event_word_or [simp]:
  "event_word k (or_events x y) = event_word k x OR event_word k y"
  by (cases x; cases y) (simp add: event_word_def)

theorem aggregate_events:
  "bit (event_word k (eventOutputForAggregate s)) n \<longleftrightarrow>
   (\<exists>iv. iv \<in> set (s_Inverters s) \<and> bit (event_word k (eventOutputForInverter iv)) n)"
proof -
  have gen: "bit (event_word k (fold (\<lambda>iv acc. or_events acc (projectEvents (inv_Faults iv) (inv_EventBits iv))) ivs acc)) n
      \<longleftrightarrow> bit (event_word k acc) n \<or> (\<exists>iv \<in> set ivs. bit (event_word k (eventOutputForInverter iv)) n)"
    for ivs acc
    by (induction ivs arbitrary: acc) (auto simp: bit_or_iff eventOutputForInverter_def)
  show ?thesis
    using gen [of "s_Inverters s" "(0, 0, 0, 0, 0)"]
    by (auto simp: eventOutputForAggregate_def event_word_def)
qed

text \<open>The vendor word is faithful: different flags, different words.\<close>

lemma ds3_vnd1_bits:
  "bit (FaultsToEvtVnd1 (Some (Faults_Ds3 f))) 0 = ds3_GridRelayFault f"
  "bit (FaultsToEvtVnd1 (Some (Faults_Ds3 f))) 1 = ds3_DCContactorFault f"
  "bit (FaultsToEvtVnd1 (Some (Faults_Ds3 f))) 2 = ds3_DCBusFault f"
  "bit (FaultsToEvtVnd1 (Some (Faults_Ds3 f))) 3 = ds3_DCGroundFault f"
  "bit (FaultsToEvtVnd1 (Some (Faults_Ds3 f))) 6 = ds3_IsoFaultA f"
  "bit (FaultsToEvtVnd1 (Some (Faults_Ds3 f))) 7 = ds3_IsoFaultB f"
  "bit (FaultsToEvtVnd1 (Some (Faults_Ds3 f))) 10 = ds3_ACOverVoltStage1 f"
  "bit (FaultsToEvtVnd1 (Some (Faults_Ds3 f))) 11 = ds3_ACOverVoltStage2 f"
  "bit (FaultsToEvtVnd1 (Some (Faults_Ds3 f))) 12 = ds3_ACUnderVoltStage1 f"
  "bit (FaultsToEvtVnd1 (Some (Faults_Ds3 f))) 13 = ds3_ACUnderVoltStage2 f"
  "bit (FaultsToEvtVnd1 (Some (Faults_Ds3 f))) 14 = ds3_OverFreqStage1 f"
  "bit (FaultsToEvtVnd1 (Some (Faults_Ds3 f))) 15 = ds3_OverFreqStage2 f"
  "bit (FaultsToEvtVnd1 (Some (Faults_Ds3 f))) 16 = ds3_OverFreqAux f"
  "bit (FaultsToEvtVnd1 (Some (Faults_Ds3 f))) 17 = ds3_OverFreqExtra f"
  "bit (FaultsToEvtVnd1 (Some (Faults_Ds3 f))) 19 = ds3_UnderFreqStage1 f"
  "bit (FaultsToEvtVnd1 (Some (Faults_Ds3 f))) 20 = ds3_UnderFreqStage2 f"
  "bit (FaultsToEvtVnd1 (Some (Faults_Ds3 f))) 21 = ds3_UnderFreqAux f"
  "bit (FaultsToEvtVnd1 (Some (Faults_Ds3 f))) 22 = ds3_UnderFreqExtra f"
  by (simp_all add: evt_bits bit_flag)

lemma qs1a_vnd1_bits:
  "bit (FaultsToEvtVnd1 (Some (Faults_Qs1A f))) 0 = qs_GridRelayFault f"
  "bit (FaultsToEvtVnd1 (Some (Faults_Qs1A f))) 1 = qs_DCContactorFault f"
  "bit (FaultsToEvtVnd1 (Some (Faults_Qs1A f))) 2 = qs_DCBusFault f"
  "bit (FaultsToEvtVnd1 (Some (Faults_Qs1A f))) 3 = qs_DCGroundFault f"
  "bit (FaultsToEvtVnd1 (Some (Faults_Qs1A f))) 4 = qs_CommFault f"
  "bit (FaultsToEvtVnd1 (Some (Faults_Qs1A f))) 5 = qs_OverTemperature f"
  "bit (FaultsToEvtVnd1 (Some (Faults_Qs1A f))) 6 = qs_IsoFaultA f"
  "bit (FaultsToEvtVnd1 (Some (Faults_Qs1A f))) 7 = qs_IsoFaultB f"
  "bit (FaultsToEvtVnd1 (Some (Faults_Qs1A f))) 8 = qs_IsoFaultC f"
  "bit (FaultsToEvtVnd1 (Some (Faults_Qs1A f))) 9 = qs_IsoFaultD f"
  "bit (FaultsToEvtVnd1 (Some (Faults_Qs1A f))) 10 = qs_ACOverVoltFast f"
  "bit (FaultsToEvtVnd1 (Some (Faults_Qs1A f))) 11 = qs_ACOverVoltSlow f"
  "bit (FaultsToEvtVnd1 (Some (Faults_Qs1A f))) 12 = qs_ACUnderVoltFast f"
  "bit (FaultsToEvtVnd1 (Some (Faults_Qs1A f))) 13 = qs_ACUnderVoltSlow f"
  "bit (FaultsToEvtVnd1 (Some (Faults_Qs1A f))) 14 = qs_OverFreqFast f"
  "bit (FaultsToEvtVnd1 (Some (Faults_Qs1A f))) 15 = qs_OverFreqSlow f"
  "bit (FaultsToEvtVnd1 (Some (Faults_Qs1A f))) 17 = qs_OverFreqExtra f"
  "bit (FaultsToEvtVnd1 (Some (Faults_Qs1A f))) 18 = qs_OverFreqRMS f"
  "bit (FaultsToEvtVnd1 (Some (Faults_Qs1A f))) 19 = qs_UnderFreqFast f"
  "bit (FaultsToEvtVnd1 (Some (Faults_Qs1A f))) 20 = qs_UnderFreqSlow f"
  "bit (FaultsToEvtVnd1 (Some (Faults_Qs1A f))) 22 = qs_UnderFreqExtra f"
  "bit (FaultsToEvtVnd1 (Some (Faults_Qs1A f))) 23 = qs_UnderFreqRMS f"
  "bit (FaultsToEvtVnd1 (Some (Faults_Qs1A f))) 24 = qs_ZBLinkA f"
  "bit (FaultsToEvtVnd1 (Some (Faults_Qs1A f))) 25 = qs_ZBLinkB f"
  by (simp_all add: evt_bits bit_flag)

text \<open>
  C39: the vendor event word of an inverter determines every fault flag of its family: two different
  decodes never give the same word.
\<close>

theorem vnd1_lossless:
  "inj (\<lambda>f. FaultsToEvtVnd1 (Some (Faults_Ds3 f))) \<and> inj (\<lambda>f. FaultsToEvtVnd1 (Some (Faults_Qs1A f)))"
proof
  show "inj (\<lambda>f. FaultsToEvtVnd1 (Some (Faults_Ds3 f)))"
  proof (rule injI)
    fix f g :: DS3Faults
    assume "FaultsToEvtVnd1 (Some (Faults_Ds3 f)) = FaultsToEvtVnd1 (Some (Faults_Ds3 g))"
    then have "bit (FaultsToEvtVnd1 (Some (Faults_Ds3 f))) n = bit (FaultsToEvtVnd1 (Some (Faults_Ds3 g))) n" for n
      by simp
    note this [of 0] this [of 1] this [of 2] this [of 3] this [of 6] this [of 7] this [of 10]
      this [of 11] this [of 12] this [of 13] this [of 14] this [of 15] this [of 16] this [of 17]
      this [of 19] this [of 20] this [of 21] this [of 22]
    then show "f = g" unfolding ds3_vnd1_bits by (intro DS3Faults.equality) simp_all
  qed
  show "inj (\<lambda>f. FaultsToEvtVnd1 (Some (Faults_Qs1A f)))"
  proof (rule injI)
    fix f g :: QS1AFaults
    assume "FaultsToEvtVnd1 (Some (Faults_Qs1A f)) = FaultsToEvtVnd1 (Some (Faults_Qs1A g))"
    then have "bit (FaultsToEvtVnd1 (Some (Faults_Qs1A f))) n = bit (FaultsToEvtVnd1 (Some (Faults_Qs1A g))) n" for n
      by simp
    note this [of 0] this [of 1] this [of 2] this [of 3] this [of 4] this [of 5] this [of 6]
      this [of 7] this [of 8] this [of 9] this [of 10] this [of 11] this [of 12] this [of 13]
      this [of 14] this [of 15] this [of 17] this [of 18] this [of 19] this [of 20] this [of 22]
      this [of 23] this [of 24] this [of 25]
    then show "f = g" unfolding qs1a_vnd1_bits by (intro QS1AFaults.equality) simp_all
  qed
qed

text \<open>The standard word carries the flags the codec aggregates, for either family.\<close>

fun codec_evt1 :: "modbusStatusInputs \<Rightarrow> nat \<Rightarrow> bool" where
  "codec_evt1 i n =
     (if n = 0 then mi_DCGround i \<or> mi_IsoAny i
      else if n = 7 then mi_OverTemperature i
      else if n = 8 then mi_OverFreqAny i
      else if n = 9 then mi_UnderFreqAny i
      else if n = 10 then mi_ACOverVoltAny i
      else if n = 11 then mi_ACUnderVoltAny i
      else False)"

fun status_inputs :: "ExtendedStatus \<Rightarrow> modbusStatusInputs" where
  "status_inputs (ES_DS3 st) = DS3_inputs st"
| "status_inputs (ES_QS1A st) = QS1A_inputs st"

fun status_cmd :: "ExtendedStatus \<Rightarrow> byte" where
  "status_cmd (ES_DS3 st) = CmdReplyDS3"
| "status_cmd (ES_QS1A st) = CmdReplyQS1A"


end
