(* ===== verification/SunEncode.thy ===== *)
theory SunEncode
  imports SunTrip SunEvents
begin

text \<open>
  The measurement and control models of the register bank and the two encoders that put a bank
  together: \<open>sunspec/encoder.go\<close>, \<open>inverter_float.go\<close>, \<open>nameplate.go\<close>, \<open>settings.go\<close>, \<open>controls.go\<close>,
  \<open>vendor.go\<close> and \<open>per_inverter.go\<close>.  Every section is the list of registers it appends, in order.
\<close>

section \<open>Phase and operating state\<close>

datatype PhaseMode = PhaseAuto | PhaseSingle | PhaseSplit | PhaseThree

fun modelID :: "PhaseMode \<Rightarrow> u16" where
  "modelID PhaseSplit = 102"
| "modelID PhaseThree = 103"
| "modelID _ = 101"

fun phasesUsed :: "PhaseMode \<Rightarrow> nat" where
  "phasesUsed PhaseSplit = 2"
| "phasesUsed PhaseThree = 3"
| "phasesUsed _ = 1"

definition aggregateOperatingState :: "nat \<Rightarrow> int \<Rightarrow> u16" where
  "aggregateOperatingState onlineCount systemPowerW =
     (if onlineCount = 0 then 2 else if 0 < systemPowerW then 4 else 8)"

definition inverterOperatingState :: "bool \<Rightarrow> int \<Rightarrow> u16" where
  "inverterOperatingState online acPowerW =
     (if \<not> online then 2 else if 0 < acPowerW then 4 else 8)"

definition model_byte :: "Inverter \<Rightarrow> byte" where
  "model_byte iv = word_of_int (inv_Model iv)"

definition seen_leg :: "Inverter list \<Rightarrow> int \<Rightarrow> bool" where
  "seen_leg ivs leg =
     list_ex (\<lambda>iv. inv_Online iv \<and>
       (if inv_Phase iv < 1 \<or> 3 < inv_Phase iv then 1 else inv_Phase iv) = leg) ivs"

definition detectPhase :: "Snapshot \<Rightarrow> PhaseMode" where
  "detectPhase s =
     (if list_ex (\<lambda>iv. inv_Online iv \<and> PhaseFromModel (model_byte iv) = 3) (s_Inverters s) then PhaseThree
      else let count = length (filter (seen_leg (s_Inverters s)) [1, 2, 3])
           in if count \<le> 1 then PhaseSingle else if count = 2 then PhaseSplit else PhaseThree)"

section \<open>Currents and voltages per leg\<close>

type_synonym legs = "nat \<Rightarrow> f64"

definition addV :: "legs \<times> (nat \<Rightarrow> nat) \<Rightarrow> nat \<Rightarrow> f64 \<Rightarrow> legs \<times> (nat \<Rightarrow> nat)" where
  "addV acc leg v =
     (case acc of (vSum, vCount) \<Rightarrow>
        if flt (Fin 0) v then (vSum(leg := fadd (vSum leg) v), vCount(leg := vCount leg + 1))
        else (vSum, vCount))"

definition bucket_step :: "legs \<times> legs \<times> (nat \<Rightarrow> nat) \<Rightarrow> Inverter \<Rightarrow> legs \<times> legs \<times> (nat \<Rightarrow> nat)" where
  "bucket_step acc iv =
     (case acc of (powerW, vAcc) \<Rightarrow>
        if \<not> inv_Online iv then acc
        else if PhaseFromModel (model_byte iv) = 3 then
          let third = fdiv (f64_of_int (inv_ACPowerW iv)) (Fin 3)
          in fold (\<lambda>i (p, va).
               (p(i := fadd (p i) third),
                if i < length (inv_PerLegVoltage iv) then addV va i (inv_PerLegVoltage iv ! i) else va))
             [0, 1, 2] (powerW, vAcc)
        else
          let l = inv_Phase iv - 1; leg = nat (if l < 0 \<or> 2 < l then 0 else l)
          in (powerW(leg := fadd (powerW leg) (f64_of_int (inv_ACPowerW iv))),
              addV vAcc leg (f64_of_int (inv_ACVoltageV iv))))"

definition phaseBuckets :: "Snapshot \<Rightarrow> legs \<times> legs" where
  "phaseBuckets s =
     (case foldl bucket_step ((\<lambda>_. Fin 0), (\<lambda>_. Fin 0), (\<lambda>_. 0)) (s_Inverters s) of
        (powerW, vSum, vCount) \<Rightarrow>
          (powerW, \<lambda>i. if 0 < vCount i then fdiv (vSum i) (f64_of_int (int (vCount i)))
                        else s_GridVoltageV s))"

definition round16 :: "conv \<Rightarrow> f64 \<Rightarrow> u16" where
  "round16 cv x = u16_of_f64 cv (fadd x (Fin (1 / 2)))"

definition derivePhaseCurrents :: "conv \<Rightarrow> Snapshot \<Rightarrow> u16 \<times> (nat \<Rightarrow> u16)" where
  "derivePhaseCurrents cv s =
     (case phaseBuckets s of (powerW, voltageV) \<Rightarrow>
        let amps = (\<lambda>i. fdiv (powerW i) (voltageV i));
            live = (\<lambda>i. \<not> fle (voltageV i) (Fin 0));
            sumA = fold (\<lambda>i a. if live i then fadd a (amps i) else a) [0, 1, 2] (Fin 0)
        in (round16 cv (fmul sumA (Fin 10)),
            \<lambda>i. if live i then round16 cv (fmul (amps i) (Fin 10)) else 0))"

definition derivePhaseVoltages :: "conv \<Rightarrow> Snapshot \<Rightarrow> nat \<Rightarrow> u16" where
  "derivePhaseVoltages cv s =
     (\<lambda>i. let v = snd (phaseBuckets s) i in if flt (Fin 0) v then round16 cv v else 0)"

section \<open>Options and the common model\<close>

record EncodeOptions =
  o_Manufacturer :: string
  o_ModelName :: string
  o_SerialOverride :: string
  o_SerialFallback :: string
  o_Phase :: PhaseMode
  o_DisableMPPT :: bool
  o_WriteRslt :: "(byte \<Rightarrow> u16 \<Rightarrow> u16 \<times> u16) option"

definition DefaultManufacturer :: string where "DefaultManufacturer = ''APsystems''"
definition DefaultModelName :: string where "DefaultModelName = ''ECU-R-Pro''"
definition CommonModelID :: u16 where "CommonModelID = 1"
definition CommonModelBodyLen :: u16 where "CommonModelBodyLen = 66"
definition InverterModelBodyLen :: u16 where "InverterModelBodyLen = 50"

definition serialFor :: "Snapshot \<Rightarrow> EncodeOptions \<Rightarrow> string" where
  "serialFor s opt =
     (if o_SerialOverride opt \<noteq> '''' then o_SerialOverride opt
      else if s_ECUID s \<noteq> '''' then s_ECUID s else o_SerialFallback opt)"

definition lookupWriteRslt :: "EncodeOptions \<Rightarrow> byte \<Rightarrow> u16 \<Rightarrow> u16 \<times> u16" where
  "lookupWriteRslt opt uid mid =
     (case o_WriteRslt opt of None \<Rightarrow> (1, 0) | Some f \<Rightarrow> f uid mid)"

definition common_model :: "string \<Rightarrow> string \<Rightarrow> string \<Rightarrow> string \<Rightarrow> u16 \<Rightarrow> regs" where
  "common_model mn md vr sn da =
     [CommonModelID, CommonModelBodyLen] @ putString mn 16 @ putString md 16 @ putString '''' 8 @
     putString vr 8 @ putString sn 16 @ [da, 0]"

definition put_events :: "events \<Rightarrow> regs" where
  "put_events e =
     (case e of (evt1, vnd1, vnd2, vnd3, vnd4) \<Rightarrow>
        putU32 evt1 @ putU32 notImplU32 @ putU32 vnd1 @ putU32 vnd2 @ putU32 vnd3 @ putU32 vnd4)"

text \<open>\<open>uint16(int16(clampInt32(int32(t), -100, 200)))\<close>.\<close>

definition put_temp :: "int \<Rightarrow> u16" where
  "put_temp t = word_of_int (clampInt32 (int32 t) (- 100) 200)"

definition put_watts :: "int \<Rightarrow> u16" where
  "put_watts w = word_of_int (clampInt32 w (- 32760) 32760)"

section \<open>Inverter models, integers with scale factors\<close>

definition inverter_tail :: "regs" where
  "inverter_tail =
     [notImplS16, scaleFactor 0, notImplS16, scaleFactor 0, notImplS16, scaleFactor 0]"

definition dc_tail :: "int \<Rightarrow> regs" where
  "dc_tail t =
     [notImplU16, scaleFactor 0, notImplU16, scaleFactor 0, notImplS16, scaleFactor 0,
      put_temp t, notImplS16, notImplS16, notImplS16, scaleFactor 0]"

definition inverter_model :: "conv \<Rightarrow> Snapshot \<Rightarrow> PhaseMode \<Rightarrow> regs" where
  "inverter_model cv s ph =
     (let n = phasesUsed ph; (totalA, perA) = derivePhaseCurrents cv s; pv = derivePhaseVoltages cv s
      in [modelID ph, InverterModelBodyLen,
          totalA, phaseValueU16 (perA 0) 0 n, phaseValueU16 (perA 1) 1 n, phaseValueU16 (perA 2) 2 n,
          scaleFactor (- 1),
          notImplU16, notImplU16, notImplU16,
          phaseValueU16 (pv 0) 0 n, phaseValueU16 (pv 1) 1 n, phaseValueU16 (pv 2) 2 n,
          scaleFactor 0,
          put_watts (s_SystemPowerW s), scaleFactor 0,
          round16 cv (fmul (s_GridFrequencyHz s) (Fin 100)), scaleFactor (- 2)] @
         inverter_tail @
         putAcc32 (s_LifetimeEnergyWh s) @ [scaleFactor 0] @
         dc_tail (s_MaxTemperatureC s) @
         [aggregateOperatingState (s_InverterOnlineCount s) (s_SystemPowerW s), 0] @
         put_events (eventOutputForAggregate s))"

text \<open>\<open>amps10 < 65535\<close> guards the conversion; otherwise the fallback stays.\<close>

definition amps10_or :: "conv \<Rightarrow> u16 \<Rightarrow> int \<Rightarrow> int \<Rightarrow> u16" where
  "amps10_or cv dflt p volts =
     (if 0 < volts \<and> 0 \<le> p then
        let amps10 = fmul (fdiv (f64_of_int p) (f64_of_int volts)) (Fin 10)
        in if flt amps10 (Fin 65535) then round16 cv amps10 else dflt
      else dflt)"

definition u16_or :: "u16 \<Rightarrow> bool \<Rightarrow> int \<Rightarrow> u16" where
  "u16_or dflt positive v =
     (if (if positive then 0 < v else 0 \<le> v) \<and> v < 65535 then word_of_int v else dflt)"

definition inverter_model_per_inverter :: "conv \<Rightarrow> Inverter \<Rightarrow> regs" where
  "inverter_model_per_inverter cv iv =
     (let a = amps10_or cv 0 (inv_ACPowerW iv) (inv_ACVoltageV iv);
          v = u16_or 0 True (inv_ACVoltageV iv);
          hz = (if flt (Fin 0) (inv_FrequencyHz iv)
                then round16 cv (fmul (inv_FrequencyHz iv) (Fin 100)) else 0)
      in [101, InverterModelBodyLen,
          a, a, notImplU16, notImplU16, scaleFactor (- 1),
          notImplU16, notImplU16, notImplU16,
          v, notImplU16, notImplU16, scaleFactor 0,
          put_watts (int32 (inv_ACPowerW iv)), scaleFactor 0,
          hz, scaleFactor (- 2)] @
         inverter_tail @
         putAcc32 0 @ [scaleFactor 0] @
         dc_tail (inv_TemperatureC iv) @
         [inverterOperatingState (inv_Online iv) (inv_ACPowerW iv), 0] @
         put_events (eventOutputForInverter iv))"

section \<open>Inverter models, float32\<close>

definition InverterModelFloatBodyLen :: u16 where "InverterModelFloatBodyLen = 60"
definition DCDataFloatModelID :: u16 where "DCDataFloatModelID = 114"
definition DCDataFloatBodyLen :: u16 where "DCDataFloatBodyLen = 48"
definition DCDataFloatChannels :: nat where "DCDataFloatChannels = 8"

definition not_impl_floats :: "nat \<Rightarrow> regs" where
  "not_impl_floats n = concat (replicate n putFloat32NotImpl)"

definition emitInverterFloat :: "conv \<Rightarrow> Snapshot \<Rightarrow> PhaseMode \<Rightarrow> regs" where
  "emitInverterFloat cv s ph =
     (let n = phasesUsed ph; (totalA, perA) = derivePhaseCurrents cv s; pv = derivePhaseVoltages cv s;
          amps = (\<lambda>w :: u16. fdiv32 (f32_of_int (uint w)) (Fin 10));
          volts = (\<lambda>w :: u16. f32_of_int (uint w))
      in [modelID ph + 10, InverterModelFloatBodyLen] @
         putFloat32 (amps totalA) @ putFloat32Phase (amps (perA 0)) 0 n @
         putFloat32Phase (amps (perA 1)) 1 n @ putFloat32Phase (amps (perA 2)) 2 n @
         not_impl_floats 3 @
         putFloat32Phase (volts (pv 0)) 0 n @ putFloat32Phase (volts (pv 1)) 1 n @
         putFloat32Phase (volts (pv 2)) 2 n @
         putFloat32 (f32_of_int (s_SystemPowerW s)) @
         putFloat32 (f32_of_f64 (s_GridFrequencyHz s)) @
         not_impl_floats 3 @
         putFloat32 (f32_of_int (uint (s_LifetimeEnergyWh s))) @
         not_impl_floats 3 @
         putFloat32 (f32_of_int (s_MaxTemperatureC s)) @
         not_impl_floats 3 @
         [aggregateOperatingState (s_InverterOnlineCount s) (s_SystemPowerW s), 0] @
         put_events (eventOutputForAggregate s))"

definition emitInverterFloatPerInverter :: "Inverter \<Rightarrow> regs" where
  "emitInverterFloatPerInverter iv =
     (let a = (if 0 < inv_ACVoltageV iv \<and> 0 \<le> inv_ACPowerW iv
               then fdiv32 (f32_of_int (inv_ACPowerW iv)) (f32_of_int (inv_ACVoltageV iv)) else Fin 0);
          hz = f32_of_f64 (inv_FrequencyHz iv)
      in [111, InverterModelFloatBodyLen] @
         putFloat32 a @ putFloat32 a @ not_impl_floats 2 @
         not_impl_floats 3 @
         putFloat32 (f32_of_int (inv_ACVoltageV iv)) @ not_impl_floats 2 @
         putFloat32 (f32_of_int (inv_ACPowerW iv)) @
         (if flt (Fin 0) hz then putFloat32 hz else putFloat32NotImpl) @
         not_impl_floats 3 @
         putFloat32 (Fin 0) @
         not_impl_floats 3 @
         putFloat32 (f32_of_int (inv_TemperatureC iv)) @
         not_impl_floats 3 @
         [inverterOperatingState (inv_Online iv) (inv_ACPowerW iv), 0] @
         put_events (eventOutputForInverter iv))"

definition dc_channel :: "Inverter \<Rightarrow> int \<Rightarrow> f64 \<times> f64 \<times> f64" where
  "dc_channel iv p =
     (let dcv = (if 0 < inv_ACVoltageV iv then f32_of_int (inv_ACVoltageV iv) else Fin 0);
          dca = (if 0 < inv_ACVoltageV iv then fdiv32 (f32_of_int p) dcv else Fin 0)
      in (dcv, dca, f32_of_int p))"

text \<open>The channels are filled until the array is full; the rest of the panels are dropped.\<close>

definition dc_channels :: "Snapshot \<Rightarrow> (f64 \<times> f64 \<times> f64) list" where
  "dc_channels s =
     take DCDataFloatChannels
       (concat (map (\<lambda>iv. map (dc_channel iv) (PanelPowers iv)) (filter inv_Online (s_Inverters s))))"

definition put_channels :: "f64 option list \<Rightarrow> regs" where
  "put_channels vs =
     concat (map (\<lambda>i. case (if i < length vs then vs ! i else None) of
                        Some v \<Rightarrow> putFloat32 v | None \<Rightarrow> putFloat32NotImpl)
       [0..<DCDataFloatChannels])"

definition emitDCDataFloat :: "Snapshot \<Rightarrow> regs" where
  "emitDCDataFloat s =
     (let chs = dc_channels s
      in [DCDataFloatModelID, DCDataFloatBodyLen] @
         put_channels (map (\<lambda>(v, a, w). Some v) chs) @
         put_channels (map (\<lambda>(v, a, w). Some a) chs) @
         put_channels (map (\<lambda>(v, a, w). Some w) chs))"

definition emitDCDataFloatPerInverter :: "Inverter \<Rightarrow> regs" where
  "emitDCDataFloatPerInverter iv =
     (let powers = PanelPowers iv; dcv = f32_of_int (inv_ACVoltageV iv); hasDCV = flt (Fin 0) dcv
      in [DCDataFloatModelID, DCDataFloatBodyLen] @
         put_channels (map (\<lambda>p. if hasDCV then Some dcv else None) powers) @
         put_channels (map (\<lambda>p. if hasDCV then Some (fdiv32 (f32_of_int p) dcv) else None) powers) @
         put_channels (map (\<lambda>p. Some (f32_of_int p)) powers))"

section \<open>Nameplate and settings\<close>

definition NameplateModelID :: u16 where "NameplateModelID = 120"
definition NameplateBodyLen :: u16 where "NameplateBodyLen = 26"
definition BasicSettingsModelID :: u16 where "BasicSettingsModelID = 121"
definition BasicSettingsBodyLen :: u16 where "BasicSettingsBodyLen = 30"

definition clamp_u16 :: "int \<Rightarrow> u16" where
  "clamp_u16 v = word_of_int (clampInt32 (int32 v) 0 65535)"

definition nameplate_regs :: "conv \<Rightarrow> int \<Rightarrow> regs" where
  "nameplate_regs cv w =
     (let aRtg = (if 0 < w then round16 cv (fmul (fdiv (f64_of_int w) (Fin 230)) (Fin 10)) else 0)
      in [NameplateModelID, NameplateBodyLen, 4,
          clamp_u16 w, scaleFactor 0, clamp_u16 w, scaleFactor 0,
          notImplS16, notImplS16, notImplS16, notImplS16, scaleFactor 0,
          aRtg, scaleFactor (- 1), 1000, 1000, 1000, 1000, scaleFactor (- 3),
          notImplU16, scaleFactor 0, notImplU16, scaleFactor 0,
          notImplU16, scaleFactor 0, notImplU16, scaleFactor 0, 0])"

definition emitNameplate :: "conv \<Rightarrow> Snapshot \<Rightarrow> regs" where
  "emitNameplate cv s =
     nameplate_regs cv (if s_SystemMaxPowerW s \<le> 0 then TotalNameplateW s else s_SystemMaxPowerW s)"

definition emitNameplatePerInverter :: "conv \<Rightarrow> Inverter \<Rightarrow> regs" where
  "emitNameplatePerInverter cv iv = nameplate_regs cv (NameplateW iv)"

definition emitBasicSettings :: "conv \<Rightarrow> Snapshot \<Rightarrow> regs" where
  "emitBasicSettings cv s =
     (let limitedW = TotalLimitedW s; v = NominalVRefV (cv 64) s
      in [BasicSettingsModelID, BasicSettingsBodyLen,
          if limitedW \<le> 0 \<or> 65535 < limitedW then notImplU16 else word_of_int limitedW,
          u16_or notImplU16 True v,
          notImplS16, notImplU16, notImplU16, notImplU16,
          notImplS16, notImplS16, notImplS16, notImplS16, notImplU16,
          notImplS16, notImplS16, notImplS16, notImplS16,
          notImplU16, notImplU16, notImplU16, notImplU16, notImplU16,
          scaleFactor 0, scaleFactor 0, scaleFactor 0, scaleFactor 0, scaleFactor 0, scaleFactor 0,
          scaleFactor 0, scaleFactor (- 3), scaleFactor (- 2), 0])"

section \<open>Controls\<close>

definition ControlsModelID :: u16 where "ControlsModelID = 123"
definition ControlsBodyLen :: u16 where "ControlsBodyLen = 24"
definition WMaxLimPctSF :: int where "WMaxLimPctSF = - 2"
definition WMaxLimPctRawFull :: u16 where "WMaxLimPctRawFull = 10000"

definition emitControls :: "u16 \<Rightarrow> u16 \<Rightarrow> u16 \<Rightarrow> regs" where
  "emitControls currentPct ena conn =
     [ControlsModelID, ControlsBodyLen,
      notImplU16, notImplU16, conn, currentPct, notImplU16, notImplU16, notImplU16, ena,
      notImplS16, notImplU16, notImplU16, notImplU16, 0,
      notImplS16, notImplS16, notImplS16, notImplU16, notImplU16, notImplU16, 0, 0,
      scaleFactor WMaxLimPctSF, scaleFactor 0, scaleFactor 0]"

text \<open>A cap of 0 is read as no cap.  Go's integer division truncates toward zero.\<close>

definition go_div :: "int \<Rightarrow> int \<Rightarrow> int" where
  "go_div a b = (if (0 \<le> a) = (0 < b) then \<bar>a\<bar> div \<bar>b\<bar> else - (\<bar>a\<bar> div \<bar>b\<bar>))"

definition panel_cap :: "Inverter \<Rightarrow> int" where
  "panel_cap iv = (if inv_LimitedPowerW iv = 0 then MaxPanelW else inv_LimitedPowerW iv)"

definition invCapPct :: "Inverter \<Rightarrow> int" where
  "invCapPct iv =
     (let cap = panel_cap iv; full = uint WMaxLimPctRawFull; nameplate = NameplateW iv
      in if nameplate \<le> 0 then min (go_div (cap * full) MaxPanelW) full
         else let effective = min (cap * int (PanelCount iv)) nameplate
              in min (go_div (effective * full) nameplate) full)"

definition AggregateControlsState :: "Snapshot \<Rightarrow> u16 \<times> u16 \<times> u16" where
  "AggregateControlsState s =
     (let ivs = s_Inverters s
      in if ivs = [] then (WMaxLimPctRawFull, 0, 0)
         else (word_of_int (go_div (\<Sum>iv\<leftarrow>ivs. invCapPct iv) (int (length ivs))),
               if list_ex (\<lambda>iv. panel_cap iv < MaxPanelW) ivs then 1 else 0,
               if list_ex inv_Online ivs then 1 else 0))"

definition PerInverterControlsState :: "Inverter \<Rightarrow> u16 \<times> u16 \<times> u16" where
  "PerInverterControlsState iv =
     (word_of_int (invCapPct iv),
      if panel_cap iv < MaxPanelW then 1 else 0,
      if inv_Online iv then 1 else 0)"

section \<open>Panels\<close>

definition MultiMPPTModelID :: u16 where "MultiMPPTModelID = 160"
definition MultiMPPTFixedBlockLen :: u16 where "MultiMPPTFixedBlockLen = 8"
definition MultiMPPTPerModuleLen :: u16 where "MultiMPPTPerModuleLen = 20"

definition panelLabel :: "Inverter \<Rightarrow> nat \<Rightarrow> string" where
  "panelLabel iv channel =
     (let uid = inv_UID iv; tail = (if 6 < length uid then drop (length uid - 6) uid else uid)
      in if channel < 8 then tail @ ''/'' @ [''ABCDEFGH'' ! channel] else tail)"

definition mppt_module :: "conv \<Rightarrow> nat \<Rightarrow> Inverter \<Rightarrow> nat \<Rightarrow> int \<Rightarrow> regs" where
  "mppt_module cv i iv channel p =
     of_nat (i + 1) # putString (panelLabel iv channel) 8 @
     [amps10_or cv notImplU16 p (inv_ACVoltageV iv),
      u16_or notImplU16 True (inv_ACVoltageV iv),
      u16_or notImplU16 False p] @
     putAcc32 0 @ putU32 notImplU32 @
     [put_temp (inv_TemperatureC iv), if 0 < p then 4 else 1] @
     putU32 notImplU32"

definition mppt_regs :: "conv \<Rightarrow> (Inverter \<times> nat \<times> int) list \<Rightarrow> regs" where
  "mppt_regs cv panels =
     (let n = of_nat (length panels)
      in [MultiMPPTModelID, MultiMPPTFixedBlockLen + MultiMPPTPerModuleLen * n,
          scaleFactor (- 1), scaleFactor 0, scaleFactor 0, scaleFactor 0] @
         putU32 notImplU32 @ [n, notImplU16] @
         concat (map (\<lambda>(i, iv, channel, p). mppt_module cv i iv channel p) (enumerate 0 panels)))"

definition panel_entries :: "Inverter \<Rightarrow> (Inverter \<times> nat \<times> int) list" where
  "panel_entries iv = map (\<lambda>(i, p). (iv, i, p)) (enumerate 0 (PanelPowers iv))"

definition fleet_panels :: "Snapshot \<Rightarrow> (Inverter \<times> nat \<times> int) list" where
  "fleet_panels s = concat (map panel_entries (filter inv_Online (s_Inverters s)))"

definition emitMultiMPPT :: "conv \<Rightarrow> Snapshot \<Rightarrow> regs" where
  "emitMultiMPPT cv s = (if fleet_panels s = [] then [] else mppt_regs cv (fleet_panels s))"

definition emitPerInverterMPPT :: "conv \<Rightarrow> Inverter \<Rightarrow> regs" where
  "emitPerInverterMPPT cv iv = (if PanelPowers iv = [] then [] else mppt_regs cv (panel_entries iv))"

section \<open>Vendor model\<close>

definition VendorModelID :: u16 where "VendorModelID = 64202"
definition VendorFixedBlockLen :: u16 where "VendorFixedBlockLen = 16"
definition VendorPerInverterLen :: u16 where "VendorPerInverterLen = 10"

definition vendor_row :: "nat \<Rightarrow> Inverter \<Rightarrow> regs" where
  "vendor_row i iv =
     [of_nat (i + 1), clamp_u16 (inv_SignalStrength iv), clamp_u16 (inv_LimitedPowerW iv),
      clamp_u16 (inv_Phase iv), clamp_u16 (inv_Model iv), clamp_u16 (inv_SoftwareVer iv),
      of_nat (PanelCount iv), clamp_u16 (NameplateW iv), if inv_Online iv then 1 else 0, 0]"

definition emitVendor :: "Snapshot \<Rightarrow> regs" where
  "emitVendor s =
     (let ivs = s_Inverters s; n = of_nat (length ivs)
      in if ivs = [] then []
         else [VendorModelID, VendorFixedBlockLen + VendorPerInverterLen * n,
               clamp_u16 (s_PollingInterval s)] @
              putString (s_Firmware s) 8 @
              putAcc32 (s_TodayEnergyWh s) @ putAcc32 (s_MonthEnergyWh s) @ putAcc32 (s_YearEnergyWh s) @
              [n] @
              concat (map (\<lambda>(i, iv). vendor_row i iv) (enumerate 0 ivs)))"

section \<open>The banks\<close>

definition resolve_phase :: "Snapshot \<Rightarrow> EncodeOptions \<Rightarrow> PhaseMode" where
  "resolve_phase s opt = (if o_Phase opt = PhaseAuto then detectPhase s else o_Phase opt)"

definition Encode :: "conv \<Rightarrow> Snapshot \<Rightarrow> EncodeOptions \<Rightarrow> Bank" where
  "Encode cv s opt =
     (let mn = strOr (o_Manufacturer opt) DefaultManufacturer;
          md = strOr (o_ModelName opt) (strOr (s_Model s) DefaultModelName);
          ph = resolve_phase s opt;
          (pct, ena, conn) = AggregateControlsState s;
          prot = aggregateProtection s;
          (rslt, req) = lookupWriteRslt opt 1 FreqDroopModelID
      in \<lparr> Regs =
             [0x5375, 0x6E53] @
             common_model mn md (strOr (s_Firmware s) ''0'') (serialFor s opt) 1 @
             inverter_model cv s ph @
             emitInverterFloat cv s ph @
             emitDCDataFloat s @
             emitNameplate cv s @
             emitBasicSettings cv s @
             emitControls pct ena conn @
             emitDERTripModels cv prot (s_GridVoltageV s) @
             emitEnterService cv prot (s_GridVoltageV s) @
             emitFreqDroop cv prot rslt req @
             emitFreqWattCurve cv prot @
             (if o_DisableMPPT opt then [] else emitMultiMPPT cv s) @
             emitVendor s @
             [EndModelID, 0],
           Base = BaseRegister \<rparr>)"

fun dec_digits :: "nat \<Rightarrow> string" where
  "dec_digits n = (if n < 10 then [char_of (48 + n)] else dec_digits (n div 10) @ [char_of (48 + n mod 10)])"

declare dec_digits.simps [simp del]

definition itoa :: "int \<Rightarrow> string" where
  "itoa i = (if i < 0 then ''-'' @ dec_digits (nat (- i)) else dec_digits (nat i))"

definition inverterModelLabel :: "Inverter \<Rightarrow> string" where
  "inverterModelLabel iv =
     (let tc = inv_TypeCode iv
      in if tc = ''01'' then ''DS3'' else if tc = ''02'' then ''YC1000'' else if tc = ''03'' then ''QS1''
         else if tc = ''04'' then ''DS3-H'' else if tc = ''05'' then ''QT2''
         else if tc \<noteq> '''' then ''type-'' @ tc else ''microinverter'')"

definition EncodePerInverterWithProtection ::
    "conv \<Rightarrow> Inverter \<Rightarrow> u16 \<Rightarrow> EncodeOptions \<Rightarrow> ProtectionParams \<Rightarrow> Bank" where
  "EncodePerInverterWithProtection cv iv unitID opt prot =
     (let mn = strOr (o_Manufacturer opt) DefaultManufacturer;
          (pct, ena, conn) = PerInverterControlsState iv;
          vNom = f64_of_int (inv_ACVoltageV iv);
          (rslt, req) = lookupWriteRslt opt (ucast unitID) FreqDroopModelID
      in \<lparr> Regs =
             [0x5375, 0x6E53] @
             common_model mn (inverterModelLabel iv) (itoa (inv_SoftwareVer iv)) (inv_UID iv) unitID @
             inverter_model_per_inverter cv iv @
             emitInverterFloatPerInverter iv @
             emitDCDataFloatPerInverter iv @
             emitNameplatePerInverter cv iv @
             emitControls pct ena conn @
             emitDERTripModels cv prot vNom @
             emitEnterService cv prot vNom @
             emitFreqDroop cv prot rslt req @
             emitFreqWattCurve cv prot @
             (if o_DisableMPPT opt then [] else emitPerInverterMPPT cv iv) @
             [EndModelID, 0],
           Base = BaseRegister \<rparr>)"

text \<open>Options as the zero value has them, for evaluation.\<close>

definition plain_options :: EncodeOptions where
  "plain_options = \<lparr> o_Manufacturer = '''', o_ModelName = '''', o_SerialOverride = '''',
     o_SerialFallback = '''', o_Phase = PhaseAuto, o_DisableMPPT = False, o_WriteRslt = None \<rparr>"

end
