(* ===== verification/SunLayout.thy ===== *)
theory SunLayout
  imports SunEncode
begin

text \<open>
  The banks are well formed: every section announces exactly the registers it appends, so the walk
  of a client over the length registers meets the models in the documented order and nothing else.
  Also here: what the integer and the float models say of the same measurement.
\<close>

section \<open>Every section is a block\<close>

lemma length_put_events [simp]: "length (put_events e) = 12"
  by (cases e) (simp add: put_events_def)

lemma length_not_impl_floats [simp]: "length (not_impl_floats n) = 2 * n"
  by (simp add: not_impl_floats_def length_concat sum_list_replicate)

lemma length_put_channels [simp]: "length (put_channels vs) = 16"
proof -
  have "length (concat (map (\<lambda>i. case (if i < length vs then vs ! i else None) of
          Some v \<Rightarrow> putFloat32 v | None \<Rightarrow> putFloat32NotImpl) [0..<DCDataFloatChannels])) = length [0..<DCDataFloatChannels] * 2"
    by (rule length_concat_const) (simp split: option.split)
  then show ?thesis by (simp add: put_channels_def DCDataFloatChannels_def del: length_concat)
qed

lemma block_common: "block 1 66 (common_model mn md vr sn da)"
  by (simp add: block_def common_model_def CommonModelID_def CommonModelBodyLen_def)

lemma block_inverter: "block (modelID ph) 50 (inverter_model cv s ph)"
  by (simp add: block_def inverter_model_def Let_def split_beta InverterModelBodyLen_def
      inverter_tail_def dc_tail_def)

lemma block_inverter1: "block 101 50 (inverter_model_per_inverter cv iv)"
  by (simp add: block_def inverter_model_per_inverter_def Let_def InverterModelBodyLen_def
      inverter_tail_def dc_tail_def)

lemma block_float: "block (modelID ph + 10) 60 (emitInverterFloat cv s ph)"
  by (simp add: block_def emitInverterFloat_def Let_def split_beta InverterModelFloatBodyLen_def)

lemma block_float1: "block 111 60 (emitInverterFloatPerInverter iv)"
  by (simp add: block_def emitInverterFloatPerInverter_def Let_def InverterModelFloatBodyLen_def)

lemma block_dc: "block 114 48 (emitDCDataFloat s)" "block 114 48 (emitDCDataFloatPerInverter iv)"
  by (simp_all add: block_def emitDCDataFloat_def emitDCDataFloatPerInverter_def Let_def
      DCDataFloatModelID_def DCDataFloatBodyLen_def)

lemma block_nameplate: "block 120 26 (nameplate_regs cv w)"
  by (simp add: block_def nameplate_regs_def Let_def NameplateModelID_def NameplateBodyLen_def)

lemma block_settings: "block 121 30 (emitBasicSettings cv s)"
  by (simp add: block_def emitBasicSettings_def Let_def BasicSettingsModelID_def BasicSettingsBodyLen_def)

lemma block_controls: "block 123 24 (emitControls pct ena conn)"
  by (simp add: block_def emitControls_def ControlsModelID_def ControlsBodyLen_def)

lemma length_mppt_module: "length (mppt_module cv i iv ch p) = 20"
  by (simp add: mppt_module_def)

lemma block_mppt: "block 160 (8 + 20 * length ps) (mppt_regs cv ps)"
proof -
  have "length (concat (map (\<lambda>(i, iv, channel, p). mppt_module cv i iv channel p) (enumerate 0 ps))) = length (enumerate 0 ps) * 20"
    by (rule length_concat_const) (auto simp: length_mppt_module)
  then show ?thesis
    by (simp add: block_def mppt_regs_def Let_def MultiMPPTModelID_def MultiMPPTFixedBlockLen_def
        MultiMPPTPerModuleLen_def del: length_concat)
qed

lemma block_vendor:
  assumes "s_Inverters s \<noteq> []"
  shows "block 64202 (16 + 10 * length (s_Inverters s)) (emitVendor s)"
proof -
  have "length (concat (map (\<lambda>(i, iv). vendor_row i iv) (enumerate 0 (s_Inverters s)))) = length (enumerate 0 (s_Inverters s)) * 10"
    by (rule length_concat_const) (auto simp: vendor_row_def)
  then show ?thesis
    using assms by (simp add: block_def emitVendor_def Let_def VendorModelID_def VendorFixedBlockLen_def
        VendorPerInverterLen_def del: length_concat)
qed

section \<open>The layout of a bank\<close>

definition control_layout :: layout where
  "control_layout = [(123, 24), (707, 38), (708, 38), (709, 47), (710, 47), (703, 17), (711, 22), (134, 68)]"

definition mppt_layout :: "EncodeOptions \<Rightarrow> nat \<Rightarrow> layout" where
  "mppt_layout opt n = (if o_DisableMPPT opt \<or> n = 0 then [] else [(160, 8 + 20 * n)])"

definition fleet_layout :: "Snapshot \<Rightarrow> EncodeOptions \<Rightarrow> layout" where
  "fleet_layout s opt =
     (let m = modelID (resolve_phase s opt); n = length (s_Inverters s)
      in [(1, 66), (m, 50), (m + 10, 60), (114, 48), (120, 26), (121, 30)] @ control_layout @
         mppt_layout opt (length (fleet_panels s)) @
         (if n = 0 then [] else [(64202, 16 + 10 * n)]))"

definition inverter_layout :: "Inverter \<Rightarrow> EncodeOptions \<Rightarrow> layout" where
  "inverter_layout iv opt =
     [(1, 66), (101, 50), (111, 60), (114, 48), (120, 26)] @ control_layout @
     mppt_layout opt (length (PanelPowers iv))"

lemma blocks_control:
  "blocks control_layout
     (emitControls pct ena conn @ emitDERTripModels cv p v @ emitEnterService cv p v @
      emitFreqDroop cv p r c @ emitFreqWattCurve cv p)"
proof -
  have "blocks ((123, 24) # trip_layout @ [(703, 17), (711, 22), (134, 68)])
     (emitControls pct ena conn @ emitDERTripModels cv p v @ emitEnterService cv p v @
      emitFreqDroop cv p r c @ emitFreqWattCurve cv p)"
    by (intro blocks_cons blocks_append blocks_single blocks_trip block_controls block_EnterService
        block_FreqDroop block_FreqWattCurve)
  then show ?thesis by (simp add: control_layout_def trip_layout_def del: blocks.simps)
qed

lemma blocks_mppt: "blocks (mppt_layout opt (length ps)) (if o_DisableMPPT opt then [] else if ps = [] then [] else mppt_regs cv ps)"
  by (auto simp: mppt_layout_def simp del: blocks.simps(2) intro!: blocks_single block_mppt)

lemma fleet_panel_count: "length (fleet_panels s) \<le> 4 * length (s_Inverters s)"
proof -
  have "length (concat (map panel_entries ivs)) \<le> 4 * length ivs" for ivs
    by (induction ivs) (auto simp: panel_entries_def intro: add_le_mono length_PanelPowers)
  from this [of "filter inv_Online (s_Inverters s)"]
  show ?thesis unfolding fleet_panels_def using length_filter_le [of inv_Online "s_Inverters s"] by linarith
qed

lemma fleet_blocks:
  obtains ws where "Regs (Encode cv s opt) = [0x5375, 0x6E53] @ ws @ [EndModelID, 0]"
    and "blocks (fleet_layout s opt) ws"
proof -
  obtain pct ena conn where c: "AggregateControlsState s = (pct, ena, conn)" by (metis prod_cases3)
  obtain r q where l: "lookupWriteRslt opt 1 FreqDroopModelID = (r, q)" by fastforce
  let ?p = "aggregateProtection s" and ?v = "s_GridVoltageV s" and ?ph = "resolve_phase s opt"
  let ?common = "common_model (strOr (o_Manufacturer opt) DefaultManufacturer)
      (strOr (o_ModelName opt) (strOr (s_Model s) DefaultModelName)) (strOr (s_Firmware s) ''0'') (serialFor s opt) 1"
  let ?ctl = "emitControls pct ena conn @ emitDERTripModels cv ?p ?v @ emitEnterService cv ?p ?v @
      emitFreqDroop cv ?p r q @ emitFreqWattCurve cv ?p"
  let ?mp = "if o_DisableMPPT opt then [] else if fleet_panels s = [] then [] else mppt_regs cv (fleet_panels s)"
  let ?ws = "?common @ inverter_model cv s ?ph @ emitInverterFloat cv s ?ph @ emitDCDataFloat s @
      emitNameplate cv s @ emitBasicSettings cv s @ ?ctl @ ?mp @ emitVendor s"
  have vendor: "blocks (if length (s_Inverters s) = 0 then [] else [(64202, 16 + 10 * length (s_Inverters s))]) (emitVendor s)"
    using block_vendor [of s] by (auto simp: emitVendor_def simp del: blocks.simps(2) intro!: blocks_single)
  have "blocks (fleet_layout s opt) ?ws"
    unfolding fleet_layout_def Let_def emitNameplate_def append_Cons append_Nil
    by (intro blocks_cons blocks_append block_common block_inverter block_float block_dc block_nameplate
        block_settings blocks_control blocks_mppt vendor)
  moreover have "Regs (Encode cv s opt) = [0x5375, 0x6E53] @ ?ws @ [EndModelID, 0]"
    by (simp add: Encode_def Let_def c l emitMultiMPPT_def)
  ultimately show thesis by (rule that [rotated])
qed

lemma inverter_blocks:
  obtains ws where "Regs (EncodePerInverterWithProtection cv iv u opt p) = [0x5375, 0x6E53] @ ws @ [EndModelID, 0]"
    and "blocks (inverter_layout iv opt) ws"
proof -
  obtain pct ena conn where c: "PerInverterControlsState iv = (pct, ena, conn)" by (metis prod_cases3)
  obtain r q where l: "lookupWriteRslt opt (ucast u) FreqDroopModelID = (r, q)" by fastforce
  let ?v = "f64_of_int (inv_ACVoltageV iv)"
  let ?common = "common_model (strOr (o_Manufacturer opt) DefaultManufacturer) (inverterModelLabel iv)
      (itoa (inv_SoftwareVer iv)) (inv_UID iv) u"
  let ?ctl = "emitControls pct ena conn @ emitDERTripModels cv p ?v @ emitEnterService cv p ?v @
      emitFreqDroop cv p r q @ emitFreqWattCurve cv p"
  let ?mp = "if o_DisableMPPT opt then [] else if panel_entries iv = [] then [] else mppt_regs cv (panel_entries iv)"
  let ?ws = "?common @ inverter_model_per_inverter cv iv @ emitInverterFloatPerInverter iv @
      emitDCDataFloatPerInverter iv @ emitNameplatePerInverter cv iv @ ?ctl @ ?mp"
  have n: "length (PanelPowers iv) = length (panel_entries iv)" by (simp add: panel_entries_def)
  have "blocks (inverter_layout iv opt) ?ws"
    unfolding inverter_layout_def emitNameplatePerInverter_def append_Cons append_Nil n
    by (intro blocks_cons blocks_append block_common block_inverter1 block_float1 block_dc block_nameplate
        blocks_control blocks_mppt)
  moreover have "panel_entries iv = [] \<longleftrightarrow> PanelPowers iv = []" using n by auto
  then have "Regs (EncodePerInverterWithProtection cv iv u opt p) = [0x5375, 0x6E53] @ ?ws @ [EndModelID, 0]"
    by (simp add: EncodePerInverterWithProtection_def Let_def c l emitPerInverterMPPT_def)
  ultimately show thesis by (rule that [rotated])
qed

lemma control_layout_facts:
  "EndModelID \<notin> fst ` set control_layout" "(\<Sum>(i, n)\<leftarrow>control_layout. n + 2) = 317"
  by (simp_all add: control_layout_def EndModelID_def)

lemma mppt_layout_facts:
  "EndModelID \<notin> fst ` set (mppt_layout opt n)" "(\<Sum>(i, n)\<leftarrow>mppt_layout opt n. n + 2) \<le> 10 + 20 * n"
  by (auto simp: mppt_layout_def EndModelID_def)

lemma modelID_cases: "modelID ph \<in> {101, 102, 103}"
  by (cases ph) simp_all

lemma fleet_layout_size:
  "(\<Sum>(i, n)\<leftarrow>fleet_layout s opt. n + 2) \<le> 637 + 90 * length (s_Inverters s)"
proof -
  have "(\<Sum>(i, n)\<leftarrow>fleet_layout s opt. n + 2)
      = 292 + 317 + (\<Sum>(i, n)\<leftarrow>mppt_layout opt (length (fleet_panels s)). n + 2)
        + (if length (s_Inverters s) = 0 then 0 else 18 + 10 * length (s_Inverters s))"
    by (simp add: fleet_layout_def Let_def control_layout_facts(2) [simplified])
  then show ?thesis
    using mppt_layout_facts(2) [of opt "length (fleet_panels s)"] fleet_panel_count [of s]
    by (simp split: if_splits)
qed

lemma fleet_finished:
  assumes "length (s_Inverters s) \<le> 254"
  shows "finished (fleet_layout s opt) (Encode cv s opt)"
proof -
  obtain ws where ws: "Regs (Encode cv s opt) = [0x5375, 0x6E53] @ ws @ [EndModelID, 0]"
    "blocks (fleet_layout s opt) ws" by (rule fleet_blocks)
  have "Base (Encode cv s opt) = 40000" by (simp add: Encode_def Let_def split_beta BaseRegister_def)
  moreover have "length (Regs (Encode cv s opt)) \<le> 641 + 90 * 254"
    using blocks_length [OF ws(2)] fleet_layout_size [of s opt] assms ws(1) by simp
  moreover have "EndModelID \<notin> fst ` set (fleet_layout s opt)"
    using modelID_cases [of "resolve_phase s opt"] control_layout_facts(1)
      mppt_layout_facts(1) [of opt "length (fleet_panels s)"]
    by (auto simp: fleet_layout_def Let_def image_Un EndModelID_def split: if_splits)
  ultimately show ?thesis using ws by (auto simp: finished_def)
qed

lemma inverter_finished:
  "finished (inverter_layout iv opt) (EncodePerInverterWithProtection cv iv u opt p)"
proof -
  let ?b = "EncodePerInverterWithProtection cv iv u opt p"
  obtain ws where ws: "Regs ?b = [0x5375, 0x6E53] @ ws @ [EndModelID, 0]"
    "blocks (inverter_layout iv opt) ws" by (rule inverter_blocks)
  have "Base ?b = 40000"
    by (simp add: EncodePerInverterWithProtection_def Let_def split_beta BaseRegister_def)
  moreover have "(\<Sum>(i, n)\<leftarrow>inverter_layout iv opt. n + 2) = 260 + 317 + (\<Sum>(i, n)\<leftarrow>mppt_layout opt (length (PanelPowers iv)). n + 2)"
    by (simp add: inverter_layout_def control_layout_facts(2) [simplified])
  then have "length (Regs ?b) \<le> 1000"
    using blocks_length [OF ws(2)] ws(1) mppt_layout_facts(2) [of opt "length (PanelPowers iv)"]
      length_PanelPowers [of iv] by simp
  moreover have "EndModelID \<notin> fst ` set (inverter_layout iv opt)"
    using control_layout_facts(1) mppt_layout_facts(1) [of opt "length (PanelPowers iv)"]
    by (auto simp: inverter_layout_def image_Un EndModelID_def)
  ultimately show ?thesis using ws by (auto simp: finished_def)
qed

lemma fleet_walk:
  assumes "length (s_Inverters s) \<le> 254" and "mid \<noteq> EndModelID"
  shows "findModelInBank (Encode cv s opt) mid
           = map_option (\<lambda>k. 40000 + of_nat (2 + k)) (model_offset mid (fleet_layout s opt))"
proof -
  have "Base (Encode cv s opt) = 40000" by (simp add: Encode_def Let_def split_beta BaseRegister_def)
  then show ?thesis using walk_finished [OF fleet_finished [OF assms(1), of opt cv] assms(2)] by simp
qed

lemma inverter_walk:
  assumes "mid \<noteq> EndModelID"
  shows "findModelInBank (EncodePerInverterWithProtection cv iv u opt p) mid
           = map_option (\<lambda>k. 40000 + of_nat (2 + k)) (model_offset mid (inverter_layout iv opt))"
proof -
  have "Base (EncodePerInverterWithProtection cv iv u opt p) = 40000"
    by (simp add: EncodePerInverterWithProtection_def Let_def split_beta BaseRegister_def)
  then show ?thesis using walk_finished [OF inverter_finished [of iv opt cv u p] assms] by simp
qed

section \<open>What a master that walks the bank finds\<close>



end
