(* ===== verification/SunWriters.thy ===== *)
theory SunWriters
  imports SunLayout
begin

text \<open>
  What a register write does: the writers of models 123, 703, 711 and 134
  (\<open>server/controls_writer.go\<close>, \<open>enter_service_writer.go\<close>, \<open>freq_droop_writer.go\<close>,
  \<open>freq_watt_curve_writer.go\<close>), the routing of protection parameters (\<open>profiles.go\<close>,
  \<open>protection_dispatch.go\<close>), the reversion timers (\<open>reverter.go\<close>) and the write_tracker of pending writes
  (\<open>write_tracker.go\<close>).  A writer is an action on the state of the server that returns its error;
  the frames handed to inv-driver are appended to a log, and whether inv-driver accepts a frame is
  the environment's choice, which may depend on everything sent before.
\<close>

section \<open>The state of the server\<close>

type_synonym unit_id = byte
type_synonym revert_target = "string \<times> byte"

record timer =
  tm_id :: nat
  tm_uid :: unit_id
  tm_due :: int
  tm_targets :: "revert_target list"

text \<open>
  \<open>rv_map\<close> is the map of timers by unit id; \<open>rv_armed\<close> the timers the runtime still holds;
  \<open>rv_count\<close> numbers them.
\<close>

record reverter =
  rv_map :: "unit_id \<Rightarrow> nat option"
  rv_armed :: "timer list"
  rv_count :: nat

record trackerEntry =
  te_reqCounter :: u16
  te_rslt :: u16
  te_expected :: "(string \<times> f64) list"
  te_deadline :: int

type_synonym write_tracker = "unit_id \<times> u16 \<Rightarrow> trackerEntry option"

record srv =
  sv_sent :: "(string \<times> bytes) list"
  sv_limits :: limit_cache
  sv_reverter :: reverter
  sv_tracker :: write_tracker

datatype write_error =
    NoInverters | NotInSnapshot | NoPanels | NoNameplate | PowerEncode set_power_error
  | ProtEncode prot_error | SendFailed | AggregateUnit | UnmappedUnit | ReadOnlyRegister
  | NothingWritten | OutOfRange | NoTrip | Unsupported

type_synonym writer_act = "srv \<Rightarrow> write_error option \<times> srv"
type_synonym sender = "(string \<times> bytes) list \<Rightarrow> string \<Rightarrow> bytes \<Rightarrow> bool"

definition ok :: writer_act where "ok w = (None, w)"
definition refuse :: "write_error \<Rightarrow> writer_act" where "refuse e w = (Some e, w)"

definition andThen :: "writer_act \<Rightarrow> writer_act \<Rightarrow> writer_act" where
  "andThen a b w = (case a w of (None, w') \<Rightarrow> b w' | (Some e, w') \<Rightarrow> (Some e, w'))"

definition upd :: "(srv \<Rightarrow> srv) \<Rightarrow> writer_act" where "upd f w = (None, f w)"

fun for_each :: "('a \<Rightarrow> writer_act) \<Rightarrow> 'a list \<Rightarrow> writer_act" where
  "for_each f [] = ok"
| "for_each f (x # xs) = andThen (f x) (for_each f xs)"

definition send_frame :: "sender \<Rightarrow> string \<Rightarrow> bytes \<Rightarrow> writer_act" where
  "send_frame env uid frame w =
     (if env (sv_sent w) uid frame then (None, w\<lparr> sv_sent := sv_sent w @ [(uid, frame)] \<rparr>)
      else (Some SendFailed, w))"

section \<open>Reversion timers\<close>

text \<open>\<open>t.Stop()\<close>: a timer that has already fired is no longer held and is not affected.\<close>

definition stop_timer :: "nat \<Rightarrow> reverter \<Rightarrow> reverter" where
  "stop_timer i r = r\<lparr> rv_armed := filter (\<lambda>t. tm_id t \<noteq> i) (rv_armed r) \<rparr>"

definition Cancel :: "unit_id \<Rightarrow> reverter \<Rightarrow> reverter" where
  "Cancel uid r =
     (case rv_map r uid of
        None \<Rightarrow> r
      | Some i \<Rightarrow> (stop_timer i r)\<lparr> rv_map := (rv_map r)(uid := None) \<rparr>)"

definition Schedule :: "int \<Rightarrow> unit_id \<Rightarrow> int \<Rightarrow> revert_target list \<Rightarrow> reverter \<Rightarrow> reverter" where
  "Schedule now uid after targets r =
     (let r1 = Cancel uid r
      in if after \<le> 0 \<or> targets = [] then r1
         else let t = \<lparr> tm_id = rv_count r1, tm_uid = uid, tm_due = now + after, tm_targets = targets \<rparr>
              in \<lparr> rv_map = (rv_map r1)(uid \<mapsto> rv_count r1), rv_armed = rv_armed r1 @ [t],
                   rv_count = rv_count r1 + 1 \<rparr>)"

text \<open>\<open>Stop\<close> cancels whatever the map holds, in any order.\<close>

definition StopAll :: "reverter \<Rightarrow> reverter" where
  "StopAll r =
     r\<lparr> rv_armed := filter (\<lambda>t. tm_id t \<notin> ran (rv_map r)) (rv_armed r), rv_map := (\<lambda>_. None) \<rparr>"

definition pending :: "unit_id \<Rightarrow> reverter \<Rightarrow> bool" where
  "pending uid r = (rv_map r uid \<noteq> None)"

section \<open>The tracker\<close>

definition WriteRsltInProgress :: u16 where "WriteRsltInProgress = 0"
definition WriteRsltCompleted :: u16 where "WriteRsltCompleted = 1"
definition WriteRsltFailed :: u16 where "WriteRsltFailed = 2"

text \<open>15 minutes in nanoseconds, and the tolerance 0.05.\<close>

definition defaultWriteDeadline :: int where "defaultWriteDeadline = 900000000000"
definition writeMatchTolerance :: f64 where "writeMatchTolerance = f64_of_rat (5 / 100)"

definition tracker_Track :: "int \<Rightarrow> unit_id \<Rightarrow> u16 \<Rightarrow> (string \<times> f64) list \<Rightarrow> write_tracker \<Rightarrow> write_tracker" where
  "tracker_Track now uid mid expected tr =
     tr((uid, mid) \<mapsto>
        \<lparr> te_reqCounter = (case tr (uid, mid) of Some e \<Rightarrow> te_reqCounter e | None \<Rightarrow> 0) + 1,
          te_rslt = WriteRsltInProgress, te_expected = expected,
          te_deadline = now + defaultWriteDeadline \<rparr>)"

definition tracker_Get :: "write_tracker \<Rightarrow> unit_id \<Rightarrow> u16 \<Rightarrow> u16 \<times> u16" where
  "tracker_Get tr uid mid =
     (case tr (uid, mid) of Some e \<Rightarrow> (te_rslt e, te_reqCounter e) | None \<Rightarrow> (WriteRsltCompleted, 0))"

definition protGet_codes :: "string list" where
  "protGet_codes =
     [''AB'', ''AC'', ''AD'', ''AE'', ''AF'', ''AG'', ''AH'', ''AI'', ''AJ'', ''AK'', ''AQ'', ''AS'', ''AY'',
      ''BB'', ''BC'', ''BD'', ''BE'', ''BH'', ''BI'', ''BJ'', ''BK'', ''BN'', ''BO'', ''BP'', ''BQ'',
      ''CC'', ''CV'', ''DC'', ''DD'']"

definition protGet :: "ProtectionParams \<Rightarrow> string \<Rightarrow> f64 option" where
  "protGet p code =
     (if \<not> has p code then None
      else if code \<in> set protGet_codes then map_option (pp_val p) (protCodeField code)
      else None)"

definition matches_one :: "ProtectionParams \<Rightarrow> string \<times> f64 \<Rightarrow> bool" where
  "matches_one p want =
     (case protGet p (fst want) of
        None \<Rightarrow> False
      | Some actual \<Rightarrow> \<not> flt writeMatchTolerance (fabs (fsub actual (snd want))))"

definition matchesAll :: "ProtectionParams \<Rightarrow> (string \<times> f64) list \<Rightarrow> bool" where
  "matchesAll p want = (want \<noteq> [] \<and> list_all (matches_one p) want)"

definition unitIDToInverterUID :: "Snapshot \<Rightarrow> unit_id \<Rightarrow> string option" where
  "unitIDToInverterUID s uid =
     (if uid < 2 then None
      else let idx = unat uid - 2
           in if length (s_Inverters s) \<le> idx then None else Some (inv_UID (s_Inverters s ! idx)))"

definition params_of :: "Snapshot \<Rightarrow> string \<Rightarrow> ProtectionParams" where
  "params_of s uid = (case protection_of s uid of Some p \<Rightarrow> p | None \<Rightarrow> noProtection)"

definition reconcile_entry :: "int \<Rightarrow> Snapshot \<Rightarrow> unit_id \<Rightarrow> trackerEntry \<Rightarrow> trackerEntry" where
  "reconcile_entry now s uid e =
     (if te_rslt e \<noteq> WriteRsltInProgress then e
      else let late = (if te_deadline e < now then e\<lparr> te_rslt := WriteRsltFailed \<rparr> else e)
           in case unitIDToInverterUID s uid of
                None \<Rightarrow> late
              | Some iuid \<Rightarrow>
                  if matchesAll (params_of s iuid) (te_expected e)
                  then e\<lparr> te_rslt := WriteRsltCompleted \<rparr> else late)"

text \<open>The entries are visited one by one and do not depend on each other.\<close>

definition tracker_Reconcile :: "int \<Rightarrow> Snapshot \<Rightarrow> write_tracker \<Rightarrow> write_tracker" where
  "tracker_Reconcile now s tr = (\<lambda>key. map_option (reconcile_entry now s (fst key)) (tr key))"

definition PruneSettled :: "int \<Rightarrow> int \<Rightarrow> write_tracker \<Rightarrow> write_tracker" where
  "PruneSettled now grace tr =
     (\<lambda>key. case tr key of
        None \<Rightarrow> None
      | Some e \<Rightarrow> if te_rslt e \<noteq> WriteRsltInProgress \<and> te_deadline e + grace < now then None else Some e)"

section \<open>The fields of a write\<close>

definition writeTouches :: "u16 \<Rightarrow> regs \<Rightarrow> u16 \<Rightarrow> bool" where
  "writeTouches addrOffset ws fieldOff =
     (if fieldOff < addrOffset then False
      else if (of_nat (length ws) :: u16) \<le> fieldOff - addrOffset then False
      else True)"

definition readField :: "u16 \<Rightarrow> regs \<Rightarrow> u16 \<Rightarrow> u16" where
  "readField addrOffset ws fieldOff =
     (if \<not> writeTouches addrOffset ws fieldOff then 0 else ws ! unat (fieldOff - addrOffset))"

text \<open>\<open>uint32(hi)<<16 | uint32(lo)\<close>.\<close>

definition join32 :: "u16 \<Rightarrow> u16 \<Rightarrow> u32" where
  "join32 hi lo = push_bit 16 (ucast hi) OR ucast lo"

section \<open>Model 123\<close>

definition sendPanelWatts :: "conv \<Rightarrow> sender \<Rightarrow> string \<Rightarrow> byte \<Rightarrow> int \<Rightarrow> writer_act" where
  "sendPanelWatts cv env uid modelCode panelW =
     (case EncodeSetPower (cv 32) modelCode (word_of_int panelW) False of
        Inl e \<Rightarrow> refuse (PowerEncode e)
      | Inr frame \<Rightarrow> send_frame env uid frame)"

definition set_limit :: "string \<Rightarrow> int \<Rightarrow> writer_act" where
  "set_limit uid watts = upd (\<lambda>w. w\<lparr> sv_limits := limits_Set (sv_limits w) uid watts \<rparr>)"

definition findInverter :: "Inverter list \<Rightarrow> string \<Rightarrow> Inverter option" where
  "findInverter ivs uid = List.find (\<lambda>iv. inv_UID iv = uid) ivs"

definition targetUIDs :: "Snapshot \<Rightarrow> unit_id \<Rightarrow> string list" where
  "targetUIDs s uid =
     (if uid \<le> 1 then map inv_UID (s_Inverters s)
      else let idx = unat uid - 2
           in if length (s_Inverters s) \<le> idx then [] else [inv_UID (s_Inverters s ! idx)])"

definition restoreFull :: "conv \<Rightarrow> sender \<Rightarrow> Snapshot \<Rightarrow> string list \<Rightarrow> writer_act" where
  "restoreFull cv env s =
     for_each (\<lambda>uid. case findInverter (s_Inverters s) uid of
         None \<Rightarrow> refuse NotInSnapshot
       | Some iv \<Rightarrow> andThen (sendPanelWatts cv env uid (model_byte iv) MaxPanelW) (set_limit uid MaxPanelW))"

definition cap_target :: "u16 \<Rightarrow> int \<Rightarrow> int" where
  "cap_target rawPct nameplatePerPanel =
     (let target = uint rawPct * nameplatePerPanel div uint WMaxLimPctRawFull;
          up = (if target < MinPanelW then MinPanelW else target)
      in if MaxPanelW < up then MaxPanelW else up)"

definition applyCap_one :: "conv \<Rightarrow> sender \<Rightarrow> Snapshot \<Rightarrow> u16 \<Rightarrow> string \<Rightarrow> writer_act" where
  "applyCap_one cv env s rawPct uid =
     (case findInverter (s_Inverters s) uid of
        None \<Rightarrow> refuse NotInSnapshot
      | Some iv \<Rightarrow>
          let panels = int (PanelCount iv)
          in if panels \<le> 0 then refuse NoPanels
             else let npp = NameplateW iv div panels
                  in if npp \<le> 0 then refuse NoNameplate
                     else let target = cap_target rawPct npp
                          in andThen (sendPanelWatts cv env uid (model_byte iv) target) (set_limit uid target))"

definition applyCap :: "conv \<Rightarrow> sender \<Rightarrow> Snapshot \<Rightarrow> string list \<Rightarrow> u16 \<Rightarrow> writer_act" where
  "applyCap cv env s uids rawPct =
     for_each (applyCap_one cv env s (if WMaxLimPctRawFull < rawPct then WMaxLimPctRawFull else rawPct)) uids"

definition revertTargets :: "Snapshot \<Rightarrow> string list \<Rightarrow> revert_target list" where
  "revertTargets s uids =
     concat (map (\<lambda>uid. case findInverter (s_Inverters s) uid of
         None \<Rightarrow> [] | Some iv \<Rightarrow> [(uid, model_byte iv)]) uids)"

definition on_reverter :: "(reverter \<Rightarrow> reverter) \<Rightarrow> writer_act" where
  "on_reverter f = upd (\<lambda>w. w\<lparr> sv_reverter := f (sv_reverter w) \<rparr>)"

definition armOrCancelReversion :: "int \<Rightarrow> Snapshot \<Rightarrow> unit_id \<Rightarrow> u16 \<Rightarrow> string list \<Rightarrow> writer_act" where
  "armOrCancelReversion now s uid rvrt targets =
     (if rvrt = 0 \<or> rvrt = 0xFFFF then on_reverter (Cancel uid)
      else on_reverter (Schedule now uid (uint rvrt * 1000000000) (revertTargets s targets)))"

definition applyConn :: "sender \<Rightarrow> string list \<Rightarrow> u16 \<Rightarrow> writer_act" where
  "applyConn env uids conn = for_each (\<lambda>uid. send_frame env uid (EncodeOnOff (conn \<noteq> 0) False)) uids"

definition ControlsWriter_Apply ::
    "conv \<Rightarrow> sender \<Rightarrow> int \<Rightarrow> Snapshot \<Rightarrow> unit_id \<Rightarrow> u16 \<Rightarrow> regs \<Rightarrow> writer_act" where
  "ControlsWriter_Apply cv env now s uid off ws =
     (let targets = targetUIDs s uid;
          enaWritten = writeTouches off ws 7;
          pctWritten = writeTouches off ws 3;
          rvrtWritten = writeTouches off ws 5;
          power = (if enaWritten \<and> readField off ws 7 = 0
                   then andThen (on_reverter (Cancel uid)) (restoreFull cv env s targets)
                   else if pctWritten
                   then andThen (applyCap cv env s targets (readField off ws 3))
                          (if rvrtWritten then armOrCancelReversion now s uid (readField off ws 5) targets else ok)
                   else ok);
          conn = (if writeTouches off ws 2 then applyConn env targets (readField off ws 2) else ok)
      in if targets = [] then refuse NoInverters else andThen power conn)"

section \<open>Routing protection parameters\<close>

datatype InverterFamily = IF_Unknown | IF_DS3 | IF_QT2 | IF_QS1A | IF_YC600 | IF_YC1000

definition familyForModel :: "int \<Rightarrow> InverterFamily" where
  "familyForModel code =
     (if code \<in> {7, 0x17} then IF_YC600 else if code \<in> {8, 0x18} then IF_QS1A
      else if code \<in> {5, 6} then IF_YC1000 else if code \<in> {0x20, 0x21, 0x22, 0x36} then IF_DS3
      else if code \<in> {0x29, 0x30, 0x31, 0x32} then IF_QT2 else IF_Unknown)"

datatype WriteRoute = RouteDirect | RouteUnsupported

definition routeFor :: "InverterFamily \<Rightarrow> string \<Rightarrow> WriteRoute" where
  "routeFor family paramName =
     (case family of
        IF_Unknown \<Rightarrow> RouteUnsupported
      | IF_QS1A \<Rightarrow>
          if paramName \<in> {''Over_frequency_Watt_recover_High_set'', ''Over_Frequency_Watt_Slope_set'',
                            ''Over_frequency_Watt_Delay_Time_set''}
          then RouteUnsupported else RouteDirect
      | _ \<Rightarrow> RouteDirect)"

definition dispatchProtection :: "conv \<Rightarrow> sender \<Rightarrow> Inverter \<Rightarrow> string \<Rightarrow> f64 \<Rightarrow> writer_act" where
  "dispatchProtection cv env iv paramName v =
     (case routeFor (familyForModel (inv_Model iv)) paramName of
        RouteDirect \<Rightarrow>
          (case EncodeSetProtection cv (model_byte iv) paramName v of
             Inl e \<Rightarrow> refuse (ProtEncode e)
           | Inr frames \<Rightarrow> for_each (send_frame env (inv_UID iv)) frames)
      | RouteUnsupported \<Rightarrow> refuse Unsupported)"

text \<open>The three per-inverter writers share the way they find their inverter.\<close>

definition with_inverter :: "Snapshot \<Rightarrow> unit_id \<Rightarrow> (Inverter \<Rightarrow> writer_act) \<Rightarrow> writer_act" where
  "with_inverter s uid body =
     (if uid \<le> 1 then refuse AggregateUnit
      else let idx = unat uid - 2
           in if length (s_Inverters s) \<le> idx then refuse UnmappedUnit else body (s_Inverters s ! idx))"

section \<open>Model 703\<close>

definition EnterServiceMinReconnectS :: int where "EnterServiceMinReconnectS = 10"
definition EnterServiceMaxReconnectS :: int where "EnterServiceMaxReconnectS = 610"

definition EnterServiceWriter_Apply ::
    "conv \<Rightarrow> sender \<Rightarrow> Snapshot \<Rightarrow> unit_id \<Rightarrow> u16 \<Rightarrow> regs \<Rightarrow> writer_act" where
  "EnterServiceWriter_Apply cv env s uid off ws =
     with_inverter s uid (\<lambda>iv.
       if off \<noteq> 7 \<or> length ws \<noteq> 2 then refuse ReadOnlyRegister
       else let seconds = uint (join32 (ws ! 0) (ws ! 1))
            in if seconds < EnterServiceMinReconnectS \<or> EnterServiceMaxReconnectS < seconds
               then refuse OutOfRange
               else dispatchProtection cv env iv ''grid_recovery_time'' (f64_of_int seconds))"

section \<open>Model 711\<close>

definition freqDroopOFMarginHz :: f64 where "freqDroopOFMarginHz = Fin (1 / 2)"
definition freqDroopMinKOf :: u16 where "freqDroopMinKOf = 100"
definition freqDroopMaxKOf :: u16 where "freqDroopMaxKOf = 1500"

definition freqDroopWritable :: "u16 list" where
  "freqDroopWritable = [0, 1, 12, 13, 16, 18, 19]"

definition droop_readonly :: "u16 \<Rightarrow> regs \<Rightarrow> bool" where
  "droop_readonly off ws \<longleftrightarrow>
     list_ex (\<lambda>k. writeTouches off ws k \<and> k \<notin> set freqDroopWritable) (map of_nat [0..<22])"

text \<open>\<open>50.0 + float64(dbOf)/100.0\<close>.\<close>

definition droop_start :: "u32 \<Rightarrow> f64" where
  "droop_start dbOf = fadd (Fin 50) (fdiv (f64_of_int (uint dbOf)) (Fin 100))"

definition droop_ena_mode :: "conv \<Rightarrow> ProtectionParams \<Rightarrow> u16 \<Rightarrow> int" where
  "droop_ena_mode cv p ena = (if ena = 0 then 15 else if droop_mode cv p = 13 then 13 else 14)"

definition FreqDroop_body ::
    "conv \<Rightarrow> sender \<Rightarrow> int \<Rightarrow> Snapshot \<Rightarrow> unit_id \<Rightarrow> u16 \<Rightarrow> regs \<Rightarrow> Inverter \<Rightarrow> writer_act" where
  "FreqDroop_body cv env now s uid off ws iv =
      (let prot = params_of s (inv_UID iv);
           dispatch = dispatchProtection cv env iv;
           touches = writeTouches off ws;
           wantsEna = touches 0; wantsReq = touches 1;
           wantsDbOf = (touches 12 \<and> touches 13);
           wantsKOf = touches 16;
           wantsRspTms = (touches 18 \<and> touches 19);
           dbOf = join32 (readField off ws 12) (readField off ws 13);
           hzStart = droop_start dbOf;
           kOf = readField off ws 16;
           slope = fdiv (f64_of_int (uint kOf)) (Fin 10);
           rspTms = join32 (readField off ws 18) (readField off ws 19);
           modeVal = f64_of_int (droop_ena_mode cv prot (readField off ws 0));
           expected = (if wantsEna then [(''CV'', modeVal)] else []) @
                      (if wantsDbOf then [(''DC'', hzStart)] else []) @
                      (if wantsKOf then [(''DD'', slope)] else [])
       in if droop_readonly off ws then refuse ReadOnlyRegister
          else if \<not> (wantsEna \<or> wantsDbOf \<or> wantsKOf \<or> wantsRspTms)
          then (if wantsReq then ok else refuse NothingWritten)
          else if \<not> has prot ''AK'' then refuse NoTrip
          else andThen
            (if wantsDbOf then
               (if fle hzStart (Fin 50) then refuse OutOfRange
                else if flt (fsub (pp_val prot OFFast) freqDroopOFMarginHz) hzStart then refuse OutOfRange
                else dispatch ''Over_frequency_Watt_Start_set'' hzStart)
             else ok) (andThen
            (if wantsKOf then
               (if kOf < freqDroopMinKOf \<or> freqDroopMaxKOf < kOf then refuse OutOfRange
                else dispatch ''Over_Frequency_Watt_Slope_set'' slope)
             else ok) (andThen
            (if wantsRspTms
             then dispatch ''Over_frequency_Watt_Delay_Time_set'' (f64_of_int (uint rspTms)) else ok) (andThen
            (if wantsEna then dispatch ''Over_frequency_Watt_set'' modeVal else ok)
            (if expected \<noteq> []
             then upd (\<lambda>w. w\<lparr> sv_tracker := tracker_Track now uid FreqDroopModelID expected (sv_tracker w) \<rparr>)
             else ok)))))"

definition FreqDroopWriter_Apply ::
    "conv \<Rightarrow> sender \<Rightarrow> int \<Rightarrow> Snapshot \<Rightarrow> unit_id \<Rightarrow> u16 \<Rightarrow> regs \<Rightarrow> writer_act" where
  "FreqDroopWriter_Apply cv env now s uid off ws =
     with_inverter s uid (FreqDroop_body cv env now s uid off ws)"

section \<open>Model 134\<close>

definition freqWattCurveHzPoints :: "(u16 \<times> string \<times> string) list" where
  "freqWattCurveHzPoints =
     [(11, ''Under_Frequency_Watt_Low_set'', ''DH''),
      (13, ''Under_Frequency_Watt_High_set'', ''DI''),
      (15, ''Over_frequency_Watt_Low_set'', ''CB''),
      (17, ''Over_frequency_Watt_High_set'', ''CC'')]"

definition freqWattCurveWritableSet :: "u16 list" where
  "freqWattCurveWritableSet = [11, 13, 15, 17]"

definition curve_readonly :: "u16 \<Rightarrow> regs \<Rightarrow> bool" where
  "curve_readonly off ws \<longleftrightarrow>
     list_ex (\<lambda>k. writeTouches off ws k \<and> k \<notin> set freqWattCurveWritableSet)
       (map of_nat [0..<unat FreqWattCurveBodyLen])"

text \<open>The wire value is in hundredths of a hertz.\<close>

definition curve_hz :: "u16 \<Rightarrow> regs \<Rightarrow> u16 \<Rightarrow> f64" where
  "curve_hz off ws body = fdiv (f64_of_int (uint (readField off ws body))) (Fin 100)"

definition curve_point :: "conv \<Rightarrow> sender \<Rightarrow> Inverter \<Rightarrow> u16 \<Rightarrow> regs \<Rightarrow> u16 \<times> string \<times> string \<Rightarrow> writer_act" where
  "curve_point cv env iv off ws pt =
     (case pt of (body, name, code) \<Rightarrow>
        let hz = curve_hz off ws body
        in if \<not> writeTouches off ws body then ok
           else if fle hz (Fin 0) then refuse OutOfRange
           else dispatchProtection cv env iv name hz)"

definition FreqWattCurve_body ::
    "conv \<Rightarrow> sender \<Rightarrow> int \<Rightarrow> unit_id \<Rightarrow> u16 \<Rightarrow> regs \<Rightarrow> Inverter \<Rightarrow> writer_act" where
  "FreqWattCurve_body cv env now uid off ws iv =
      (let touched = filter (\<lambda>(body, name, code). writeTouches off ws body) freqWattCurveHzPoints;
           expected = map (\<lambda>(body, name, code). (code, curve_hz off ws body)) touched
       in if curve_readonly off ws then refuse ReadOnlyRegister
          else andThen (for_each (curve_point cv env iv off ws) freqWattCurveHzPoints)
            (if touched = [] then refuse NothingWritten
             else upd (\<lambda>w. w\<lparr> sv_tracker := tracker_Track now uid FreqWattCurveModelID expected (sv_tracker w) \<rparr>)))"

definition FreqWattCurveWriter_Apply ::
    "conv \<Rightarrow> sender \<Rightarrow> int \<Rightarrow> Snapshot \<Rightarrow> unit_id \<Rightarrow> u16 \<Rightarrow> regs \<Rightarrow> writer_act" where
  "FreqWattCurveWriter_Apply cv env now s uid off ws =
     with_inverter s uid (FreqWattCurve_body cv env now uid off ws)"

end
