(* ===== verification/SunProtWrites.thy ===== *)
theory SunProtWrites
  imports SunWriterProofs
begin

text \<open>
  Writes to the grid-protection models.  The writable registers of models 711 and 134 are islands
  between read-only ones and a write is contiguous, so an accepted write changes one parameter of
  one inverter; a refused one changes nothing unless the link failed half way.  The tracker: what
  its three answers mean in any history of writes and refreshes.
\<close>

section \<open>Contiguous writes\<close>

lemma touches_iff:
  assumes "length ws < 65536"
  shows "writeTouches off ws k \<longleftrightarrow> unat off \<le> unat k \<and> unat k < unat off + length ws"
proof -
  have len: "unat (of_nat (length ws) :: u16) = length ws" using assms by (simp add: unat_of_nat)
  show ?thesis
  proof (cases "unat off \<le> unat k")
    case True
    then have "unat (k - off) = unat k - unat off" by (simp add: unat_sub word_le_nat_alt)
    then show ?thesis
      using True len by (auto simp: writeTouches_def word_less_nat_alt word_le_nat_alt)
  next
    case False
    then show ?thesis by (simp add: writeTouches_def word_less_nat_alt)
  qed
qed

lemma touches_between:
  assumes "length ws < 65536" and "writeTouches off ws a" and "writeTouches off ws b"
    and "unat a \<le> unat k" and "unat k \<le> unat b"
  shows "writeTouches off ws k"
  using assms(2-5) unfolding touches_iff [OF assms(1)] by linarith

lemma not_list_exD: "\<not> list_ex P xs \<Longrightarrow> x \<in> set xs \<Longrightarrow> \<not> P x"
  by (auto simp: list_ex_iff)

section \<open>Sequences of actions\<close>

lemma andThen_ok [simp]: "andThen ok a = a" "andThen a ok = a"
  by (auto simp: andThen_def ok_def fun_eq_iff split: prod.splits option.splits)

lemma andThen_fail [simp]: "andThen (refuse e) a = refuse e"
  by (auto simp: andThen_def refuse_def fun_eq_iff)

lemma fail_eq [simp]: "refuse e w = (x, w') \<longleftrightarrow> x = Some e \<and> w' = w"
  by (auto simp: refuse_def)

lemma ok_eq [simp]: "ok w = (x, w') \<longleftrightarrow> x = None \<and> w' = w"
  by (auto simp: ok_def)

lemma andThen_None:
  "andThen a b w = (None, w') \<longleftrightarrow> (\<exists>w1. a w = (None, w1) \<and> b w1 = (None, w'))"
  by (auto simp: andThen_def split: prod.splits option.splits)

section \<open>One parameter at a time\<close>

definition droop_change :: "ProtectionParams \<Rightarrow> string \<Rightarrow> f64 \<Rightarrow> bool" where
  "droop_change p name v \<longleftrightarrow>
     name = ''Over_frequency_Watt_Start_set'' \<and> \<not> fle v (Fin 50) \<and>
       \<not> flt (fsub (pp_val p OFFast) (Fin (1 / 2))) v \<or>
     name = ''Over_Frequency_Watt_Slope_set'' \<and>
       (\<exists>k. 100 \<le> k \<and> k \<le> 1500 \<and> v = fdiv (f64_of_int k) (Fin 10)) \<or>
     name = ''Over_frequency_Watt_Delay_Time_set'' \<and> (\<exists>n :: u32. v = f64_of_int (uint n)) \<or>
     name = ''Over_frequency_Watt_set'' \<and> (\<exists>m \<in> {13, 14, 15}. v = f64_of_int m)"

definition dispatched :: "conv \<Rightarrow> sender \<Rightarrow> Inverter \<Rightarrow> string \<Rightarrow> f64 \<Rightarrow> srv \<Rightarrow> srv \<Rightarrow> bool" where
  "dispatched cv env iv name v w w' \<longleftrightarrow>
     (\<exists>w1. dispatchProtection cv env iv name v w = (None, w1) \<and> sv_sent w' = sv_sent w1 \<and>
       sv_limits w' = sv_limits w1 \<and> sv_reverter w' = sv_reverter w1)"

lemma with_inverterE:
  assumes "with_inverter s uid body w = (None, w')"
  obtains "1 < uid" and "unat uid - 2 < length (s_Inverters s)"
    and "body (s_Inverters s ! (unat uid - 2)) w = (None, w')"
  using assms by (auto simp: with_inverter_def Let_def not_le split: if_splits)

lemma droop_islands:
  assumes len: "length ws < 65536"
    and ro: "\<not> droop_readonly off ws"
  shows "writeTouches off ws 0 \<Longrightarrow> \<not> writeTouches off ws 12"
    and "writeTouches off ws 0 \<Longrightarrow> \<not> writeTouches off ws 16"
    and "writeTouches off ws 0 \<Longrightarrow> \<not> writeTouches off ws 18"
    and "writeTouches off ws 12 \<Longrightarrow> \<not> writeTouches off ws 16"
    and "writeTouches off ws 12 \<Longrightarrow> \<not> writeTouches off ws 18"
    and "writeTouches off ws 16 \<Longrightarrow> \<not> writeTouches off ws 18"
proof -
  have no: "\<not> writeTouches off ws (of_nat k)" if "k \<in> {2, 14, 17}" for k :: nat
  proof -
    have "of_nat k \<in> set (map of_nat [0..<22] :: u16 list)" using that by auto
    from not_list_exD [OF ro [unfolded droop_readonly_def] this] show ?thesis using that by (auto simp: freqDroopWritable_def)
  qed
  from no [of 2] no [of 14] no [of 17]
  have n: "\<not> writeTouches off ws 2" "\<not> writeTouches off ws 14" "\<not> writeTouches off ws 17" by simp_all
  show "writeTouches off ws 0 \<Longrightarrow> \<not> writeTouches off ws 12" "writeTouches off ws 0 \<Longrightarrow> \<not> writeTouches off ws 16"
    "writeTouches off ws 0 \<Longrightarrow> \<not> writeTouches off ws 18"
    using n(1) touches_between [OF len, of off 0 _ 2] by force+
  show "writeTouches off ws 12 \<Longrightarrow> \<not> writeTouches off ws 16" "writeTouches off ws 12 \<Longrightarrow> \<not> writeTouches off ws 18"
    using n(2) touches_between [OF len, of off 12 _ 14] by force+
  show "writeTouches off ws 16 \<Longrightarrow> \<not> writeTouches off ws 18"
    using n(3) touches_between [OF len, of off 16 _ 17] by force
qed

lemma droop_ena_modes: "droop_ena_mode cv p ena \<in> {13, 14, 15}"
  by (simp add: droop_ena_mode_def)

lemma kOf_bounds: "\<not> (k < freqDroopMinKOf \<or> freqDroopMaxKOf < k) \<Longrightarrow> 100 \<le> uint k \<and> uint k \<le> 1500"
  by (simp add: freqDroopMinKOf_def freqDroopMaxKOf_def word_less_def not_less)

lemma dispatched_track:
  assumes "andThen (dispatchProtection cv env iv name v) (upd (\<lambda>w. w\<lparr> sv_tracker := g w \<rparr>)) w = (None, w')"
  shows "dispatched cv env iv name v w w'"
proof -
  obtain w1 where "dispatchProtection cv env iv name v w = (None, w1)" "w' = w1\<lparr> sv_tracker := g w1 \<rparr>"
    using assms by (auto simp: andThen_None upd_def)
  then show ?thesis unfolding dispatched_def by (intro exI [of _ w1]) simp
qed

lemma dispatched_alone:
  "dispatchProtection cv env iv name v w = (None, w') \<Longrightarrow> dispatched cv env iv name v w w'"
  unfolding dispatched_def by blast


section \<open>The curve: one register at a time\<close>

lemma curve_islands:
  assumes len: "length ws < 65536" and ro: "\<not> curve_readonly off ws"
    and b: "writeTouches off ws k" and k: "k \<in> {11, 13, 15, 17}"
  shows "off = k" and "length ws = 1"
proof -
  have no: "\<not> writeTouches off ws (of_nat n)" if "n \<in> {10, 12, 14, 16, 18}" for n :: nat
  proof -
    have "of_nat n \<in> set (map of_nat [0..<unat FreqWattCurveBodyLen] :: u16 list)"
      using that by (auto simp: FreqWattCurveBodyLen_def freqWattCurveHeaderBodyLen_def
          freqWattCurveNCrv_def freqWattCurvePerCurveLen_def)
    from not_list_exD [OF ro [unfolded curve_readonly_def] this] show ?thesis
      using that by (auto simp: freqWattCurveWritableSet_def)
  qed
  have t: "unat off \<le> unat k" "unat k < unat off + length ws"
    using b touches_iff [OF len] by blast+
  have out: "\<not> (unat off \<le> n \<and> n < unat off + length ws)" if "n \<in> {10, 12, 14, 16, 18}" for n :: nat
  proof -
    have "unat (of_nat n :: u16) = n" using that by auto
    then show ?thesis using no [OF that] touches_iff [OF len, of off "of_nat n"] by simp
  qed
  have "unat k \<in> {11, 13, 15, 17}" using k by auto
  then have "unat off = unat k \<and> length ws = 1"
    using t out [of 10] out [of 12] out [of 14] out [of 16] out [of 18] by auto
  then show "off = k" "length ws = 1" by (simp_all add: word_unat_eq_iff)
qed

lemma curve_for_each:
  assumes "pt \<in> set pts" and "distinct (map fst pts)"
    and "\<And>q. q \<in> set pts \<Longrightarrow> q \<noteq> pt \<Longrightarrow> \<not> writeTouches off ws (fst q)"
  shows "for_each (curve_point cv env iv off ws) pts = curve_point cv env iv off ws pt"
  using assms
proof (induction pts)
  case (Cons q pts)
  have skip: "curve_point cv env iv off ws r = ok" if "\<not> writeTouches off ws (fst r)" for r
    using that by (cases r) (simp add: curve_point_def Let_def)
  show ?case
  proof (cases "q = pt")
    case True
    have "for_each (curve_point cv env iv off ws) xs = ok" if "\<And>r. r \<in> set xs \<Longrightarrow> \<not> writeTouches off ws (fst r)" for xs
      using that by (induction xs) (simp_all add: skip)
    moreover have "\<not> writeTouches off ws (fst r)" if "r \<in> set pts" for r
      using Cons.prems that True by (intro Cons.prems(3)) auto
    ultimately show ?thesis by (simp add: True)
  next
    case False
    then have "curve_point cv env iv off ws q = ok" using Cons.prems(3) [of q] by (intro skip) simp
    then show ?thesis using Cons False by simp
  qed
qed simp


section \<open>The tracker\<close>

datatype tracker_event =
    Tracked unit_id u16 "(string \<times> f64) list" int
  | Reconciled int Snapshot
  | Pruned int int

fun tracker_step :: "tracker_event \<Rightarrow> write_tracker \<Rightarrow> write_tracker" where
  "tracker_step (Tracked uid mid expected now) tr = tracker_Track now uid mid expected tr"
| "tracker_step (Reconciled now s) tr = tracker_Reconcile now s tr"
| "tracker_step (Pruned now grace) tr = PruneSettled now grace tr"

definition tracker_run :: "tracker_event list \<Rightarrow> write_tracker" where
  "tracker_run evs = fold tracker_step evs (\<lambda>_. None)"

definition tracks_write :: "unit_id \<Rightarrow> u16 \<Rightarrow> tracker_event \<Rightarrow> bool" where
  "tracks_write uid mid ev \<longleftrightarrow> (\<exists>expected now. ev = Tracked uid mid expected now)"

definition seen_applied :: "unit_id \<Rightarrow> (string \<times> f64) list \<Rightarrow> tracker_event \<Rightarrow> bool" where
  "seen_applied uid expected ev \<longleftrightarrow>
     (\<exists>now s iuid. ev = Reconciled now s \<and> unitIDToInverterUID s uid = Some iuid \<and>
       matchesAll (params_of s iuid) expected)"

definition seen_late :: "int \<Rightarrow> tracker_event \<Rightarrow> bool" where
  "seen_late deadline ev \<longleftrightarrow> (\<exists>now s. ev = Reconciled now s \<and> deadline < now)"

definition explained :: "tracker_event list \<Rightarrow> unit_id \<Rightarrow> u16 \<Rightarrow> trackerEntry \<Rightarrow> bool" where
  "explained evs uid mid e \<longleftrightarrow>
     (\<exists>h t0 rest. evs = h @ Tracked uid mid (te_expected e) t0 # rest \<and>
        te_deadline e = t0 + defaultWriteDeadline \<and>
        list_all (\<lambda>ev. \<not> tracks_write uid mid ev) rest \<and>
        (te_rslt e = WriteRsltInProgress \<or>
         te_rslt e = WriteRsltCompleted \<and> list_ex (seen_applied uid (te_expected e)) rest \<or>
         te_rslt e = WriteRsltFailed \<and> list_ex (seen_late (te_deadline e)) rest))"

lemma explained_more:
  assumes "explained evs uid mid e" and "\<not> tracks_write uid mid ev"
  shows "explained (evs @ [ev]) uid mid e"
  using assms unfolding explained_def by (elim exE conjE) (rule exI, rule exI, rule_tac x = "rest @ [ev]" in exI, auto)

lemma explained_settle:
  assumes "explained evs uid mid e" and "\<not> tracks_write uid mid ev" and "te_rslt e = WriteRsltInProgress"
    and "r = WriteRsltCompleted \<and> seen_applied uid (te_expected e) ev \<or>
         r = WriteRsltFailed \<and> seen_late (te_deadline e) ev"
  shows "explained (evs @ [ev]) uid mid (e\<lparr> te_rslt := r \<rparr>)"
  using assms unfolding explained_def by (elim exE conjE) (rule exI, rule exI, rule_tac x = "rest @ [ev]" in exI, auto)

lemma reconcile_explained:
  assumes "explained evs uid mid e"
  shows "explained (evs @ [Reconciled now s]) uid mid (reconcile_entry now s uid e)"
proof -
  have nt: "\<not> tracks_write uid mid (Reconciled now s)" by (simp add: tracks_write_def)
  show ?thesis
    using assms nt explained_more [OF assms nt] explained_settle [OF assms nt]
    by (auto simp: reconcile_entry_def Let_def seen_applied_def seen_late_def split: option.splits)
qed


text \<open>Three of the four codes of the curve are unknown to the comparison, so it can never succeed.\<close>

lemma unknown_code_unmatched:
  assumes "code \<in> {''DH'', ''DI'', ''CB'', ''CH''}"
  shows "\<not> matchesAll p [(code, v)]"
  using assms by (auto simp: matchesAll_def matches_one_def protGet_def protGet_codes_def)

section \<open>Accepted writes to evaluate on\<close>

text \<open>The installation with the over-frequency trip read back, and a server that has sent nothing.\<close>

definition trip_fleet :: Snapshot where
  "trip_fleet = ds3_fleet\<lparr> s_Protection := [(''703000000001'',
     noProtection\<lparr> pp_Has := (\<lambda>c. if c = ''AK'' then Some True else None),
                    pp_val := (\<lambda>f. if f = OFFast then Fin 52 else Fin 0) \<rparr>)] \<rparr>"

definition idle_srv :: srv where
  "idle_srv = \<lparr> sv_sent = [], sv_limits = (\<lambda>_. None),
     sv_reverter = \<lparr> rv_map = (\<lambda>_. None), rv_armed = [], rv_count = 0 \<rparr>, sv_tracker = (\<lambda>_. None) \<rparr>"

lemma trip_unit:
  "s_Inverters trip_fleet = [ds3_unit]" "inv_UID ds3_unit = ''703000000001''" "inv_Model ds3_unit = 0x20"
  "has (params_of trip_fleet ''703000000001'') ''AK''"
  by (simp_all add: trip_fleet_def ds3_fleet_def ds3_unit_def params_of_def protection_of_def has_def)




end
