(* ===== verification/SunServer.thy ===== *)
theory SunServer
  imports SunProtWrites
begin

text \<open>
  The register server (\<open>server/server.go\<close>) and its gate (\<open>config/config.go\<close>): banks per unit id built
  from a snapshot, reads that are answered from a bank or refused, and writes that pass the gate,
  are matched to the model whose body covers them and go to that model's writer.  The Modbus
  library decodes requests and is not modelled; the parsing of addresses is Go's \<open>net\<close> package,
  a parameter.
\<close>

section \<open>Who may write\<close>

record 'ip net =
  net_host :: "string \<Rightarrow> string"
  net_parse :: "string \<Rightarrow> 'ip option"
  net_loopback :: "'ip \<Rightarrow> bool"
  net_local :: "'ip \<Rightarrow> bool"
  net_cidr :: "string \<Rightarrow> ('ip \<Rightarrow> bool) option"

record WritesConfig =
  wc_Enabled :: "bool option"
  wc_AllowList :: "string list"
  wc_AllowLocalNetwork :: "bool option"

definition IsEnabled :: "WritesConfig \<Rightarrow> bool" where
  "IsEnabled c = (case wc_Enabled c of None \<Rightarrow> True | Some b \<Rightarrow> b)"

definition LocalAllowed :: "WritesConfig \<Rightarrow> bool" where
  "LocalAllowed c = (case wc_AllowLocalNetwork c of None \<Rightarrow> True | Some b \<Rightarrow> b)"

text \<open>An item that is neither an address nor a range matches nothing; \<open>validate\<close> refuses it.\<close>

definition item_matches :: "'ip net \<Rightarrow> 'ip \<Rightarrow> string \<Rightarrow> bool" where
  "item_matches nt ip item =
     (case net_parse nt item of
        Some a \<Rightarrow> a = ip
      | None \<Rightarrow> (case net_cidr nt item of Some inside \<Rightarrow> inside ip | None \<Rightarrow> False))"

definition AllowsWrite :: "'ip net \<Rightarrow> WritesConfig \<Rightarrow> string \<Rightarrow> bool" where
  "AllowsWrite nt c remoteAddr =
     (if \<not> IsEnabled c then False
      else case net_parse nt (net_host nt remoteAddr) of
        None \<Rightarrow> False
      | Some ip \<Rightarrow>
          if net_loopback nt ip then True
          else if LocalAllowed c \<and> net_local nt ip then True
          else list_ex (item_matches nt ip) (wc_AllowList c))"

definition config_validate :: "'ip net \<Rightarrow> WritesConfig \<Rightarrow> string option" where
  "config_validate nt c =
     List.find (\<lambda>item. net_cidr nt item = None \<and> net_parse nt item = None) (wc_AllowList c)"

section \<open>Banks\<close>

type_synonym banks = "unit_id \<Rightarrow> Bank option"

definition unit_of_index :: "nat \<Rightarrow> unit_id" where
  "unit_of_index i = of_nat (2 + i)"

definition with_tracker :: "EncodeOptions \<Rightarrow> write_tracker \<Rightarrow> EncodeOptions" where
  "with_tracker opt tr = opt\<lparr> o_WriteRslt := Some (tracker_Get tr) \<rparr>"

definition buildBanks :: "conv \<Rightarrow> Snapshot \<Rightarrow> EncodeOptions \<Rightarrow> write_tracker \<Rightarrow> banks" where
  "buildBanks cv s opt0 tr =
     (let opt = with_tracker opt0 tr
      in fold (\<lambda>(i, iv) m. m(unit_of_index i \<mapsto>
             EncodePerInverterWithProtection cv iv (ucast (unit_of_index i)) opt (params_of s (inv_UID iv))))
           (enumerate 0 (s_Inverters s)) [1 \<mapsto> Encode cv s opt])"

definition bankFor :: "banks option \<Rightarrow> unit_id \<Rightarrow> Bank option" where
  "bankFor bs uid =
     (case bs of None \<Rightarrow> None | Some m \<Rightarrow> (case m uid of Some b \<Rightarrow> Some b | None \<Rightarrow> m 1))"

section \<open>Requests\<close>

datatype modbus_error =
  ErrIllegalFunction | ErrIllegalDataAddress | ErrIllegalDataValue | ErrServerDeviceFailure

record mb_request =
  rq_ClientAddr :: string
  rq_UnitId :: unit_id
  rq_Addr :: u16
  rq_Quantity :: u16
  rq_IsWrite :: bool
  rq_Args :: regs

record 'ip server_env =
  se_net :: "'ip net"
  se_writes :: WritesConfig
  se_InvDriver :: bool
  se_send :: sender
  se_conv :: conv
  se_now :: int
  se_options :: EncodeOptions

record server =
  sr_banks :: "banks option"
  sr_snap :: "Snapshot option"
  sr_srv :: srv

type_synonym writer = "u16 \<Rightarrow> regs \<Rightarrow> writer_act"

definition model_writers :: "'ip server_env \<Rightarrow> Snapshot \<Rightarrow> unit_id \<Rightarrow> (u16 \<times> u16 \<times> writer) list" where
  "model_writers en s uid =
     [(ControlsModelID, ControlsBodyLen, ControlsWriter_Apply (se_conv en) (se_send en) (se_now en) s uid),
      (EnterServiceModelID, EnterServiceBodyLen, EnterServiceWriter_Apply (se_conv en) (se_send en) s uid),
      (FreqDroopModelID, FreqDroopBodyLen, FreqDroopWriter_Apply (se_conv en) (se_send en) (se_now en) s uid),
      (FreqWattCurveModelID, FreqWattCurveBodyLen,
       FreqWattCurveWriter_Apply (se_conv en) (se_send en) (se_now en) s uid)]"

text \<open>Additions of addresses wrap at 16 bits.\<close>

fun try_models :: "Bank \<Rightarrow> mb_request \<Rightarrow> (u16 \<times> u16 \<times> writer) list \<Rightarrow> srv \<Rightarrow> modbus_error option \<times> srv" where
  "try_models b rq [] w = (Some ErrIllegalDataAddress, w)"
| "try_models b rq ((mid, bodyLen, wr) # ms) w =
     (case findModelInBank b mid of
        None \<Rightarrow> try_models b rq ms w
      | Some base \<Rightarrow>
          let bodyStart = base + 2; bodyEnd = bodyStart + bodyLen
          in if rq_Addr rq < bodyStart \<or> bodyEnd < rq_Addr rq + rq_Quantity rq then try_models b rq ms w
             else (case wr (rq_Addr rq - bodyStart) (rq_Args rq) w of
                     (None, w') \<Rightarrow> (None, w')
                   | (Some e, w') \<Rightarrow> (Some ErrIllegalDataValue, w')))"

definition handleWrite :: "'ip server_env \<Rightarrow> mb_request \<Rightarrow> server \<Rightarrow> modbus_error option \<times> server" where
  "handleWrite en rq sr =
     (if \<not> AllowsWrite (se_net en) (se_writes en) (rq_ClientAddr rq) then (Some ErrIllegalFunction, sr)
      else if \<not> se_InvDriver en then (Some ErrIllegalFunction, sr)
      else case bankFor (sr_banks sr) (rq_UnitId rq) of
        None \<Rightarrow> (Some ErrIllegalDataAddress, sr)
      | Some b \<Rightarrow>
          (case sr_snap sr of
             None \<Rightarrow> (Some ErrServerDeviceFailure, sr)
           | Some s \<Rightarrow>
               (case try_models b rq (model_writers en s (rq_UnitId rq)) (sr_srv sr) of
                  (e, w') \<Rightarrow> (e, sr\<lparr> sr_srv := w' \<rparr>))))"

definition read_registers :: "server \<Rightarrow> mb_request \<Rightarrow> modbus_error + regs" where
  "read_registers sr rq =
     (case bankFor (sr_banks sr) (rq_UnitId rq) of
        None \<Rightarrow> Inl ErrIllegalDataAddress
      | Some b \<Rightarrow> if \<not> Contains b (rq_Addr rq) (rq_Quantity rq) then Inl ErrIllegalDataAddress
                  else Inr (Slice b (rq_Addr rq) (rq_Quantity rq)))"

definition HandleHoldingRegisters ::
    "'ip server_env \<Rightarrow> mb_request \<Rightarrow> server \<Rightarrow> (modbus_error + regs) \<times> server" where
  "HandleHoldingRegisters en rq sr =
     (if rq_IsWrite rq then
        (case handleWrite en rq sr of
           (None, sr') \<Rightarrow> (Inr [], sr')
         | (Some e, sr') \<Rightarrow> (Inl e, sr'))
      else (read_registers sr rq, sr))"

definition HandleInputRegisters :: "mb_request \<Rightarrow> server \<Rightarrow> modbus_error + regs" where
  "HandleInputRegisters rq sr = read_registers sr rq"

definition HandleCoils :: "mb_request \<Rightarrow> modbus_error + regs" where
  "HandleCoils rq = Inl ErrIllegalFunction"

definition HandleDiscreteInputs :: "mb_request \<Rightarrow> modbus_error + regs" where
  "HandleDiscreteInputs rq = Inl ErrIllegalFunction"

text \<open>A refresh with the snapshot the provider built; a provider that failed changes nothing.\<close>

definition set_tracker :: "write_tracker \<Rightarrow> srv \<Rightarrow> srv" where
  "set_tracker tr w = w\<lparr> sv_tracker := tr \<rparr>"

definition refresh :: "'ip server_env \<Rightarrow> int \<Rightarrow> Snapshot option \<Rightarrow> server \<Rightarrow> server" where
  "refresh en interval built sr =
     (case built of
        None \<Rightarrow> sr
      | Some s \<Rightarrow>
          let tr = PruneSettled (se_now en) interval (tracker_Reconcile (se_now en) s (sv_tracker (sr_srv sr)))
          in \<lparr> sr_banks = Some (buildBanks (se_conv en) s (se_options en) tr), sr_snap = Some s,
               sr_srv = set_tracker tr (sr_srv sr) \<rparr>)"

definition SetSnapshot :: "'ip server_env \<Rightarrow> Snapshot \<Rightarrow> server \<Rightarrow> server" where
  "SetSnapshot en s sr =
     (let tr = tracker_Reconcile (se_now en) s (sv_tracker (sr_srv sr))
      in \<lparr> sr_banks = Some (buildBanks (se_conv en) s (se_options en) tr), sr_snap = Some s,
           sr_srv = set_tracker tr (sr_srv sr) \<rparr>)"

section \<open>Refused requests change nothing\<close>

lemma try_models_inert:
  "try_models b rq ms w = (Some e, w') \<Longrightarrow> e = ErrIllegalDataValue \<or> w' = w"
  by (induction ms) (auto simp: Let_def split: option.splits if_splits prod.splits)

text \<open>
  C38: a write answered with any exception but illegal data value changes nothing: no frame, no cap,
  no timer, no tracked result.
\<close>

theorem refused_request_inert:
  assumes "handleWrite en rq sr = (Some e, sr')" and "e \<noteq> ErrIllegalDataValue"
  shows "sr' = sr"
  using assms
  by (auto simp: handleWrite_def dest: try_models_inert split: if_splits option.splits prod.splits)

theorem disallowed_never_writes:
  assumes "\<not> AllowsWrite (se_net en) (se_writes en) (rq_ClientAddr rq)"
  shows "handleWrite en rq sr = (Some ErrIllegalFunction, sr)"
  using assms by (simp add: handleWrite_def)

section \<open>Reads\<close>

text \<open>
  A read is answered exactly when the whole range lies in the unit's bank, with the bank's
  registers at that place; every other read is illegal data address.
\<close>

theorem read_exact:
  assumes "bankFor (sr_banks sr) (rq_UnitId rq) = Some b"
    and "unat (Base b) + length (Regs b) < 65536"
  shows "read_registers sr rq =
     (if 0 < rq_Quantity rq \<and> Base b \<le> rq_Addr rq \<and>
         unat (rq_Addr rq) + unat (rq_Quantity rq) \<le> unat (Base b) + length (Regs b)
      then Inr (take (unat (rq_Quantity rq)) (drop (unat (rq_Addr rq) - unat (Base b)) (Regs b)))
      else Inl ErrIllegalDataAddress)"
proof -
  let ?a = "rq_Addr rq" and ?q = "rq_Quantity rq"
  have cont: "Contains b ?a ?q \<longleftrightarrow> 0 < ?q \<and> Base b \<le> ?a \<and> unat ?a + unat ?q \<le> unat (Base b) + length (Regs b)"
    by (auto simp: Contains_def Let_def not_less word_neq_0_conv)
  have "Slice b ?a ?q = take (unat ?q) (drop (unat ?a - unat (Base b)) (Regs b))"
    if c: "Contains b ?a ?q"
  proof (rule nth_equalityI)
    have le: "unat (Base b) \<le> unat ?a" and fin: "unat ?a + unat ?q \<le> unat (Base b) + length (Regs b)"
      using c cont by (auto simp: word_le_nat_alt)
    show "length (Slice b ?a ?q) = length (take (unat ?q) (drop (unat ?a - unat (Base b)) (Regs b)))"
      using le fin by simp
    fix i
    assume "i < length (Slice b ?a ?q)"
    then have i: "i < unat ?q" by simp
    define k where "k = unat ?a - unat (Base b) + i"
    have k: "k < length (Regs b)" using le fin i by (simp add: k_def)
    have "?a + of_nat i = Base b + of_nat k"
    proof -
      have "unat (?a + of_nat i) = unat ?a + i"
        by (rule unat_offset) (use fin i assms(2) in linarith)
      moreover have "unat (Base b + of_nat k) = unat (Base b) + k"
        by (rule unat_offset) (use k assms(2) in linarith)
      ultimately show ?thesis using le by (simp add: word_unat_eq_iff k_def)
    qed
    moreover have "At b (Base b + of_nat k) = Regs b ! k"
      by (rule At_offset) (use k assms(2) in linarith)+
    ultimately show "Slice b ?a ?q ! i = take (unat ?q) (drop (unat ?a - unat (Base b)) (Regs b)) ! i"
      using i le fin by (simp add: Slice_def k_def)
  qed
  then show ?thesis using assms(1) cont by (simp add: read_registers_def)
qed

section \<open>Writes reach their model\<close>

lemma fleet_window:
  assumes "length (s_Inverters s) \<le> 254"
  shows "findModelInBank (Encode cv s opt) 123 = Some 40294"
    and "findModelInBank (Encode cv s opt) 703 = Some 40498"
    and "findModelInBank (Encode cv s opt) 711 = Some 40517"
    and "findModelInBank (Encode cv s opt) 134 = Some 40541"
proof -
  let ?m = "modelID (resolve_phase s opt)"
  have "?m = 101 \<or> ?m = 102 \<or> ?m = 103" using modelID_cases [of "resolve_phase s opt"] by simp
  then show "findModelInBank (Encode cv s opt) 123 = Some 40294"
    "findModelInBank (Encode cv s opt) 703 = Some 40498"
    "findModelInBank (Encode cv s opt) 711 = Some 40517"
    "findModelInBank (Encode cv s opt) 134 = Some 40541"
    by (auto simp: fleet_walk [OF assms] EndModelID_def fleet_layout_def Let_def control_layout_def)
qed

lemma inverter_window:
  "findModelInBank (EncodePerInverterWithProtection cv iv u opt p) 123 = Some 40262"
  by (simp add: inverter_walk EndModelID_def inverter_layout_def control_layout_def)

lemma unit_of_index_iff:
  assumes "i < 254"
  shows "unit_of_index i = u \<longleftrightarrow> unat u = 2 + i"
proof -
  have "unat (unit_of_index i) = 2 + i"
    using assms by (simp add: unit_of_index_def unat_word_ariths unat_of_nat)
  then show ?thesis by (auto simp: word_unat_eq_iff)
qed

lemma fold_enumerate:
  assumes "a + length xs \<le> 254"
  shows "fold (\<lambda>(i, x) m. m(unit_of_index i \<mapsto> f i x)) (enumerate a xs) m0 u =
     (if a + 2 \<le> unat u \<and> unat u < a + 2 + length xs
      then Some (f (unat u - 2) (xs ! (unat u - 2 - a))) else m0 u)"
  using assms
proof (induction xs arbitrary: a m0)
  case (Cons x xs)
  have iff: "u = unit_of_index a \<longleftrightarrow> unat u = 2 + a"
    using unit_of_index_iff [of a u] Cons.prems by auto
  have IH: "fold (\<lambda>(i, x) m. m(unit_of_index i \<mapsto> f i x)) (enumerate (Suc a) xs) (m0(unit_of_index a \<mapsto> f a x)) u =
     (if Suc a + 2 \<le> unat u \<and> unat u < Suc a + 2 + length xs
      then Some (f (unat u - 2) (xs ! (unat u - 2 - Suc a))) else (m0(unit_of_index a \<mapsto> f a x)) u)"
    using Cons.prems by (intro Cons.IH) simp
  have step: "fold (\<lambda>(i, x) m. m(unit_of_index i \<mapsto> f i x)) (enumerate a (x # xs)) m0 u =
      fold (\<lambda>(i, x) m. m(unit_of_index i \<mapsto> f i x)) (enumerate (Suc a) xs) (m0(unit_of_index a \<mapsto> f a x)) u"
    by simp
  consider "unat u < a + 2" | "unat u = a + 2" | "a + 2 < unat u" by linarith
  then show ?case
  proof cases
    case 3
    then have "unat u - 2 - a = Suc (unat u - 2 - Suc a)" by simp
    with 3 show ?thesis unfolding step IH using iff by simp
  qed (unfold step IH, use iff in simp_all)
qed auto

lemma unit_banks:
  assumes "length (s_Inverters s) \<le> 254"
  shows "buildBanks cv s opt tr u =
     (if 2 \<le> unat u \<and> unat u < 2 + length (s_Inverters s)
      then Some (let iv = s_Inverters s ! (unat u - 2)
             in EncodePerInverterWithProtection cv iv (ucast (unit_of_index (unat u - 2)))
                 (with_tracker opt tr) (params_of s (inv_UID iv)))
      else [1 \<mapsto> Encode cv s (with_tracker opt tr)] u)"
  using assms by (simp add: buildBanks_def Let_def fold_enumerate)

lemma unit_index_of: "2 \<le> unat u \<Longrightarrow> unit_of_index (unat u - 2) = u" for u :: unit_id
  by (simp add: unit_of_index_def)

lemma bank_of_inverter:
  assumes "length (s_Inverters s) \<le> 254" and "2 \<le> unat u" and "unat u < 2 + length (s_Inverters s)"
  shows "bankFor (Some (buildBanks cv s opt tr)) u =
     Some (let iv = s_Inverters s ! (unat u - 2)
           in EncodePerInverterWithProtection cv iv (ucast u) (with_tracker opt tr) (params_of s (inv_UID iv)))"
  using assms by (simp add: bankFor_def unit_banks unit_index_of)

text \<open>Unit 1, and a unit id without an inverter, reads the fleet bank.\<close>

lemma bank_of_fleet:
  assumes "length (s_Inverters s) \<le> 254" and "unat u < 2 \<or> length (s_Inverters s) + 2 \<le> unat u"
  shows "bankFor (Some (buildBanks cv s opt tr)) u = Some (Encode cv s (with_tracker opt tr))"
  using assms by (auto simp: bankFor_def unit_banks)

section \<open>The controls window\<close>

lemma window_addr:
  fixes a q :: u16
  assumes "lo \<le> unat a" and "unat a + unat q \<le> hi" and "hi < 65536"
  shows "\<not> a < of_nat lo" and "\<not> of_nat hi < a + q"
proof -
  have "unat (a + q) = unat a + unat q"
    using assms by (simp add: unat_word_ariths)
  moreover have "unat (of_nat hi :: u16) = hi" "unat (of_nat lo :: u16) = lo"
    using assms by (simp_all add: unat_of_nat)
  ultimately show "\<not> a < of_nat lo" and "\<not> of_nat hi < a + q"
    using assms by (simp_all add: word_less_nat_alt)
qed

text \<open>
  C10: a permitted write that lies within registers 40296 to 40319 of the fleet bank is a
  write of model 123 at the offset from 40296, carried out by the controls writer on the snapshot
  the banks were built from; its refusal becomes illegal data value.
\<close>

theorem controls_window:
  assumes "AllowsWrite (se_net en) (se_writes en) (rq_ClientAddr rq)" and "se_InvDriver en"
    and "sr_snap sr = Some s" and "sr_banks sr = Some (buildBanks cv s opt tr)"
    and "length (s_Inverters s) \<le> 254"
    and "unat (rq_UnitId rq) < 2 \<or> length (s_Inverters s) + 2 \<le> unat (rq_UnitId rq)"
    and "40296 \<le> unat (rq_Addr rq)" and "unat (rq_Addr rq) + unat (rq_Quantity rq) \<le> 40320"
  shows "handleWrite en rq sr =
     (case ControlsWriter_Apply (se_conv en) (se_send en) (se_now en) s (rq_UnitId rq)
             (rq_Addr rq - 40296) (rq_Args rq) (sr_srv sr) of
        (r, w') \<Rightarrow> (map_option (\<lambda>_. ErrIllegalDataValue) r, sr\<lparr> sr_srv := w' \<rparr>))"
proof -
  have "\<not> rq_Addr rq < 40296" "\<not> 40320 < rq_Addr rq + rq_Quantity rq"
    using window_addr [OF assms(7,8)] by simp_all
  then show ?thesis
    using assms(1-4) bank_of_fleet [OF assms(5,6)] fleet_window(1) [OF assms(5)]
    by (simp add: handleWrite_def model_writers_def ControlsModelID_def ControlsBodyLen_def Let_def
        split: prod.splits option.splits)
qed

section \<open>A server to evaluate on\<close>

text \<open>A client on the loopback address; addresses are their own texts.\<close>

definition loopback_env :: "string server_env" where
  "loopback_env =
     \<lparr> se_net = \<lparr> net_host = (\<lambda>a. a), net_parse = Some, net_loopback = (\<lambda>ip. ip = ''127.0.0.1''),
                  net_local = (\<lambda>_. False), net_cidr = (\<lambda>_. None) \<rparr>,
       se_writes = \<lparr> wc_Enabled = None, wc_AllowList = [], wc_AllowLocalNetwork = None \<rparr>,
       se_InvDriver = True, se_send = (\<lambda>_ _ _. True), se_conv = (\<lambda>_ _. 0), se_now = 0,
       se_options = plain_options \<rparr>"

definition serving :: server where
  "serving = \<lparr> sr_banks = Some (buildBanks (\<lambda>_ _. 0) ds3_fleet plain_options (\<lambda>_. None)),
               sr_snap = Some ds3_fleet, sr_srv = idle_srv \<rparr>"

definition a_request :: "string \<Rightarrow> unit_id \<Rightarrow> u16 \<Rightarrow> regs \<Rightarrow> mb_request" where
  "a_request client u a ws =
     \<lparr> rq_ClientAddr = client, rq_UnitId = u, rq_Addr = a, rq_Quantity = of_nat (length ws),
       rq_IsWrite = True, rq_Args = ws \<rparr>"

theorem refused_request_inert_witness:
  "snd (handleWrite loopback_env (a_request ''10.0.0.9'' 1 40299 [5000]) serving) = serving"
proof -
  have "handleWrite loopback_env (a_request ''10.0.0.9'' 1 40299 [5000]) serving = (Some ErrIllegalFunction, serving)"
    by (rule disallowed_never_writes) (simp add: AllowsWrite_def loopback_env_def a_request_def)
  with refused_request_inert [OF this] show ?thesis by simp
qed

theorem read_exact_witness:
  "read_registers (serving\<lparr> sr_banks := Some [1 \<mapsto> \<lparr> Regs = [21365, 28243], Base = 40000 \<rparr>] \<rparr>)
       ((a_request ''127.0.0.1'' 1 40000 [])\<lparr> rq_Quantity := 2 \<rparr>)
     = Inr [21365, 28243]"
  by (subst read_exact [where b = "\<lparr> Regs = [21365, 28243], Base = 40000 \<rparr>"])
     (simp_all add: bankFor_def a_request_def serving_def)

theorem controls_window_witness:
  "handleWrite loopback_env (a_request ''127.0.0.1'' 1 40299 [5000]) serving =
     (case ControlsWriter_Apply (\<lambda>_ _. 0) (\<lambda>_ _ _. True) 0 ds3_fleet 1 3 [5000] idle_srv of
        (r, w') \<Rightarrow> (map_option (\<lambda>_. ErrIllegalDataValue) r, serving\<lparr> sr_srv := w' \<rparr>))"
proof -
  have "AllowsWrite (se_net loopback_env) (se_writes loopback_env) ''127.0.0.1''"
    by (simp add: AllowsWrite_def loopback_env_def IsEnabled_def)
  then show ?thesis
    using controls_window [of loopback_env "a_request ''127.0.0.1'' 1 40299 [5000]" serving ds3_fleet
        "\<lambda>_ _. 0" plain_options "\<lambda>_. None"]
    by (simp add: a_request_def serving_def loopback_env_def ds3_fleet_def)
qed

end
