(* ===== verification/SunReverter.thy ===== *)
theory SunReverter
  imports SunWriters
begin

text \<open>
  The reversion timers as the runtime runs them (\<open>server/reverter.go\<close>): a timer expires, its callback
  starts, takes the lock, removes its unit's entry from the map and then restores the targets one
  by one, all of it interleaved with the operations of other goroutines.  As long as no callback
  finds its entry replaced, every live timer is the one the map names, so \<open>Cancel\<close> stops it; a
  callback that lost the race to a new \<open>Schedule\<close> removes the new timer's entry and leaves it
  running out of reach.
\<close>

section \<open>Steps\<close>

text \<open>
  \<open>rs_started\<close>: callbacks before the lock; \<open>rs_restoring\<close>: targets still to be restored, by callback;
  \<open>rs_restored\<close>: what was handed to the radio.  \<open>rs_stale\<close> counts callbacks that found another timer's
  entry, and \<open>rs_asked\<close> remembers the targets of every timer ever armed; both are for the proofs.
\<close>

record rstate =
  rs_now :: int
  rs_rv :: reverter
  rs_started :: "timer list"
  rs_restoring :: "revert_target list list"
  rs_restored :: "revert_target list"
  rs_stale :: nat
  rs_asked :: "revert_target list"

definition rinit :: rstate where
  "rinit = \<lparr> rs_now = 0, rs_rv = \<lparr> rv_map = (\<lambda>_. None), rv_armed = [], rv_count = 0 \<rparr>,
             rs_started = [], rs_restoring = [], rs_restored = [], rs_stale = 0, rs_asked = [] \<rparr>"

inductive rv_step :: "rstate \<Rightarrow> rstate \<Rightarrow> bool" where
  clock: "0 \<le> d \<Longrightarrow> rv_step st (st\<lparr> rs_now := rs_now st + d \<rparr>)"
| schedule: "rv_step st (st\<lparr> rs_rv := Schedule (rs_now st) uid after targets (rs_rv st),
                             rs_asked := rs_asked st @ targets \<rparr>)"
| cancel: "rv_step st (st\<lparr> rs_rv := Cancel uid (rs_rv st) \<rparr>)"
| stop: "rv_step st (st\<lparr> rs_rv := StopAll (rs_rv st) \<rparr>)"
| expire: "rv_armed (rs_rv st) = xs @ t # ys \<Longrightarrow> tm_due t \<le> rs_now st \<Longrightarrow>
    rv_step st (st\<lparr> rs_rv := (rs_rv st)\<lparr> rv_armed := xs @ ys \<rparr>, rs_started := rs_started st @ [t] \<rparr>)"
| lock: "rs_started st = xs @ t # ys \<Longrightarrow>
    rv_step st (st\<lparr> rs_rv := (rs_rv st)\<lparr> rv_map := (rv_map (rs_rv st))(tm_uid t := None) \<rparr>,
                   rs_started := xs @ ys, rs_restoring := rs_restoring st @ [tm_targets t],
                   rs_stale := rs_stale st +
                     (if rv_map (rs_rv st) (tm_uid t) \<notin> {None, Some (tm_id t)} then 1 else 0) \<rparr>)"
| restore: "rs_restoring st = xs @ (tgt # tgts) # ys \<Longrightarrow>
    rv_step st (st\<lparr> rs_restoring := xs @ tgts # ys,
                   rs_restored := (if sent then rs_restored st @ [tgt] else rs_restored st) \<rparr>)"

inductive rv_reachable :: "rstate \<Rightarrow> bool" where
  start: "rv_reachable rinit"
| step: "rv_reachable st \<Longrightarrow> rv_step st st' \<Longrightarrow> rv_reachable st'"

inductive_cases rv_stepE: "rv_step st st'"

section \<open>Live timers are in the map\<close>

lemma Cancel_map: "rv_map (Cancel uid r) = (rv_map r)(uid := None)"
  by (auto simp: Cancel_def split: option.split)

lemma Cancel_armed:
  "rv_armed (Cancel uid r) =
     (case rv_map r uid of None \<Rightarrow> rv_armed r | Some i \<Rightarrow> filter (\<lambda>t. tm_id t \<noteq> i) (rv_armed r))"
  by (simp add: Cancel_def stop_timer_def split: option.split)

lemma Cancel_count [simp]: "rv_count (Cancel uid r) = rv_count r"
  by (simp add: Cancel_def stop_timer_def split: option.split)

lemma Cancel_sub: "set (rv_armed (Cancel uid r)) \<subseteq> set (rv_armed r)"
  by (auto simp: Cancel_armed split: option.splits)

definition live_map :: "reverter \<Rightarrow> bool" where
  "live_map r \<longleftrightarrow> (\<forall>t \<in> set (rv_armed r). rv_map r (tm_uid t) = Some (tm_id t))"

lemma live_map_Cancel:
  assumes "live_map r"
  shows "live_map (Cancel uid r)" and "\<forall>t \<in> set (rv_armed (Cancel uid r)). tm_uid t \<noteq> uid"
proof -
  have no: "tm_uid t \<noteq> uid" if t: "t \<in> set (rv_armed (Cancel uid r))" for t
  proof
    assume u: "tm_uid t = uid"
    have "t \<in> set (rv_armed r)" using t Cancel_sub by blast
    then have "rv_map r uid = Some (tm_id t)" using assms u by (auto simp: live_map_def)
    then show False using t by (simp add: Cancel_armed)
  qed
  then show "\<forall>t \<in> set (rv_armed (Cancel uid r)). tm_uid t \<noteq> uid" by blast
  show "live_map (Cancel uid r)"
    using no assms Cancel_sub [of uid r] by (auto simp: live_map_def Cancel_map)
qed

lemma live_map_Schedule: "live_map r \<Longrightarrow> live_map (Schedule now uid after targets r)"
  using live_map_Cancel [of r uid] by (auto simp: Schedule_def Let_def live_map_def)

lemma live_map_StopAll: "live_map r \<Longrightarrow> rv_armed (StopAll r) = []"
  by (auto simp: StopAll_def live_map_def filter_empty_conv ran_def)

text \<open>What a lock step may find: the entry of its own timer, none, or one that makes it stale.\<close>

lemma live_map_lock:
  assumes "live_map r" and "rv_map r (tm_uid t) \<in> {None, Some (tm_id t)}"
    and "tm_id t \<notin> tm_id ` set (rv_armed r)"
  shows "live_map (r\<lparr> rv_map := (rv_map r)(tm_uid t := None) \<rparr>)"
  using assms by (force simp: live_map_def)

definition ids_ok :: "rstate \<Rightarrow> bool" where
  "ids_ok st \<longleftrightarrow>
     distinct (map tm_id (rv_armed (rs_rv st) @ rs_started st)) \<and>
     (\<forall>t \<in> set (rv_armed (rs_rv st) @ rs_started st). tm_id t < rv_count (rs_rv st))"

lemma distinct_map_filter_append:
  "distinct (map f (xs @ ys)) \<Longrightarrow> distinct (map f (filter P xs @ ys))"
  by (auto simp: distinct_map_filter)

lemma ids_ok_Cancel: "ids_ok st \<Longrightarrow> ids_ok (st\<lparr> rs_rv := Cancel uid (rs_rv st) \<rparr>)"
  by (auto simp: ids_ok_def Cancel_armed distinct_map_filter split: option.splits)

lemma ids_ok_step:
  assumes "ids_ok st" and "rv_step st st'"
  shows "ids_ok st'"
  using assms(2)
proof cases
  case (schedule targets uid aft)
  have c: "ids_ok (st\<lparr> rs_rv := Cancel uid (rs_rv st) \<rparr>)" by (rule ids_ok_Cancel [OF assms(1)])
  then show ?thesis
    unfolding schedule by (force simp: ids_ok_def Schedule_def Let_def)
next
  case (cancel uid)
  then show ?thesis using ids_ok_Cancel [OF assms(1)] by simp
next
  case stop
  then show ?thesis using assms(1) by (auto simp: ids_ok_def StopAll_def distinct_map_filter)
qed (use assms(1) in \<open>auto simp: ids_ok_def\<close>)

lemma reachable_ids: "rv_reachable st \<Longrightarrow> ids_ok st"
proof (induction rule: rv_reachable.induct)
  case start
  then show ?case by (simp add: ids_ok_def rinit_def)
next
  case (step st st')
  then show ?case by (blast intro: ids_ok_step)
qed

lemma stale_mono: "rv_step st st' \<Longrightarrow> rs_stale st \<le> rs_stale st'"
  by (auto elim: rv_stepE)

lemma live_step:
  assumes "live_map (rs_rv st)" and "ids_ok st" and "rv_step st st'" and "rs_stale st' = 0"
  shows "live_map (rs_rv st')"
  using assms(3)
proof cases
  case (schedule targets uid aft)
  then show ?thesis using live_map_Schedule [OF assms(1)] by simp
next
  case (cancel uid)
  then show ?thesis using live_map_Cancel(1) [OF assms(1)] by simp
next
  case stop
  then show ?thesis using live_map_StopAll [OF assms(1)] by (simp add: live_map_def)
next
  case (expire xs t ys)
  then show ?thesis using assms(1) by (auto simp: live_map_def)
next
  case (lock xs t ys)
  have "rv_map (rs_rv st) (tm_uid t) \<in> {None, Some (tm_id t)}"
    using lock assms(4) by (auto split: if_splits)
  moreover have "tm_id t \<notin> tm_id ` set (rv_armed (rs_rv st))"
    using assms(2) lock(2) by (auto simp: ids_ok_def)
  ultimately have "live_map ((rs_rv st)\<lparr> rv_map := (rv_map (rs_rv st))(tm_uid t := None) \<rparr>)"
    by (rule live_map_lock [OF assms(1)])
  then show ?thesis using lock by simp
qed (use assms(1) in simp_all)

lemma reachable_live: "rv_reachable st \<Longrightarrow> rs_stale st = 0 \<Longrightarrow> live_map (rs_rv st)"
proof (induction rule: rv_reachable.induct)
  case start
  then show ?case by (simp add: live_map_def rinit_def)
next
  case (step st st')
  then have "rs_stale st = 0" using stale_mono [of st st'] by simp
  then show ?case using step live_step reachable_ids by blast
qed

text \<open>
  C24: as long as no callback has found the entry of another timer in the map, cancelling a unit
  leaves no armed timer for it, in every interleaving of schedules, cancels, expiries and
  callbacks.
\<close>

theorem cancel_stops_timer:
  assumes "rv_reachable st" and "rs_stale st = 0"
  shows "t \<in> set (rv_armed (Cancel uid (rs_rv st))) \<Longrightarrow> tm_uid t \<noteq> uid"
  using live_map_Cancel(2) [OF reachable_live [OF assms]] by blast

theorem cancel_stops_timer_witness:
  "\<forall>t. t \<in> set (rv_armed (Cancel 2 (Schedule 0 2 120 [(''a'', 0x20)] (rs_rv rinit)))) \<and> tm_uid t = 2 \<longleftrightarrow> False"
proof -
  have "rv_reachable (rinit\<lparr> rs_rv := Schedule (rs_now rinit) 2 120 [(''a'', 0x20)] (rs_rv rinit),
                             rs_asked := rs_asked rinit @ [(''a'', 0x20)] \<rparr>)"
    by (rule rv_reachable.step [OF rv_reachable.start]) (rule rv_step.schedule)
  from cancel_stops_timer [OF this] show ?thesis by (auto simp: rinit_def)
qed

section \<open>Only what was scheduled is restored\<close>

definition asked_ok :: "rstate \<Rightarrow> bool" where
  "asked_ok st \<longleftrightarrow>
     (\<forall>t \<in> set (rv_armed (rs_rv st)) \<union> set (rs_started st). set (tm_targets t) \<subseteq> set (rs_asked st)) \<and>
     \<Union> (set ` set (rs_restoring st)) \<subseteq> set (rs_asked st) \<and> set (rs_restored st) \<subseteq> set (rs_asked st)"

lemma asked_step:
  assumes "asked_ok st" and "rv_step st st'"
  shows "asked_ok st'"
  using assms(2)
proof cases
  case (schedule targets uid aft)
  have "set (tm_targets t) \<subseteq> set (rs_asked st) \<union> set targets"
    if "t \<in> set (rv_armed (Schedule (rs_now st) uid aft targets (rs_rv st)))" for t
    using that assms(1) Cancel_sub [of uid "rs_rv st"]
    by (auto simp: Schedule_def Let_def asked_ok_def split: if_splits)
  then show ?thesis using assms(1) unfolding schedule asked_ok_def by auto
next
  case (cancel uid)
  then show ?thesis using assms(1) Cancel_sub [of uid "rs_rv st"] by (auto simp: asked_ok_def)
next
  case stop
  then show ?thesis using assms(1) by (auto simp: asked_ok_def StopAll_def)
next
  case (lock xs t ys)
  then show ?thesis using assms(1) by (auto simp: asked_ok_def)
next
  case (restore xs tgt tgts ys sent)
  then show ?thesis using assms(1) by (auto simp: asked_ok_def)
qed (use assms(1) in \<open>auto simp: asked_ok_def\<close>)

theorem restores_were_scheduled:
  assumes "rv_reachable st"
  shows "set (rs_restored st) \<subseteq> set (rs_asked st)"
proof -
  have "asked_ok st"
    using assms
  proof (induction rule: rv_reachable.induct)
    case start
    then show ?case by (simp add: asked_ok_def rinit_def)
  next
    case (step st st')
    then show ?case by (blast intro: asked_step)
  qed
  then show ?thesis by (simp add: asked_ok_def)
qed

section \<open>The race\<close>

text \<open>
  C37: a controller refreshes its cap at the moment the old timer fires: the callback has started, the
  refresh schedules a new timer, the callback takes the lock.  The controller then turns the
  reversion off; the new timer stays armed, and in time restores full power.
\<close>

theorem stale_callback_orphans_timer:
  "\<exists>st. rv_reachable st \<and> \<not> pending 2 (rs_rv st) \<and>
     rv_armed (Cancel 2 (rs_rv st)) \<noteq> [] \<and> tm_uid (hd (rv_armed (Cancel 2 (rs_rv st)))) = 2"
proof -
  let ?a = "rinit\<lparr> rs_rv := Schedule (rs_now rinit) 2 120 [(''a'', 0x20)] (rs_rv rinit),
                   rs_asked := rs_asked rinit @ [(''a'', 0x20)] \<rparr>"
  let ?b = "?a\<lparr> rs_now := rs_now ?a + 120 \<rparr>"
  let ?t = "\<lparr> tm_id = 0, tm_uid = 2, tm_due = 120, tm_targets = [(''a'', 0x20)] \<rparr>"
  let ?c = "?b\<lparr> rs_rv := (rs_rv ?b)\<lparr> rv_armed := [] \<rparr>, rs_started := rs_started ?b @ [?t] \<rparr>"
  let ?d = "?c\<lparr> rs_rv := Schedule (rs_now ?c) 2 120 [(''a'', 0x20)] (rs_rv ?c),
                rs_asked := rs_asked ?c @ [(''a'', 0x20)] \<rparr>"
  let ?e = "?d\<lparr> rs_rv := (rs_rv ?d)\<lparr> rv_map := (rv_map (rs_rv ?d))(tm_uid ?t := None) \<rparr>,
                rs_started := [], rs_restoring := rs_restoring ?d @ [tm_targets ?t],
                rs_stale := rs_stale ?d + (if rv_map (rs_rv ?d) (tm_uid ?t) \<notin> {None, Some (tm_id ?t)} then 1 else 0) \<rparr>"
  have a: "rv_reachable ?a" by (rule rv_reachable.step [OF rv_reachable.start]) (rule rv_step.schedule)
  have b: "rv_reachable ?b" by (rule rv_reachable.step [OF a]) (rule rv_step.clock, simp)
  have armed: "rv_armed (rs_rv ?b) = [] @ ?t # []" "tm_due ?t \<le> rs_now ?b"
    by (simp_all add: Schedule_def Cancel_def rinit_def Let_def)
  have c: "rv_reachable ?c" using rv_reachable.step [OF b rv_step.expire [OF armed]] by simp
  have d: "rv_reachable ?d" by (rule rv_reachable.step [OF c]) (rule rv_step.schedule)
  have started: "rs_started ?d = [] @ ?t # []" by (simp add: rinit_def)
  have e: "rv_reachable ?e" using rv_reachable.step [OF d rv_step.lock [OF started]] by simp
  moreover have "\<not> pending 2 (rs_rv ?e)" by (simp add: pending_def)
  moreover have "rv_armed (Cancel 2 (rs_rv ?e)) = [\<lparr> tm_id = 1, tm_uid = 2, tm_due = 240, tm_targets = [(''a'', 0x20)] \<rparr>]"
    by (simp add: Schedule_def Cancel_def stop_timer_def rinit_def Let_def)
  ultimately show ?thesis by (intro exI [of _ ?e]) simp
qed

end
