(* ===== verification/Spec2Isabelle.thy ===== *)
theory Spec2Isabelle
  imports Status ProtectionRead SetPower Telemetry InfoPair AesL1 ModemFrames Watchdog BusLock BusTracker BusClient
    PairTransport PairWitness GridConfirm GridReplace GridApply SunServer SunReverter
begin

text \<open>
  Verification development for the openaps gateway: the Go services that let an APsystems ECU run
  without its vendor firmware.  A gateway process (\<open>cmd/ecu-zb\<close>) owns the radio module and speaks
  the inverters' protocol; a driver process (\<open>cmd/inv-driver\<close>) decides what to send and keeps the
  inventory; they exchange envelopes over a local socket.  The development models the parts that
  carry the protocol and its safety: the frame codecs (\<open>codec\<close>), the radio module
  (\<open>internal/zigbee/modem\<close>), the bus tracker and the gate for driver commands
  (\<open>internal/zigbee/proxy\<close>, \<open>busmgr\<close>), the guard that keeps operations apart (\<open>internal/buslock\<close>)
  and over-the-air pairing on both sides of the socket (\<open>internal/pairing\<close>,
  \<open>cmd/ecu-zb/pairing.go\<close>).

  \<^bold>\<open>Shared vocabulary.\<close>  \<open>Prelude\<close>: bytes and machine words and the lemma collections.
  \<open>GoFloat\<close>: the float64 arithmetic the codecs use (rounding to nearest even, comparisons with NaN,
  conversions); a conversion whose result Go leaves open is a parameter.  \<open>Aes128\<close>: the block
  cipher, which the code takes from Go's library.  \<open>Flow\<close>: weakest preconditions for programs in
  the library's state monad and the logs of scripts that run to their end or stop on the way.

  \<^bold>\<open>Codecs.\<close>  \<open>Frame\<close> (\<open>codec/l2.go\<close>, \<open>codec.go\<close>, \<open>opcodes.go\<close>): L2 frames, the L1 reply envelope.
  \<open>Family\<close> (\<open>family.go\<close>, \<open>nameplate.go\<close>, model codes of \<open>info.go\<close>).  \<open>SetPower\<close> (\<open>setpower.go\<close>,
  \<open>onoff.go\<close>, \<open>limits.go\<close>, \<open>yc600.go\<close>): power caps and switching; encode and decode are inverse.
  \<open>Protection\<close> (\<open>protection.go\<close> and the writers of \<open>ds3.go\<close>, \<open>qs1a.go\<close>): grid-protection writes and
  their safety envelope.  \<open>ProtectionRead\<close> (\<open>protection_read.go\<close> and the readers): what a read-back
  means, in any order of pages, and that written thresholds read back.  \<open>Status\<close>
  (\<open>extended_status.go\<close>, status bits of \<open>ds3.go\<close>, \<open>qs1a.go\<close>): the register layout and its other
  view.  \<open>Telemetry\<close> (the reply decoders of the four generations): decoded replies are well formed
  whatever arrives.  \<open>InfoPair\<close> (\<open>info.go\<close>, \<open>pair.go\<close>).  \<open>AesL1\<close> (\<open>aes.go\<close>): on-air encryption
  round trips.

  \<^bold>\<open>Gateway.\<close>  \<open>ModemFrames\<close> (\<open>modem/frame.go\<close>, \<open>pairing.go\<close>, \<open>config.go\<close>, \<open>settings.go\<close>): the
  module's configuration frames and their CRC.  \<open>Watchdog\<close> (\<open>modem/watchdog.go\<close>): the loop that
  resets a silent module, as a step relation; resets keep their distance.  \<open>BusTracker\<close>
  (\<open>proxy/poll.go\<close>): the table of pending queries refines one queue per address; a reply in pieces
  comes out once and whole; host traffic is untouched.  \<open>BusClient\<close> (\<open>busmgr/client.go\<close>, \<open>l1.go\<close>,
  \<open>publisher.go\<close>, \<open>inventory/map.go\<close>): the gate for driver commands and what it lets through; its
  proofs meet the codecs, since every frame they build passes.  \<open>PairExec\<close>
  (\<open>modem/pairing_runner_linux.go\<close>, \<open>cmd/ecu-zb/pairing.go\<close>, \<open>busmgr/pairing.go\<close>): the pairing
  primitives and the adapter that owns the operating PAN, whose contract is the locale
  \<open>radio_owner\<close>.

  \<^bold>\<open>Driver.\<close>  \<open>BusLock\<close> (\<open>buslock.go\<close>): the guard as an interleaving of threads, with the locale
  \<open>acquirer\<close> for the ways to take it; at most one holder, a polite holder yields.  \<open>Pairing\<close>,
  \<open>PairFlows\<close>, \<open>PairFleet\<close> (\<open>internal/pairing\<close>): status, transport primitives and the flows that
  scan, add, replace, rekey, change channel and remove, as state-monad programs that log every
  effect in order.  \<open>PairTransport\<close> (\<open>transport.go\<close>): replies are matched to calls in every
  interleaving.  \<open>PairProofs\<close>: the exact commands of every flow and where it can stop.
  \<open>PairInvariants\<close>: the locales \<open>quiet_relation\<close> and \<open>command_relation\<close>, which carry a relation from
  single commands to whole operations; both are interpreted in \<open>PairSystem\<close>, which puts the flows on
  the gateway over a link that loses commands and replies, and shows what the driver then knows
  of the gateway's PAN and that every operation ends.  \<open>PairWitness\<close>: the same on concrete worlds.

  \<^bold>\<open>Conventions.\<close>  Go errors are values of sums or options that keep the identity of the sentinel,
  not the text; a formatted status text is its format and arguments.  Maps are functions to option,
  channels are lists, critical sections are single steps.  Files, clocks, randomness, the radio and
  the operator are arguments.  Log output and pure delays are left out.

  \<^bold>\<open>Bounds.\<close>  The only fuel is that of the channel sweep: seventeen rounds are enough on the gateway
  (\<open>operations_end\<close>), since it refuses channels outside 11 to 26.  Request ids are 64 bits wide and
  the correlation result is for fewer calls than that.  The backoff of the watchdog is computed
  with the wrap-around of a 64-bit duration.

  \<^bold>\<open>Not modelled.\<close>  The pty and serial plumbing (\<open>proxy/splice.go\<close>, \<open>uart\<close>, \<open>tap\<close>) and module bring-up,
  which are system calls; the generated wire messages and their socket framing; the store, whose
  logic is SQL; the HTTP, Modbus and TLS front ends; the process entry points, which wire the parts
  together; build and packaging tools.
\<close>

end
